(* ===== verification/Prelude.thy ===== *)
theory Prelude
  imports Main "HOL-Library.Word" "HOL-Library.AList"
begin

text \<open>
  Shared vocabulary of the development: the Go base types, the errors the program returns,
  the functions of the Go standard library package strings that the sources call, and the
  collections of hints the component theories use.

  A Go string or byte slice is a list of bytes (the HOL type string), a Go int is an integer
  with the 64-bit wrap-around written out where a sum can leave the range, an uuid is a
  128-bit word, and an instant or a duration is a number of nanoseconds.
\<close>

named_theorems go_defs \<open>unfolding of the small Go library functions\<close>
named_theorems err_simps \<open>elimination and computation facts for results\<close>

type_synonym bytes = string
type_synonym uuid = "128 word"
type_synonym time = int
type_synonym duration = int

section \<open>Errors and results\<close>

text \<open>The sentinel errors of the program, and the wrapping done by the percent-w verb of
  Errorf. ErrDB stands for an error the database driver reports, ErrJSON and ErrJSONType for
  the syntax and the type errors of encoding/json.\<close>

datatype err =
    ErrAPIKeyNotFound | ErrProxyKeyNotFoundRepo | ErrProviderMappingNotFound
  | ErrClaudeSessionNotFound | ErrClaudeRequestDetailNotFound | ErrMetadataKeyNotFound
  | ErrProviderKeyNotFound | ErrReplayRunNotFound | ErrReplayResultNotFound
  | ErrEvalSetNotFound | ErrEvalRunNotFound | ErrEvalResultNotFound
  | ErrInvalidAPIKey | ErrAPIKeyRevoked | ErrAPIKeyInactive
  | ErrProxyKeyNotFound | ErrProxyKeyRevoked | ErrProxyKeyInactive | ErrProxyKeyWrongOwner
  | ErrNoProviderMapping | ErrInvalidTokenFormat | ErrButlerValidation | ErrNoActiveSession
  | ErrDB | ErrJSON | ErrJSONType
  | ErrMsg string | ErrWrap string err | ErrBoth err err

fun errors_is :: "err \<Rightarrow> err \<Rightarrow> bool" where
  "errors_is (ErrWrap s e) t = (ErrWrap s e = t \<or> errors_is e t)"
| "errors_is (ErrBoth e e') t = (ErrBoth e e' = t \<or> errors_is e t \<or> errors_is e' t)"
| "errors_is e t = (e = t)"

text \<open>A call that can return, fail with an error value, or panic at run time.\<close>

datatype 'a outcome = Ret 'a | Fail err | Panic string

definition is_Inl :: "'a + 'b \<Rightarrow> bool" where
  "is_Inl r = (case r of Inl _ \<Rightarrow> True | Inr _ \<Rightarrow> False)"

lemma is_Inl_simps [simp]: "is_Inl (Inl e)" "\<not> is_Inl (Inr v)"
  by (simp_all add: is_Inl_def)

section \<open>Machine integers\<close>

text \<open>A Go int has 64 bits and wraps.\<close>

definition wrap64 :: "int \<Rightarrow> int" where
  "wrap64 x = (x + 2 ^ 63) mod 2 ^ 64 - 2 ^ 63"

definition in_int64 :: "int \<Rightarrow> bool" where
  "in_int64 x = (- (2 ^ 63) \<le> x \<and> x < 2 ^ 63)"

lemma wrap64_id [simp]: "in_int64 x \<Longrightarrow> wrap64 x = x"
  by (simp add: wrap64_def in_int64_def)

lemma wrap64_range: "in_int64 (wrap64 x)"
proof -
  have "0 \<le> (x + 2 ^ 63) mod 2 ^ 64" "(x + 2 ^ 63) mod 2 ^ 64 < (2 ^ 64 :: int)"
    by simp_all
  then show ?thesis unfolding wrap64_def in_int64_def by simp
qed

lemma wrap64_wrap64 [simp]: "wrap64 (wrap64 x) = wrap64 x"
  by (rule wrap64_id) (rule wrap64_range)

lemma wrap64_cong: "wrap64 x = wrap64 y \<longleftrightarrow> x mod 2 ^ 64 = y mod 2 ^ 64"
  by (simp add: wrap64_def mod_eq_dvd_iff)

lemma wrap64_add_left [simp]: "wrap64 (wrap64 x + y) = wrap64 (x + y)"
proof -
  have "(wrap64 x + y) mod 2 ^ 64 = (x + y) mod 2 ^ 64"
  proof -
    have "wrap64 x mod 2 ^ 64 = x mod 2 ^ 64"
      unfolding wrap64_def by (simp add: mod_diff_left_eq)
    then show ?thesis by (metis mod_add_left_eq)
  qed
  then show ?thesis by (simp only: wrap64_cong)
qed

section \<open>Functions of the package strings\<close>

fun has_prefix :: "'a list \<Rightarrow> 'a list \<Rightarrow> bool" where
  "has_prefix s [] = True"
| "has_prefix [] (p # ps) = False"
| "has_prefix (c # cs) (p # ps) = (c = p \<and> has_prefix cs ps)"

definition has_suffix :: "'a list \<Rightarrow> 'a list \<Rightarrow> bool" where
  "has_suffix s p = has_prefix (rev s) (rev p)"

definition trim_prefix :: "'a list \<Rightarrow> 'a list \<Rightarrow> 'a list" where
  "trim_prefix s p = (if has_prefix s p then drop (length p) s else s)"

definition trim_suffix :: "'a list \<Rightarrow> 'a list \<Rightarrow> 'a list" where
  "trim_suffix s p = (if has_suffix s p then take (length s - length p) s else s)"

fun contains_str :: "'a list \<Rightarrow> 'a list \<Rightarrow> bool" where
  "contains_str [] p = (p = [])"
| "contains_str (c # cs) p = (has_prefix (c # cs) p \<or> contains_str cs p)"

text \<open>Index and LastIndex: the first and the last position at which p occurs in s, none for -1.\<close>

fun index_str :: "'a list \<Rightarrow> 'a list \<Rightarrow> nat option" where
  "index_str [] p = (if p = [] then Some 0 else None)"
| "index_str (c # cs) p =
     (if has_prefix (c # cs) p then Some 0 else map_option Suc (index_str cs p))"

fun last_index :: "'a list \<Rightarrow> 'a list \<Rightarrow> nat option" where
  "last_index [] p = (if p = [] then Some 0 else None)"
| "last_index (c # cs) p =
     (case last_index cs p of
        Some i \<Rightarrow> Some (Suc i)
      | None \<Rightarrow> if has_prefix (c # cs) p then Some 0 else None)"

text \<open>SplitN with limit 2, as used for names and headers; Split on one byte.\<close>

fun split_byte :: "'a \<Rightarrow> 'a list \<Rightarrow> 'a list list" where
  "split_byte b [] = [[]]"
| "split_byte b (c # cs) =
     (if c = b then [] # split_byte b cs
      else (case split_byte b cs of [] \<Rightarrow> [[c]] | w # ws \<Rightarrow> (c # w) # ws))"

definition lower_byte :: "char \<Rightarrow> char" where
  "lower_byte c = (if 65 \<le> (of_char c :: nat) \<and> (of_char c :: nat) \<le> 90
                   then char_of ((of_char c :: nat) + 32) else c)"

definition upper_byte :: "char \<Rightarrow> char" where
  "upper_byte c = (if 97 \<le> (of_char c :: nat) \<and> (of_char c :: nat) \<le> 122
                   then char_of ((of_char c :: nat) - 32) else c)"

text \<open>ToLower on the bytes of a UTF-8 string. Apart from the ASCII letters, two code points
  have an ASCII lower case: U+0130 (i) and U+212A (k). The lower case of every other code point
  is outside ASCII; those are left as they are, which the sources cannot tell apart since they
  only compare the result with ASCII text.\<close>

fun to_lower :: "string \<Rightarrow> string" where
  "to_lower (c # d # e # cs) =
     (if c = CHR 0xE2 \<and> d = CHR 0x84 \<and> e = CHR 0xAA then CHR ''k'' # to_lower cs
      else if c = CHR 0xC4 \<and> d = CHR 0xB0 then CHR ''i'' # to_lower (e # cs)
      else lower_byte c # to_lower (d # e # cs))"
| "to_lower [c, d] = (if c = CHR 0xC4 \<and> d = CHR 0xB0 then [CHR ''i''] else [lower_byte c, lower_byte d])"
| "to_lower [c] = [lower_byte c]"
| "to_lower [] = []"

definition is_ascii_space :: "char \<Rightarrow> bool" where
  "is_ascii_space c = (c \<in> set [CHR 0x20, CHR 0x09, CHR 0x0A, CHR 0x0B, CHR 0x0C, CHR 0x0D])"

definition trim_left_set :: "'a list \<Rightarrow> 'a list \<Rightarrow> 'a list" where
  "trim_left_set cutset s = dropWhile (\<lambda>c. c \<in> set cutset) s"

definition is_ascii :: "string \<Rightarrow> bool" where
  "is_ascii s = list_all (\<lambda>c. (of_char c :: nat) < 128) s"

subsection \<open>Facts about them\<close>

lemma has_prefix_iff: "has_prefix s p \<longleftrightarrow> (\<exists>r. s = p @ r)"
  by (induction s p rule: has_prefix.induct) auto

lemma has_prefix_append [simp]: "has_prefix (p @ r) p"
  by (simp add: has_prefix_iff)

lemma has_prefix_refl [simp]: "has_prefix p p"
  by (simp add: has_prefix_iff)

lemma has_prefix_length: "has_prefix s p \<Longrightarrow> length p \<le> length s"
  by (auto simp: has_prefix_iff)

lemma has_prefixE [elim]:
  assumes "has_prefix s p" obtains r where "s = p @ r"
  using assms by (auto simp: has_prefix_iff)

lemma has_suffix_iff: "has_suffix s p \<longleftrightarrow> (\<exists>r. s = r @ p)"
proof
  assume "has_suffix s p"
  then obtain r where "rev s = rev p @ r" by (auto simp: has_suffix_def)
  then have "s = rev r @ p" by (metis rev_append rev_rev_ident)
  then show "\<exists>r. s = r @ p" ..
next
  assume "\<exists>r. s = r @ p"
  then show "has_suffix s p" by (auto simp: has_suffix_def)
qed

lemma has_suffix_append [simp]: "has_suffix (r @ p) p"
  by (auto simp: has_suffix_iff)

lemma trim_prefix_append [simp]: "trim_prefix (p @ r) p = r"
  by (simp add: trim_prefix_def)

lemma trim_suffix_append [simp]: "trim_suffix (r @ p) p = r"
  by (simp add: trim_suffix_def)

lemma contains_str_iff: "contains_str s p \<longleftrightarrow> (\<exists>l r. s = l @ p @ r)"
proof (induction s)
  case Nil
  then show ?case by auto
next
  case (Cons c cs)
  show ?case
  proof
    assume "contains_str (c # cs) p"
    then consider "has_prefix (c # cs) p" | "contains_str cs p" by auto
    then show "\<exists>l r. c # cs = l @ p @ r"
    proof cases
      case 1
      then show ?thesis by (metis has_prefix_iff append_Nil)
    next
      case 2
      then show ?thesis using Cons.IH by (metis append_Cons)
    qed
  next
    assume "\<exists>l r. c # cs = l @ p @ r"
    then obtain l r where *: "c # cs = l @ p @ r" by blast
    show "contains_str (c # cs) p"
    proof (cases l)
      case Nil
      then have "has_prefix (c # cs) p" using * by simp
      then show ?thesis by simp
    next
      case (Cons a l')
      then show ?thesis using * Cons.IH by auto
    qed
  qed
qed

lemma index_str_split: "index_str s p = Some i \<Longrightarrow> \<exists>r. s = take i s @ p @ r"
proof (induction s arbitrary: i)
  case (Cons c cs)
  show ?case
  proof (cases "has_prefix (c # cs) p")
    case True
    then show ?thesis using Cons.prems by (auto simp: has_prefix_iff)
  next
    case False
    then show ?thesis using Cons by auto
  qed
qed (auto split: if_splits)

lemma last_index_split: "last_index s p = Some i \<Longrightarrow> \<exists>r. s = take i s @ p @ r"
proof (induction s arbitrary: i)
  case (Cons c cs)
  then show ?case by (auto split: option.splits if_splits simp: has_prefix_iff)
qed (auto split: if_splits)

lemma last_index_bound: "last_index s p = Some i \<Longrightarrow> i + length p \<le> length s"
proof (induction s arbitrary: i)
  case (Cons c cs)
  then show ?case
    by (auto split: option.splits if_splits dest: has_prefix_length)
qed (auto split: if_splits)

text \<open>The last occurrence of a non-empty suffix is the suffix itself.\<close>

lemma last_index_suffix:
  "p \<noteq> [] \<Longrightarrow> last_index (s @ p) p = Some (length s)"
proof (induction s)
  case Nil
  have "last_index (tl p) p = None"
  proof (cases "last_index (tl p) p")
    case (Some i)
    then show ?thesis using last_index_bound [OF Some] Nil by (cases p) auto
  qed
  then show ?case using Nil by (cases p) auto
next
  case (Cons c s)
  then show ?case by simp
qed

lemma split_byte_not_Nil [simp]: "split_byte b s \<noteq> []"
  by (induction s) (auto split: list.splits)

end
