(* ===== verification/Provider_Detect.thy ===== *)
theory Provider_Detect
  imports Prelude
begin

text \<open>
  Provider detection (internal/provider/provider.go): which upstream API a request is for,
  from the X-Majordomo-Provider header or from the shape of the path, and the normalisation of
  OpenAI paths that lack the version segment.
\<close>

datatype provider =
    ProviderOpenAI | ProviderAnthropic | ProviderGemini | ProviderGeminiOpenAI
  | ProviderAnthropicOpenAI | ProviderAzure | ProviderBedrock | ProviderFireworks
  | ProviderTogether | ProviderBedrockMantle | ProviderUnknown

text \<open>The string constants behind the enumeration.\<close>

fun provider_name :: "provider \<Rightarrow> string" where
  "provider_name ProviderOpenAI = ''openai''"
| "provider_name ProviderAnthropic = ''anthropic''"
| "provider_name ProviderGemini = ''gemini''"
| "provider_name ProviderGeminiOpenAI = ''gemini-openai''"
| "provider_name ProviderAnthropicOpenAI = ''anthropic-openai''"
| "provider_name ProviderAzure = ''azure''"
| "provider_name ProviderBedrock = ''bedrock''"
| "provider_name ProviderFireworks = ''fireworks''"
| "provider_name ProviderTogether = ''together''"
| "provider_name ProviderBedrockMantle = ''bedrock-mantle''"
| "provider_name ProviderUnknown = ''unknown''"

datatype parser_kind = OpenAIParser | AnthropicParser | GeminiParser | BedrockParser

record ProviderInfo =
  pi_provider :: provider
  pi_base_url :: string

definition openai_info :: ProviderInfo where
  "openai_info = \<lparr>pi_provider = ProviderOpenAI, pi_base_url = ''https://api.openai.com''\<rparr>"

definition anthropic_info :: ProviderInfo where
  "anthropic_info = \<lparr>pi_provider = ProviderAnthropic, pi_base_url = ''https://api.anthropic.com''\<rparr>"

definition gemini_info :: ProviderInfo where
  "gemini_info = \<lparr>pi_provider = ProviderGemini,
                   pi_base_url = ''https://generativelanguage.googleapis.com''\<rparr>"

definition bedrock_info :: ProviderInfo where
  "bedrock_info = \<lparr>pi_provider = ProviderBedrock, pi_base_url = ''''\<rparr>"

definition unknown_info :: ProviderInfo where
  "unknown_info = \<lparr>pi_provider = ProviderUnknown, pi_base_url = ''''\<rparr>"

definition openai_suffixes :: "string list" where
  "openai_suffixes = [''/chat/completions'', ''/completions'', ''/embeddings'', ''/responses'']"

definition NormalizeOpenAIPath :: "string \<Rightarrow> string" where
  "NormalizeOpenAIPath path =
     (if list_ex (\<lambda>suffix. path = suffix \<or> has_prefix path (suffix @ ''/'')) openai_suffixes
      then ''/v1'' @ path else path)"

definition resolveExplicitProvider :: "string \<Rightarrow> ProviderInfo" where
  "resolveExplicitProvider name = (let n = to_lower name in
     if n = ''openai'' then openai_info
     else if n = ''anthropic'' then anthropic_info
     else if n = ''gemini'' then gemini_info
     else if n = ''gemini-openai'' then
       \<lparr>pi_provider = ProviderGeminiOpenAI,
        pi_base_url = ''https://generativelanguage.googleapis.com/v1beta/openai''\<rparr>
     else if n = ''anthropic-openai'' then
       \<lparr>pi_provider = ProviderAnthropicOpenAI, pi_base_url = ''https://api.anthropic.com''\<rparr>
     else if n = ''azure'' then \<lparr>pi_provider = ProviderAzure, pi_base_url = ''''\<rparr>
     else if n = ''bedrock'' then bedrock_info
     else if n = ''fireworks'' then
       \<lparr>pi_provider = ProviderFireworks, pi_base_url = ''https://api.fireworks.ai/inference''\<rparr>
     else if n = ''together'' then
       \<lparr>pi_provider = ProviderTogether, pi_base_url = ''https://api.together.xyz''\<rparr>
     else if n = ''bedrock-mantle'' then
       \<lparr>pi_provider = ProviderBedrockMantle, pi_base_url = ''''\<rparr>
     else unknown_info)"

definition detectFromPath :: "string \<Rightarrow> ProviderInfo" where
  "detectFromPath path =
     (if has_prefix path ''/v1/chat/completions'' \<or> has_prefix path ''/v1/completions''
         \<or> has_prefix path ''/v1/embeddings'' \<or> has_prefix path ''/v1/responses''
      then openai_info
      else if has_prefix path ''/v1/messages'' then anthropic_info
      else if contains_str path ''generateContent'' \<or> contains_str path ''streamGenerateContent''
      then gemini_info
      else if has_prefix path ''/model/''
              \<and> (has_suffix path ''/converse'' \<or> has_suffix path ''/converse-stream'')
      then bedrock_info
      else unknown_info)"

text \<open>The headers the handler passes are keyed by lower-case names.\<close>

definition Detect :: "string \<Rightarrow> (string \<rightharpoonup> string) \<Rightarrow> ProviderInfo" where
  "Detect path headers =
     (case headers ''x-majordomo-provider'' of
        Some explicit \<Rightarrow> resolveExplicitProvider explicit
      | None \<Rightarrow> detectFromPath path)"

fun GetParser :: "provider \<Rightarrow> parser_kind" where
  "GetParser ProviderAnthropic = AnthropicParser"
| "GetParser ProviderBedrockMantle = AnthropicParser"
| "GetParser ProviderGemini = GeminiParser"
| "GetParser ProviderBedrock = BedrockParser"
| "GetParser _ = OpenAIParser"

section \<open>Path normalisation\<close>

lemmas path_defs = NormalizeOpenAIPath_def openai_suffixes_def

lemma NormalizeOpenAIPath_cases:
  "NormalizeOpenAIPath p = p \<or>
   (NormalizeOpenAIPath p = ''/v1'' @ p \<and>
    (\<exists>s \<in> set openai_suffixes. p = s \<or> has_prefix p (s @ ''/'')))"
  by (auto simp: NormalizeOpenAIPath_def list_ex_iff)

lemma v1_not_suffixed:
  "\<not> list_ex (\<lambda>suffix. ''/v1'' @ p = suffix \<or> has_prefix (''/v1'' @ p) (suffix @ ''/''))
     openai_suffixes"
  by (simp add: openai_suffixes_def)

lemma NormalizeOpenAIPath_v1: "NormalizeOpenAIPath (''/v1'' @ p) = ''/v1'' @ p"
  unfolding NormalizeOpenAIPath_def using v1_not_suffixed by simp

lemma resolve_explicit_iff:
  "q \<noteq> ProviderUnknown \<Longrightarrow>
   pi_provider (resolveExplicitProvider v) = q \<longleftrightarrow> to_lower v = provider_name q"
  unfolding resolveExplicitProvider_def Let_def openai_info_def anthropic_info_def
    gemini_info_def bedrock_info_def unknown_info_def
  by (cases q) (auto split: if_splits)

text \<open>Normalising a path is idempotent; it changes exactly the unversioned OpenAI routes and
  their sub-paths; and a changed path, sent without an explicit provider header, is detected as
  an OpenAI request.\<close>

theorem normalize_then_detect:
  "NormalizeOpenAIPath (NormalizeOpenAIPath p) = NormalizeOpenAIPath p
   \<and> (NormalizeOpenAIPath p \<noteq> p \<longleftrightarrow> (\<exists>s \<in> set openai_suffixes. p = s \<or> (\<exists>r. p = s @ ''/'' @ r)))
   \<and> (NormalizeOpenAIPath p = p
      \<or> Detect (NormalizeOpenAIPath p) Map.empty = openai_info)"
proof -
  have idem: "NormalizeOpenAIPath (NormalizeOpenAIPath p) = NormalizeOpenAIPath p"
    using NormalizeOpenAIPath_cases [of p] NormalizeOpenAIPath_v1 [of p] by metis
  have iff: "NormalizeOpenAIPath p \<noteq> p \<longleftrightarrow>
      (\<exists>s \<in> set openai_suffixes. p = s \<or> (\<exists>r. p = s @ ''/'' @ r))"
    by (auto simp: NormalizeOpenAIPath_def list_ex_iff has_prefix_iff)
  have "Detect (NormalizeOpenAIPath p) Map.empty = openai_info"
    if ne: "NormalizeOpenAIPath p \<noteq> p"
  proof -
    have eq: "NormalizeOpenAIPath p = ''/v1'' @ p"
      using ne NormalizeOpenAIPath_cases by blast
    from ne iff obtain s r where s: "s \<in> set openai_suffixes" and p: "p = s @ r"
      by auto
    have "has_prefix (''/v1'' @ p) ''/v1/chat/completions'' \<or> has_prefix (''/v1'' @ p) ''/v1/completions''
      \<or> has_prefix (''/v1'' @ p) ''/v1/embeddings'' \<or> has_prefix (''/v1'' @ p) ''/v1/responses''"
      using s by (auto simp: p openai_suffixes_def)
    then show ?thesis by (simp only: eq Detect_def detectFromPath_def if_True option.case)
  qed
  then have "NormalizeOpenAIPath p = p \<or> Detect (NormalizeOpenAIPath p) Map.empty = openai_info"
    by blast
  with idem iff show ?thesis by (intro conjI)
qed

text \<open>An explicit provider header decides whatever the path is: the name of a provider, in
  any case, selects that provider, and every other value selects the unknown provider.\<close>

theorem explicit_header_wins:
  "Detect p (h(''x-majordomo-provider'' \<mapsto> v)) = resolveExplicitProvider v
   \<and> (pi_provider (resolveExplicitProvider v) = q \<longleftrightarrow>
       (if q = ProviderUnknown then to_lower v \<notin> provider_name ` {r. r \<noteq> ProviderUnknown}
        else to_lower v = provider_name q))"
proof -
  have "pi_provider (resolveExplicitProvider v) = ProviderUnknown \<longleftrightarrow>
      to_lower v \<notin> provider_name ` {r. r \<noteq> ProviderUnknown}"
    using resolve_explicit_iff [of _ v] by (auto simp: image_iff)
  then show ?thesis using resolve_explicit_iff [of q v] by (simp add: Detect_def)
qed

end
