(* ===== verification/Go_Json.thy ===== *)
theory Go_Json
  imports Prelude "HOL-Library.Char_ord" "HOL-Library.List_Lexorder"
begin

text \<open>
  The part of encoding/json the program relies on, on bytes.

  A document is parsed to a syntax tree that keeps the lexemes of numbers and strings (the text
  between the quotes), so that a json.RawMessage is a subtree. unquote is the reading of a string
  lexeme, quote the writing of a Go string, dec_struct the decoding into a struct: members are
  matched by exact name first and by folded name second, a later member overrides an earlier one,
  null leaves a field alone and a value of the wrong type sets the error flag and goes on. The
  parser runs on fuel, of which parse_json gives more than the text can use, and stops at the
  nesting depth of 10000 of the Go scanner.
\<close>

datatype json = JNull | JBool bool | JNum string | JStr string
  | JArr "json list" | JObj "(string \<times> json) list"

section \<open>Lexemes\<close>

abbreviation quote_byte :: char where "quote_byte \<equiv> CHR 0x22"
abbreviation backslash :: char where "backslash \<equiv> CHR 0x5C"

definition is_json_ws :: "char \<Rightarrow> bool" where
  "is_json_ws c = (c = CHR 0x20 \<or> c = CHR 0x09 \<or> c = CHR 0x0A \<or> c = CHR 0x0D)"

definition skip_ws :: "string \<Rightarrow> string" where
  "skip_ws s = dropWhile is_json_ws s"

definition digit_chars :: "char list" where
  "digit_chars = ''0123456789''"

definition is_digit :: "char \<Rightarrow> bool" where
  "is_digit c = (c \<in> set digit_chars)"

definition is_hex :: "char \<Rightarrow> bool" where
  "is_hex c = (c \<in> set ''0123456789abcdefABCDEF'')"

definition is_simple_escape :: "char \<Rightarrow> bool" where
  "is_simple_escape c = (c \<in> set (quote_byte # backslash # ''/bfnrt''))"

text \<open>The string states of the Go scanner: 0 inside the string, 1 after a backslash, and 5 down to
  2 the number of hexadecimal digits still expected, plus one.\<close>

definition str_step :: "nat \<Rightarrow> char \<Rightarrow> nat option" where
  "str_step st c =
     (if st = 0 then
        (if c = quote_byte then None else if c = backslash then Some 1
         else if (of_char c :: nat) < 32 then None else Some 0)
      else if st = 1 then
        (if is_simple_escape c then Some 0 else if c = CHR ''u'' then Some 5 else None)
      else if is_hex c then Some (if st = 2 then 0 else st - 1) else None)"

text \<open>The body of a string literal, up to the closing quote.\<close>

fun lex_str_from :: "nat \<Rightarrow> string \<Rightarrow> (string \<times> string) option" where
  "lex_str_from st [] = None"
| "lex_str_from st (c # cs) =
     (if st = 0 \<and> c = quote_byte then Some ([], cs)
      else (case str_step st c of
              None \<Rightarrow> None
            | Some st' \<Rightarrow> map_option (\<lambda>(l, r). (c # l, r)) (lex_str_from st' cs)))"

definition lex_str :: "string \<Rightarrow> (string \<times> string) option" where
  "lex_str = lex_str_from 0"

text \<open>A number: sign, integer part without leading zeros, fraction, exponent.\<close>

definition lex_int_part :: "string \<Rightarrow> string \<times> string" where
  "lex_int_part s = (case s of
     [] \<Rightarrow> ([], [])
   | c # cs \<Rightarrow> if c = CHR ''0'' then ([c], cs) else (takeWhile is_digit s, dropWhile is_digit s))"

definition lex_frac :: "string \<Rightarrow> (string \<times> string) option" where
  "lex_frac s = (case s of
     [] \<Rightarrow> Some ([], [])
   | c # cs \<Rightarrow> if c = CHR ''.'' then
       (if takeWhile is_digit cs = [] then None
        else Some (c # takeWhile is_digit cs, dropWhile is_digit cs))
     else Some ([], s))"

definition lex_exp_sign :: "string \<Rightarrow> string \<times> string" where
  "lex_exp_sign s = (case s of
     [] \<Rightarrow> ([], [])
   | c # cs \<Rightarrow> if c = CHR ''+'' \<or> c = CHR ''-'' then ([c], cs) else ([], s))"

definition lex_exp :: "string \<Rightarrow> (string \<times> string) option" where
  "lex_exp s = (case s of
     [] \<Rightarrow> Some ([], [])
   | c # cs \<Rightarrow> if c = CHR ''e'' \<or> c = CHR ''E'' then
       (let (sg, r) = lex_exp_sign cs in
        if takeWhile is_digit r = [] then None
        else Some (c # sg @ takeWhile is_digit r, dropWhile is_digit r))
     else Some ([], s))"

definition lex_unsigned :: "string \<Rightarrow> (string \<times> string) option" where
  "lex_unsigned s = (let (ip, r1) = lex_int_part s in
     if ip = [] then None else
     (case lex_frac r1 of
        None \<Rightarrow> None
      | Some (fp, r2) \<Rightarrow>
          (case lex_exp r2 of None \<Rightarrow> None | Some (ep, r3) \<Rightarrow> Some (ip @ fp @ ep, r3))))"

definition lex_num :: "string \<Rightarrow> (string \<times> string) option" where
  "lex_num s = (case s of
     [] \<Rightarrow> None
   | c # cs \<Rightarrow> if c = CHR ''-'' then map_option (\<lambda>(l, r). (c # l, r)) (lex_unsigned cs)
              else lex_unsigned s)"

section \<open>The parser\<close>

fun parse_val :: "nat \<Rightarrow> nat \<Rightarrow> string \<Rightarrow> (json \<times> string) option"
and parse_elems :: "nat \<Rightarrow> nat \<Rightarrow> string \<Rightarrow> (json list \<times> string) option"
and parse_members :: "nat \<Rightarrow> nat \<Rightarrow> string \<Rightarrow> ((string \<times> json) list \<times> string) option"
where
  "parse_val 0 d s = None"
| "parse_val (Suc n) d s =
     (case skip_ws s of
        [] \<Rightarrow> None
      | c # cs \<Rightarrow>
          if c = CHR ''{'' then
            (if d = 0 then None else
             (case skip_ws cs of
                [] \<Rightarrow> None
              | e # es \<Rightarrow> if e = CHR ''}'' then Some (JObj [], es)
                         else map_option (\<lambda>(ms, r). (JObj ms, r)) (parse_members n (d - 1) cs)))
          else if c = CHR ''['' then
            (if d = 0 then None else
             (case skip_ws cs of
                [] \<Rightarrow> None
              | e # es \<Rightarrow> if e = CHR '']'' then Some (JArr [], es)
                         else map_option (\<lambda>(vs, r). (JArr vs, r)) (parse_elems n (d - 1) cs)))
          else if c = quote_byte then map_option (\<lambda>(l, r). (JStr l, r)) (lex_str cs)
          else if has_prefix (c # cs) ''true'' then Some (JBool True, drop 3 cs)
          else if has_prefix (c # cs) ''false'' then Some (JBool False, drop 4 cs)
          else if has_prefix (c # cs) ''null'' then Some (JNull, drop 3 cs)
          else map_option (\<lambda>(l, r). (JNum l, r)) (lex_num (c # cs)))"
| "parse_elems 0 d s = None"
| "parse_elems (Suc n) d s =
     (case parse_val n d s of
        None \<Rightarrow> None
      | Some (v, r) \<Rightarrow>
          (case skip_ws r of
             [] \<Rightarrow> None
           | c # cs \<Rightarrow>
               if c = CHR '','' then map_option (\<lambda>(vs, q). (v # vs, q)) (parse_elems n d cs)
               else if c = CHR '']'' then Some ([v], cs)
               else None))"
| "parse_members 0 d s = None"
| "parse_members (Suc n) d s =
     (case skip_ws s of
        [] \<Rightarrow> None
      | c # cs \<Rightarrow>
          if c \<noteq> quote_byte then None else
          (case lex_str cs of
             None \<Rightarrow> None
           | Some (k, r) \<Rightarrow>
               (case skip_ws r of
                  [] \<Rightarrow> None
                | e # es \<Rightarrow>
                    if e \<noteq> CHR '':'' then None else
                    (case parse_val n d es of
                       None \<Rightarrow> None
                     | Some (v, q) \<Rightarrow>
                         (case skip_ws q of
                            [] \<Rightarrow> None
                          | f # fs \<Rightarrow>
                              if f = CHR '','' then
                                map_option (\<lambda>(ms, t). ((k, v) # ms, t)) (parse_members n d fs)
                              else if f = CHR ''}'' then Some ([(k, v)], fs)
                              else None)))))"

definition max_nesting_depth :: nat where
  "max_nesting_depth = 10000"

definition parse_json :: "string \<Rightarrow> json option" where
  "parse_json s =
     (case parse_val (2 * length s + 1) max_nesting_depth s of
        None \<Rightarrow> None
      | Some (v, r) \<Rightarrow> if skip_ws r = [] then Some v else None)"

section \<open>String lexemes and Go strings\<close>

definition in_range :: "nat \<Rightarrow> nat \<Rightarrow> char \<Rightarrow> bool" where
  "in_range lo hi c = (lo \<le> of_char c \<and> of_char c \<le> hi)"

abbreviation is_cont :: "char \<Rightarrow> bool" where
  "is_cont \<equiv> in_range 0x80 0xBF"

text \<open>Number of continuation bytes of the valid UTF-8 sequence at the head of a string whose first
  byte is not ASCII; none when the sequence is not valid.\<close>

fun utf8_cont :: "char \<Rightarrow> string \<Rightarrow> nat option" where
  "utf8_cont c cs =
     (if in_range 0xC2 0xDF c then
        (case cs of c1 # _ \<Rightarrow> if is_cont c1 then Some 1 else None | _ \<Rightarrow> None)
      else if in_range 0xE0 0xEF c then
        (case cs of
           c1 # c2 # _ \<Rightarrow>
             if in_range (if c = CHR 0xE0 then 0xA0 else 0x80) (if c = CHR 0xED then 0x9F else 0xBF) c1
                \<and> is_cont c2 then Some 2 else None
         | _ \<Rightarrow> None)
      else if in_range 0xF0 0xF4 c then
        (case cs of
           c1 # c2 # c3 # _ \<Rightarrow>
             if in_range (if c = CHR 0xF0 then 0x90 else 0x80) (if c = CHR 0xF4 then 0x8F else 0xBF) c1
                \<and> is_cont c2 \<and> is_cont c3 then Some 3 else None
         | _ \<Rightarrow> None)
      else None)"

text \<open>The UTF-8 encoding of a code point.\<close>

definition utf8_encode :: "nat \<Rightarrow> string" where
  "utf8_encode r =
     (if r < 0x80 then [char_of r]
      else if r < 0x800 then [char_of (0xC0 + r div 0x40), char_of (0x80 + r mod 0x40)]
      else if r < 0x10000 then
        [char_of (0xE0 + r div 0x1000), char_of (0x80 + r div 0x40 mod 0x40), char_of (0x80 + r mod 0x40)]
      else [char_of (0xF0 + r div 0x40000), char_of (0x80 + r div 0x1000 mod 0x40),
            char_of (0x80 + r div 0x40 mod 0x40), char_of (0x80 + r mod 0x40)])"

definition replacement :: string where
  "replacement = [CHR 0xEF, CHR 0xBF, CHR 0xBD]"

definition hex_val :: "char \<Rightarrow> nat" where
  "hex_val c = (let n = of_char c in
     if n \<le> 57 then n - 48 else if n \<le> 70 then n - 55 else n - 87)"

definition hex4 :: "char \<Rightarrow> char \<Rightarrow> char \<Rightarrow> char \<Rightarrow> nat" where
  "hex4 a b c d = hex_val a * 4096 + hex_val b * 256 + hex_val c * 16 + hex_val d"

definition is_surrogate :: "nat \<Rightarrow> bool" where
  "is_surrogate r = (0xD800 \<le> r \<and> r < 0xE000)"

text \<open>The code point of a surrogate pair, when the two halves form one.\<close>

definition surrogate_pair :: "nat \<Rightarrow> nat \<Rightarrow> nat option" where
  "surrogate_pair r r1 =
     (if 0xD800 \<le> r \<and> r < 0xDC00 \<and> 0xDC00 \<le> r1 \<and> r1 < 0xE000
      then Some ((r - 0xD800) * 0x400 + (r1 - 0xDC00) + 0x10000) else None)"

definition unescape :: "char \<Rightarrow> char" where
  "unescape d = (if d = CHR ''b'' then CHR 0x08 else if d = CHR ''f'' then CHR 0x0C
     else if d = CHR ''n'' then CHR 0x0A else if d = CHR ''r'' then CHR 0x0D
     else if d = CHR ''t'' then CHR 0x09 else d)"

text \<open>What a unicode escape with value r, followed by rs, stands for, and what is left to read: two
  halves of a surrogate pair are one code point, a lone surrogate is the replacement character.\<close>

definition u_decode :: "nat \<Rightarrow> string \<Rightarrow> string \<times> string" where
  "u_decode r rs =
     (if \<not> is_surrogate r then (utf8_encode r, rs)
      else (case rs of
         b # u # k1 # k2 # k3 # k4 # qs \<Rightarrow>
           (case (if b = backslash \<and> u = CHR ''u'' then surrogate_pair r (hex4 k1 k2 k3 k4) else None) of
              Some p \<Rightarrow> (utf8_encode p, qs)
            | None \<Rightarrow> (replacement, rs))
       | _ \<Rightarrow> (replacement, rs)))"

lemma u_decode_length: "u_decode r rs = (x, qs) \<Longrightarrow> length qs \<le> length rs"
  by (auto simp: u_decode_def split: if_splits list.splits option.splits)

text \<open>unquote_from k copies k bytes (the rest of a valid UTF-8 sequence) and then reads on.\<close>

function (sequential) unquote_from :: "nat \<Rightarrow> string \<Rightarrow> string" where
  "unquote_from k [] = []"
| "unquote_from (Suc k) (c # cs) = c # unquote_from k cs"
| "unquote_from 0 (c # cs) =
     (if c = backslash then
        (case cs of
           [] \<Rightarrow> []
         | d # ds \<Rightarrow>
             if d = CHR ''u'' then
               (case ds of
                  h1 # h2 # h3 # h4 # rs \<Rightarrow>
                    (case u_decode (hex4 h1 h2 h3 h4) rs of (x, qs) \<Rightarrow> x @ unquote_from 0 qs)
                | _ \<Rightarrow> [])
             else unescape d # unquote_from 0 ds)
      else if (of_char c :: nat) < 128 then c # unquote_from 0 cs
      else (case utf8_cont c cs of
              Some k \<Rightarrow> c # unquote_from k cs
            | None \<Rightarrow> replacement @ unquote_from 0 cs))"
  by pat_completeness auto

termination
proof (relation "measure (\<lambda>(k, s). length s)")
qed (auto dest!: u_decode_length [OF sym])

definition unquote :: "string \<Rightarrow> string" where
  "unquote = unquote_from 0"

definition hex_digit :: "nat \<Rightarrow> char" where
  "hex_digit n = (if n < 10 then char_of (48 + n) else char_of (87 + n))"

definition u_escape :: "char \<Rightarrow> string" where
  "u_escape c = backslash # ''u00'' @ [hex_digit (of_char c div 16), hex_digit (of_char c mod 16)]"

definition is_html :: "char \<Rightarrow> bool" where
  "is_html c = (c = CHR ''<'' \<or> c = CHR ''>'' \<or> c = CHR ''&'')"

definition quote_ascii :: "char \<Rightarrow> string" where
  "quote_ascii c =
     (if c = quote_byte \<or> c = backslash then [backslash, c]
      else if c = CHR 0x08 then backslash # ''b'' else if c = CHR 0x0C then backslash # ''f''
      else if c = CHR 0x0A then backslash # ''n'' else if c = CHR 0x0D then backslash # ''r''
      else if c = CHR 0x09 then backslash # ''t''
      else if (of_char c :: nat) < 32 \<or> is_html c then u_escape c
      else [c])"

definition is_line_sep :: "char \<Rightarrow> string \<Rightarrow> bool" where
  "is_line_sep c cs = (c = CHR 0xE2 \<and> (case cs of
     c1 # c2 # _ \<Rightarrow> c1 = CHR 0x80 \<and> (c2 = CHR 0xA8 \<or> c2 = CHR 0xA9) | _ \<Rightarrow> False))"

text \<open>quote_from k copies k bytes of a multi-byte sequence and then writes on.\<close>

fun quote_from :: "nat \<Rightarrow> string \<Rightarrow> string" where
  "quote_from k [] = []"
| "quote_from (Suc k) (c # cs) = c # quote_from k cs"
| "quote_from 0 (c # cs) =
     (if (of_char c :: nat) < 128 then quote_ascii c @ quote_from 0 cs
      else if is_line_sep c cs then
        (case cs of
           c1 # c2 # rs \<Rightarrow>
             backslash # ''u202'' @ [if c2 = CHR 0xA8 then CHR ''8'' else CHR ''9''] @ quote_from 0 rs
         | _ \<Rightarrow> [])
      else (case utf8_cont c cs of
              Some k \<Rightarrow> c # quote_from k cs
            | None \<Rightarrow> backslash # ''ufffd'' @ quote_from 0 cs))"

definition quote :: "string \<Rightarrow> string" where
  "quote = quote_from 0"

text \<open>The HTML escaping that Marshal applies to the text of a RawMessage.\<close>

fun esc_html :: "string \<Rightarrow> string" where
  "esc_html [] = []"
| "esc_html (c # cs) =
     (if is_html c then u_escape c @ esc_html cs
      else if is_line_sep c cs then
        (case cs of
           c1 # c2 # rs \<Rightarrow>
             backslash # ''u202'' @ [if c2 = CHR 0xA8 then CHR ''8'' else CHR ''9''] @ esc_html rs
         | _ \<Rightarrow> [])
      else c # esc_html cs)"

section \<open>The printer\<close>

definition print_str :: "string \<Rightarrow> string" where
  "print_str l = quote_byte # l @ [quote_byte]"

fun print_json :: "json \<Rightarrow> string"
and print_elems :: "json list \<Rightarrow> string"
and print_members :: "(string \<times> json) list \<Rightarrow> string"
where
  "print_json JNull = ''null''"
| "print_json (JBool b) = (if b then ''true'' else ''false'')"
| "print_json (JNum l) = l"
| "print_json (JStr l) = print_str l"
| "print_json (JArr vs) = CHR ''['' # print_elems vs"
| "print_json (JObj ms) = CHR ''{'' # print_members ms"
| "print_elems [] = '']''"
| "print_elems (v # vs) = print_json v @ (if vs = [] then '']'' else CHR '','' # print_elems vs)"
| "print_members [] = ''}''"
| "print_members (m # ms) =
     print_str (fst m) @ CHR '':'' # print_json (snd m)
       @ (if ms = [] then ''}'' else CHR '','' # print_members ms)"

fun esc_json :: "json \<Rightarrow> json" where
  "esc_json (JStr l) = JStr (esc_html l)"
| "esc_json (JArr vs) = JArr (map esc_json vs)"
| "esc_json (JObj ms) = JObj (map (\<lambda>(k, v). (esc_html k, esc_json v)) ms)"
| "esc_json j = j"

text \<open>Marshal of a value whose strings are given by their lexemes.\<close>

definition marshal :: "json \<Rightarrow> string" where
  "marshal j = print_json (esc_json j)"

section \<open>Decoding\<close>

type_synonym 'a dec = "json \<Rightarrow> 'a \<Rightarrow> 'a \<times> bool"

definition dec_string :: "string dec" where
  "dec_string j v = (case j of JStr l \<Rightarrow> (unquote l, False) | JNull \<Rightarrow> (v, False) | _ \<Rightarrow> (v, True))"

definition dec_bool :: "bool dec" where
  "dec_bool j v = (case j of JBool b \<Rightarrow> (b, False) | JNull \<Rightarrow> (v, False) | _ \<Rightarrow> (v, True))"

definition digits_val :: "string \<Rightarrow> int" where
  "digits_val ds = foldl (\<lambda>a c. a * 10 + (of_char c - 48)) 0 ds"

text \<open>ParseInt on a number lexeme: only an optional sign and digits, in the range of int64.\<close>

definition num_int :: "string \<Rightarrow> int option" where
  "num_int l =
     (let (neg, ds) = (case l of c # cs \<Rightarrow> if c = CHR ''-'' then (True, cs) else (False, l)
                                 | [] \<Rightarrow> (False, [])) in
      if ds = [] \<or> \<not> list_all is_digit ds then None
      else let n = (if neg then - digits_val ds else digits_val ds) in
           if in_int64 n then Some n else None)"

definition dec_int :: "int dec" where
  "dec_int j v = (case j of
     JNum l \<Rightarrow> (case num_int l of Some n \<Rightarrow> (n, False) | None \<Rightarrow> (v, True))
   | JNull \<Rightarrow> (v, False)
   | _ \<Rightarrow> (v, True))"

text \<open>A field that keeps the number as text (a float the program only passes on).\<close>

definition dec_number :: "string dec" where
  "dec_number j v = (case j of JNum l \<Rightarrow> (l, False) | JNull \<Rightarrow> (v, False) | _ \<Rightarrow> (v, True))"

definition dec_raw :: "json dec" where
  "dec_raw j v = (j, False)"

definition dec_ptr :: "'a \<Rightarrow> 'a dec \<Rightarrow> 'a option dec" where
  "dec_ptr zero d j v = (case j of
     JNull \<Rightarrow> (None, False)
   | _ \<Rightarrow> (let (x, e) = d j (case v of Some y \<Rightarrow> y | None \<Rightarrow> zero) in (Some x, e)))"

fun dec_elems :: "'a \<Rightarrow> 'a dec \<Rightarrow> json list \<Rightarrow> 'a list \<Rightarrow> 'a list \<times> bool" where
  "dec_elems zero d [] vs = ([], False)"
| "dec_elems zero d (j # js) vs =
     (let (x, e) = d j (case vs of [] \<Rightarrow> zero | y # _ \<Rightarrow> y);
          (xs, es) = dec_elems zero d js (tl vs)
      in (x # xs, e \<or> es))"

definition dec_list :: "'a \<Rightarrow> 'a dec \<Rightarrow> 'a list dec" where
  "dec_list zero d j v = (case j of
     JArr js \<Rightarrow> dec_elems zero d js v
   | JNull \<Rightarrow> ([], False)
   | _ \<Rightarrow> (v, True))"

text \<open>Name folding: ASCII letters to lower case, and the two code points that fold to ASCII.\<close>

fun fold_name :: "string \<Rightarrow> string" where
  "fold_name (c # d # e # cs) =
     (if c = CHR 0xE2 \<and> d = CHR 0x84 \<and> e = CHR 0xAA then CHR ''k'' # fold_name cs
      else if c = CHR 0xC5 \<and> d = CHR 0xBF then CHR ''s'' # fold_name (e # cs)
      else lower_byte c # fold_name (d # e # cs))"
| "fold_name [c, d] = (if c = CHR 0xC5 \<and> d = CHR 0xBF then ''s'' else [lower_byte c, lower_byte d])"
| "fold_name [c] = [lower_byte c]"
| "fold_name [] = []"

definition find_field :: "(string \<times> 'r dec) list \<Rightarrow> string \<Rightarrow> 'r dec option" where
  "find_field fs k = (case map_of fs k of
     Some d \<Rightarrow> Some d
   | None \<Rightarrow> map_option snd (find (\<lambda>f. fold_name (fst f) = fold_name k) fs))"

fun dec_members :: "(string \<times> 'r dec) list \<Rightarrow> (string \<times> json) list \<Rightarrow> 'r \<Rightarrow> 'r \<times> bool" where
  "dec_members fs [] r = (r, False)"
| "dec_members fs ((k, v) # ms) r =
     (case find_field fs (unquote k) of
        None \<Rightarrow> dec_members fs ms r
      | Some d \<Rightarrow> (let (r1, e1) = d v r; (r2, e2) = dec_members fs ms r1 in (r2, e1 \<or> e2)))"

definition dec_struct :: "(string \<times> 'r dec) list \<Rightarrow> 'r dec" where
  "dec_struct fs j r = (case j of
     JObj ms \<Rightarrow> dec_members fs ms r
   | JNull \<Rightarrow> (r, False)
   | _ \<Rightarrow> (r, True))"

text \<open>The decoder of a struct field, from the field's selector and update.\<close>

definition fld :: "('r \<Rightarrow> 'a) \<Rightarrow> (('a \<Rightarrow> 'a) \<Rightarrow> 'r \<Rightarrow> 'r) \<Rightarrow> 'a dec \<Rightarrow> 'r dec" where
  "fld get upd d j r = (let (x, e) = d j (get r) in (upd (\<lambda>_. x) r, e))"

text \<open>A Go map with string keys, as an association list with distinct keys; null makes it nil. An
  element is decoded into a fresh zero value.\<close>

fun dec_map_members :: "'a \<Rightarrow> 'a dec \<Rightarrow> (string \<times> json) list \<Rightarrow> (string \<times> 'a) list
    \<Rightarrow> (string \<times> 'a) list \<times> bool" where
  "dec_map_members zero d [] m = (m, False)"
| "dec_map_members zero d ((k, v) # ms) m =
     (let (x, e) = d v zero; (m', e') = dec_map_members zero d ms (AList.update (unquote k) x m)
      in (m', e \<or> e'))"

definition dec_map :: "'a \<Rightarrow> 'a dec \<Rightarrow> (string \<times> 'a) list option dec" where
  "dec_map zero d j v = (case j of
     JObj ms \<Rightarrow> (let (m, e) = dec_map_members zero d ms (case v of None \<Rightarrow> [] | Some m \<Rightarrow> m) in (Some m, e))
   | JNull \<Rightarrow> (None, False)
   | _ \<Rightarrow> (v, True))"

definition unmarshal :: "'a dec \<Rightarrow> string \<Rightarrow> 'a \<Rightarrow> err + 'a" where
  "unmarshal d s v = (case parse_json s of
     None \<Rightarrow> Inl ErrJSON
   | Some j \<Rightarrow> (let (x, e) = d j v in if e then Inl ErrJSONType else Inr x))"

text \<open>Decoder.Decode reads one value and leaves the rest of the stream.\<close>

definition decode_stream :: "'a dec \<Rightarrow> string \<Rightarrow> 'a \<Rightarrow> err + 'a" where
  "decode_stream d s v =
     (case parse_val (2 * length s + 1) max_nesting_depth s of
        None \<Rightarrow> Inl ErrJSON
      | Some (j, _) \<Rightarrow> (let (x, e) = d j v in if e then Inl ErrJSONType else Inr x))"

text \<open>Marshal of a map of raw messages: the keys in byte order.\<close>

definition marshal_raw_map :: "(string \<times> json) list \<Rightarrow> string" where
  "marshal_raw_map m = marshal (JObj (map (\<lambda>(k, v). (quote k, v)) (sort_key fst m)))"


section \<open>Encoding of scalars\<close>

fun nat_digits :: "nat \<Rightarrow> string" where
  "nat_digits n = (if n < 10 then [char_of (48 + n)] else nat_digits (n div 10) @ [char_of (48 + n mod 10)])"

text \<open>Itoa.\<close>

definition itoa :: "int \<Rightarrow> string" where
  "itoa n = (if n < 0 then CHR ''-'' # nat_digits (nat (- n)) else nat_digits (nat n))"

definition enc_string :: "string \<Rightarrow> json" where
  "enc_string s = JStr (quote s)"

definition enc_int :: "int \<Rightarrow> json" where
  "enc_int n = JNum (itoa n)"

text \<open>A struct member with omitempty is left out when its value is the zero value.\<close>

definition omit :: "bool \<Rightarrow> string \<Rightarrow> json \<Rightarrow> (string \<times> json) list" where
  "omit isZero k v = (if isZero then [] else [(k, v)])"

definition omit_ptr :: "('a \<Rightarrow> json) \<Rightarrow> string \<Rightarrow> 'a option \<Rightarrow> (string \<times> json) list" where
  "omit_ptr enc k p = (case p of None \<Rightarrow> [] | Some x \<Rightarrow> [(k, enc x)])"

text \<open>A slice that was never appended to is nil and is written as null.\<close>

definition enc_slice :: "('a \<Rightarrow> json) \<Rightarrow> 'a list \<Rightarrow> json" where
  "enc_slice enc xs = (if xs = [] then JNull else JArr (map enc xs))"

end
