(* ===== verification/Models.thy ===== *)
theory Models
  imports Prelude Complex_Main
begin

text \<open>
  The data model (internal/models): one record per struct the components below work on, with the
  struct's fields in their order. A pointer field is an option, a float64 is a real, a JSON map
  of strings is a map. The string types of the sources that range over named constants
  (DeprecatedModelBehavior, the run states) are strings with their constants defined.
\<close>

section \<open>API keys (models.go)\<close>

type_synonym DeprecatedModelBehavior = string

definition DeprecatedModelBehaviorPassthrough :: DeprecatedModelBehavior where
  "DeprecatedModelBehaviorPassthrough = ''passthrough''"

definition DeprecatedModelBehaviorRedirect :: DeprecatedModelBehavior where
  "DeprecatedModelBehaviorRedirect = ''redirect''"

definition DeprecatedModelBehaviorWarn :: DeprecatedModelBehavior where
  "DeprecatedModelBehaviorWarn = ''warn''"

record APIKey =
  ak_id :: uuid
  ak_key_hash :: string
  ak_name :: string
  ak_description :: "string option"
  ak_user_id :: "uuid option"
  ak_org_id :: "uuid option"
  ak_is_active :: bool
  ak_created_at :: time
  ak_revoked_at :: "time option"
  ak_last_used_at :: "time option"
  ak_request_count :: int
  ak_deprecated_behavior :: DeprecatedModelBehavior

record CreateAPIKeyInput =
  cak_name :: string
  cak_description :: "string option"
  cak_user_id :: "uuid option"
  cak_org_id :: "uuid option"

record UpdateAPIKeyInput =
  uak_name :: "string option"
  uak_description :: "string option"
  uak_deprecated_behavior :: "DeprecatedModelBehavior option"

record APIKeyInfo =
  aki_id :: uuid
  aki_hash :: string
  aki_alias :: "string option"
  aki_user_id :: "uuid option"
  aki_org_id :: "uuid option"
  aki_deprecated_behavior :: DeprecatedModelBehavior

section \<open>Usage and cost (models.go)\<close>

record UsageMetrics =
  um_provider :: string
  um_model :: string
  um_input_tokens :: int
  um_output_tokens :: int
  um_cached_tokens :: int
  um_cache_creation_tokens :: int
  um_response_time :: duration

definition zero_metrics :: UsageMetrics where
  "zero_metrics = \<lparr>um_provider = [], um_model = [], um_input_tokens = 0, um_output_tokens = 0,
     um_cached_tokens = 0, um_cache_creation_tokens = 0, um_response_time = 0\<rparr>"

record Cost =
  cost_input :: real
  cost_output :: real
  cost_total :: real
  cost_model_alias_found :: bool

definition zero_cost :: Cost where
  "zero_cost = \<lparr>cost_input = 0, cost_output = 0, cost_total = 0, cost_model_alias_found = False\<rparr>"

section \<open>Proxy keys (models.go)\<close>

record ProxyKey =
  pk_id :: uuid
  pk_key_hash :: string
  pk_name :: string
  pk_description :: "string option"
  pk_api_key_id :: uuid
  pk_is_active :: bool
  pk_created_at :: time
  pk_revoked_at :: "time option"
  pk_last_used_at :: "time option"
  pk_request_count :: int

record CreateProxyKeyInput =
  cpk_name :: string
  cpk_description :: "string option"

record ProviderMapping =
  pm_id :: uuid
  pm_proxy_key_id :: uuid
  pm_provider :: string
  pm_encrypted_key :: string
  pm_created_at :: time
  pm_updated_at :: time

section \<open>Experiments (models.go)\<close>

record LocalExperimentArm =
  arm_id :: uuid
  arm_experiment_id :: uuid
  arm_name :: string
  arm_model :: string
  arm_weight :: int
  arm_is_control :: bool

record LocalExperiment =
  exp_id :: uuid
  exp_org_id :: uuid
  exp_status :: string
  exp_api_key_id :: "uuid option"
  exp_metadata_filters :: "(string \<times> string) list"
  exp_sticky_key :: "string option"
  exp_starts_at :: time
  exp_ends_at :: time
  exp_updated_at :: time
  exp_arms :: "LocalExperimentArm list"

section \<open>The request log (models.go)\<close>

record ClaudeRequestMetadata =
  cm_session_id :: "uuid option"
  cm_message_count :: int
  cm_user_message_count :: int
  cm_assistant_message_count :: int
  cm_tool_names :: "string list"
  cm_tool_use_count :: int
  cm_has_thinking :: bool
  cm_is_plan_mode :: bool
  cm_stop_reason :: string
  cm_system_prompt_hash :: string

record RequestLog =
  rl_id :: uuid
  rl_majordomo_api_key_id :: "uuid option"
  rl_user_id :: "uuid option"
  rl_org_id :: "uuid option"
  rl_proxy_key_id :: "uuid option"
  rl_provider_api_key_hash :: "string option"
  rl_provider_api_key_alias :: "string option"
  rl_provider :: string
  rl_model :: string
  rl_request_path :: string
  rl_request_method :: string
  rl_requested_at :: time
  rl_responded_at :: time
  rl_response_time_ms :: int
  rl_input_tokens :: int
  rl_output_tokens :: int
  rl_cached_tokens :: int
  rl_cache_creation_tokens :: int
  rl_input_cost :: real
  rl_output_cost :: real
  rl_total_cost :: real
  rl_status_code :: int
  rl_error_message :: "string option"
  rl_raw_metadata :: "(string \<times> string) list"
  rl_indexed_metadata :: "(string \<times> string) list"
  rl_request_body :: "string option"
  rl_response_body :: "string option"
  rl_body_s3_key :: "string option"
  rl_model_alias_found :: bool
  rl_created_at :: time
  rl_experiment_id :: "uuid option"
  rl_experiment_arm_id :: "uuid option"
  rl_original_model :: "string option"
  rl_deprecated_model_redirected :: bool
  rl_claude_metadata :: "ClaudeRequestMetadata option"

section \<open>Cloud storage (models.go)\<close>

record CloudStorageRecord =
  csr_owner_id :: uuid
  csr_owner_type :: string
  csr_provider :: string
  csr_s3_bucket :: "string option"
  csr_s3_region :: "string option"
  csr_s3_endpoint :: "string option"
  csr_s3_access_key_id_encrypted :: "string option"
  csr_s3_secret_access_key_encrypted :: "string option"
  csr_gcs_bucket :: "string option"
  csr_gcs_project_id :: "string option"
  csr_gcs_credentials_json_encrypted :: "string option"
  csr_synced_at :: time

record UserCloudStorageConfig =
  ucs_provider :: string
  ucs_bucket :: string
  ucs_region :: string
  ucs_endpoint :: string
  ucs_access_key_id :: string
  ucs_secret_access_key :: string
  ucs_gcs_bucket :: string
  ucs_gcs_project_id :: string
  ucs_gcs_credentials_json :: string

section \<open>Claude Code sessions (claude.go)\<close>

record ClaudeSession =
  cs_id :: uuid
  cs_majordomo_api_key_id :: uuid
  cs_org_id :: "uuid option"
  cs_session_name :: "string option"
  cs_started_at :: time
  cs_ended_at :: "time option"
  cs_total_requests :: int
  cs_total_input_tokens :: int
  cs_total_output_tokens :: int
  cs_total_cost :: real
  cs_created_at :: time

record ClaudeRequestDetail =
  crd_id :: uuid
  crd_llm_request_id :: uuid
  crd_session_id :: "uuid option"
  crd_message_count :: int
  crd_user_message_count :: int
  crd_assistant_message_count :: int
  crd_tool_names :: "string list"
  crd_tool_use_count :: int
  crd_has_thinking :: bool
  crd_is_plan_mode :: bool
  crd_stop_reason :: "string option"
  crd_system_prompt_hash :: "string option"
  crd_created_at :: time

section \<open>Metadata keys (metadata.go)\<close>

record MetadataKey =
  mk_api_key_id :: uuid
  mk_key_name :: string
  mk_display_name :: "string option"
  mk_key_type :: string
  mk_is_required :: bool
  mk_is_active :: bool
  mk_activated_at :: "time option"
  mk_request_count :: int
  mk_last_seen_at :: "time option"
  mk_approx_cardinality :: int
  mk_created_at :: time

section \<open>Provider keys (replay.go)\<close>

record ProviderAPIKey =
  pak_id :: uuid
  pak_user_id :: "uuid option"
  pak_org_id :: "uuid option"
  pak_provider :: string
  pak_encrypted_key :: string
  pak_created_at :: time
  pak_updated_at :: time

end
