(* ===== verification/Usage_Parsers.thy ===== *)
theory Usage_Parsers
  imports Provider_Detect Go_Json Models
begin

text \<open>
  The response parsers of internal/provider (openai.go, anthropic.go, gemini.go, bedrock.go): how
  the token usage and the model name are read from a response body, in its plain and its
  streaming form, and the extraction of the model from a request. The server-sent events are
  read line by line as a bufio.Scanner does, which stops at the first line of 65536 bytes or
  more; the AWS event stream is walked frame by frame on 32-bit lengths.
\<close>

section \<open>Lines of a bufio.Scanner\<close>

definition max_scan_token :: nat where
  "max_scan_token = 65536"

definition raw_lines :: "string \<Rightarrow> string list" where
  "raw_lines s = (let ls = split_byte (CHR 0x0A) s in if last ls = [] then butlast ls else ls)"

definition drop_cr :: "string \<Rightarrow> string" where
  "drop_cr l = (if l \<noteq> [] \<and> last l = CHR 0x0D then butlast l else l)"

definition scan_lines :: "string \<Rightarrow> string list" where
  "scan_lines s = map drop_cr (takeWhile (\<lambda>l. length l < max_scan_token) (raw_lines s))"

definition sse_ws :: "char list" where
  "sse_ws = [CHR 0x20, CHR 0x09, CHR 0x0D, CHR 0x0A]"

definition isSSEResponse :: "string \<Rightarrow> bool" where
  "isSSEResponse body = (let trimmed = trim_left_set sse_ws body in
     has_prefix trimmed ''event:'' \<or> has_prefix trimmed ''data:'')"

section \<open>The model of a request (provider.go)\<close>

definition dec_model_field :: "string dec" where
  "dec_model_field = dec_struct [(''model'', dec_string)]"

definition extractModelFromRequest :: "string \<Rightarrow> string" where
  "extractModelFromRequest body =
     (case unmarshal dec_model_field body [] of
        Inl _ \<Rightarrow> ''unknown''
      | Inr m \<Rightarrow> if m = [] then ''unknown'' else m)"

section \<open>OpenAI (openai.go)\<close>

record openAIUsage =
  ou_prompt_tokens :: int
  ou_completion_tokens :: int
  ou_prompt_cached :: int
  ou_input_tokens :: int
  ou_output_tokens :: int
  ou_input_cached :: int
  ou_reasoning_tokens :: int
  ou_total_tokens :: int

record openAIResponse =
  or_model :: string
  or_usage :: openAIUsage

definition zero_openai_usage :: openAIUsage where
  "zero_openai_usage = \<lparr>ou_prompt_tokens = 0, ou_completion_tokens = 0, ou_prompt_cached = 0,
     ou_input_tokens = 0, ou_output_tokens = 0, ou_input_cached = 0, ou_reasoning_tokens = 0,
     ou_total_tokens = 0\<rparr>"

definition zero_openai_response :: openAIResponse where
  "zero_openai_response = \<lparr>or_model = [], or_usage = zero_openai_usage\<rparr>"

definition dec_openai_usage :: "openAIUsage dec" where
  "dec_openai_usage = dec_struct
     [(''prompt_tokens'', fld ou_prompt_tokens ou_prompt_tokens_update dec_int),
      (''completion_tokens'', fld ou_completion_tokens ou_completion_tokens_update dec_int),
      (''prompt_tokens_details'', dec_struct
        [(''cached_tokens'', fld ou_prompt_cached ou_prompt_cached_update dec_int)]),
      (''input_tokens'', fld ou_input_tokens ou_input_tokens_update dec_int),
      (''output_tokens'', fld ou_output_tokens ou_output_tokens_update dec_int),
      (''input_tokens_details'', dec_struct
        [(''cached_tokens'', fld ou_input_cached ou_input_cached_update dec_int)]),
      (''output_tokens_details'', dec_struct
        [(''reasoning_tokens'', fld ou_reasoning_tokens ou_reasoning_tokens_update dec_int)]),
      (''total_tokens'', fld ou_total_tokens ou_total_tokens_update dec_int)]"

definition dec_openai_response :: "openAIResponse dec" where
  "dec_openai_response = dec_struct
     [(''model'', fld or_model or_model_update dec_string),
      (''usage'', fld or_usage or_usage_update dec_openai_usage)]"

definition buildOpenAIMetrics :: "openAIResponse \<Rightarrow> UsageMetrics" where
  "buildOpenAIMetrics resp = (let u = or_usage resp in
     if ou_input_tokens u > 0 \<or> ou_output_tokens u > 0
     then zero_metrics\<lparr>um_provider := provider_name ProviderOpenAI, um_model := or_model resp,
            um_input_tokens := ou_input_tokens u, um_output_tokens := ou_output_tokens u,
            um_cached_tokens := ou_input_cached u\<rparr>
     else zero_metrics\<lparr>um_provider := provider_name ProviderOpenAI, um_model := or_model resp,
            um_input_tokens := ou_prompt_tokens u, um_output_tokens := ou_completion_tokens u,
            um_cached_tokens := ou_prompt_cached u\<rparr>)"

text \<open>What the scan of the events keeps: the last model and the last chunk with a usage object. A
  pointer to a raw message is nil both when the member is missing and when it is null.\<close>

record openai_peek =
  pk_model :: string
  pk_usage :: "json option"
  pk_response :: "json option"

definition dec_openai_peek :: "openai_peek dec" where
  "dec_openai_peek = dec_struct
     [(''model'', fld pk_model pk_model_update dec_string),
      (''usage'', fld pk_usage pk_usage_update (dec_ptr JNull dec_raw)),
      (''response'', fld pk_response pk_response_update (dec_ptr JNull dec_raw))]"

definition zero_peek :: openai_peek where
  "zero_peek = \<lparr>pk_model = [], pk_usage = None, pk_response = None\<rparr>"

definition dec_nested_peek :: "openai_peek dec" where
  "dec_nested_peek = dec_struct
     [(''model'', fld pk_model pk_model_update dec_string),
      (''usage'', fld pk_usage pk_usage_update (dec_ptr JNull dec_raw))]"

record openai_scan =
  os_last_model :: string
  os_usage_chunk :: "json option"

definition openai_stream_line :: "string \<Rightarrow> openai_scan \<Rightarrow> openai_scan" where
  "openai_stream_line line st =
     (if \<not> has_prefix line ''data: '' then st else
      let data = trim_prefix line ''data: '' in
      if data = ''[DONE]'' then st else
      (case parse_json data of
         None \<Rightarrow> st
       | Some chunk \<Rightarrow>
           let (peek, bad) = dec_openai_peek chunk zero_peek in
           if bad then st else
           let st1 = (if pk_model peek \<noteq> [] then st\<lparr>os_last_model := pk_model peek\<rparr> else st);
               st2 = (if pk_usage peek \<noteq> None then st1\<lparr>os_usage_chunk := Some chunk\<rparr> else st1)
           in (case pk_response peek of
                 None \<Rightarrow> st2
               | Some resp \<Rightarrow>
                   let (nested, bad') = dec_nested_peek resp zero_peek in
                   if bad' then st2 else
                   let st3 = (if pk_model nested \<noteq> [] then st2\<lparr>os_last_model := pk_model nested\<rparr> else st2)
                   in if pk_usage nested \<noteq> None then st3\<lparr>os_usage_chunk := Some resp\<rparr> else st3)))"

definition openai_parseStreamingResponse :: "string \<Rightarrow> UsageMetrics" where
  "openai_parseStreamingResponse body =
     (let st = fold openai_stream_line (scan_lines body) \<lparr>os_last_model = [], os_usage_chunk = None\<rparr>;
          fallback = zero_metrics\<lparr>um_provider := provider_name ProviderOpenAI,
                                   um_model := os_last_model st\<rparr>
      in case os_usage_chunk st of
           None \<Rightarrow> fallback
         | Some chunk \<Rightarrow>
             let (resp, bad) = dec_openai_response chunk zero_openai_response in
             if bad then fallback else buildOpenAIMetrics resp)"

definition openai_ParseResponse :: "string \<Rightarrow> err + UsageMetrics" where
  "openai_ParseResponse body =
     (if isSSEResponse body then Inr (openai_parseStreamingResponse body)
      else case unmarshal dec_openai_response body zero_openai_response of
             Inl e \<Rightarrow> Inl e
           | Inr resp \<Rightarrow> Inr (buildOpenAIMetrics resp))"

section \<open>Anthropic (anthropic.go)\<close>

record anthropicUsage =
  au_input_tokens :: int
  au_output_tokens :: int
  au_cache_read :: int
  au_cache_creation :: int

record anthropicResponse =
  ar_model :: string
  ar_usage :: anthropicUsage

definition zero_anthropic_usage :: anthropicUsage where
  "zero_anthropic_usage =
     \<lparr>au_input_tokens = 0, au_output_tokens = 0, au_cache_read = 0, au_cache_creation = 0\<rparr>"

definition zero_anthropic_response :: anthropicResponse where
  "zero_anthropic_response = \<lparr>ar_model = [], ar_usage = zero_anthropic_usage\<rparr>"

definition dec_anthropic_usage :: "anthropicUsage dec" where
  "dec_anthropic_usage = dec_struct
     [(''input_tokens'', fld au_input_tokens au_input_tokens_update dec_int),
      (''output_tokens'', fld au_output_tokens au_output_tokens_update dec_int),
      (''cache_read_input_tokens'', fld au_cache_read au_cache_read_update dec_int),
      (''cache_creation_input_tokens'', fld au_cache_creation au_cache_creation_update dec_int)]"

definition dec_anthropic_response :: "anthropicResponse dec" where
  "dec_anthropic_response = dec_struct
     [(''model'', fld ar_model ar_model_update dec_string),
      (''usage'', fld ar_usage ar_usage_update dec_anthropic_usage)]"

text \<open>message_start carries the response under the member message, message_delta the output tokens.\<close>

definition dec_message_start :: "anthropicResponse dec" where
  "dec_message_start = dec_struct [(''message'', dec_anthropic_response)]"

definition dec_message_delta :: "int dec" where
  "dec_message_delta = dec_struct [(''usage'', dec_struct [(''output_tokens'', dec_int)])]"

definition buildMetrics :: "anthropicResponse \<Rightarrow> UsageMetrics" where
  "buildMetrics resp = (let u = ar_usage resp in
     zero_metrics\<lparr>um_provider := provider_name ProviderAnthropic, um_model := ar_model resp,
       um_input_tokens := wrap64 (au_input_tokens u + au_cache_read u + au_cache_creation u),
       um_output_tokens := au_output_tokens u, um_cached_tokens := au_cache_read u,
       um_cache_creation_tokens := au_cache_creation u\<rparr>)"

record anthropic_scan =
  as_event :: string
  as_resp :: anthropicResponse

definition anthropic_stream_line :: "string \<Rightarrow> anthropic_scan \<Rightarrow> anthropic_scan" where
  "anthropic_stream_line line st =
     (if has_prefix line ''event: '' then st\<lparr>as_event := trim_prefix line ''event: ''\<rparr>
      else if \<not> has_prefix line ''data: '' then st
      else let data = trim_prefix line ''data: '' in
        if as_event st = ''message_start'' then
          (case unmarshal dec_message_start data zero_anthropic_response of
             Inl _ \<Rightarrow> st
           | Inr m \<Rightarrow> st\<lparr>as_resp := \<lparr>ar_model = ar_model m,
               ar_usage = (ar_usage m)\<lparr>au_output_tokens := au_output_tokens (ar_usage (as_resp st))\<rparr>\<rparr>\<rparr>)
        else if as_event st = ''message_delta'' then
          (case unmarshal dec_message_delta data 0 of
             Inl _ \<Rightarrow> st
           | Inr out \<Rightarrow> st\<lparr>as_resp := (as_resp st)\<lparr>ar_usage :=
               (ar_usage (as_resp st))\<lparr>au_output_tokens := out\<rparr>\<rparr>\<rparr>)
        else st)"

definition anthropic_parseStreamingResponse :: "string \<Rightarrow> UsageMetrics" where
  "anthropic_parseStreamingResponse body =
     buildMetrics (as_resp (fold anthropic_stream_line (scan_lines body)
       \<lparr>as_event = [], as_resp = zero_anthropic_response\<rparr>))"

definition anthropic_ParseResponse :: "string \<Rightarrow> err + UsageMetrics" where
  "anthropic_ParseResponse body =
     (if isSSEResponse body then Inr (anthropic_parseStreamingResponse body)
      else case unmarshal dec_anthropic_response body zero_anthropic_response of
             Inl e \<Rightarrow> Inl e
           | Inr resp \<Rightarrow> Inr (buildMetrics resp))"

section \<open>Gemini (gemini.go)\<close>

record geminiResponse =
  gr_prompt :: int
  gr_candidates :: int
  gr_total :: int
  gr_cached :: int
  gr_model_version :: string

definition zero_gemini_response :: geminiResponse where
  "zero_gemini_response =
     \<lparr>gr_prompt = 0, gr_candidates = 0, gr_total = 0, gr_cached = 0, gr_model_version = []\<rparr>"

definition dec_gemini_response :: "geminiResponse dec" where
  "dec_gemini_response = dec_struct
     [(''usageMetadata'', dec_struct
        [(''promptTokenCount'', fld gr_prompt gr_prompt_update dec_int),
         (''candidatesTokenCount'', fld gr_candidates gr_candidates_update dec_int),
         (''totalTokenCount'', fld gr_total gr_total_update dec_int),
         (''cachedContentTokenCount'', fld gr_cached gr_cached_update dec_int)]),
      (''modelVersion'', fld gr_model_version gr_model_version_update dec_string)]"

definition buildGeminiMetrics :: "geminiResponse \<Rightarrow> UsageMetrics" where
  "buildGeminiMetrics resp =
     zero_metrics\<lparr>um_provider := provider_name ProviderGemini, um_model := gr_model_version resp,
       um_input_tokens := gr_prompt resp, um_output_tokens := gr_candidates resp,
       um_cached_tokens := gr_cached resp\<rparr>"

definition gemini_parseStreamingResponse :: "string \<Rightarrow> err + UsageMetrics" where
  "gemini_parseStreamingResponse body =
     (case unmarshal (dec_list zero_gemini_response dec_gemini_response) body [] of
        Inl e \<Rightarrow> Inl e
      | Inr chunks \<Rightarrow>
          if chunks = [] then Inr (zero_metrics\<lparr>um_provider := provider_name ProviderGemini\<rparr>)
          else Inr (buildGeminiMetrics (last chunks)))"

definition gemini_ParseResponse :: "string \<Rightarrow> err + UsageMetrics" where
  "gemini_ParseResponse body =
     (let trimmed = trim_left_set sse_ws body in
      if has_prefix trimmed ''['' then gemini_parseStreamingResponse trimmed
      else case unmarshal dec_gemini_response body zero_gemini_response of
             Inl e \<Rightarrow> Inl e
           | Inr resp \<Rightarrow> Inr (buildGeminiMetrics resp))"

section \<open>Bedrock (bedrock.go)\<close>

record bedrockUsage =
  bu_input :: int
  bu_output :: int
  bu_cache_read :: int
  bu_cache_write :: int

definition zero_bedrock_usage :: bedrockUsage where
  "zero_bedrock_usage = \<lparr>bu_input = 0, bu_output = 0, bu_cache_read = 0, bu_cache_write = 0\<rparr>"

text \<open>The plain response and the metadata event of a stream have the same shape.\<close>

definition dec_bedrock_usage :: "bedrockUsage dec" where
  "dec_bedrock_usage = dec_struct [(''usage'', dec_struct
     [(''inputTokens'', fld bu_input bu_input_update dec_int),
      (''outputTokens'', fld bu_output bu_output_update dec_int),
      (''cacheReadInputTokens'', fld bu_cache_read bu_cache_read_update dec_int),
      (''cacheWriteInputTokens'', fld bu_cache_write bu_cache_write_update dec_int)])]"

definition buildBedrockMetrics :: "bedrockUsage \<Rightarrow> UsageMetrics" where
  "buildBedrockMetrics u =
     zero_metrics\<lparr>um_provider := provider_name ProviderBedrock,
       um_input_tokens := wrap64 (bu_input u + bu_cache_read u + bu_cache_write u),
       um_output_tokens := bu_output u, um_cached_tokens := bu_cache_read u,
       um_cache_creation_tokens := bu_cache_write u\<rparr>"

text \<open>The Go expression body[lo:hi], which panics when the bounds are out of order or of range.\<close>

definition slice :: "'a list \<Rightarrow> nat \<Rightarrow> nat \<Rightarrow> 'a list option" where
  "slice s lo hi = (if lo \<le> hi \<and> hi \<le> length s then Some (take (hi - lo) (drop lo s)) else None)"

text \<open>The four bytes at an offset, big-endian, as a 32-bit word; None where the slice panics.\<close>

definition be_uint32 :: "string \<Rightarrow> nat \<Rightarrow> 32 word option" where
  "be_uint32 s off = (case slice s off (off + 4) of
     Some [a, b, c, d] \<Rightarrow>
       Some (of_nat (of_char a * 16777216 + of_char b * 65536 + of_char c * 256 + of_char d))
   | _ \<Rightarrow> None)"

definition frame_too_short :: "32 word \<Rightarrow> nat \<Rightarrow> bool" where
  "frame_too_short totalLen avail = (totalLen < 16 \<or> unat totalLen > avail)"

definition isEventStreamResponse :: "string \<Rightarrow> bool outcome" where
  "isEventStreamResponse body =
     (if length body < 16 then Ret False
      else case (be_uint32 body 0, be_uint32 body 4) of
        (Some totalLen, Some headersLen) \<Rightarrow>
          Ret (16 \<le> totalLen \<and> unat totalLen \<le> length body \<and> headersLen \<le> totalLen - 16)
      | _ \<Rightarrow> Panic ''slice bounds out of range'')"

text \<open>One iteration of the frame walk: leave the loop, go on with a payload, or fail.\<close>

datatype frame_step = FrameDone | FramePayload string nat | FrameError string | FramePanic

definition next_frame :: "string \<Rightarrow> nat \<Rightarrow> frame_step" where
  "next_frame body off =
     (if length body \<le> off \<or> length body - off < 12 then FrameDone
      else case (be_uint32 body off, be_uint32 body (off + 4)) of
        (Some totalLen, Some headersLen) \<Rightarrow>
          if frame_too_short totalLen (length body - off)
          then FrameError ''invalid eventstream frame length''
          else if headersLen > totalLen - 16
          then FrameError ''invalid eventstream headers length''
          else let payloadStart = off + 12 + unat headersLen;
                   payloadEnd = off + unat totalLen - 4
               in if payloadStart > payloadEnd
                  then FrameError ''invalid eventstream payload bounds''
                  else (case slice body payloadStart payloadEnd of
                          Some payload \<Rightarrow> FramePayload payload (off + unat totalLen)
                        | None \<Rightarrow> FramePanic)
      | _ \<Rightarrow> FramePanic)"

definition bedrock_event :: "string \<Rightarrow> bedrockUsage option \<Rightarrow> bedrockUsage option" where
  "bedrock_event payload found =
     (case unmarshal dec_bedrock_usage payload zero_bedrock_usage of
        Inl _ \<Rightarrow> found
      | Inr u \<Rightarrow> if wrap64 (bu_input u + bu_output u) > 0 then Some u else found)"

lemma next_frame_progress:
  "next_frame body off = FramePayload p off' \<Longrightarrow> off < off' \<and> off' \<le> length body \<and> off < length body"
proof -
  assume "next_frame body off = FramePayload p off'"
  then obtain w :: "32 word" where "\<not> frame_too_short w (length body - off)" "off' = off + unat w"
      "off < length body"
    by (auto simp: next_frame_def Let_def split: if_splits option.splits)
  moreover from this have "16 \<le> unat w"
    by (simp add: frame_too_short_def word_less_nat_alt)
  ultimately show ?thesis
    by (auto simp: frame_too_short_def)
qed

function bedrock_walk :: "string \<Rightarrow> nat \<Rightarrow> bedrockUsage option \<Rightarrow> bedrockUsage option outcome" where
  "bedrock_walk body off found =
     (case next_frame body off of
        FrameDone \<Rightarrow> Ret found
      | FrameError e \<Rightarrow> Fail (ErrMsg e)
      | FramePanic \<Rightarrow> Panic ''slice bounds out of range''
      | FramePayload p off' \<Rightarrow> bedrock_walk body off' (bedrock_event p found))"
  by pat_completeness auto

termination
  by (relation "measure (\<lambda>(body, off, _). length body - off)")
     (auto dest: next_frame_progress)

definition parseEventStreamResponse :: "string \<Rightarrow> UsageMetrics outcome" where
  "parseEventStreamResponse body =
     (case bedrock_walk body 0 None of
        Ret None \<Rightarrow> Ret (zero_metrics\<lparr>um_provider := provider_name ProviderBedrock\<rparr>)
      | Ret (Some u) \<Rightarrow> Ret (buildBedrockMetrics u)
      | Fail e \<Rightarrow> Fail e
      | Panic s \<Rightarrow> Panic s)"

definition bedrock_ParseResponse :: "string \<Rightarrow> UsageMetrics outcome" where
  "bedrock_ParseResponse body =
     (case isEventStreamResponse body of
        Panic s \<Rightarrow> Panic s
      | Fail e \<Rightarrow> Fail e
      | Ret True \<Rightarrow> parseEventStreamResponse body
      | Ret False \<Rightarrow>
          (case unmarshal dec_bedrock_usage body zero_bedrock_usage of
             Inl e \<Rightarrow> Fail (ErrWrap ''decode bedrock converse response'' e)
           | Inr u \<Rightarrow> Ret (buildBedrockMetrics u)))"

definition ExtractBedrockModelFromPath :: "string \<Rightarrow> string" where
  "ExtractBedrockModelFromPath path =
     (if \<not> has_prefix path ''/model/'' then []
      else let rest = drop (length ''/model/'') path;
               cut = (\<lambda>suffix. case last_index rest suffix of
                        Some idx \<Rightarrow> if 0 < idx \<and> idx + length suffix = length rest
                                    then Some (take idx rest) else None
                      | None \<Rightarrow> None)
           in case cut ''/converse-stream'' of
                Some m \<Rightarrow> m
              | None \<Rightarrow> (case cut ''/converse'' of Some m \<Rightarrow> m | None \<Rightarrow> []))"

section \<open>Dispatch\<close>

fun ParseResponse :: "parser_kind \<Rightarrow> string \<Rightarrow> UsageMetrics outcome" where
  "ParseResponse OpenAIParser body = (case openai_ParseResponse body of Inl e \<Rightarrow> Fail e | Inr m \<Rightarrow> Ret m)"
| "ParseResponse AnthropicParser body = (case anthropic_ParseResponse body of Inl e \<Rightarrow> Fail e | Inr m \<Rightarrow> Ret m)"
| "ParseResponse GeminiParser body = (case gemini_ParseResponse body of Inl e \<Rightarrow> Fail e | Inr m \<Rightarrow> Ret m)"
| "ParseResponse BedrockParser body = bedrock_ParseResponse body"

fun ExtractModel :: "parser_kind \<Rightarrow> string \<Rightarrow> string" where
  "ExtractModel BedrockParser body = []"
| "ExtractModel _ body = extractModelFromRequest body"


section \<open>The frame walk\<close>

lemmas walk_simps = bedrock_walk.simps
declare bedrock_walk.simps [simp del]

lemma unat_of_nat32: "n < 2 ^ 32 \<Longrightarrow> unat (of_nat n :: 32 word) = n"
  by (simp add: unat_of_nat)

lemma headers_fit:
  fixes t h :: "32 word"
  assumes "16 \<le> t" "unat t = 16 + a + b" "unat h = a"
  shows "h \<le> t - 16"
proof -
  have "unat (t - 16) = unat t - 16" using unat_sub [OF assms(1)] by simp
  then show ?thesis using assms(2,3) by (simp add: word_le_nat_alt)
qed

lemma list_of_4: "length xs = 4 \<Longrightarrow> \<exists>a b c d. xs = [a, b, c, d]"
  by (auto simp: eval_nat_numeral length_Suc_conv)

lemma slice_Some: "lo \<le> hi \<Longrightarrow> hi \<le> length s \<Longrightarrow> slice s lo hi = Some (take (hi - lo) (drop lo s))"
  by (simp add: slice_def)

lemma be_uint32_Some:
  assumes "off + 4 \<le> length s" shows "be_uint32 s off \<noteq> None"
proof -
  have "length (take 4 (drop off s)) = 4" using assms by simp
  then obtain a b c d where "take 4 (drop off s) = [a, b, c, d]"
    using list_of_4 by blast
  then show ?thesis using assms by (simp add: be_uint32_def slice_def)
qed

lemma next_frame_no_panic: "next_frame body off \<noteq> FramePanic"
proof (cases "length body \<le> off \<or> length body - off < 12")
  case True
  then show ?thesis by (simp add: next_frame_def)
next
  case False
  then obtain t h where th: "be_uint32 body off = Some t" "be_uint32 body (off + 4) = Some h"
    using be_uint32_Some [of off body] be_uint32_Some [of "off + 4" body] by fastforce
  show ?thesis
  proof (cases "frame_too_short t (length body - off)")
    case True
    then show ?thesis using False th by (simp add: next_frame_def)
  next
    case ok: False
    then have "off + unat t - 4 \<le> length body"
      using False by (auto simp: frame_too_short_def)
    then show ?thesis using False th ok
      by (simp add: next_frame_def Let_def slice_Some)
  qed
qed

lemma bedrock_walk_no_panic: "bedrock_walk body off found \<noteq> Panic s"
proof (induction body off found rule: bedrock_walk.induct)
  case (1 body off found)
  then show ?case
    using next_frame_no_panic [of body off]
    by (subst walk_simps) (auto split: frame_step.splits)
qed

subsection \<open>The frames of an encoder\<close>

text \<open>A frame as the AWS encoder writes it: the prelude with the two lengths and four bytes of
  checksum, the headers, the payload and four bytes of checksum.\<close>

definition be_bytes :: "nat \<Rightarrow> string" where
  "be_bytes n = [char_of (n div 16777216), char_of (n div 65536 mod 256), char_of (n div 256 mod 256),
     char_of (n mod 256)]"

definition encode_frame :: "string \<Rightarrow> string \<Rightarrow> string \<Rightarrow> string" where
  "encode_frame crcs headers payload =
     be_bytes (16 + length headers + length payload) @ be_bytes (length headers) @ take 4 crcs
       @ headers @ payload @ drop 4 crcs"

definition frame_ok :: "string \<times> string \<times> string \<Rightarrow> bool" where
  "frame_ok f = (case f of (crcs, headers, payload) \<Rightarrow>
     length crcs = 8 \<and> 16 + length headers + length payload < 2 ^ 32)"

definition encode_frames :: "(string \<times> string \<times> string) list \<Rightarrow> string" where
  "encode_frames fs = concat (map (\<lambda>(c, h, p). encode_frame c h p) fs)"

lemma be_bytes_value:
  assumes "n < 2 ^ 32"
  shows "be_uint32 (pre @ be_bytes n @ rest) (length pre) = Some (of_nat n)"
proof -
  have b: "n div 16777216 < 256" using assms by auto
  have eq: "n div 16777216 * 16777216 + n div 65536 mod 256 * 65536 + n div 256 mod 256 * 256 + n mod 256
      = n"
  proof -
    have "n = n div 256 * 256 + n mod 256" by simp
    moreover have "n div 256 = n div 65536 * 256 + n div 256 mod 256"
      using div_mult_mod_eq [of "n div 256" 256] by (simp add: div_mult2_eq [symmetric])
    moreover have "n div 65536 = n div 16777216 * 256 + n div 65536 mod 256"
      using div_mult_mod_eq [of "n div 65536" 256] by (simp add: div_mult2_eq [symmetric])
    ultimately show ?thesis by linarith
  qed
  have "be_uint32 (pre @ be_bytes n @ rest) (length pre)
      = Some (of_nat (n div 16777216 * 16777216 + n div 65536 mod 256 * 65536 + n div 256 mod 256 * 256
          + n mod 256))"
    using b by (simp add: be_uint32_def slice_def be_bytes_def)
  then show ?thesis by (simp only: eq)
qed

lemma length_be_bytes [simp]: "length (be_bytes n) = 4"
  by (simp add: be_bytes_def)

lemma length_encode_frame:
  "length crcs = 8 \<Longrightarrow> length (encode_frame crcs h p) = 16 + length h + length p"
  by (simp add: encode_frame_def)

lemma next_frame_intro:
  assumes "be_uint32 body off = Some t" "be_uint32 body (off + 4) = Some hl"
    and "\<not> frame_too_short t (length body - off)" "\<not> hl > t - 16"
    and "unat t = 16 + a + b" "unat hl = a" "off + 12 \<le> length body"
    and "slice body (off + 12 + a) (off + (16 + a + b) - 4) = Some p"
  shows "next_frame body off = FramePayload p (off + (16 + a + b))"
  using assms by (simp add: next_frame_def Let_def)

lemma next_frame_encoded:
  assumes "frame_ok (crcs, h, p)"
  shows "next_frame (pre @ encode_frame crcs h p @ rest) (length pre)
     = FramePayload p (length pre + length (encode_frame crcs h p))"
proof -
  have c: "length crcs = 8" and n: "16 + length h + length p < 2 ^ 32"
    using assms by (auto simp: frame_ok_def)
  let ?body = "pre @ encode_frame crcs h p @ rest"
  let ?t = "of_nat (16 + length h + length p) :: 32 word"
  have ut: "unat ?t = 16 + length h + length p"
    by (rule unat_of_nat32 [OF n])
  have uh: "unat (of_nat (length h) :: 32 word) = length h"
    by (rule unat_of_nat32) (use n in simp)
  have 1: "be_uint32 ?body (length pre) = Some ?t"
    using be_bytes_value [of "16 + length h + length p" pre] n by (simp add: encode_frame_def)
  have 2: "be_uint32 ?body (length pre + 4) = Some (of_nat (length h))"
    using be_bytes_value [of "length h" "pre @ be_bytes (16 + length h + length p)"] n
    by (simp add: encode_frame_def)
  have ge: "16 \<le> ?t" using ut by (simp add: word_le_nat_alt)
  have ok: "\<not> frame_too_short ?t (length ?body - length pre)"
    using ge ut by (simp add: frame_too_short_def length_encode_frame [OF c])
  have hl: "\<not> (of_nat (length h) > ?t - 16)"
    using headers_fit [OF ge ut uh] by (simp add: not_less)
  have sl: "slice ?body (length pre + 12 + length h) (length pre + (16 + length h + length p) - 4) = Some p"
    by (simp add: slice_def encode_frame_def c)
  have "length pre + 12 \<le> length ?body" by (simp add: length_encode_frame [OF c])
  from next_frame_intro [OF 1 2 ok hl ut uh this sl]
  show ?thesis by (simp only: length_encode_frame [OF c])
qed

lemma walk_encoded:
  "list_all frame_ok fs \<Longrightarrow>
   bedrock_walk (pre @ encode_frames fs) (length pre) found
     = Ret (fold (\<lambda>(c, h, p). bedrock_event p) fs found)"
proof (induction fs arbitrary: pre found)
  case Nil
  then show ?case by (subst walk_simps) (simp add: next_frame_def encode_frames_def)
next
  case (Cons f fs)
  obtain c h p where f: "f = (c, h, p)" by (cases f) auto
  have ok: "frame_ok (c, h, p)" "list_all frame_ok fs" using Cons.prems f by auto
  have "next_frame (pre @ encode_frames (f # fs)) (length pre)
      = FramePayload p (length (pre @ encode_frame c h p))"
    using next_frame_encoded [OF ok(1), of pre "encode_frames fs"] by (simp add: f encode_frames_def)
  then have "bedrock_walk (pre @ encode_frames (f # fs)) (length pre) found
      = bedrock_walk ((pre @ encode_frame c h p) @ encode_frames fs) (length (pre @ encode_frame c h p))
          (bedrock_event p found)"
    by (subst walk_simps) (simp add: f encode_frames_def)
  then show ?case
    using Cons.IH [OF ok(2), of "pre @ encode_frame c h p" "bedrock_event p found"] by (simp add: f)
qed

lemma isEventStream_total: "\<exists>b. isEventStreamResponse body = Ret b"
proof (cases "length body < 16")
  case False
  then obtain t h where "be_uint32 body 0 = Some t" "be_uint32 body 4 = Some h"
    using be_uint32_Some [of 0 body] be_uint32_Some [of 4 body] by fastforce
  then show ?thesis using False by (simp add: isEventStreamResponse_def)
qed (auto simp: isEventStreamResponse_def)

lemma bedrock_no_panic: "bedrock_ParseResponse body \<noteq> Panic msg"
proof -
  obtain b where b: "isEventStreamResponse body = Ret b" using isEventStream_total by blast
  show ?thesis
    using bedrock_walk_no_panic [of body 0 None]
    by (cases b) (auto simp: bedrock_ParseResponse_def b parseEventStreamResponse_def
        split: outcome.splits option.splits sum.splits)
qed

lemma isEventStream_encoded:
  assumes "fs \<noteq> []" "list_all frame_ok fs"
  shows "isEventStreamResponse (encode_frames fs) = Ret True"
proof -
  obtain c h p fs' where fs: "fs = (c, h, p) # fs'" using assms(1) by (cases fs) auto
  have ok: "frame_ok (c, h, p)" using assms(2) fs by simp
  then have c: "length c = 8" and n: "16 + length h + length p < 2 ^ 32"
    by (auto simp: frame_ok_def)
  let ?t = "of_nat (16 + length h + length p) :: 32 word"
  have ut: "unat ?t = 16 + length h + length p" by (rule unat_of_nat32 [OF n])
  have uh: "unat (of_nat (length h) :: 32 word) = length h" by (rule unat_of_nat32) (use n in simp)
  have len: "16 + length h + length p \<le> length (encode_frames fs)"
    by (simp add: encode_frames_def fs length_encode_frame [OF c])
  have 1: "be_uint32 (encode_frames fs) 0 = Some ?t"
    using be_bytes_value [of "16 + length h + length p" "[]"] n
    by (simp add: encode_frames_def encode_frame_def fs)
  have 2: "be_uint32 (encode_frames fs) 4 = Some (of_nat (length h))"
    using be_bytes_value [of "length h" "be_bytes (16 + length h + length p)"] n
    by (simp add: encode_frames_def encode_frame_def fs)
  have ge: "16 \<le> ?t" using ut by (simp add: word_le_nat_alt)
  have "of_nat (length h) \<le> ?t - 16" by (rule headers_fit [OF ge ut uh])
  moreover have "\<not> length (encode_frames fs) < 16" "unat ?t \<le> length (encode_frames fs)"
    using len ut by linarith+
  ultimately show ?thesis
    using ge by (simp add: isEventStreamResponse_def 1 2)
qed

text \<open>C36: Parsing a Bedrock body never reads outside the body, whatever the lengths in its frames
  say, and the walk over the frames ends; on a body made of frames as the AWS encoder writes them,
  it succeeds and keeps the usage of the last payload that reports tokens.\<close>

theorem bedrock_frames:
  assumes "fs \<noteq> []" and "list_all frame_ok fs"
  shows "(\<forall>body msg. bedrock_ParseResponse body \<noteq> Panic msg) \<and>
    bedrock_ParseResponse (encode_frames fs) =
      Ret (case fold (\<lambda>(c, h, p). bedrock_event p) fs None of
             None \<Rightarrow> zero_metrics\<lparr>um_provider := ''bedrock''\<rparr>
           | Some u \<Rightarrow> buildBedrockMetrics u)"
  using bedrock_no_panic isEventStream_encoded [OF assms] walk_encoded [OF assms(2), of "[]" None]
  by (simp add: bedrock_ParseResponse_def parseEventStreamResponse_def split: option.splits)

theorem bedrock_frames_witness:
  "bedrock_ParseResponse (encode_frames
     [(''abcdefgh'', ''xy'', CHR ''{'' # print_str ''usage'' @ '':{'' @ print_str ''inputTokens'' @ '':7}}''),
      (''abcdefgh'', [], ''{}'')])
   = Ret (buildBedrockMetrics (zero_bedrock_usage\<lparr>bu_input := 7\<rparr>))"
proof -
  let ?fs = "[(''abcdefgh'', ''xy'', CHR ''{'' # print_str ''usage'' @ '':{'' @ print_str ''inputTokens'' @ '':7}}''),
      (''abcdefgh'', [], ''{}'')]"
  have "fold (\<lambda>(c, h, p). bedrock_event p) ?fs None = Some (zero_bedrock_usage\<lparr>bu_input := 7\<rparr>)"
    by code_simp
  moreover have "list_all frame_ok ?fs" by (simp add: frame_ok_def print_str_def)
  ultimately show ?thesis using bedrock_frames [of ?fs] by simp
qed

section \<open>The model in a Bedrock path\<close>

lemma last_index_suffix_iff:
  assumes "p \<noteq> []"
  shows "(\<exists>i. last_index s p = Some i \<and> i + length p = length s) \<longleftrightarrow> (\<exists>r. s = r @ p)"
proof
  assume "\<exists>i. last_index s p = Some i \<and> i + length p = length s"
  then obtain i where i: "last_index s p = Some i" "i + length p = length s" by blast
  from last_index_split [OF i(1)] obtain r where r: "s = take i s @ p @ r" by blast
  then have "length s = min (length s) i + length p + length r"
    by (metis length_append length_take add.assoc)
  then have "r = []" using i(2) by simp
  then show "\<exists>r. s = r @ p" using r by (metis append_Nil2)
next
  assume "\<exists>r. s = r @ p"
  then show "\<exists>i. last_index s p = Some i \<and> i + length p = length s"
    using last_index_suffix [OF assms] by auto
qed


text \<open>The cut of one suffix: what is before it, when that is not empty.\<close>

lemma cut_suffix:
  assumes "p \<noteq> []"
  shows "(case last_index rest p of
            Some idx \<Rightarrow> if 0 < idx \<and> idx + length p = length rest then Some (take idx rest) else None
          | None \<Rightarrow> None) = Some m \<longleftrightarrow> rest = m @ p \<and> m \<noteq> []"
  using last_index_suffix [OF assms, of m] last_index_suffix_iff [OF assms, of rest]
  by (auto split: option.splits if_splits)

lemma two_cuts:
  assumes c1: "\<And>k. c1 = Some k \<longleftrightarrow> rest = k @ p1 \<and> k \<noteq> []"
    and c2: "\<And>k. c2 = Some k \<longleftrightarrow> rest = k @ p2 \<and> k \<noteq> []"
    and ns: "\<And>a b. a @ p1 \<noteq> b @ p2" and m: "m \<noteq> []"
  shows "(case c1 of Some k \<Rightarrow> k | None \<Rightarrow> (case c2 of Some k \<Rightarrow> k | None \<Rightarrow> [])) = m
    \<longleftrightarrow> rest = m @ p2 \<or> rest = m @ p1"
proof (cases c1)
  case (Some k)
  then have "rest = k @ p1" using c1 by blast
  then show ?thesis using Some ns [of k m] by auto
next
  case None
  then have n1: "rest \<noteq> m @ p1" using c1 [of m] m by simp
  show ?thesis
  proof (cases c2)
    case (Some k)
    then have "rest = k @ p2" using c2 by blast
    then show ?thesis using Some None n1 by auto
  next
    case n2: None
    then have "rest \<noteq> m @ p2" using c2 [of m] m by simp
    then show ?thesis using n2 None n1 m by simp
  qed
qed

text \<open>The model identifier of a Bedrock invocation is read back from its path: the extraction
  gives a non-empty model exactly for the paths /model/{model}/converse and
  /model/{model}/converse-stream with that model.\<close>

theorem bedrock_model_path:
  assumes "m \<noteq> []"
  shows "ExtractBedrockModelFromPath path = m \<longleftrightarrow>
           path = ''/model/'' @ m @ ''/converse'' \<or> path = ''/model/'' @ m @ ''/converse-stream''"
proof (cases "has_prefix path ''/model/''")
  case False
  then show ?thesis using assms by (auto simp: ExtractBedrockModelFromPath_def)
next
  case True
  then obtain rest where path: "path = ''/model/'' @ rest" by blast
  have ns: "m' @ ''/converse-stream'' \<noteq> m'' @ ''/converse''" for m' m'' :: string
  proof
    assume "m' @ ''/converse-stream'' = m'' @ ''/converse''"
    then have "last (m' @ ''/converse-stream'') = last (m'' @ ''/converse'')" by (rule arg_cong)
    then show False by simp
  qed
  let ?cut = "\<lambda>suffix. case last_index rest suffix of
      Some idx \<Rightarrow> if 0 < idx \<and> idx + length suffix = length rest then Some (take idx rest) else None
    | None \<Rightarrow> None"
  define c1 where "c1 = ?cut ''/converse-stream''"
  define c2 where "c2 = ?cut ''/converse''"
  have c1: "c1 = Some k \<longleftrightarrow> rest = k @ ''/converse-stream'' \<and> k \<noteq> []"
   and c2: "c2 = Some k \<longleftrightarrow> rest = k @ ''/converse'' \<and> k \<noteq> []" for k
    unfolding c1_def c2_def by (rule cut_suffix, simp)+
  have eq: "ExtractBedrockModelFromPath path
      = (case c1 of Some k \<Rightarrow> k | None \<Rightarrow> (case c2 of Some k \<Rightarrow> k | None \<Rightarrow> []))"
    unfolding c1_def c2_def ExtractBedrockModelFromPath_def path by (simp add: Let_def)
  have r: "(case c1 of Some k \<Rightarrow> k | None \<Rightarrow> (case c2 of Some k \<Rightarrow> k | None \<Rightarrow> [])) = m
      \<longleftrightarrow> rest = m @ ''/converse'' \<or> rest = m @ ''/converse-stream''"
    using c1 c2 ns assms by (rule two_cuts)
  show ?thesis unfolding eq r by (simp add: path)
qed


theorem bedrock_model_path_witness:
  "ExtractBedrockModelFromPath ''/model/anthropic.claude/converse-stream'' = ''anthropic.claude''"
  using bedrock_model_path [of "''anthropic.claude''" "''/model/anthropic.claude/converse-stream''"]
  by simp

section \<open>The total-input convention\<close>

text \<open>The usage a parser reports, in the fields the provider counts separately. For Anthropic and
  Bedrock the reported input is the sum of the fresh, the read and the written input tokens.\<close>

lemma anthropic_input:
  "um_input_tokens (buildMetrics r) =
     wrap64 (au_input_tokens (ar_usage r) + um_cached_tokens (buildMetrics r)
             + um_cache_creation_tokens (buildMetrics r))"
  by (simp add: buildMetrics_def Let_def)

lemma dec_int_range: "dec_int j v = (n, False) \<Longrightarrow> in_int64 v \<Longrightarrow> in_int64 n"
  by (auto simp: dec_int_def num_int_def Let_def split: json.splits option.splits if_splits prod.splits)

end
