(* ===== verification/Float64.thy ===== *)
theory Float64
  imports Go_Json Complex_Main
begin

text \<open>
  The float64 arithmetic of the cost computation: a float64 is a real, and every operation rounds
  its exact result to 53 significant bits, ties to even. Overflow to infinity and the gradual
  underflow below 2 to the -1022 are not modelled (the amounts are token counts times prices).
\<close>

definition round_even :: "real \<Rightarrow> int" where
  "round_even r = (let f = \<lfloor>r\<rfloor>; d = r - of_int f in
     if d < 1 / 2 then f else if d > 1 / 2 then f + 1 else if even f then f else f + 1)"

definition exponent :: "real \<Rightarrow> int" where
  "exponent x = \<lfloor>log 2 \<bar>x\<bar>\<rfloor>"

definition scale :: "int \<Rightarrow> real" where
  "scale e = 2 powi (e - 52)"

definition fl :: "real \<Rightarrow> real" where
  "fl x = (if x = 0 then 0 else of_int (round_even (x / scale (exponent x))) * scale (exponent x))"

section \<open>Rounding\<close>

lemma round_even_bounds: "\<lfloor>r\<rfloor> \<le> round_even r" "round_even r \<le> \<lfloor>r\<rfloor> + 1"
  by (auto simp: round_even_def Let_def)

lemma round_even_of_int [simp]: "round_even (of_int k) = k"
  by (simp add: round_even_def)

lemma round_even_numeral [simp]: "round_even (numeral k) = numeral k"
  using round_even_of_int [of "numeral k"] by (simp del: round_even_of_int)

lemma round_even_mono: "r \<le> s \<Longrightarrow> round_even r \<le> round_even s"
proof (cases "\<lfloor>r\<rfloor> = \<lfloor>s\<rfloor>")
  case True
  assume "r \<le> s"
  then show ?thesis using True by (auto simp: round_even_def Let_def)
next
  case False
  assume "r \<le> s"
  then have "\<lfloor>r\<rfloor> + 1 \<le> \<lfloor>s\<rfloor>" using False floor_mono [of r s] by linarith
  then show ?thesis using round_even_bounds(2) [of r] round_even_bounds(1) [of s] by linarith
qed

lemma scale_pos [simp]: "0 < scale e"
  by (simp add: scale_def)

lemma scale_nonzero [simp]: "scale e \<noteq> 0"
  using scale_pos [of e] by linarith

lemma scale_Suc: "scale (e + 1) = 2 * scale e"
  unfolding scale_def by (simp add: power_int_diff power_int_add)

lemma scale_52: "scale e * 2 ^ 52 = 2 powi e"
  unfolding scale_def by (simp add: power_int_diff)

lemma exponent_bounds:
  assumes "0 < x"
  shows "2 powi (exponent x) \<le> x" "x < 2 powi (exponent x + 1)"
proof -
  have l: "of_int (exponent x) \<le> log 2 x" "log 2 x < of_int (exponent x) + 1"
    using assms by (auto simp: exponent_def)
  have "2 powr (of_int (exponent x)) \<le> x" using l(1) assms by (simp add: le_log_iff [symmetric])
  moreover have "x < 2 powr (of_int (exponent x + 1))" using l(2) assms by (simp add: log_less_iff)
  ultimately show "2 powi (exponent x) \<le> x" "x < 2 powi (exponent x + 1)"
    by (simp_all add: powr_real_of_int' del: of_int_add)
qed

lemma exponent_unique:
  assumes "2 powi e \<le> x" "x < 2 powi (e + 1)"
  shows "exponent x = e"
proof -
  have x: "0 < x" using assms(1) by (meson less_le_trans zero_less_numeral zero_less_power_int)
  have "2 powr (of_int e) \<le> x" "x < 2 powr (of_int (e + 1))"
    using assms by (simp_all add: powr_real_of_int' del: of_int_add)
  then have "of_int e \<le> log 2 x" "log 2 x < of_int e + 1"
    using x by (simp_all add: le_log_iff log_less_iff)
  then show ?thesis using x by (simp add: exponent_def floor_eq_iff)
qed

lemma fl_0 [simp]: "fl 0 = 0"
  by (simp add: fl_def)

lemma fl_pos:
  assumes "0 < x"
  shows "\<exists>m. fl x = of_int m * scale (exponent x) \<and> 2 ^ 52 \<le> m \<and> m \<le> 2 ^ 53"
proof -
  let ?e = "exponent x" and ?m = "round_even (x / scale (exponent x))"
  have "2 ^ 52 \<le> x / scale ?e"
    using exponent_bounds(1) [OF assms] by (simp add: pos_le_divide_eq scale_52 [symmetric] mult.commute)
  then have "2 ^ 52 \<le> ?m"
    using round_even_mono [of "of_int (2 ^ 52)" "x / scale ?e"] by simp
  moreover have "x / scale ?e \<le> 2 ^ 53"
  proof -
    have "x \<le> scale ?e * 2 ^ 53"
      using exponent_bounds(2) [OF assms] scale_52 [of ?e] by (simp add: power_int_add)
    then show ?thesis by (simp add: pos_divide_le_eq mult.commute)
  qed
  then have "?m \<le> 2 ^ 53"
    using round_even_mono [of "x / scale ?e" "of_int (2 ^ 53)"] by simp
  ultimately show ?thesis using assms by (auto simp: fl_def)
qed

lemma fl_nonneg [simp]: "0 \<le> x \<Longrightarrow> 0 \<le> fl x"
proof (cases "x = 0")
  case False
  assume "0 \<le> x"
  then obtain m where "fl x = of_int m * scale (exponent x)" "2 ^ 52 \<le> m"
    using fl_pos [of x] False by auto
  then show ?thesis by (simp add: less_imp_le)
qed simp

lemma exponent_mono: "0 < x \<Longrightarrow> x \<le> y \<Longrightarrow> exponent x \<le> exponent y"
  by (auto simp: exponent_def intro!: floor_mono)

lemma fl_between:
  assumes "0 < x"
  shows "2 powi (exponent x) \<le> fl x" "fl x \<le> 2 powi (exponent x + 1)"
proof -
  obtain m where m: "fl x = of_int m * scale (exponent x)" "2 ^ 52 \<le> m" "m \<le> 2 ^ 53"
    using fl_pos [OF assms] by blast
  have "(of_int (2 ^ 52) :: real) \<le> of_int m" using m(2) by (simp only: of_int_le_iff)
  moreover have "of_int m \<le> (of_int (2 ^ 53) :: real)" using m(3) by (simp only: of_int_le_iff)
  ultimately have "(2 ^ 52 :: real) \<le> of_int m" "of_int m \<le> (2 ^ 53 :: real)" by simp_all
  then have "2 ^ 52 * scale (exponent x) \<le> fl x" "fl x \<le> 2 ^ 53 * scale (exponent x)"
    unfolding m(1) using scale_pos [of "exponent x"] by (auto intro: mult_right_mono)
  then show "2 powi (exponent x) \<le> fl x" "fl x \<le> 2 powi (exponent x + 1)"
    using scale_52 [of "exponent x"] by (simp_all add: power_int_add mult.commute)
qed

text \<open>Rounding keeps the order of non-negative numbers, and rounds a rounded number to itself.\<close>

lemma fl_mono: "0 \<le> x \<Longrightarrow> x \<le> y \<Longrightarrow> fl x \<le> fl y"
proof (cases "x = 0")
  case True
  assume "0 \<le> x" "x \<le> y"
  then show ?thesis using True by simp
next
  case False
  assume "0 \<le> x" "x \<le> y"
  then have x: "0 < x" "x \<le> y" using False by auto
  then have y: "0 < y" by simp
  show ?thesis
  proof (cases "exponent x = exponent y")
    case True
    have "x / scale (exponent y) \<le> y / scale (exponent y)"
      using x by (simp add: divide_right_mono less_imp_le)
    from round_even_mono [OF this] show ?thesis
      using x y True by (simp add: fl_def mult_right_mono less_imp_le)
  next
    case False
    then have "exponent x + 1 \<le> exponent y" using exponent_mono [OF x] by simp
    then have "2 powi (exponent x + 1) \<le> (2 powi (exponent y) :: real)"
      by (simp add: power_int_increasing)
    then show ?thesis using fl_between [OF x(1)] fl_between [OF y] by linarith
  qed
qed

lemma fl_idem: "0 \<le> x \<Longrightarrow> fl (fl x) = fl x"
proof (cases "x = 0")
  case False
  assume "0 \<le> x"
  then have x: "0 < x" using False by simp
  obtain m where m: "fl x = of_int m * scale (exponent x)" "2 ^ 52 \<le> m" "m \<le> 2 ^ 53"
    using fl_pos [OF x] by blast
  have pos: "0 < fl x" using m scale_pos [of "exponent x"] by (simp add: mult_pos_pos)
  show ?thesis
  proof (cases "m = 2 ^ 53")
    case True
    then have eq: "fl x = 2 powi (exponent x + 1)"
      using m(1) scale_52 [of "exponent x"] by (simp add: power_int_add mult.commute)
    then have e: "exponent (fl x) = exponent x + 1"
      by (intro exponent_unique) (simp_all add: power_int_strict_increasing)
    have "fl x / scale (exponent x + 1) = of_int (2 ^ 52)"
      using eq scale_52 [of "exponent x + 1"] by (simp add: field_simps)
    then have "fl (fl x) = of_int (2 ^ 52) * scale (exponent x + 1)"
      using pos e by (subst fl_def) simp
    then show ?thesis using eq scale_52 [of "exponent x + 1"] by (simp add: mult.commute)
  next
    case False
    then have "m < 2 ^ 53" using m(3) by simp
    then have "(of_int m :: real) < of_int (2 ^ 53)" by (simp only: of_int_less_iff)
    then have "(of_int m :: real) < 2 ^ 53" by simp
    then have "fl x < 2 ^ 53 * scale (exponent x)"
      unfolding m(1) using scale_pos by (simp add: mult_strict_right_mono)
    then have "fl x < 2 powi (exponent x + 1)"
      using scale_52 [of "exponent x"] by (simp add: power_int_add mult.commute)
    then have e: "exponent (fl x) = exponent x"
      using fl_between(1) [OF x] by (intro exponent_unique)
    have "fl x / scale (exponent x) = of_int m" using m(1) by simp
    then show ?thesis using pos e m(1) by (subst fl_def) simp
  qed
qed simp

section \<open>The float operations\<close>

definition fadd :: "real \<Rightarrow> real \<Rightarrow> real" where "fadd x y = fl (x + y)"
definition fmul :: "real \<Rightarrow> real \<Rightarrow> real" where "fmul x y = fl (x * y)"
definition fdiv :: "real \<Rightarrow> real \<Rightarrow> real" where "fdiv x y = fl (x / y)"
definition ffloat :: "int \<Rightarrow> real" where "ffloat n = fl (of_int n)"

lemma fadd_nonneg [simp]: "0 \<le> x \<Longrightarrow> 0 \<le> y \<Longrightarrow> 0 \<le> fadd x y"
  by (simp add: fadd_def)

lemma fmul_nonneg [simp]: "0 \<le> x \<Longrightarrow> 0 \<le> y \<Longrightarrow> 0 \<le> fmul x y"
  by (simp add: fmul_def)

lemma fdiv_nonneg [simp]: "0 \<le> x \<Longrightarrow> 0 \<le> y \<Longrightarrow> 0 \<le> fdiv x y"
  by (simp add: fdiv_def)

lemma ffloat_nonneg [simp]: "0 \<le> n \<Longrightarrow> 0 \<le> ffloat n"
  by (simp add: ffloat_def)

lemma ffloat_0 [simp]: "ffloat 0 = 0"
  by (simp add: ffloat_def)

lemma fadd_0 [simp]: "fadd 0 0 = 0" "fmul 0 p = 0" "fdiv 0 q = 0"
  by (simp_all add: fadd_def fmul_def fdiv_def)

text \<open>A sum is at least each of its terms that is itself a float.\<close>

lemma fadd_ge: "0 \<le> x \<Longrightarrow> 0 \<le> y \<Longrightarrow> fl x = x \<Longrightarrow> x \<le> fadd x y"
  unfolding fadd_def by (metis fl_mono le_add_same_cancel1)

lemma fadd_commute: "fadd x y = fadd y x"
  by (simp add: fadd_def add.commute)

lemma fl_fadd [simp]: "0 \<le> x \<Longrightarrow> 0 \<le> y \<Longrightarrow> fl (fadd x y) = fadd x y"
  by (simp add: fadd_def fl_idem)

lemma fl_fdiv [simp]: "0 \<le> x \<Longrightarrow> 0 \<le> y \<Longrightarrow> fl (fdiv x y) = fdiv x y"
  by (simp add: fdiv_def fl_idem)

section \<open>Reading a float\<close>

definition split_at :: "char \<Rightarrow> string \<Rightarrow> string \<times> string" where
  "split_at b s = (takeWhile (\<lambda>c. c \<noteq> b) s, drop 1 (dropWhile (\<lambda>c. c \<noteq> b) s))"

definition signed_digits :: "string \<Rightarrow> int" where
  "signed_digits s = (case s of
     c # cs \<Rightarrow> if c = CHR ''-'' then - digits_val cs
              else if c = CHR ''+'' then digits_val cs else digits_val s
   | [] \<Rightarrow> 0)"

text \<open>The exact value of a number lexeme, and the float64 that ParseFloat gives for it; a value
  beyond the range of float64 is an error.\<close>

definition num_real :: "string \<Rightarrow> real" where
  "num_real l =
     (let neg = has_prefix l ''-'';
          u = trim_prefix l ''-'';
          (man, ex) = split_at (CHR ''e'') (map (\<lambda>c. if c = CHR ''E'' then CHR ''e'' else c) u);
          (ip, fp) = split_at (CHR ''.'') man;
          v = of_int (digits_val (ip @ fp)) * 10 powi (signed_digits ex - int (length fp))
      in if neg then - v else v)"

definition num_float :: "string \<Rightarrow> real option" where
  "num_float l = (let v = num_real l; r = (if v < 0 then - fl (- v) else fl v) in
     if \<bar>r\<bar> < 2 ^ 1024 then Some r else None)"

definition dec_float :: "real dec" where
  "dec_float j v = (case j of
     JNum l \<Rightarrow> (case num_float l of Some r \<Rightarrow> (r, False) | None \<Rightarrow> (v, True))
   | JNull \<Rightarrow> (v, False)
   | _ \<Rightarrow> (v, True))"

end
