(* ===== verification/Json_Facts.thy ===== *)
theory Json_Facts
  imports Go_Json
begin

text \<open>
  Facts about the JSON model: what the parser accepts prints back to itself, string lexemes and
  valid UTF-8 strings correspond, and the texts the program marshals parse to the tree they were
  made of.
\<close>

section \<open>String lexemes\<close>

fun str_ok :: "nat \<Rightarrow> string \<Rightarrow> bool" where
  "str_ok st [] = (st = 0)"
| "str_ok st (c # cs) = (case str_step st c of None \<Rightarrow> False | Some st' \<Rightarrow> str_ok st' cs)"

fun str_run :: "nat \<Rightarrow> string \<Rightarrow> nat option" where
  "str_run st [] = Some st"
| "str_run st (c # cs) = (case str_step st c of None \<Rightarrow> None | Some st' \<Rightarrow> str_run st' cs)"

definition wf_raw :: "string \<Rightarrow> bool" where
  "wf_raw l = str_ok 0 l"

lemma str_step_quote [simp]: "str_step 0 quote_byte = None"
  by (simp add: str_step_def)

lemma str_ok_append: "str_run st a = Some st' \<Longrightarrow> str_ok st (a @ b) = str_ok st' b"
  by (induction a arbitrary: st) (auto split: option.splits)

lemma lex_str_from_sound:
  "lex_str_from st s = Some (l, r) \<Longrightarrow> s = l @ quote_byte # r \<and> str_ok st l"
  by (induction s arbitrary: st l) (auto split: if_splits option.splits)

lemma lex_str_from_complete:
  "str_ok st l \<Longrightarrow> lex_str_from st (l @ quote_byte # r) = Some (l, r)"
  by (induction l arbitrary: st) (auto split: option.splits)

lemma lex_str_sound: "lex_str s = Some (l, r) \<Longrightarrow> s = l @ quote_byte # r \<and> wf_raw l"
  unfolding lex_str_def wf_raw_def by (rule lex_str_from_sound)

lemma lex_str_complete [simp]: "wf_raw l \<Longrightarrow> lex_str (l @ quote_byte # r) = Some (l, r)"
  unfolding lex_str_def wf_raw_def by (rule lex_str_from_complete)

section \<open>UTF-8\<close>

fun valid_from :: "nat \<Rightarrow> string \<Rightarrow> bool" where
  "valid_from k [] = (k = 0)"
| "valid_from (Suc k) (c # cs) = (is_cont c \<and> valid_from k cs)"
| "valid_from 0 (c # cs) =
     (if (of_char c :: nat) < 128 then valid_from 0 cs
      else (case utf8_cont c cs of Some k \<Rightarrow> valid_from k cs | None \<Rightarrow> False))"

definition valid_utf8 :: "string \<Rightarrow> bool" where
  "valid_utf8 s = valid_from 0 s"

lemma is_ascii_valid: "is_ascii s \<Longrightarrow> valid_utf8 s"
  unfolding valid_utf8_def is_ascii_def by (induction s) auto

lemma in_range_weaken: "in_range a b c \<Longrightarrow> a' \<le> a \<Longrightarrow> b \<le> b' \<Longrightarrow> in_range a' b' c"
  by (auto simp: in_range_def)

lemma utf8_cont_split:
  assumes "utf8_cont c cs = Some k"
  shows "\<exists>xs r. cs = xs @ r \<and> length xs = k \<and> list_all is_cont xs
           \<and> (\<forall>r'. utf8_cont c (xs @ r') = Some k)"
proof -
  have weaken: "in_range (if b then 0xA0 else 0x80) (if b' then 0x9F else 0xBF) x \<Longrightarrow> is_cont x"
    "in_range (if b then 0x90 else 0x80) (if b' then 0x8F else 0xBF) x \<Longrightarrow> is_cont x" for b b' x
    by (auto simp: in_range_def split: if_splits)
  consider (two) "in_range 0xC2 0xDF c" | (three) "\<not> in_range 0xC2 0xDF c" "in_range 0xE0 0xEF c"
    | (four) "\<not> in_range 0xC2 0xDF c" "\<not> in_range 0xE0 0xEF c" "in_range 0xF0 0xF4 c"
    using assms by (auto split: if_splits)
  then show ?thesis
  proof cases
    case two
    then obtain c1 r where "cs = c1 # r" "is_cont c1" "k = 1"
      using assms by (auto split: list.splits if_splits)
    then show ?thesis using two by (intro exI [of _ "[c1]"] exI [of _ r]) simp
  next
    case three
    then obtain c1 c2 r where "cs = c1 # c2 # r" "k = 2" "is_cont c2"
      "in_range (if c = CHR 0xE0 then 0xA0 else 0x80) (if c = CHR 0xED then 0x9F else 0xBF) c1"
      using assms by (auto split: list.splits if_splits)
    then show ?thesis using three weaken(1)
      by (intro exI [of _ "[c1, c2]"] exI [of _ r]) simp
  next
    case four
    then obtain c1 c2 c3 r where "cs = c1 # c2 # c3 # r" "k = 3" "is_cont c2" "is_cont c3"
      "in_range (if c = CHR 0xF0 then 0x90 else 0x80) (if c = CHR 0xF4 then 0x8F else 0xBF) c1"
      using assms by (auto split: list.splits if_splits)
    then show ?thesis using four weaken(2)
      by (intro exI [of _ "[c1, c2, c3]"] exI [of _ r]) simp
  qed
qed

lemma valid_from_conts: "list_all is_cont xs \<Longrightarrow> valid_from (length xs) (xs @ r) = valid_from 0 r"
  by (induction xs) auto

lemma unquote_from_conts: "unquote_from (length xs) (xs @ r) = xs @ unquote_from 0 r"
  by (induction xs) auto

lemma quote_from_conts: "quote_from (length xs) (xs @ r) = xs @ quote_from 0 r"
  by (induction xs) auto

text \<open>One step of a valid string: an ASCII byte or a whole multi-byte sequence.\<close>

lemma valid_utf8_induct [consumes 1, case_names Nil ascii multi]:
  assumes "valid_from 0 s"
    and "P []"
    and "\<And>c cs. (of_char c :: nat) < 128 \<Longrightarrow> valid_from 0 cs \<Longrightarrow> P cs \<Longrightarrow> P (c # cs)"
    and "\<And>c xs cs. \<not> (of_char c :: nat) < 128 \<Longrightarrow> list_all is_cont xs
           \<Longrightarrow> (\<And>r. utf8_cont c (xs @ r) = Some (length xs)) \<Longrightarrow> valid_from 0 cs \<Longrightarrow> P cs
           \<Longrightarrow> P (c # xs @ cs)"
  shows "P s"
  using assms(1)
proof (induction s rule: length_induct)
  case (1 s)
  show ?case
  proof (cases s)
    case Nil
    then show ?thesis using assms(2) by simp
  next
    case (Cons c cs)
    show ?thesis
    proof (cases "(of_char c :: nat) < 128")
      case True
      then show ?thesis using 1 Cons assms(3) [of c cs] by auto
    next
      case False
      then obtain k where k: "utf8_cont c cs = Some k" "valid_from k cs"
        using 1 Cons by (auto simp del: utf8_cont.simps split: option.splits)
      from utf8_cont_split [OF k(1)] obtain xs r where
        "cs = xs @ r" "length xs = k" "list_all is_cont xs" "\<forall>r'. utf8_cont c (xs @ r') = Some k"
        by blast
      moreover from this have "valid_from 0 r"
        using k(2) valid_from_conts [of xs r] by simp
      ultimately show ?thesis
        using False assms(4) [of c xs r] 1 Cons by (auto simp del: utf8_cont.simps)
    qed
  qed
qed

lemma valid_from_append: "valid_from 0 a \<Longrightarrow> valid_from 0 b \<Longrightarrow> valid_from 0 (a @ b)"
  by (induction a rule: valid_utf8_induct)
     (auto simp: valid_from_conts simp del: utf8_cont.simps)


lemma of_char_of_less: "n < 256 \<Longrightarrow> of_char (char_of n :: char) = (n :: nat)"
  by simp

lemma char_of_eq_iff: "n < 256 \<Longrightarrow> (char_of n = (c :: char)) = (n = (of_char c :: nat))"
  by (metis char_of_char of_char_of_less)

lemma in_range_char_of [simp]:
  "n < 256 \<Longrightarrow> in_range lo hi (char_of n) = (lo \<le> n \<and> n \<le> hi)"
  by (simp add: in_range_def)

lemma three_bytes_valid:
  assumes "a < 16" "b < 64" "c < 64" "a = 0 \<Longrightarrow> 32 \<le> b" "a = 13 \<Longrightarrow> b < 32"
  shows "valid_from 0 [char_of (0xE0 + a :: nat), char_of (0x80 + b :: nat), char_of (0x80 + c :: nat)]"
proof -
  have eq: "char_of (0xE0 + a) = CHR 0xE0 \<longleftrightarrow> a = 0" "char_of (0xE0 + a) = CHR 0xED \<longleftrightarrow> a = 13"
    using assms(1) by (simp_all add: char_of_eq_iff)
  have "utf8_cont (char_of (0xE0 + a)) [char_of (0x80 + b), char_of (0x80 + c)] = Some 2"
    using assms by (simp add: eq) fastforce
  then show ?thesis using assms(1,2,3)
    by (simp add: numeral_2_eq_2 del: utf8_cont.simps)
qed

lemma four_bytes_valid:
  assumes "a < 5" "b < 64" "c < 64" "d < 64" "a = 0 \<Longrightarrow> 16 \<le> b" "a = 4 \<Longrightarrow> b < 16"
  shows "valid_from 0 [char_of (0xF0 + a :: nat), char_of (0x80 + b :: nat), char_of (0x80 + c :: nat),
           char_of (0x80 + d :: nat)]"
proof -
  have eq: "char_of (0xF0 + a) = CHR 0xF0 \<longleftrightarrow> a = 0" "char_of (0xF0 + a) = CHR 0xF4 \<longleftrightarrow> a = 4"
    using assms(1) by (simp_all add: char_of_eq_iff)
  have "utf8_cont (char_of (0xF0 + a)) [char_of (0x80 + b), char_of (0x80 + c), char_of (0x80 + d)]
      = Some 3"
    using assms by (simp add: eq) fastforce
  then show ?thesis using assms(1,2,3,4)
    by (simp add: numeral_3_eq_3 del: utf8_cont.simps)
qed

lemma mod_window:
  fixes x :: nat
  assumes "m * 64 \<le> x" "x < m * 64 + w" "w \<le> 64"
  shows "x mod 64 < w"
proof -
  obtain y where y: "x = m * 64 + y" using assms(1) le_Suc_ex by blast
  then have "y < w" using assms(2) by simp
  then show ?thesis using y assms(3) by simp
qed

lemma utf8_encode_valid:
  assumes "r < 0x110000" "\<not> is_surrogate r"
  shows "valid_from 0 (utf8_encode r)"
proof -
  consider "r < 0x80" | "0x80 \<le> r" "r < 0x800" | "0x800 \<le> r" "r < 0x10000" | "0x10000 \<le> r"
    by linarith
  then show ?thesis
  proof cases
    case 1
    then show ?thesis by (simp add: utf8_encode_def)
  next
    case 2
    then have "r div 0x40 \<ge> 2" "r div 0x40 < 0x20" "r mod 0x40 < 0x40" by auto
    then show ?thesis using 2
      by (simp add: utf8_encode_def in_range_def)
  next
    case 3
    have b: "r div 0x1000 < 0x10" "r div 0x40 mod 0x40 < 0x40" "r mod 0x40 < 0x40"
      using 3 by auto
    have e0: "r div 0x1000 = 0 \<Longrightarrow> r div 0x40 mod 0x40 \<ge> 0x20" using 3 by auto
    have ed: "r div 0x40 mod 0x40 < 0x20" if "r div 0x1000 = 13"
    proof -
      have "832 \<le> r div 0x40" "r div 0x40 < 864"
        using that assms(2) unfolding is_surrogate_def by auto
      then show ?thesis using mod_window [where m = 13 and x = "r div 0x40" and w = 32] that by simp
    qed
    have "valid_from 0 [char_of (0xE0 + r div 0x1000), char_of (0x80 + r div 0x40 mod 0x40),
      char_of (0x80 + r mod 0x40)]"
      using b e0 ed by (rule three_bytes_valid)
    moreover have "\<not> r < 0x80" "\<not> r < 0x800" "r < 0x10000" using 3 by linarith+
    ultimately show ?thesis by (simp only: utf8_encode_def if_True if_False)
  next
    case 4
    have b: "r div 0x40000 < 5" "r div 0x1000 mod 0x40 < 0x40" "r div 0x40 mod 0x40 < 0x40"
      "r mod 0x40 < 0x40"
      using assms(1) by auto
    have f0: "r div 0x40000 = 0 \<Longrightarrow> r div 0x1000 mod 0x40 \<ge> 0x10" using 4 by auto
    have f4: "r div 0x1000 mod 0x40 < 0x10" if "r div 0x40000 = 4"
    proof -
      have "256 \<le> r div 0x1000" "r div 0x1000 < 272"
        using that assms(1) by auto
      then show ?thesis using mod_window [where m = 4 and x = "r div 0x1000" and w = 16] that by simp
    qed
    have "valid_from 0 [char_of (0xF0 + r div 0x40000), char_of (0x80 + r div 0x1000 mod 0x40),
      char_of (0x80 + r div 0x40 mod 0x40), char_of (0x80 + r mod 0x40)]"
      using b f0 f4 by (rule four_bytes_valid)
    moreover have "\<not> r < 0x80" "\<not> r < 0x800" "\<not> r < 0x10000" using 4 by linarith+
    ultimately show ?thesis by (simp only: utf8_encode_def if_True if_False)
  qed
qed

lemma hex_digit_facts:
  assumes "k < 16"
  shows "hex_val (hex_digit k) = k" "is_hex (hex_digit k)"
proof -
  have "k \<in> {0,1,2,3,4,5,6,7,8,9,10,11,12,13,14,15}"
    using assms unfolding insert_iff empty_iff by presburger
  then show "hex_val (hex_digit k) = k" "is_hex (hex_digit k)"
    by (auto simp: hex_digit_def hex_val_def is_hex_def char_of_eq_iff)
qed

lemma u_escape_unquote:
  assumes "(of_char c :: nat) < 128"
  shows "unquote_from 0 (u_escape c @ t) = c # unquote_from 0 t"
proof -
  have d: "of_char c div 16 < (16::nat)" "of_char c mod 16 < (16::nat)" using assms by auto
  have "hex4 CHR ''0'' CHR ''0'' (hex_digit (of_char c div 16)) (hex_digit (of_char c mod 16)) = of_char c"
    using d by (simp add: hex4_def hex_digit_facts) (simp add: hex_val_def)
  then show ?thesis using assms
    by (simp add: u_escape_def u_decode_def utf8_encode_def is_surrogate_def)
qed

lemma u_escape_run:
  assumes "(of_char c :: nat) < 128"
  shows "str_run 0 (u_escape c) = Some 0"
proof -
  have d: "of_char c div 16 < (16::nat)" "of_char c mod 16 < (16::nat)" using assms by auto
  moreover have "is_hex CHR ''0''" "\<not> is_simple_escape CHR ''u''"
    by (simp_all add: is_hex_def is_simple_escape_def)
  ultimately show ?thesis
    by (simp add: u_escape_def str_step_def hex_digit_facts is_simple_escape_def)
qed

lemma hex_digit_not_html [simp]: "k < 16 \<Longrightarrow> \<not> is_html (hex_digit k)"
  using hex_digit_facts(2) [of k] by (auto simp: is_hex_def is_html_def)

lemma hex_digit_not_sep [simp]: "k < 16 \<Longrightarrow> \<not> is_line_sep (hex_digit k) cs"
  using hex_digit_facts(2) [of k] by (auto simp: is_hex_def is_line_sep_def)

lemma u_escape_esc_html:
  assumes "(of_char c :: nat) < 128"
  shows "esc_html (u_escape c @ t) = u_escape c @ esc_html t"
proof -
  have d: "of_char c div 16 < (16::nat)" "of_char c mod 16 < (16::nat)" using assms by auto
  then show ?thesis
    by (simp add: u_escape_def) (simp add: is_html_def is_line_sep_def)
qed

lemma quote_ascii_unquote:
  assumes "(of_char c :: nat) < 128"
  shows "unquote_from 0 (quote_ascii c @ t) = c # unquote_from 0 t"
  using assms u_escape_unquote [OF assms]
  by (auto simp: quote_ascii_def unescape_def)

lemma quote_ascii_run:
  assumes "(of_char c :: nat) < 128"
  shows "str_run 0 (quote_ascii c) = Some 0"
  using assms u_escape_run [OF assms]
  by (auto simp: quote_ascii_def str_step_def is_simple_escape_def)

lemma quote_ascii_esc_html:
  assumes "(of_char c :: nat) < 128"
  shows "esc_html (quote_ascii c @ t) = quote_ascii c @ esc_html t"
  using assms u_escape_esc_html [OF assms]
  by (auto simp: quote_ascii_def is_html_def is_line_sep_def)

text \<open>A continuation byte is an ordinary byte of a string.\<close>

lemma cont_facts:
  assumes "is_cont c"
  shows "str_step 0 c = Some 0" "\<not> is_html c" "\<not> is_line_sep c cs"
  using assms by (auto simp: in_range_def str_step_def is_html_def is_line_sep_def)

lemma conts_run: "list_all is_cont xs \<Longrightarrow> str_run 0 xs = Some 0"
  by (induction xs) (auto simp: cont_facts)

lemma conts_esc_html: "list_all is_cont xs \<Longrightarrow> esc_html (xs @ t) = xs @ esc_html t"
  by (induction xs) (auto simp: cont_facts)

lemma lead_facts:
  assumes "\<not> (of_char c :: nat) < 128"
  shows "str_step 0 c = Some 0" "\<not> is_html c" "c \<noteq> backslash"
  using assms by (auto simp: str_step_def is_html_def)

lemma unquote_quote_from: "valid_from 0 s \<Longrightarrow> unquote_from 0 (quote_from 0 s) = s"
proof (induction s rule: valid_utf8_induct)
  case (multi c xs cs)
  note lead = lead_facts [OF multi(1)]
  show ?case
  proof (cases "is_line_sep c (xs @ cs)")
    case True
    then obtain c2 rs where eq: "c = CHR 0xE2" "xs @ cs = CHR 0x80 # c2 # rs"
      "c2 = CHR 0xA8 \<or> c2 = CHR 0xA9"
      by (auto simp: is_line_sep_def split: list.splits)
    have "length xs = 2"
      using multi(3) [of cs] eq by (auto simp: in_range_def split: if_splits)
    then have xs: "xs = [CHR 0x80, c2]" "rs = cs"
      using eq(2) by (cases xs; cases "tl xs"; auto)+
    show ?thesis using eq(1,3) multi(5)
      by (auto simp: xs is_line_sep_def u_decode_def hex4_def hex_val_def is_surrogate_def utf8_encode_def
          char_of_eq_iff)
  next
    case False
    then have "quote_from 0 (c # xs @ cs) = c # xs @ quote_from 0 cs"
      using multi(1,3) by (simp add: quote_from_conts del: utf8_cont.simps)
    then show ?thesis using multi(1,3,5) lead
      by (simp add: unquote_from_conts del: utf8_cont.simps)
  qed
qed (simp_all add: quote_ascii_unquote)

lemma unquote_quote [simp]: "valid_utf8 s \<Longrightarrow> unquote (quote s) = s"
  by (simp add: unquote_def quote_def valid_utf8_def unquote_quote_from)

lemma e2_length:
  assumes "\<And>r. utf8_cont CHR 0xE2 (xs @ r) = Some (length xs)"
  shows "length xs = 2"
  using assms [of "[]"] by (auto simp: in_range_def split: if_splits list.splits)

lemma line_sep_tail:
  assumes "\<And>r. utf8_cont c (xs @ r) = Some (length xs)"
  shows "is_line_sep c (xs @ t) = is_line_sep c (xs @ u)"
proof (cases "c = CHR 0xE2")
  case True
  then obtain a b where "xs = [a, b]"
    using e2_length [of xs] assms by (auto simp: numeral_2_eq_2 length_Suc_conv)
  then show ?thesis by (simp add: is_line_sep_def)
qed (simp add: is_line_sep_def)

text \<open>Quoting one step at a time: what it writes for a multi-byte sequence.\<close>

lemma quote_multi:
  assumes "\<not> (of_char c :: nat) < 128" "list_all is_cont xs"
    "\<And>r. utf8_cont c (xs @ r) = Some (length xs)"
  shows "\<exists>q. quote_from 0 (c # xs @ cs) = q @ quote_from 0 cs \<and> str_run 0 q = Some 0
             \<and> (\<forall>t. esc_html (q @ t) = q @ esc_html t)"
proof (cases "is_line_sep c (xs @ cs)")
  case True
  then obtain c2 rs where eq: "c = CHR 0xE2" "xs @ cs = CHR 0x80 # c2 # rs"
    "c2 = CHR 0xA8 \<or> c2 = CHR 0xA9"
    by (auto simp: is_line_sep_def split: list.splits)
  have "length xs = 2"
    using assms(3) [of cs] eq by (auto simp: in_range_def split: if_splits)
  then have xs: "xs = [CHR 0x80, c2]" "rs = cs"
    using eq(2) by (cases xs; cases "tl xs"; auto)+
  show ?thesis using eq(1,3)
    by (intro exI [of _ "backslash # ''u202'' @ [if c2 = CHR 0xA8 then CHR ''8'' else CHR ''9'']"])
       (auto simp: xs is_line_sep_def str_step_def is_simple_escape_def is_hex_def is_html_def)
next
  case False
  have q: "quote_from 0 (c # xs @ cs) = (c # xs) @ quote_from 0 cs"
    using False assms(1,3) by (simp add: quote_from_conts del: utf8_cont.simps)
  have "str_run 0 (c # xs) = Some 0"
    using lead_facts(1) [OF assms(1)] conts_run [OF assms(2)] by simp
  moreover have "esc_html ((c # xs) @ t) = (c # xs) @ esc_html t" for t
    using False lead_facts(2) [OF assms(1)] conts_esc_html [OF assms(2)]
      line_sep_tail [OF assms(3), of t cs] by simp
  ultimately show ?thesis using q by blast
qed


lemma str_run_append: "str_run st a = Some st' \<Longrightarrow> str_run st (a @ b) = str_run st' b"
  by (induction a arbitrary: st) (auto split: option.splits)

lemma quote_run:
  "valid_from 0 s \<Longrightarrow> str_run 0 (quote_from 0 s) = Some 0 \<and> esc_html (quote_from 0 s) = quote_from 0 s"
proof (induction s rule: valid_utf8_induct)
  case (ascii c cs)
  then show ?case
    by (simp add: str_run_append quote_ascii_run quote_ascii_esc_html)
next
  case (multi c xs cs)
  from quote_multi [OF multi(1-3), of cs] obtain q where
    "quote_from 0 (c # xs @ cs) = q @ quote_from 0 cs" "str_run 0 q = Some 0"
    "\<forall>t. esc_html (q @ t) = q @ esc_html t" by blast
  then show ?case using multi(5) by (simp add: str_run_append)
qed simp

lemma str_run_ok: "str_run st l = Some 0 \<Longrightarrow> str_ok st l"
  by (induction l arbitrary: st) (auto split: option.splits)

lemma wf_raw_quote [simp]: "valid_utf8 s \<Longrightarrow> wf_raw (quote s)"
  using quote_run by (simp add: wf_raw_def quote_def valid_utf8_def str_run_ok)

lemma esc_html_quote [simp]: "valid_utf8 s \<Longrightarrow> esc_html (quote s) = quote s"
  using quote_run by (simp add: quote_def valid_utf8_def)

lemma esc_html_ok: "str_ok st l \<Longrightarrow> str_ok st (esc_html l)"
proof (induction l arbitrary: st rule: esc_html.induct)
  case (2 c cs)
  consider (html) "is_html c" | (sep) "\<not> is_html c" "is_line_sep c cs"
    | (other) "\<not> is_html c" "\<not> is_line_sep c cs" by blast
  then show ?case
  proof cases
    case html
    then have "(of_char c :: nat) < 128" by (auto simp: is_html_def)
    moreover have "st = 0" "str_step st c = Some 0"
      using 2(4) html by (auto simp: is_html_def str_step_def is_simple_escape_def is_hex_def
          split: option.splits if_splits)
    ultimately show ?thesis using html 2
      by (auto simp: str_ok_append [OF u_escape_run])
  next
    case sep
    then obtain c2 rs where cs: "c = CHR 0xE2" "cs = CHR 0x80 # c2 # rs" "c2 = CHR 0xA8 \<or> c2 = CHR 0xA9"
      by (auto simp: is_line_sep_def split: list.splits)
    have st: "st = 0"
      using 2(4) cs by (auto simp: str_step_def is_simple_escape_def is_hex_def
          split: option.splits if_splits)
    have "str_ok 0 rs" using 2(4) cs st by (auto simp: str_step_def)
    then have "str_ok 0 (esc_html rs)" using 2(2) sep cs by auto
    then show ?thesis using sep cs st
      by (auto simp: is_line_sep_def is_html_def str_step_def is_simple_escape_def is_hex_def)
  next
    case other
    then show ?thesis using 2 by (auto split: option.splits)
  qed
qed simp

lemma wf_raw_esc_html [simp]: "wf_raw l \<Longrightarrow> wf_raw (esc_html l)"
  by (simp add: wf_raw_def esc_html_ok)

section \<open>What a lexeme is read as is valid UTF-8\<close>

lemma is_hex_val: "hex_val c < 16" if "is_hex c"
  using that by (auto simp: is_hex_def hex_val_def)

lemma hex4_bound: "is_hex a \<Longrightarrow> is_hex b \<Longrightarrow> is_hex c \<Longrightarrow> is_hex d \<Longrightarrow> hex4 a b c d < 0x10000"
  using is_hex_val [of a] is_hex_val [of b] is_hex_val [of c] is_hex_val [of d]
  by (simp add: hex4_def)

lemma surrogate_pair_valid:
  assumes "surrogate_pair r r1 = Some p"
  shows "valid_from 0 (utf8_encode p)"
proof (rule utf8_encode_valid)
  show "p < 0x110000" "\<not> is_surrogate p"
    using assms by (auto simp: surrogate_pair_def is_surrogate_def split: if_splits)
qed

lemma replacement_valid: "valid_from 0 replacement"
  by (simp add: replacement_def in_range_def numeral_2_eq_2)

lemma str_ok_backslash:
  assumes "str_ok 0 (backslash # d # ds)"
  shows "if d = CHR ''u''
         then \<exists>h1 h2 h3 h4 rs. ds = h1 # h2 # h3 # h4 # rs \<and> is_hex h1 \<and> is_hex h2 \<and> is_hex h3
                \<and> is_hex h4 \<and> str_ok 0 rs
         else is_simple_escape d \<and> str_ok 0 ds"
proof (cases "d = CHR ''u''")
  case True
  have "str_ok 5 ds" using assms True by (simp add: str_step_def is_simple_escape_def)
  then obtain h1 e1 where 1: "ds = h1 # e1" "is_hex h1" "str_ok 4 e1"
    by (cases ds) (auto simp: str_step_def split: if_splits)
  then obtain h2 e2 where 2: "e1 = h2 # e2" "is_hex h2" "str_ok 3 e2"
    by (cases e1) (auto simp: str_step_def split: if_splits)
  then obtain h3 e3 where 3: "e2 = h3 # e3" "is_hex h3" "str_ok 2 e3"
    by (cases e2) (auto simp: str_step_def split: if_splits)
  then obtain h4 e4 where "e3 = h4 # e4" "is_hex h4" "str_ok 0 e4"
    by (cases e3) (auto simp: str_step_def split: if_splits)
  then show ?thesis using 1 2 3 True by simp
next
  case False
  then show ?thesis using assms by (auto simp: str_step_def split: if_splits)
qed

lemma u_decode_valid:
  assumes "r < 0x10000" "str_ok 0 rs" "u_decode r rs = (x, qs)"
  shows "valid_from 0 x \<and> str_ok 0 qs \<and> length qs \<le> length rs"
proof (cases "is_surrogate r")
  case False
  then show ?thesis using assms utf8_encode_valid [of r] by (auto simp: u_decode_def)
next
  case True
  have "(x = replacement \<and> qs = rs) \<or>
    (\<exists>k1 k2 k3 k4 p. rs = backslash # CHR ''u'' # k1 # k2 # k3 # k4 # qs
       \<and> surrogate_pair r (hex4 k1 k2 k3 k4) = Some p \<and> x = utf8_encode p)"
    using assms(3) True by (auto simp: u_decode_def split: list.splits option.splits if_splits)
  then show ?thesis
  proof
    assume "x = replacement \<and> qs = rs"
    then show ?thesis using assms(2) replacement_valid by simp
  next
    assume "\<exists>k1 k2 k3 k4 p. rs = backslash # CHR ''u'' # k1 # k2 # k3 # k4 # qs
       \<and> surrogate_pair r (hex4 k1 k2 k3 k4) = Some p \<and> x = utf8_encode p"
    then obtain k1 k2 k3 k4 p where q: "rs = backslash # CHR ''u'' # k1 # k2 # k3 # k4 # qs"
      "surrogate_pair r (hex4 k1 k2 k3 k4) = Some p" "x = utf8_encode p" by blast
    have "str_ok 0 qs"
      using str_ok_backslash [of "CHR ''u''" "k1 # k2 # k3 # k4 # qs"] assms(2) q(1) by auto
    then show ?thesis using q surrogate_pair_valid [OF q(2)] by simp
  qed
qed

lemma unescape_ascii: "is_simple_escape d \<Longrightarrow> (of_char (unescape d) :: nat) < 128"
  by (simp add: is_simple_escape_def) (elim disjE; simp add: unescape_def)

lemma unquote_from_valid: "str_ok 0 l \<Longrightarrow> valid_from 0 (unquote_from 0 l)"
proof (induction l rule: length_induct)
  case (1 l)
  note IH = 1(1) [rule_format]
  show ?case
  proof (cases l)
    case Nil
    then show ?thesis by simp
  next
    case (Cons c cs)
    consider (esc) "c = backslash" | (ascii) "c \<noteq> backslash" "(of_char c :: nat) < 128"
      | (multi) k where "c \<noteq> backslash" "\<not> (of_char c :: nat) < 128" "utf8_cont c cs = Some k"
      | (bad) "c \<noteq> backslash" "\<not> (of_char c :: nat) < 128" "utf8_cont c cs = None"
      by (cases "utf8_cont c cs") (auto simp del: utf8_cont.simps)
    then show ?thesis
    proof cases
      case esc
      then obtain d ds where cs: "cs = d # ds"
        using 1(2) Cons by (cases cs) (auto simp: str_step_def)
      show ?thesis
      proof (cases "d = CHR ''u''")
        case False
        then have d: "is_simple_escape d" "str_ok 0 ds"
          using str_ok_backslash [of d ds] 1(2) Cons cs esc by auto
        then have "valid_from 0 (unquote_from 0 ds)" using IH [of ds] Cons cs by simp
        then show ?thesis using Cons cs esc False unescape_ascii [OF d(1)] by simp
      next
        case True
        then obtain h1 h2 h3 h4 rs where ds: "ds = h1 # h2 # h3 # h4 # rs" "is_hex h1" "is_hex h2"
          "is_hex h3" "is_hex h4" "str_ok 0 rs"
          using str_ok_backslash [of d ds] 1(2) Cons cs esc by auto
        obtain x qs where u: "u_decode (hex4 h1 h2 h3 h4) rs = (x, qs)" by fastforce
        then have v: "valid_from 0 x" "str_ok 0 qs" "length qs \<le> length rs"
          using u_decode_valid [OF hex4_bound ds(6) u] ds(2-5) by auto
        then have "valid_from 0 (unquote_from 0 qs)" using IH [of qs] Cons cs ds(1) by simp
        then show ?thesis
          using valid_from_append [OF v(1)] Cons cs esc True ds(1) u by simp
      qed
    next
      case ascii
      then have "str_ok 0 cs" using 1(2) Cons by (auto simp: str_step_def split: if_splits)
      then show ?thesis using ascii IH [of cs] Cons by simp
    next
      case multi
      from utf8_cont_split [OF multi(3)] obtain xs r where x: "cs = xs @ r" "length xs = k"
        "list_all is_cont xs" "\<forall>r'. utf8_cont c (xs @ r') = Some k" by blast
      have "str_ok 0 r"
        using 1(2) Cons x(1) lead_facts(1) [OF multi(2)] str_ok_append [OF conts_run [OF x(3)]]
        by simp
      then have "valid_from 0 (unquote_from 0 r)" using IH [of r] Cons x(1) by simp
      then show ?thesis
        using Cons multi x by (simp add: unquote_from_conts [of xs, simplified x(2)]
          valid_from_conts [of xs, simplified x(2)] del: utf8_cont.simps)
    next
      case bad
      then have "str_ok 0 cs" using 1(2) Cons lead_facts(1) [OF bad(2)] by simp
      then have "valid_from 0 (unquote_from 0 cs)" using IH [of cs] Cons by simp
      then show ?thesis
        using Cons bad valid_from_append [OF replacement_valid] by (simp del: utf8_cont.simps)
    qed
  qed
qed

lemma unquote_valid [simp]: "wf_raw l \<Longrightarrow> valid_utf8 (unquote l)"
  by (simp add: wf_raw_def valid_utf8_def unquote_def unquote_from_valid)

section \<open>Numbers\<close>

definition is_int_part :: "string \<Rightarrow> bool" where
  "is_int_part ip = (ip = ''0'' \<or> (ip \<noteq> [] \<and> list_all is_digit ip \<and> hd ip \<noteq> CHR ''0''))"

definition is_frac_part :: "string \<Rightarrow> bool" where
  "is_frac_part fp = (fp = [] \<or> (\<exists>ds. fp = CHR ''.'' # ds \<and> ds \<noteq> [] \<and> list_all is_digit ds))"

definition is_exp_part :: "string \<Rightarrow> bool" where
  "is_exp_part ep = (ep = [] \<or> (\<exists>e sg ds. ep = e # sg @ ds \<and> (e = CHR ''e'' \<or> e = CHR ''E'')
     \<and> (sg = [] \<or> sg = ''+'' \<or> sg = ''-'') \<and> ds \<noteq> [] \<and> list_all is_digit ds))"

definition wf_unsigned :: "string \<Rightarrow> bool" where
  "wf_unsigned u = (\<exists>ip fp ep. u = ip @ fp @ ep \<and> is_int_part ip \<and> is_frac_part fp \<and> is_exp_part ep)"

definition wf_num :: "string \<Rightarrow> bool" where
  "wf_num l = (wf_unsigned l \<or> (\<exists>u. l = CHR ''-'' # u \<and> wf_unsigned u))"

definition num_stop :: "string \<Rightarrow> bool" where
  "num_stop r = (case r of [] \<Rightarrow> True | c # _ \<Rightarrow>
     \<not> is_digit c \<and> c \<noteq> CHR ''.'' \<and> c \<noteq> CHR ''e'' \<and> c \<noteq> CHR ''E'')"

definition not_digit_head :: "string \<Rightarrow> bool" where
  "not_digit_head r = (case r of [] \<Rightarrow> True | c # _ \<Rightarrow> \<not> is_digit c)"

lemma is_digit_consts [simp]:
  "is_digit CHR ''0''" "\<not> is_digit CHR ''.''" "\<not> is_digit CHR ''e''" "\<not> is_digit CHR ''E''"
  "\<not> is_digit CHR ''-''" "\<not> is_digit CHR ''+''" "\<not> is_digit CHR '',''" "\<not> is_digit CHR '']''"
  "\<not> is_digit CHR ''}''"
  by (simp_all add: is_digit_def digit_chars_def)

lemma digits_span:
  "list_all is_digit d \<Longrightarrow> not_digit_head r
   \<Longrightarrow> takeWhile is_digit (d @ r) = d \<and> dropWhile is_digit (d @ r) = r"
  by (induction d) (cases r; simp add: not_digit_head_def)+

lemma digits_split:
  "s = takeWhile is_digit s @ dropWhile is_digit s" "list_all is_digit (takeWhile is_digit s)"
  by (simp_all add: list_all_iff) (metis set_takeWhileD)

lemma lex_int_part_sound:
  "lex_int_part s = (ip, r) \<Longrightarrow> ip \<noteq> [] \<Longrightarrow> s = ip @ r \<and> is_int_part ip"
  using digits_split [of s]
  by (auto simp: lex_int_part_def is_int_part_def split: list.splits if_splits)

lemma lex_int_part_complete:
  "is_int_part ip \<Longrightarrow> not_digit_head r \<Longrightarrow> lex_int_part (ip @ r) = (ip, r)"
  using digits_span [of ip r]
  by (cases ip) (auto simp: lex_int_part_def is_int_part_def)

lemma lex_frac_sound: "lex_frac s = Some (fp, r) \<Longrightarrow> s = fp @ r \<and> is_frac_part fp"
  using digits_split [of "tl s"]
  by (auto simp: lex_frac_def is_frac_part_def split: list.splits if_splits)

lemma lex_frac_complete:
  assumes "is_frac_part fp" "not_digit_head r" "case r of [] \<Rightarrow> True | c # _ \<Rightarrow> c \<noteq> CHR ''.''"
  shows "lex_frac (fp @ r) = Some (fp, r)"
proof (cases "fp = []")
  case True
  then show ?thesis using assms(3) by (auto simp: lex_frac_def split: list.splits)
next
  case False
  then obtain ds where ds: "fp = CHR ''.'' # ds" "ds \<noteq> []" "list_all is_digit ds"
    using assms(1) by (auto simp: is_frac_part_def)
  note sp = digits_span [OF ds(3) assms(2)]
  show ?thesis unfolding ds(1) lex_frac_def using sp ds(2) by simp
qed

lemma lex_exp_sign_sound: "lex_exp_sign s = (sg, r) \<Longrightarrow> s = sg @ r \<and> (sg = [] \<or> sg = ''+'' \<or> sg = ''-'')"
  by (auto simp: lex_exp_sign_def split: list.splits if_splits)

lemma lex_exp_sound:
  assumes "lex_exp s = Some (ep, r)"
  shows "s = ep @ r \<and> is_exp_part ep"
proof (cases s)
  case Nil
  then show ?thesis using assms by (simp add: lex_exp_def is_exp_part_def)
next
  case (Cons c cs)
  obtain sg q where sg: "lex_exp_sign cs = (sg, q)" by fastforce
  show ?thesis
  proof (cases "c = CHR ''e'' \<or> c = CHR ''E''")
    case True
    then have "ep = c # sg @ takeWhile is_digit q" "r = dropWhile is_digit q"
      "takeWhile is_digit q \<noteq> []"
      using assms Cons sg by (auto simp: lex_exp_def split: if_splits)
    then show ?thesis
      using True Cons lex_exp_sign_sound [OF sg] digits_split [of q]
      unfolding is_exp_part_def by (auto simp del: takeWhile_eq_Nil_iff)
  next
    case False
    then show ?thesis using assms Cons by (auto simp: lex_exp_def is_exp_part_def)
  qed
qed

lemma lex_exp_complete:
  assumes "is_exp_part ep" "num_stop r"
  shows "lex_exp (ep @ r) = Some (ep, r)"
proof (cases "ep = []")
  case True
  then show ?thesis using assms(2) by (auto simp: lex_exp_def num_stop_def split: list.splits)
next
  case False
  then obtain e sg ds where ep: "ep = e # sg @ ds" "e = CHR ''e'' \<or> e = CHR ''E''"
    "sg = [] \<or> sg = ''+'' \<or> sg = ''-''" "ds \<noteq> []" "list_all is_digit ds"
    using assms(1) by (auto simp: is_exp_part_def)
  obtain d ds' where d: "ds = d # ds'" "is_digit d" using ep(4,5) by (cases ds) auto
  have "lex_exp_sign (sg @ ds @ r) = (sg, ds @ r)"
    using ep(3) d by (auto simp: lex_exp_sign_def)
  moreover have "takeWhile is_digit (ds @ r) = ds \<and> dropWhile is_digit (ds @ r) = r"
    using digits_span [OF ep(5), of r] assms(2)
    by (auto simp: num_stop_def not_digit_head_def split: list.splits)
  ultimately show ?thesis using ep(2,4) unfolding ep(1) by (auto simp: lex_exp_def)
qed

lemma lex_unsigned_sound:
  "lex_unsigned s = Some (l, r) \<Longrightarrow> s = l @ r \<and> wf_unsigned l"
  unfolding lex_unsigned_def wf_unsigned_def
  by (auto split: prod.splits if_splits option.splits
      dest!: lex_int_part_sound lex_frac_sound lex_exp_sound)

lemma lex_unsigned_complete:
  assumes "wf_unsigned l" "num_stop r"
  shows "lex_unsigned (l @ r) = Some (l, r)"
proof -
  obtain ip fp ep where l: "l = ip @ fp @ ep" "is_int_part ip" "is_frac_part fp" "is_exp_part ep"
    using assms(1) by (auto simp: wf_unsigned_def)
  have hd: "not_digit_head (ep @ r)" "case ep @ r of [] \<Rightarrow> True | c # _ \<Rightarrow> c \<noteq> CHR ''.''"
    using l(4) assms(2)
    by (auto simp: not_digit_head_def is_exp_part_def num_stop_def split: list.splits)
  have "not_digit_head (fp @ ep @ r)"
    using l(3) hd(1) by (auto simp: is_frac_part_def not_digit_head_def)
  then have "lex_int_part (ip @ fp @ ep @ r) = (ip, fp @ ep @ r)"
    using lex_int_part_complete [OF l(2)] by blast
  moreover have "ip \<noteq> []" using l(2) by (auto simp: is_int_part_def)
  ultimately show ?thesis
    using lex_frac_complete [OF l(3) hd] lex_exp_complete [OF l(4) assms(2)]
    by (simp add: lex_unsigned_def l(1))
qed

lemma wf_unsigned_head: "wf_unsigned l \<Longrightarrow> \<exists>c cs. l = c # cs \<and> is_digit c"
  by (auto simp: wf_unsigned_def is_int_part_def neq_Nil_conv)

lemma lex_num_sound: "lex_num s = Some (l, r) \<Longrightarrow> s = l @ r \<and> wf_num l"
  by (auto simp: lex_num_def wf_num_def split: list.splits if_splits dest!: lex_unsigned_sound)

lemma lex_num_complete:
  assumes "wf_num l" "num_stop r" shows "lex_num (l @ r) = Some (l, r)"
  using assms(1) unfolding wf_num_def
proof
  assume u: "wf_unsigned l"
  then obtain c cs where "l = c # cs" "is_digit c" using wf_unsigned_head by blast
  then show ?thesis using lex_unsigned_complete [OF u assms(2)] by (auto simp: lex_num_def)
next
  assume "\<exists>u. l = CHR ''-'' # u \<and> wf_unsigned u"
  then show ?thesis using lex_unsigned_complete [OF _ assms(2)] by (auto simp: lex_num_def)
qed

lemma wf_num_head: "wf_num l \<Longrightarrow> \<exists>c cs. l = c # cs \<and> (is_digit c \<or> c = CHR ''-'')"
  using wf_unsigned_head unfolding wf_num_def by blast


section \<open>Values\<close>

text \<open>A well-formed tree of nesting depth at most d: its lexemes are lexemes.\<close>

fun wf_json :: "nat \<Rightarrow> json \<Rightarrow> bool" where
  "wf_json d (JNum l) = wf_num l"
| "wf_json d (JStr l) = wf_raw l"
| "wf_json d (JArr vs) = (0 < d \<and> (\<forall>v \<in> set vs. wf_json (d - 1) v))"
| "wf_json d (JObj ms) = (0 < d \<and> (\<forall>m \<in> set ms. wf_raw (fst m) \<and> wf_json (d - 1) (snd m)))"
| "wf_json d _ = True"

definition after_value :: "string \<Rightarrow> bool" where
  "after_value r = (case r of [] \<Rightarrow> True | c # _ \<Rightarrow> c \<in> set '',]}'')"

lemma after_value_stop: "after_value r \<Longrightarrow> num_stop r"
  by (auto simp: after_value_def num_stop_def split: list.splits)

lemma after_value_simps [simp]:
  "after_value []" "after_value (CHR '','' # r)" "after_value (CHR '']'' # r)"
  "after_value (CHR ''}'' # r)"
  by (simp_all add: after_value_def)

lemma skip_ws_Cons: "\<not> is_json_ws c \<Longrightarrow> skip_ws (c # cs) = c # cs"
  by (simp add: skip_ws_def)

lemma skip_ws_consts [simp]:
  "skip_ws (CHR '','' # r) = CHR '','' # r" "skip_ws (CHR '']'' # r) = CHR '']'' # r"
  "skip_ws (CHR ''}'' # r) = CHR ''}'' # r" "skip_ws (CHR '':'' # r) = CHR '':'' # r"
  "skip_ws (quote_byte # r) = quote_byte # r" "skip_ws (CHR ''['' # r) = CHR ''['' # r"
  "skip_ws (CHR ''{'' # r) = CHR ''{'' # r" "skip_ws (CHR ''t'' # r) = CHR ''t'' # r"
  "skip_ws (CHR ''f'' # r) = CHR ''f'' # r" "skip_ws (CHR ''n'' # r) = CHR ''n'' # r"
  "skip_ws [] = []"
  by (simp_all add: skip_ws_def is_json_ws_def)

lemma skip_ws_idem [simp]: "skip_ws (skip_ws s) = skip_ws s"
  unfolding skip_ws_def by (induction s) auto

lemma parse_sound:
  "parse_val n d s = Some (v, r) \<Longrightarrow> wf_json d v"
  "parse_elems n d s = Some (vs, r) \<Longrightarrow> \<forall>v \<in> set vs. wf_json d v"
  "parse_members n d s = Some (ms, r) \<Longrightarrow> \<forall>m \<in> set ms. wf_raw (fst m) \<and> wf_json d (snd m)"
proof (induction n d s and n d s and n d s arbitrary: v r and vs r and ms r
    rule: parse_val_parse_elems_parse_members.induct)
  case (2 n d s)
  then show ?case
    by (auto split: list.splits if_splits dest: lex_str_sound lex_num_sound)
next
  case (4 n d s)
  then show ?case
    by (fastforce split: list.splits if_splits option.splits)
next
  case (6 n d s)
  then show ?case
    by (fastforce split: list.splits if_splits option.splits dest: lex_str_sound)
qed simp_all


lemma wf_json_mono: "wf_json d j \<Longrightarrow> d \<le> e \<Longrightarrow> wf_json e j"
proof (induction d j arbitrary: e rule: wf_json.induct)
  case (3 d vs)
  then show ?case by (auto intro: diff_le_mono)
next
  case (4 d ms)
  then show ?case by (auto intro: diff_le_mono)
qed auto

lemma wf_num_first:
  assumes "wf_num l"
  shows "\<exists>c cs. l = c # cs \<and> \<not> is_json_ws c \<and> c \<noteq> CHR ''{'' \<and> c \<noteq> CHR ''['' \<and> c \<noteq> quote_byte
           \<and> c \<noteq> CHR ''t'' \<and> c \<noteq> CHR ''f'' \<and> c \<noteq> CHR ''n''"
  using wf_num_head [OF assms] by (auto simp: is_digit_def digit_chars_def is_json_ws_def)

lemma print_str_parse:
  "wf_raw l \<Longrightarrow> lex_str (tl (print_str l) @ r) = Some (l, r)"
  by (simp add: print_str_def)

lemma print_nonempty: "wf_json d j \<Longrightarrow> print_json j \<noteq> []"
  by (cases j) (auto simp: print_str_def dest: wf_num_head)

lemma print_head:
  assumes "wf_json d v"
  shows "\<exists>c cs. skip_ws (print_json v @ r) = c # cs \<and> c \<noteq> CHR '']''"
proof (cases v)
  case (JNum l)
  then show ?thesis using wf_num_head [of l] assms
    by (auto simp: skip_ws_def is_json_ws_def is_digit_def digit_chars_def)
qed (auto simp: print_str_def)

lemma parse_print:
  "wf_json d j \<Longrightarrow> after_value r \<Longrightarrow> 2 * length (print_json j) < n
   \<Longrightarrow> parse_val n d (print_json j @ r) = Some (j, r)"
  "vs \<noteq> [] \<Longrightarrow> (\<forall>v \<in> set vs. wf_json d v) \<Longrightarrow> 2 * length (print_elems vs) < n
   \<Longrightarrow> parse_elems n d (print_elems vs @ r) = Some (vs, r)"
  "ms \<noteq> [] \<Longrightarrow> (\<forall>m \<in> set ms. wf_raw (fst m) \<and> wf_json d (snd m)) \<Longrightarrow> 2 * length (print_members ms) < n
   \<Longrightarrow> parse_members n d (print_members ms @ r) = Some (ms, r)"
proof (induction j and vs and ms arbitrary: n d r and n d r and n d r
    rule: print_json_print_elems_print_members.induct)
  case 1
  then show ?case by (cases n) (auto simp: skip_ws_def is_json_ws_def)
next
  case (2 b)
  then show ?case by (cases n; cases b) (auto simp: skip_ws_def is_json_ws_def)
next
  case (3 l)
  then obtain c cs where l: "l = c # cs" "\<not> is_json_ws c" "c \<noteq> CHR ''{''" "c \<noteq> CHR ''[''"
    "c \<noteq> quote_byte" "c \<noteq> CHR ''t''" "c \<noteq> CHR ''f''" "c \<noteq> CHR ''n''"
    using wf_num_first [of l] by auto
  have "lex_num (l @ r) = Some (l, r)"
    using 3 lex_num_complete after_value_stop by simp
  then show ?case using l 3 by (cases n) (auto simp: skip_ws_Cons)
next
  case (4 l)
  then show ?case by (cases n) (auto simp: print_str_def)
next
  case (5 vs)
  then obtain m where n: "n = Suc m" by (cases n) auto
  show ?case
  proof (cases "vs = []")
    case False
    then have "parse_elems m (d - 1) (print_elems vs @ r) = Some (vs, r)"
      using 5 n by auto
    moreover obtain c cs where "skip_ws (print_elems vs @ r) = c # cs" "c \<noteq> CHR '']''"
      using False 5(2) print_head by (cases vs) fastforce+
    ultimately show ?thesis using 5(2) n by auto
  qed (use 5 n in auto)
next
  case (6 ms)
  then obtain m where n: "n = Suc m" by (cases n) auto
  show ?case
  proof (cases "ms = []")
    case False
    then have "parse_members m (d - 1) (print_members ms @ r) = Some (ms, r)"
      using 6 n by auto
    moreover have "skip_ws (print_members ms @ r) = print_members ms @ r"
      "hd (print_members ms @ r) = quote_byte" "print_members ms @ r \<noteq> []"
      using False by (cases ms; simp add: print_str_def)+
    ultimately show ?thesis using 6(2) n by (auto split: list.splits)
  qed (use 6 n in auto)
next
  case (8 v vs)
  then obtain m where n: "n = Suc m" by (cases n) auto
  have pos: "0 < length (print_json v)" using print_nonempty 8(4) by auto
  show ?case
  proof (cases "vs = []")
    case True
    then show ?thesis using 8 n by auto
  next
    case False
    have "parse_val m d (print_json v @ CHR '','' # print_elems vs @ r)
        = Some (v, CHR '','' # print_elems vs @ r)"
      using 8(1) [of d "CHR '','' # print_elems vs @ r" m] 8(4,5) n False by auto
    moreover have "parse_elems m d (print_elems vs @ r) = Some (vs, r)"
      using 8(2) [OF False] 8(4,5) n False by auto
    ultimately show ?thesis using n False by simp
  qed
next
  case (10 p ms)
  then obtain m where n: "n = Suc m" by (cases n) auto
  obtain k v where p: "p = (k, v)" by fastforce
  show ?case
  proof (cases "ms = []")
    case True
    then show ?thesis using 10 n p by (auto simp: print_str_def)
  next
    case False
    have "parse_val m d (print_json v @ CHR '','' # print_members ms @ r)
        = Some (v, CHR '','' # print_members ms @ r)"
      using 10(1) [of d "CHR '','' # print_members ms @ r" m] 10(4,5) n p False
      by (auto simp: print_str_def)
    moreover have "parse_members m d (print_members ms @ r) = Some (ms, r)"
      using 10(2) [OF False] 10(4,5) n p False by (auto simp: print_str_def)
    ultimately show ?thesis using n False p 10(4) by (simp add: print_str_def)
  qed
qed simp_all

lemma parse_json_print:
  assumes "wf_json max_nesting_depth j"
  shows "parse_json (print_json j) = Some j"
proof -
  have "parse_val (2 * length (print_json j) + 1) max_nesting_depth (print_json j @ []) = Some (j, [])"
    by (rule parse_print(1)) (use assms in simp_all)
  then show ?thesis by (simp add: parse_json_def)
qed

lemma parse_json_wf: "parse_json s = Some j \<Longrightarrow> wf_json max_nesting_depth j"
  by (auto simp: parse_json_def simp del: parse_val.simps split: option.splits if_splits dest: parse_sound(1))

lemma wf_json_esc: "wf_json d j \<Longrightarrow> wf_json d (esc_json j)"
  by (induction d j rule: wf_json.induct) auto

lemma parse_marshal:
  "wf_json max_nesting_depth j \<Longrightarrow> parse_json (marshal j) = Some (esc_json j)"
  by (simp add: marshal_def parse_json_print wf_json_esc)


section \<open>Scalars\<close>

lemma digit_char: "k < 10 \<Longrightarrow> is_digit (char_of (48 + k :: nat)) \<and> of_char (char_of (48 + k :: nat) :: char) = (48 + k :: nat)"
proof -
  assume k: "k < 10"
  then have "k \<in> {0, 1, 2, 3, 4, 5, 6, 7, 8, 9}"
    unfolding insert_iff empty_iff by presburger
  then show ?thesis by (auto simp: is_digit_def digit_chars_def char_of_eq_iff)
qed

lemma digits_val_snoc: "digits_val (ds @ [c]) = digits_val ds * 10 + (of_char c - 48)"
  by (simp add: digits_val_def)

declare nat_digits.simps [simp del]

lemma nat_digits_facts:
  "list_all is_digit (nat_digits n) \<and> nat_digits n \<noteq> [] \<and> digits_val (nat_digits n) = int n
   \<and> (hd (nat_digits n) = CHR ''0'' \<longrightarrow> n = 0)"
proof (induction n rule: nat_digits.induct)
  case (1 n)
  have of_int_char: "(of_char c :: int) = int (of_char c :: nat)" for c :: char
    by (cases c) simp
  show ?case
  proof (cases "n < 10")
    case True
    then have "(of_char (char_of (48 + n) :: char) :: int) = 48 + int n"
      using digit_char [of n] by (simp add: of_int_char)
    moreover have "char_of (48 + n) = CHR ''0'' \<longrightarrow> n = 0" using True by (simp add: char_of_eq_iff)
    ultimately show ?thesis using True digit_char [of n]
      by (subst (1 2 3 4) nat_digits.simps) (simp add: digits_val_def)
  next
    case False
    then have IH: "list_all is_digit (nat_digits (n div 10))" "nat_digits (n div 10) \<noteq> []"
      "digits_val (nat_digits (n div 10)) = int (n div 10)"
      "hd (nat_digits (n div 10)) = CHR ''0'' \<longrightarrow> n div 10 = 0"
      using 1 by auto
    have eq: "nat_digits n = nat_digits (n div 10) @ [char_of (48 + n mod 10)]"
      using False by (subst nat_digits.simps) simp
    have "(of_char (char_of (48 + n mod 10) :: char) :: int) = 48 + int (n mod 10)"
      using digit_char [of "n mod 10"] by (simp add: of_int_char)
    moreover have "int (n div 10) * 10 + int (n mod 10) = int n"
      by (metis div_mult_mod_eq of_nat_add of_nat_mult of_nat_numeral)
    ultimately show ?thesis
      using IH digit_char [of "n mod 10"] False by (auto simp: eq digits_val_snoc)
  qed
qed

lemma nat_digits_int_part: "is_int_part (nat_digits n)"
proof (cases "n = 0")
  case True
  have "nat_digits 0 = ''0''" by (subst nat_digits.simps) (simp add: char_of_eq_iff)
  then show ?thesis using True by (simp add: is_int_part_def)
next
  case False
  then show ?thesis using nat_digits_facts [of n] by (auto simp: is_int_part_def)
qed

lemma wf_num_itoa [simp]: "wf_num (itoa n)"
proof -
  have "wf_unsigned (nat_digits k)" for k
    unfolding wf_unsigned_def
    by (intro exI [of _ "nat_digits k"] exI [of _ "[]"])
       (simp add: nat_digits_int_part is_frac_part_def is_exp_part_def)
  then show ?thesis by (auto simp: wf_num_def itoa_def)
qed

lemma num_int_itoa [simp]: "in_int64 n \<Longrightarrow> num_int (itoa n) = Some n"
proof -
  assume n: "in_int64 n"
  have h: "nat_digits k = c # cs \<Longrightarrow> c \<noteq> CHR ''-''" for k c cs
    using nat_digits_facts [of k] by auto
  show ?thesis
  proof (cases "n < 0")
    case True
    then show ?thesis using n nat_digits_facts [of "nat (- n)"] by (simp add: num_int_def itoa_def)
  next
    case False
    then obtain c cs where c: "nat_digits (nat n) = c # cs"
      using nat_digits_facts [of "nat n"] by (cases "nat_digits (nat n)") auto
    then show ?thesis using False n nat_digits_facts [of "nat n"] h [OF c]
      by (auto simp: num_int_def itoa_def)
  qed
qed

section \<open>Decoding what was encoded\<close>

lemma dec_string_enc [simp]: "valid_utf8 s \<Longrightarrow> dec_string (esc_json (enc_string s)) v = (s, False)"
  by (simp add: dec_string_def enc_string_def)

lemma dec_int_enc [simp]: "in_int64 n \<Longrightarrow> dec_int (esc_json (enc_int n)) v = (n, False)"
  by (simp add: dec_int_def enc_int_def)

lemma dec_bool_enc [simp]: "dec_bool (esc_json (JBool b)) v = (b, False)"
  by (simp add: dec_bool_def)

lemma dec_string_valid: "wf_json d j \<Longrightarrow> valid_utf8 v \<Longrightarrow> valid_utf8 (fst (dec_string j v))"
  by (cases j) (simp_all add: dec_string_def)

lemma dec_int_in_range: "in_int64 v \<Longrightarrow> in_int64 (fst (dec_int j v))"
  by (cases j) (auto simp: dec_int_def num_int_def Let_def split: option.splits if_splits prod.splits)

lemma wf_json_enc [simp]: "valid_utf8 s \<Longrightarrow> wf_json d (enc_string s)" "wf_json d (enc_int n)"
  by (simp_all add: enc_string_def enc_int_def)

text \<open>Unmarshal of a marshalled tree decodes the tree.\<close>

lemma unmarshal_marshal:
  "wf_json max_nesting_depth j \<Longrightarrow>
   unmarshal d (marshal j) v = (let (x, e) = d (esc_json j) v in if e then Inl ErrJSONType else Inr x)"
  by (simp add: unmarshal_def parse_marshal)

text \<open>An invariant of a decoder: it keeps a predicate on what it decodes into, for every tree the
  parser returns.\<close>

definition dec_inv :: "('a \<Rightarrow> bool) \<Rightarrow> 'a dec \<Rightarrow> bool" where
  "dec_inv P d = (\<forall>j v n. wf_json n j \<longrightarrow> P v \<longrightarrow> P (fst (d j v)))"

lemma dec_invI: "(\<And>j v n. wf_json n j \<Longrightarrow> P v \<Longrightarrow> P (fst (d j v))) \<Longrightarrow> dec_inv P d"
  by (auto simp: dec_inv_def)

lemma dec_invD: "dec_inv P d \<Longrightarrow> wf_json n j \<Longrightarrow> P v \<Longrightarrow> P (fst (d j v))"
  by (auto simp: dec_inv_def)

lemma dec_inv_string: "dec_inv valid_utf8 dec_string"
  by (auto intro!: dec_invI dec_string_valid)

lemma dec_inv_int: "dec_inv in_int64 dec_int"
  by (auto intro!: dec_invI dec_int_in_range)

lemma find_field_in:
  assumes "find_field fs k = Some d"
  shows "\<exists>f \<in> set fs. snd f = d"
proof (cases "map_of fs k")
  case None
  then obtain f where f: "find (\<lambda>f. fold_name (fst f) = fold_name k) fs = Some f" "snd f = d"
    using assms by (auto simp: find_field_def)
  then have "f \<in> set fs" by (metis find_Some_iff nth_mem)
  then show ?thesis using f(2) by blast
next
  case (Some d')
  then show ?thesis using assms by (force simp: find_field_def dest: map_of_SomeD)
qed

lemma dec_inv_members:
  assumes "\<forall>f \<in> set fs. dec_inv P (snd f)"
  shows "\<forall>m \<in> set ms. wf_json n (snd m) \<Longrightarrow> P r \<Longrightarrow> P (fst (dec_members fs ms r))"
proof (induction ms arbitrary: r)
  case (Cons m ms)
  obtain k v where m: "m = (k, v)" by (cases m)
  show ?case
  proof (cases "find_field fs (unquote k)")
    case None
    then show ?thesis using Cons m by simp
  next
    case (Some d)
    from find_field_in [OF this]
    have "dec_inv P d" using assms by auto
    then have "P (fst (d v r))" using Cons.prems m dec_invD by fastforce
    then show ?thesis using Cons.IH [of "fst (d v r)"] Cons.prems m Some
      by (auto simp: split_beta Let_def)
  qed
qed simp

lemma dec_inv_struct: "\<forall>f \<in> set fs. dec_inv P (snd f) \<Longrightarrow> dec_inv P (dec_struct fs)"
proof (rule dec_invI)
  fix j v n
  assume a: "\<forall>f \<in> set fs. dec_inv P (snd f)" "wf_json n j" "P v"
  then show "P (fst (dec_struct fs j v))"
    by (cases j) (auto simp: dec_struct_def intro: dec_inv_members [OF a(1)])
qed

lemma dec_inv_list:
  assumes "dec_inv P d" "P zero"
  shows "dec_inv (\<lambda>xs. \<forall>x \<in> set xs. P x) (dec_list zero d)"
proof (rule dec_invI)
  have el: "\<forall>j \<in> set js. wf_json n j \<Longrightarrow> \<forall>x \<in> set vs. P x \<Longrightarrow> \<forall>x \<in> set (fst (dec_elems zero d js vs)). P x"
    for js vs n
  proof (induction js arbitrary: vs)
    case (Cons j js)
    have "P (fst (d j (case vs of [] \<Rightarrow> zero | y # _ \<Rightarrow> y)))"
      using Cons.prems assms by (intro dec_invD [OF assms(1), of n]) (auto split: list.split)
    moreover have "\<forall>x \<in> set (fst (dec_elems zero d js (tl vs))). P x"
      using Cons.IH [of "tl vs"] Cons.prems by (auto dest: list.set_sel(2) [rotated]) (cases vs; auto)+
    ultimately show ?case by (simp add: split_beta Let_def)
  qed simp
  fix j v n
  assume "wf_json n j" "\<forall>x \<in> set v. P x"
  then show "\<forall>x \<in> set (fst (dec_list zero d j v)). P x"
    by (cases j) (auto simp: dec_list_def dest: el)
qed

lemma dec_inv_fld:
  assumes "dec_inv Q d" "\<And>r. P r \<Longrightarrow> Q (get r)" "\<And>r x. P r \<Longrightarrow> Q x \<Longrightarrow> P (upd (\<lambda>_. x) r)"
  shows "dec_inv P (fld get upd d)"
proof (rule dec_invI)
  fix j v n
  assume a: "wf_json n j" "P v"
  then have "Q (fst (d j (get v)))" using assms by (auto intro: dec_invD)
  then show "P (fst (fld get upd d j v))" using a assms(3) by (simp add: fld_def split_beta Let_def)
qed

lemma dec_inv_ptr:
  assumes "dec_inv P d" "P zero"
  shows "dec_inv (\<lambda>p. \<forall>x \<in> set_option p. P x) (dec_ptr zero d)"
proof (rule dec_invI)
  fix j v n
  assume a: "wf_json n j" "\<forall>x \<in> set_option v. P x"
  have "P (fst (d j (case v of Some y \<Rightarrow> y | None \<Rightarrow> zero)))"
    using a assms by (intro dec_invD [OF assms(1) a(1)]) (auto split: option.split)
  then show "\<forall>x \<in> set_option (fst (dec_ptr zero d j v)). P x"
    by (cases j) (auto simp: dec_ptr_def split_beta Let_def)
qed

end
