(* ===== verification/Translator.thy ===== *)
theory Translator
  imports Provider_Detect Float64 Json_Facts
begin

text \<open>
  The translation between the OpenAI and the Anthropic message formats
  (internal/provider/translator.go). Requests and responses are records; bodies are decoded and
  marshalled with the JSON model. A float is written by the argument fmt_float (the shortest
  decimal of strconv), of which the facts only need that it writes a number that reads back.
\<close>

section \<open>Messages\<close>

record OpenAIMessage =
  om_role :: string
  om_content :: string

record OpenAIRequest =
  oreq_model :: string
  oreq_messages :: "OpenAIMessage list"
  oreq_max_tokens :: "int option"
  oreq_temperature :: "real option"
  oreq_top_p :: "real option"
  oreq_stream :: "bool option"

record AnthropicRequest =
  areq_model :: string
  areq_messages :: "OpenAIMessage list"
  areq_system :: string
  areq_max_tokens :: int
  areq_temperature :: "real option"
  areq_top_p :: "real option"
  areq_stream :: "bool option"

record AnthropicContentBlock =
  acb_type :: string
  acb_text :: string

record AnthropicResponse =
  aresp_id :: string
  aresp_type :: string
  aresp_role :: string
  aresp_content :: "AnthropicContentBlock list"
  aresp_model :: string
  aresp_stop_reason :: string
  aresp_stop_sequence :: "string option"
  aresp_input_tokens :: int
  aresp_output_tokens :: int

record OpenAIChoice =
  och_index :: int
  och_message :: OpenAIMessage
  och_finish_reason :: string

record OpenAIResponse =
  oresp_id :: string
  oresp_object :: string
  oresp_created :: int
  oresp_model :: string
  oresp_choices :: "OpenAIChoice list"
  oresp_prompt_tokens :: int
  oresp_completion_tokens :: int
  oresp_total_tokens :: int

definition zero_message :: OpenAIMessage where
  "zero_message = \<lparr>om_role = [], om_content = []\<rparr>"

definition zero_openai_request :: OpenAIRequest where
  "zero_openai_request = \<lparr>oreq_model = [], oreq_messages = [], oreq_max_tokens = None,
     oreq_temperature = None, oreq_top_p = None, oreq_stream = None\<rparr>"

definition zero_anthropic_request :: AnthropicRequest where
  "zero_anthropic_request = \<lparr>areq_model = [], areq_messages = [], areq_system = [], areq_max_tokens = 0,
     areq_temperature = None, areq_top_p = None, areq_stream = None\<rparr>"

definition zero_block :: AnthropicContentBlock where
  "zero_block = \<lparr>acb_type = [], acb_text = []\<rparr>"

definition zero_aresp :: AnthropicResponse where
  "zero_aresp = \<lparr>aresp_id = [], aresp_type = [], aresp_role = [], aresp_content = [], aresp_model = [],
     aresp_stop_reason = [], aresp_stop_sequence = None, aresp_input_tokens = 0, aresp_output_tokens = 0\<rparr>"

definition zero_choice :: OpenAIChoice where
  "zero_choice = \<lparr>och_index = 0, och_message = zero_message, och_finish_reason = []\<rparr>"

definition zero_oresp :: OpenAIResponse where
  "zero_oresp = \<lparr>oresp_id = [], oresp_object = [], oresp_created = 0, oresp_model = [], oresp_choices = [],
     oresp_prompt_tokens = 0, oresp_completion_tokens = 0, oresp_total_tokens = 0\<rparr>"

section \<open>Decoding\<close>

definition dec_message :: "OpenAIMessage dec" where
  "dec_message = dec_struct
     [(''role'', fld om_role om_role_update dec_string),
      (''content'', fld om_content om_content_update dec_string)]"

definition dec_openai_request :: "OpenAIRequest dec" where
  "dec_openai_request = dec_struct
     [(''model'', fld oreq_model oreq_model_update dec_string),
      (''messages'', fld oreq_messages oreq_messages_update (dec_list zero_message dec_message)),
      (''max_tokens'', fld oreq_max_tokens oreq_max_tokens_update (dec_ptr 0 dec_int)),
      (''temperature'', fld oreq_temperature oreq_temperature_update (dec_ptr 0 dec_float)),
      (''top_p'', fld oreq_top_p oreq_top_p_update (dec_ptr 0 dec_float)),
      (''stream'', fld oreq_stream oreq_stream_update (dec_ptr False dec_bool))]"

text \<open>What the Anthropic API reads from the translated body, by the same member names.\<close>

definition dec_anthropic_request :: "AnthropicRequest dec" where
  "dec_anthropic_request = dec_struct
     [(''model'', fld areq_model areq_model_update dec_string),
      (''messages'', fld areq_messages areq_messages_update (dec_list zero_message dec_message)),
      (''system'', fld areq_system areq_system_update dec_string),
      (''max_tokens'', fld areq_max_tokens areq_max_tokens_update dec_int),
      (''temperature'', fld areq_temperature areq_temperature_update (dec_ptr 0 dec_float)),
      (''top_p'', fld areq_top_p areq_top_p_update (dec_ptr 0 dec_float)),
      (''stream'', fld areq_stream areq_stream_update (dec_ptr False dec_bool))]"

definition dec_block :: "AnthropicContentBlock dec" where
  "dec_block = dec_struct
     [(''type'', fld acb_type acb_type_update dec_string),
      (''text'', fld acb_text acb_text_update dec_string)]"

definition dec_aresp :: "AnthropicResponse dec" where
  "dec_aresp = dec_struct
     [(''id'', fld aresp_id aresp_id_update dec_string),
      (''type'', fld aresp_type aresp_type_update dec_string),
      (''role'', fld aresp_role aresp_role_update dec_string),
      (''content'', fld aresp_content aresp_content_update (dec_list zero_block dec_block)),
      (''model'', fld aresp_model aresp_model_update dec_string),
      (''stop_reason'', fld aresp_stop_reason aresp_stop_reason_update dec_string),
      (''stop_sequence'', fld aresp_stop_sequence aresp_stop_sequence_update (dec_ptr [] dec_string)),
      (''usage'', dec_struct
        [(''input_tokens'', fld aresp_input_tokens aresp_input_tokens_update dec_int),
         (''output_tokens'', fld aresp_output_tokens aresp_output_tokens_update dec_int)])]"

section \<open>Encoding\<close>

definition enc_message :: "OpenAIMessage \<Rightarrow> json" where
  "enc_message m = JObj [(''role'', enc_string (om_role m)), (''content'', enc_string (om_content m))]"

definition enc_anthropic_request :: "(real \<Rightarrow> string) \<Rightarrow> AnthropicRequest \<Rightarrow> json" where
  "enc_anthropic_request fmt_float r = JObj
     ([(''model'', enc_string (areq_model r)), (''messages'', enc_slice enc_message (areq_messages r))]
      @ omit (areq_system r = []) ''system'' (enc_string (areq_system r))
      @ [(''max_tokens'', enc_int (areq_max_tokens r))]
      @ omit_ptr (\<lambda>t. JNum (fmt_float t)) ''temperature'' (areq_temperature r)
      @ omit_ptr (\<lambda>t. JNum (fmt_float t)) ''top_p'' (areq_top_p r)
      @ omit_ptr JBool ''stream'' (areq_stream r))"

definition enc_choice :: "OpenAIChoice \<Rightarrow> json" where
  "enc_choice c = JObj [(''index'', enc_int (och_index c)), (''message'', enc_message (och_message c)),
     (''finish_reason'', enc_string (och_finish_reason c))]"

definition enc_oresp :: "OpenAIResponse \<Rightarrow> json" where
  "enc_oresp r = JObj
     [(''id'', enc_string (oresp_id r)), (''object'', enc_string (oresp_object r)),
      (''created'', enc_int (oresp_created r)), (''model'', enc_string (oresp_model r)),
      (''choices'', JArr (map enc_choice (oresp_choices r))),
      (''usage'', JObj [(''prompt_tokens'', enc_int (oresp_prompt_tokens r)),
        (''completion_tokens'', enc_int (oresp_completion_tokens r)),
        (''total_tokens'', enc_int (oresp_total_tokens r))])]"

section \<open>The translations\<close>

text \<open>The loop over the messages: the last system message is kept apart, the others in order.\<close>

definition split_messages :: "OpenAIMessage list \<Rightarrow> string \<times> OpenAIMessage list" where
  "split_messages msgs = fold (\<lambda>msg (sys, out).
     if om_role msg = ''system'' then (om_content msg, out) else (sys, out @ [msg])) msgs ([], [])"

definition to_anthropic :: "OpenAIRequest \<Rightarrow> AnthropicRequest" where
  "to_anthropic req = (let (sys, msgs) = split_messages (oreq_messages req) in
     \<lparr>areq_model = oreq_model req, areq_messages = msgs, areq_system = sys,
      areq_max_tokens = (case oreq_max_tokens req of Some n \<Rightarrow> n | None \<Rightarrow> 4096),
      areq_temperature = oreq_temperature req, areq_top_p = oreq_top_p req,
      areq_stream = oreq_stream req\<rparr>)"

definition TranslateOpenAIToAnthropic :: "(real \<Rightarrow> string) \<Rightarrow> string \<Rightarrow> err + (string \<times> string)" where
  "TranslateOpenAIToAnthropic fmt_float body =
     (case unmarshal dec_openai_request body zero_openai_request of
        Inl e \<Rightarrow> Inl e
      | Inr req \<Rightarrow> Inr (marshal (enc_anthropic_request fmt_float (to_anthropic req)), ''/v1/messages''))"

definition finish_reason :: "string \<Rightarrow> string" where
  "finish_reason stop = (if stop = ''max_tokens'' then ''length''
     else if stop = ''tool_use'' then ''tool_calls'' else ''stop'')"

definition to_openai :: "AnthropicResponse \<Rightarrow> OpenAIResponse" where
  "to_openai resp =
     \<lparr>oresp_id = aresp_id resp, oresp_object = ''chat.completion'', oresp_created = 0,
      oresp_model = aresp_model resp,
      oresp_choices = [\<lparr>och_index = 0,
        och_message = \<lparr>om_role = ''assistant'',
          om_content = concat (map acb_text (filter (\<lambda>b. acb_type b = ''text'') (aresp_content resp)))\<rparr>,
        och_finish_reason = finish_reason (aresp_stop_reason resp)\<rparr>],
      oresp_prompt_tokens = aresp_input_tokens resp, oresp_completion_tokens = aresp_output_tokens resp,
      oresp_total_tokens = wrap64 (aresp_input_tokens resp + aresp_output_tokens resp)\<rparr>"

definition TranslateAnthropicToOpenAI :: "string \<Rightarrow> string \<Rightarrow> err + string" where
  "TranslateAnthropicToOpenAI body originalModel =
     (case unmarshal dec_aresp body zero_aresp of
        Inl e \<Rightarrow> Inl e
      | Inr resp \<Rightarrow> Inr (marshal (enc_oresp (to_openai resp))))"

definition IsTranslationRequired :: "provider \<Rightarrow> bool" where
  "IsTranslationRequired p = (p = ProviderAnthropicOpenAI)"

definition GetTranslatedPath :: "provider \<Rightarrow> string \<Rightarrow> string" where
  "GetTranslatedPath p originalPath =
     (if p = ProviderAnthropicOpenAI \<and> has_prefix originalPath ''/v1/chat/completions''
      then ''/v1/messages'' else originalPath)"

section \<open>Facts\<close>

lemma split_messages_from:
  "fold (\<lambda>msg (sys, out). if om_role msg = ''system'' then (om_content msg, out) else (sys, out @ [msg]))
     msgs (s, o0)
   = (last (s # map om_content (filter (\<lambda>m. om_role m = ''system'') msgs)),
      o0 @ filter (\<lambda>m. om_role m \<noteq> ''system'') msgs)"
  by (induction msgs arbitrary: s o0) auto

lemma split_messages_eq:
  "split_messages msgs = (last ([] # map om_content (filter (\<lambda>m. om_role m = ''system'') msgs)),
     filter (\<lambda>m. om_role m \<noteq> ''system'') msgs)"
  unfolding split_messages_def by (simp add: split_messages_from)

definition valid_message :: "OpenAIMessage \<Rightarrow> bool" where
  "valid_message m = (valid_utf8 (om_role m) \<and> valid_utf8 (om_content m))"

definition valid_areq :: "(real \<Rightarrow> string) \<Rightarrow> AnthropicRequest \<Rightarrow> bool" where
  "valid_areq fmt_float r = (valid_utf8 (areq_model r) \<and> (\<forall>m \<in> set (areq_messages r). valid_message m)
     \<and> valid_utf8 (areq_system r) \<and> in_int64 (areq_max_tokens r)
     \<and> (\<forall>t \<in> set_option (areq_temperature r) \<union> set_option (areq_top_p r).
          wf_num (fmt_float t) \<and> num_float (fmt_float t) = Some t))"

lemma valid_utf8_Nil [simp]: "valid_utf8 []"
  by (simp add: valid_utf8_def)

lemmas field_lookup = find_field_def fold_name.simps

lemma unquote_literals [simp]:
  "unquote ''model'' = ''model''" "unquote ''messages'' = ''messages''" "unquote ''system'' = ''system''"
  "unquote ''max_tokens'' = ''max_tokens''" "unquote ''temperature'' = ''temperature''"
  "unquote ''top_p'' = ''top_p''" "unquote ''stream'' = ''stream''" "unquote ''role'' = ''role''"
  "unquote ''content'' = ''content''"
  by (simp_all add: unquote_def)

lemma esc_literals [simp]:
  "esc_html ''model'' = ''model''" "esc_html ''messages'' = ''messages''" "esc_html ''system'' = ''system''"
  "esc_html ''max_tokens'' = ''max_tokens''" "esc_html ''temperature'' = ''temperature''"
  "esc_html ''top_p'' = ''top_p''" "esc_html ''stream'' = ''stream''" "esc_html ''role'' = ''role''"
  "esc_html ''content'' = ''content''"
  by (simp_all add: is_html_def is_line_sep_def)

lemma wf_raw_literals [simp]:
  "wf_raw ''model''" "wf_raw ''messages''" "wf_raw ''system''"
  "wf_raw ''max_tokens''" "wf_raw ''temperature''"
  "wf_raw ''top_p''" "wf_raw ''stream''" "wf_raw ''role''"
  "wf_raw ''content''"
  by (simp_all add: wf_raw_def str_step_def)

lemma dec_message_enc [simp]:
  "valid_message m \<Longrightarrow> dec_message (esc_json (enc_message m)) v = (m, False)"
  by (simp add: dec_message_def enc_message_def dec_struct_def find_field_def fld_def valid_message_def
      del: esc_html.simps unquote_from.simps)

lemma dec_elems_enc:
  "(\<And>x v. x \<in> set xs \<Longrightarrow> d (esc_json (enc x)) v = (x, False)) \<Longrightarrow>
   dec_elems zero d (map (esc_json \<circ> enc) xs) vs = (xs, False)"
  by (induction xs arbitrary: vs) auto

lemma dec_list_slice:
  "(\<And>x v. x \<in> set xs \<Longrightarrow> d (esc_json (enc x)) v = (x, False)) \<Longrightarrow>
   dec_list zero d (esc_json (enc_slice enc xs)) v = (xs, False)"
  by (auto simp: dec_list_def enc_slice_def dec_elems_enc)

lemma dec_ptr_float_enc:
  "num_float (fmt t) = Some t \<Longrightarrow> dec_ptr 0 dec_float (esc_json (JNum (fmt t))) v = (Some t, False)"
  by (simp add: dec_ptr_def dec_float_def)

lemma wf_enc_message: "valid_message m \<Longrightarrow> 0 < d \<Longrightarrow> wf_json d (enc_message m)"
  by (simp add: enc_message_def valid_message_def)

lemma wf_enc_areq: "valid_areq fmt r \<Longrightarrow> wf_json max_nesting_depth (enc_anthropic_request fmt r)"
  by (auto simp: enc_anthropic_request_def valid_areq_def max_nesting_depth_def omit_def omit_ptr_def
      enc_slice_def wf_enc_message split: option.splits)

text \<open>Members of the translated request, in the order they are written.\<close>

lemma dec_areq_enc:
  assumes "valid_areq fmt r"
  shows "dec_anthropic_request (esc_json (enc_anthropic_request fmt r)) zero_anthropic_request = (r, False)"
proof -
  have msgs: "dec_list zero_message dec_message (esc_json (enc_slice enc_message (areq_messages r))) v
      = (areq_messages r, False)" for v
    by (rule dec_list_slice) (use assms in \<open>simp add: valid_areq_def\<close>)
  note [simp] = dec_ptr_float_enc
  show ?thesis
    using assms
    by (cases "areq_temperature r"; cases "areq_top_p r"; cases "areq_stream r")
       (simp_all add: dec_anthropic_request_def enc_anthropic_request_def dec_struct_def find_field_def
          fld_def valid_areq_def msgs omit_def omit_ptr_def zero_anthropic_request_def
          dec_ptr_def dec_bool_def dec_float_def del: esc_html.simps unquote_from.simps)
qed

definition valid_oreq :: "OpenAIRequest \<Rightarrow> bool" where
  "valid_oreq r = (valid_utf8 (oreq_model r) \<and> (\<forall>m \<in> set (oreq_messages r). valid_message m)
     \<and> (\<forall>n \<in> set_option (oreq_max_tokens r). in_int64 n))"

lemma dec_inv_any: "dec_inv (\<lambda>_. True) d"
  by (rule dec_invI) simp

lemma dec_inv_message: "dec_inv valid_message dec_message"
  unfolding dec_message_def
  by (rule dec_inv_struct)
     (auto simp: valid_message_def intro!: dec_inv_fld [OF dec_inv_string])

lemma in_int64_0 [simp]: "in_int64 0"
  by (simp add: in_int64_def)

lemma dec_inv_oreq: "dec_inv valid_oreq dec_openai_request"
proof -
  have "valid_message zero_message" by (simp add: valid_message_def zero_message_def)
  note ms = dec_inv_list [OF dec_inv_message this]
  note mt = dec_inv_ptr [OF dec_inv_int in_int64_0]
  have "dec_inv valid_oreq (fld oreq_model oreq_model_update dec_string)"
    by (rule dec_inv_fld [OF dec_inv_string]) (auto simp: valid_oreq_def)
  moreover have "dec_inv valid_oreq (fld oreq_messages oreq_messages_update (dec_list zero_message dec_message))"
    by (rule dec_inv_fld [OF ms]) (auto simp: valid_oreq_def)
  moreover have "dec_inv valid_oreq (fld oreq_max_tokens oreq_max_tokens_update (dec_ptr 0 dec_int))"
    by (rule dec_inv_fld [OF mt]) (auto simp: valid_oreq_def)
  moreover have "dec_inv valid_oreq (fld oreq_temperature oreq_temperature_update (dec_ptr 0 dec_float))"
    "dec_inv valid_oreq (fld oreq_top_p oreq_top_p_update (dec_ptr 0 dec_float))"
    "dec_inv valid_oreq (fld oreq_stream oreq_stream_update (dec_ptr False dec_bool))"
    by (rule dec_inv_fld [OF dec_inv_any]; simp add: valid_oreq_def)+
  ultimately show ?thesis
    unfolding dec_openai_request_def by (intro dec_inv_struct) simp
qed

lemma unmarshal_oreq_valid:
  assumes "unmarshal dec_openai_request body zero_openai_request = Inr req"
  shows "valid_oreq req"
proof -
  obtain j where j: "parse_json body = Some j" "fst (dec_openai_request j zero_openai_request) = req"
    using assms by (auto simp: unmarshal_def split: option.splits prod.splits if_splits)
  have "valid_oreq zero_openai_request" by (simp add: valid_oreq_def zero_openai_request_def)
  then show ?thesis using dec_invD [OF dec_inv_oreq parse_json_wf [OF j(1)]] j(2) by blast
qed

text \<open>C18: A request in the OpenAI format that decodes is translated to a body which, read by the
  Anthropic member names, is the same request: the messages that are not system messages in their
  order, the content of the last system message as the system prompt, the requested token limit or
  4096 when there is none, and the same model, sampling parameters and stream flag. It goes to
  /v1/messages. The formatting of floats only has to write the two sampling parameters so that
  they read back.\<close>

theorem translate_request:
  assumes "unmarshal dec_openai_request body zero_openai_request = Inr req"
    and "\<forall>t \<in> set_option (oreq_temperature req) \<union> set_option (oreq_top_p req).
           wf_num (fmt_float t) \<and> num_float (fmt_float t) = Some t"
  shows "\<exists>out. TranslateOpenAIToAnthropic fmt_float body = Inr (out, ''/v1/messages'')
    \<and> unmarshal dec_anthropic_request out zero_anthropic_request = Inr
        \<lparr>areq_model = oreq_model req,
         areq_messages = filter (\<lambda>m. om_role m \<noteq> ''system'') (oreq_messages req),
         areq_system = last ([] # map om_content (filter (\<lambda>m. om_role m = ''system'') (oreq_messages req))),
         areq_max_tokens = (case oreq_max_tokens req of Some n \<Rightarrow> n | None \<Rightarrow> 4096),
         areq_temperature = oreq_temperature req, areq_top_p = oreq_top_p req,
         areq_stream = oreq_stream req\<rparr>"
proof -
  let ?a = "to_anthropic req"
  have eq: "?a = \<lparr>areq_model = oreq_model req,
         areq_messages = filter (\<lambda>m. om_role m \<noteq> ''system'') (oreq_messages req),
         areq_system = last ([] # map om_content (filter (\<lambda>m. om_role m = ''system'') (oreq_messages req))),
         areq_max_tokens = (case oreq_max_tokens req of Some n \<Rightarrow> n | None \<Rightarrow> 4096),
         areq_temperature = oreq_temperature req, areq_top_p = oreq_top_p req,
         areq_stream = oreq_stream req\<rparr>"
    by (simp add: to_anthropic_def split_messages_eq)
  have v: "valid_oreq req" by (rule unmarshal_oreq_valid [OF assms(1)])
  have sys: "valid_utf8 (areq_system ?a)"
  proof -
    let ?l = "[] # map om_content (filter (\<lambda>m. om_role m = ''system'') (oreq_messages req))"
    have "last ?l \<in> set ?l" by (rule last_in_set) simp
    then show ?thesis using v unfolding eq by (auto simp: valid_oreq_def valid_message_def)
  qed
  have "valid_areq fmt_float ?a"
    using v sys assms(2) unfolding eq
    by (auto simp: valid_areq_def valid_oreq_def in_int64_def split: option.splits)
  then have "unmarshal dec_anthropic_request (marshal (enc_anthropic_request fmt_float ?a))
      zero_anthropic_request = Inr ?a"
    by (simp add: unmarshal_marshal wf_enc_areq dec_areq_enc)
  then show ?thesis using assms(1) eq by (auto simp: TranslateOpenAIToAnthropic_def)
qed

definition example_body :: string where
  "example_body = CHR ''{'' # print_str ''model'' @ '':'' @ print_str ''m'' @ '','' @ print_str ''messages''
     @ '':[{'' @ print_str ''role'' @ '':'' @ print_str ''system'' @ '','' @ print_str ''content'' @ '':''
     @ print_str ''s'' @ ''},{'' @ print_str ''role'' @ '':'' @ print_str ''user'' @ '','' @ print_str ''content''
     @ '':'' @ print_str ''u'' @ ''}]}''"

definition example_request :: OpenAIRequest where
  "example_request = \<lparr>oreq_model = ''m'', oreq_messages = [\<lparr>om_role = ''system'', om_content = ''s''\<rparr>,
      \<lparr>om_role = ''user'', om_content = ''u''\<rparr>], oreq_max_tokens = None, oreq_temperature = None,
      oreq_top_p = None, oreq_stream = None\<rparr>"

lemma example_body_decodes: "unmarshal dec_openai_request example_body zero_openai_request = Inr example_request"
proof -
  have p: "parse_json example_body = Some (JObj [(''model'', JStr ''m''), (''messages'', JArr
      [JObj [(''role'', JStr ''system''), (''content'', JStr ''s'')],
       JObj [(''role'', JStr ''user''), (''content'', JStr ''u'')]])])"
    by code_simp
  show ?thesis
    by (simp add: unmarshal_def p dec_openai_request_def dec_struct_def find_field_def fld_def dec_string_def
        dec_list_def dec_message_def zero_openai_request_def zero_message_def unquote_def example_request_def)
qed

theorem translate_request_witness:
  "\<exists>out. TranslateOpenAIToAnthropic (\<lambda>_. ''0'') example_body = Inr (out, ''/v1/messages'')
    \<and> unmarshal dec_anthropic_request out zero_anthropic_request = Inr
        \<lparr>areq_model = ''m'', areq_messages = [\<lparr>om_role = ''user'', om_content = ''u''\<rparr>],
         areq_system = ''s'', areq_max_tokens = 4096, areq_temperature = None, areq_top_p = None,
         areq_stream = None\<rparr>"
  using translate_request [OF example_body_decodes, of "\<lambda>_. ''0''"] by (simp add: example_request_def)

end
