(* ===== verification/Pricing.thy ===== *)
theory Pricing
  imports Float64 Models Usage_Parsers
begin

text \<open>
  The pricing service (internal/pricing/service.go) and the table of deprecated models
  (internal/deprecated/service.go). Files and HTTP responses are arguments: the contents of a
  file or the error of reading it, the status and body of a response or the error of the client.
\<close>

section \<open>The service state\<close>

record ModelPricing =
  mp_input :: real
  mp_output :: real
  mp_cached :: real
  mp_cache_creation :: real

record remotePriceEntry =
  rpe_id :: string
  rpe_vendor :: string
  rpe_name :: string
  rpe_input :: real
  rpe_output :: real
  rpe_input_cached :: "real option"

record remotePricingResponse =
  rpr_updated_at :: string
  rpr_prices :: "remotePriceEntry list"

text \<open>A fallbackPriceEntry has the fields of ModelPricing under its own member names.\<close>

record PricingService =
  ps_remote_url :: string
  ps_fallback_file :: string
  ps_aliases_file :: string
  ps_pricing :: "string \<rightharpoonup> ModelPricing"
  ps_aliases :: "string \<rightharpoonup> string"

definition zero_pricing :: ModelPricing where
  "zero_pricing = \<lparr>mp_input = 0, mp_output = 0, mp_cached = 0, mp_cache_creation = 0\<rparr>"

definition zero_remote_entry :: remotePriceEntry where
  "zero_remote_entry = \<lparr>rpe_id = [], rpe_vendor = [], rpe_name = [], rpe_input = 0, rpe_output = 0,
     rpe_input_cached = None\<rparr>"

definition dec_remote_entry :: "remotePriceEntry dec" where
  "dec_remote_entry = dec_struct
     [(''id'', fld rpe_id rpe_id_update dec_string),
      (''vendor'', fld rpe_vendor rpe_vendor_update dec_string),
      (''name'', fld rpe_name rpe_name_update dec_string),
      (''input'', fld rpe_input rpe_input_update dec_float),
      (''output'', fld rpe_output rpe_output_update dec_float),
      (''input_cached'', fld rpe_input_cached rpe_input_cached_update (dec_ptr 0 dec_float))]"

definition dec_remote_pricing :: "remotePricingResponse dec" where
  "dec_remote_pricing = dec_struct
     [(''updated_at'', fld rpr_updated_at rpr_updated_at_update dec_string),
      (''prices'', fld rpr_prices rpr_prices_update (dec_list zero_remote_entry dec_remote_entry))]"

definition dec_fallback_entry :: "ModelPricing dec" where
  "dec_fallback_entry = dec_struct
     [(''input_price_per_million'', fld mp_input mp_input_update dec_float),
      (''output_price_per_million'', fld mp_output mp_output_update dec_float),
      (''cached_price_per_million'', fld mp_cached mp_cached_update dec_float),
      (''cache_creation_price_per_million'', fld mp_cache_creation mp_cache_creation_update dec_float)]"

definition parse_fallback :: "string \<Rightarrow> err + (string \<times> ModelPricing) list" where
  "parse_fallback data = (case unmarshal (dec_map zero_pricing dec_fallback_entry) data None of
     Inl e \<Rightarrow> Inl e
   | Inr None \<Rightarrow> Inr []
   | Inr (Some m) \<Rightarrow> Inr m)"

section \<open>Loading\<close>

definition loadAliases :: "err + string \<Rightarrow> PricingService \<Rightarrow> PricingService" where
  "loadAliases file s =
     (if ps_aliases_file s = [] then s
      else case file of
        Inl _ \<Rightarrow> s
      | Inr data \<Rightarrow> (case unmarshal (dec_map [] dec_string) data None of
            Inl _ \<Rightarrow> s
          | Inr None \<Rightarrow> s\<lparr>ps_aliases := Map.empty\<rparr>
          | Inr (Some m) \<Rightarrow> s\<lparr>ps_aliases := map_of m\<rparr>))"

definition remote_entry_pricing :: "remotePriceEntry \<Rightarrow> ModelPricing" where
  "remote_entry_pricing entry = \<lparr>mp_input = rpe_input entry, mp_output = rpe_output entry,
     mp_cached = (case rpe_input_cached entry of Some p \<Rightarrow> p | None \<Rightarrow> 0), mp_cache_creation = 0\<rparr>"

definition remote_table :: "remotePriceEntry list \<Rightarrow> string \<rightharpoonup> ModelPricing" where
  "remote_table entries = fold (\<lambda>entry p. p(rpe_id entry \<mapsto> remote_entry_pricing entry)) entries Map.empty"

text \<open>The response is its status code and body; the status is not looked at.\<close>

definition fetchRemote :: "err + (int \<times> string) \<Rightarrow> PricingService \<Rightarrow> err option \<times> PricingService" where
  "fetchRemote resp s = (case resp of
     Inl e \<Rightarrow> (Some e, s)
   | Inr (status, body) \<Rightarrow>
       (case decode_stream dec_remote_pricing body \<lparr>rpr_updated_at = [], rpr_prices = []\<rparr> of
          Inl e \<Rightarrow> (Some e, s)
        | Inr r \<Rightarrow> (None, s\<lparr>ps_pricing := remote_table (rpr_prices r)\<rparr>)))"

definition loadFallback :: "err + string \<Rightarrow> PricingService \<Rightarrow> PricingService" where
  "loadFallback file s = (case file of
     Inl _ \<Rightarrow> s
   | Inr data \<Rightarrow> (case parse_fallback data of
         Inl _ \<Rightarrow> s
       | Inr m \<Rightarrow> s\<lparr>ps_pricing := map_of m\<rparr>))"

text \<open>mergeFallback visits the map in an arbitrary order; each model is added when it is missing.\<close>

definition mergeFallback :: "err + string \<Rightarrow> PricingService \<Rightarrow> PricingService" where
  "mergeFallback file s = (case file of
     Inl _ \<Rightarrow> s
   | Inr data \<Rightarrow> (case parse_fallback data of
         Inl _ \<Rightarrow> s
       | Inr m \<Rightarrow> s\<lparr>ps_pricing :=
           fold (\<lambda>(model, entry) p. if p model = None then p(model \<mapsto> entry) else p) m (ps_pricing s)\<rparr>))"

definition loadPricing :: "err + (int \<times> string) \<Rightarrow> err + string \<Rightarrow> PricingService \<Rightarrow> PricingService" where
  "loadPricing resp fallback s =
     (if ps_remote_url s \<noteq> [] then
        (case fetchRemote resp s of
           (Some e, s') \<Rightarrow> loadFallback fallback s'
         | (None, s') \<Rightarrow> mergeFallback fallback s')
      else loadFallback fallback s)"

definition NewPricingService ::
    "string \<Rightarrow> string \<Rightarrow> string \<Rightarrow> err + string \<Rightarrow> err + (int \<times> string) \<Rightarrow> err + string \<Rightarrow> PricingService" where
  "NewPricingService remoteURL fallbackFile aliasesFile aliases resp fallback =
     loadPricing resp fallback (loadAliases aliases
       \<lparr>ps_remote_url = remoteURL, ps_fallback_file = fallbackFile, ps_aliases_file = aliasesFile,
        ps_pricing = Map.empty, ps_aliases = Map.empty\<rparr>)"

text \<open>One tick of the refresh loop.\<close>

definition refresh_tick :: "err + (int \<times> string) \<Rightarrow> err + string \<Rightarrow> PricingService \<Rightarrow> PricingService" where
  "refresh_tick resp fallback s =
     (case fetchRemote resp s of
        (Some e, s') \<Rightarrow> s'
      | (None, s') \<Rightarrow> mergeFallback fallback s')"

section \<open>The cost of a request\<close>

definition lookup_pricing :: "PricingService \<Rightarrow> string \<Rightarrow> ModelPricing option" where
  "lookup_pricing s model = (case ps_pricing s model of
     Some p \<Rightarrow> Some p
   | None \<Rightarrow> (case ps_aliases s model of Some m \<Rightarrow> ps_pricing s m | None \<Rightarrow> None))"

definition per_million :: "int \<Rightarrow> real \<Rightarrow> real" where
  "per_million tokens price = fdiv (fmul (ffloat tokens) price) 1000000"

definition Calculate :: "PricingService \<Rightarrow> UsageMetrics \<Rightarrow> Cost" where
  "Calculate s m = (case lookup_pricing s (um_model m) of
     None \<Rightarrow> zero_cost
   | Some p \<Rightarrow>
       let nonCache0 = wrap64 (um_input_tokens m - um_cached_tokens m);
           (nonCache, creationCost) =
             (if mp_cache_creation p > 0
              then (wrap64 (nonCache0 - um_cache_creation_tokens m),
                    per_million (um_cache_creation_tokens m) (mp_cache_creation p))
              else (nonCache0, 0));
           inputCost = per_million nonCache (mp_input p);
           cachedCost = per_million (um_cached_tokens m) (mp_cached p);
           outputCost = per_million (um_output_tokens m) (mp_output p)
       in \<lparr>cost_input = fadd (fadd inputCost cachedCost) creationCost,
           cost_output = outputCost,
           cost_total = fadd (fadd (fadd inputCost cachedCost) creationCost) outputCost,
           cost_model_alias_found = True\<rparr>)"

section \<open>Deprecated models (internal/deprecated/service.go)\<close>

definition NewDeprecatedService :: "string \<Rightarrow> err + string \<Rightarrow> string \<rightharpoonup> string" where
  "NewDeprecatedService filePath file =
     (if filePath = [] then Map.empty
      else case file of
        Inl _ \<Rightarrow> Map.empty
      | Inr data \<Rightarrow> (case unmarshal (dec_map [] dec_string) data None of
            Inl _ \<Rightarrow> Map.empty
          | Inr None \<Rightarrow> Map.empty
          | Inr (Some m) \<Rightarrow> (map_of m)(''_comment'' := None)))"

definition deprecated_Lookup :: "(string \<rightharpoonup> string) \<Rightarrow> string \<Rightarrow> string option" where
  "deprecated_Lookup models model = models model"

section \<open>Facts\<close>

definition nonneg_pricing :: "ModelPricing \<Rightarrow> bool" where
  "nonneg_pricing p = (0 \<le> mp_input p \<and> 0 \<le> mp_output p \<and> 0 \<le> mp_cached p \<and> 0 \<le> mp_cache_creation p)"

definition nonneg_table :: "PricingService \<Rightarrow> bool" where
  "nonneg_table s = (\<forall>p \<in> ran (ps_pricing s). nonneg_pricing p)"

text \<open>Usage as providers report it: no negative count, and the cached and the written tokens are
  part of the input.\<close>

definition sane_usage :: "UsageMetrics \<Rightarrow> bool" where
  "sane_usage m = (0 \<le> um_cached_tokens m \<and> 0 \<le> um_cache_creation_tokens m \<and> 0 \<le> um_output_tokens m
     \<and> um_cached_tokens m + um_cache_creation_tokens m \<le> um_input_tokens m
     \<and> in_int64 (um_input_tokens m))"

lemma per_million_nonneg [simp]: "0 \<le> n \<Longrightarrow> 0 \<le> p \<Longrightarrow> 0 \<le> per_million n p"
  by (simp add: per_million_def)

lemma per_million_0 [simp]: "per_million 0 p = 0"
  by (simp add: per_million_def)

lemma Calculate_total:
  "cost_total (Calculate s m) = fadd (cost_input (Calculate s m)) (cost_output (Calculate s m))"
  by (auto simp: Calculate_def zero_cost_def Let_def split: option.split prod.split)

lemma Calculate_unknown: "lookup_pricing s (um_model m) = None \<Longrightarrow> Calculate s m = zero_cost"
  by (simp add: Calculate_def)

text \<open>The input cost of a sane usage, bucket by bucket.\<close>

lemma Calculate_known:
  assumes "lookup_pricing s (um_model m) = Some p" "sane_usage m"
  shows "cost_input (Calculate s m) =
     fadd (fadd (per_million (um_input_tokens m - um_cached_tokens m
                    - (if mp_cache_creation p > 0 then um_cache_creation_tokens m else 0)) (mp_input p))
                (per_million (um_cached_tokens m) (mp_cached p)))
          (if mp_cache_creation p > 0 then per_million (um_cache_creation_tokens m) (mp_cache_creation p) else 0)"
    and "cost_output (Calculate s m) = per_million (um_output_tokens m) (mp_output p)"
    and "cost_model_alias_found (Calculate s m)"
proof -
  have w: "wrap64 (um_input_tokens m - um_cached_tokens m) = um_input_tokens m - um_cached_tokens m"
    "wrap64 (um_input_tokens m - um_cached_tokens m - um_cache_creation_tokens m)
       = um_input_tokens m - um_cached_tokens m - um_cache_creation_tokens m"
    using assms(2) by (auto simp: sane_usage_def in_int64_def intro!: wrap64_id)
  show "cost_input (Calculate s m) =
     fadd (fadd (per_million (um_input_tokens m - um_cached_tokens m
                    - (if mp_cache_creation p > 0 then um_cache_creation_tokens m else 0)) (mp_input p))
                (per_million (um_cached_tokens m) (mp_cached p)))
          (if mp_cache_creation p > 0 then per_million (um_cache_creation_tokens m) (mp_cache_creation p) else 0)"
    using assms(1) w by (simp add: Calculate_def Let_def)
  show "cost_output (Calculate s m) = per_million (um_output_tokens m) (mp_output p)"
    "cost_model_alias_found (Calculate s m)"
    using assms(1) by (simp_all add: Calculate_def Let_def)
qed

text \<open>A cost is never negative and is consistent: the total is the float sum of the input and the
  output cost and is at least each of them, for every usage in which the cached and the written
  tokens are part of the input and for every table of non-negative prices; a model the table does
  not know, directly or through an alias, costs zero and is flagged.\<close>

theorem cost_consistent:
  assumes "sane_usage m" and "nonneg_table s"
  shows "0 \<le> cost_input (Calculate s m) \<and> 0 \<le> cost_output (Calculate s m)
    \<and> cost_total (Calculate s m) = fadd (cost_input (Calculate s m)) (cost_output (Calculate s m))
    \<and> cost_input (Calculate s m) \<le> cost_total (Calculate s m)
    \<and> cost_output (Calculate s m) \<le> cost_total (Calculate s m)
    \<and> (cost_model_alias_found (Calculate s m) \<longleftrightarrow> lookup_pricing s (um_model m) \<noteq> None)
    \<and> (lookup_pricing s (um_model m) \<noteq> None \<or> Calculate s m = zero_cost)"
proof (cases "lookup_pricing s (um_model m)")
  case None
  then show ?thesis using Calculate_unknown [OF None] by (simp add: zero_cost_def)
next
  case (Some p)
  have p: "nonneg_pricing p"
    using Some assms(2) by (auto simp: lookup_pricing_def nonneg_table_def ran_def split: option.splits)
  note k = Calculate_known [OF Some assms(1)]
  let ?fresh = "um_input_tokens m - um_cached_tokens m
      - (if mp_cache_creation p > 0 then um_cache_creation_tokens m else 0)"
  have nn: "0 \<le> ?fresh" "0 \<le> um_cached_tokens m" "0 \<le> um_cache_creation_tokens m"
    "0 \<le> um_output_tokens m"
    using assms(1) by (auto simp: sane_usage_def)
  have io: "0 \<le> cost_input (Calculate s m)" "fl (cost_input (Calculate s m)) = cost_input (Calculate s m)"
    using nn p unfolding k(1) nonneg_pricing_def by auto
  have oo: "0 \<le> cost_output (Calculate s m)" "fl (cost_output (Calculate s m)) = cost_output (Calculate s m)"
    using nn p unfolding k(2) nonneg_pricing_def by (auto simp: per_million_def)
  have "cost_input (Calculate s m) \<le> cost_total (Calculate s m)"
    "cost_output (Calculate s m) \<le> cost_total (Calculate s m)"
    using fadd_ge [OF io(1) oo(1) io(2)] fadd_ge [OF oo(1) io(1) oo(2)]
    by (simp_all add: Calculate_total fadd_commute)
  then show ?thesis using io oo k(3) Calculate_total [of s m] Some by auto
qed

definition example_service :: PricingService where
  "example_service = \<lparr>ps_remote_url = [], ps_fallback_file = [], ps_aliases_file = [],
     ps_pricing = [''claude'' \<mapsto> \<lparr>mp_input = 3, mp_output = 15, mp_cached = 3/10, mp_cache_creation = 15/4\<rparr>],
     ps_aliases = [''claude-latest'' \<mapsto> ''claude'']\<rparr>"

definition example_usage :: UsageMetrics where
  "example_usage = zero_metrics\<lparr>um_model := ''claude-latest'', um_input_tokens := 1000,
     um_cached_tokens := 400, um_cache_creation_tokens := 100, um_output_tokens := 50\<rparr>"

theorem cost_consistent_witness:
  "cost_input (Calculate example_service example_usage) \<le> cost_total (Calculate example_service example_usage)
   \<and> cost_model_alias_found (Calculate example_service example_usage)"
proof -
  have s: "sane_usage example_usage"
    by (simp add: sane_usage_def example_usage_def zero_metrics_def in_int64_def)
  have p: "nonneg_table example_service"
    by (simp add: example_service_def nonneg_table_def nonneg_pricing_def)
  have l: "lookup_pricing example_service (um_model example_usage) \<noteq> None"
    by (simp add: lookup_pricing_def example_service_def example_usage_def zero_metrics_def)
  show ?thesis using cost_consistent [OF s p] l by blast
qed

text \<open>C11: End to end, an Anthropic response is billed by its own counters: the fresh input tokens, the
  cache reads and the cache writes are each charged at their own rate when the model has a cache
  creation rate, and the writes are charged as fresh input when it has none.\<close>

theorem anthropic_billing:
  assumes "lookup_pricing s (ar_model r) = Some p"
    and "0 \<le> au_input_tokens u" "0 \<le> au_cache_read u" "0 \<le> au_cache_creation u" "0 \<le> au_output_tokens u"
    and "in_int64 (au_input_tokens u + au_cache_read u + au_cache_creation u)"
    and "u = ar_usage r" and "0 \<le> mp_cache_creation p"
  shows "cost_input (Calculate s (buildMetrics r)) =
     (if mp_cache_creation p = 0
      then fadd (fadd (per_million (au_input_tokens u + au_cache_creation u) (mp_input p))
                      (per_million (au_cache_read u) (mp_cached p))) 0
      else fadd (fadd (per_million (au_input_tokens u) (mp_input p))
                      (per_million (au_cache_read u) (mp_cached p)))
                (per_million (au_cache_creation u) (mp_cache_creation p)))
   \<and> cost_output (Calculate s (buildMetrics r)) = per_million (au_output_tokens u) (mp_output p)"
proof -
  have f: "um_model (buildMetrics r) = ar_model r"
    "um_input_tokens (buildMetrics r) = au_input_tokens u + au_cache_read u + au_cache_creation u"
    "um_cached_tokens (buildMetrics r) = au_cache_read u"
    "um_cache_creation_tokens (buildMetrics r) = au_cache_creation u"
    "um_output_tokens (buildMetrics r) = au_output_tokens u"
    using assms(6,7) by (simp_all add: buildMetrics_def Let_def)
  have s: "sane_usage (buildMetrics r)"
    using assms by (simp add: sane_usage_def f)
  have l: "lookup_pricing s (um_model (buildMetrics r)) = Some p" using assms(1) f(1) by simp
  show ?thesis
    using Calculate_known(1,2) [OF l s] assms(8) by (simp add: f)
qed

theorem anthropic_billing_witness:
  "cost_output (Calculate example_service (buildMetrics \<lparr>ar_model = ''claude'', ar_usage =
     \<lparr>au_input_tokens = 500, au_output_tokens = 50, au_cache_read = 400, au_cache_creation = 100\<rparr>\<rparr>))
   = per_million 50 15"
  using anthropic_billing [where s = example_service
      and r = "\<lparr>ar_model = ''claude'', ar_usage =
     \<lparr>au_input_tokens = 500, au_output_tokens = 50, au_cache_read = 400, au_cache_creation = 100\<rparr>\<rparr>"]
  by (simp add: lookup_pricing_def example_service_def in_int64_def)

section \<open>Where a price comes from\<close>

lemma merge_fold:
  "fold (\<lambda>(model, entry) p. if p model = None then p(model \<mapsto> entry) else p) m p = map_of m ++ p"
proof (induction m arbitrary: p)
  case (Cons e m)
  obtain k v where "e = (k, v)" by (cases e)
  then show ?case using Cons by (auto simp: map_add_def fun_eq_iff split: option.splits)
qed simp

lemma mergeFallback_pricing:
  "parse_fallback data = Inr m \<Longrightarrow> ps_pricing (mergeFallback (Inr data) s) = map_of m ++ ps_pricing s"
  by (simp add: mergeFallback_def merge_fold)

text \<open>After a successful fetch, at startup or at a refresh, a model of the remote table has its
  remote price and any other model the price of the fallback file. The status of the response plays
  no part: a response of any status whose body is a JSON object without prices replaces the whole
  remote table by the fallback file.\<close>

theorem price_precedence:
  assumes "fetchRemote resp s = (None, s1)" and "parse_fallback data = Inr m" and "ps_remote_url s \<noteq> []"
  shows "ps_pricing (loadPricing resp (Inr data) s) = map_of m ++ ps_pricing s1
    \<and> ps_pricing (refresh_tick resp (Inr data) s) = map_of m ++ ps_pricing s1
    \<and> (\<forall>status. ps_pricing (refresh_tick (Inr (status, ''{}'')) (Inr data) s) = map_of m)"
proof -
  have "fetchRemote (Inr (status, ''{}'')) s = (None, s\<lparr>ps_pricing := Map.empty\<rparr>)" for status
  proof -
    have "decode_stream dec_remote_pricing ''{}'' \<lparr>rpr_updated_at = [], rpr_prices = []\<rparr>
        = Inr \<lparr>rpr_updated_at = [], rpr_prices = []\<rparr>"
      by (simp add: decode_stream_def eval_nat_numeral max_nesting_depth_def skip_ws_def is_json_ws_def
          dec_remote_pricing_def dec_struct_def)
    then show ?thesis by (simp add: fetchRemote_def remote_table_def)
  qed
  then show ?thesis
    using assms by (simp add: loadPricing_def refresh_tick_def mergeFallback_pricing)
qed

theorem price_precedence_witness:
  "ps_pricing (refresh_tick (Inr (500, ''{}'')) (Inr ''{}'') (example_service\<lparr>ps_remote_url := ''u''\<rparr>)) = Map.empty"
proof -
  have f: "parse_fallback ''{}'' = Inr []"
    by (simp add: parse_fallback_def unmarshal_def parse_json_def eval_nat_numeral max_nesting_depth_def
        skip_ws_def is_json_ws_def dec_map_def)
  have r: "fetchRemote (Inr (200, ''{}'')) (example_service\<lparr>ps_remote_url := ''u''\<rparr>)
      = (None, (example_service\<lparr>ps_remote_url := ''u''\<rparr>)\<lparr>ps_pricing := Map.empty\<rparr>)"
    by (simp add: fetchRemote_def decode_stream_def eval_nat_numeral max_nesting_depth_def skip_ws_def
        is_json_ws_def dec_remote_pricing_def dec_struct_def remote_table_def)
  show ?thesis using price_precedence [OF r f] by simp
qed

end
