(* ===== verification/Sql_Table.thy ===== *)
theory Sql_Table
  imports Prelude "HOL-Library.Product_Lexorder" "HOL-Library.List_Lexorder" "HOL-Library.Char_ord"
begin

text \<open>
  The part of SQL the repositories use, on tables as lists of rows. The order of a table is the
  physical order of its rows; ORDER BY is a stable sort, LIMIT a prefix. upsert is INSERT with ON
  CONFLICT on a key: the row with the key is merged in place, otherwise the new row is appended.
  update_where is UPDATE with a WHERE clause, and counts the rows it changed.
\<close>

fun upsert :: "('r \<Rightarrow> 'k) \<Rightarrow> ('r \<Rightarrow> 'r \<Rightarrow> 'r) \<Rightarrow> 'r \<Rightarrow> 'r list \<Rightarrow> 'r list" where
  "upsert key merge new [] = [new]"
| "upsert key merge new (r # rs) =
     (if key r = key new then merge r new # rs else r # upsert key merge new rs)"

definition update_where :: "('r \<Rightarrow> bool) \<Rightarrow> ('r \<Rightarrow> 'r) \<Rightarrow> 'r list \<Rightarrow> 'r list \<times> nat" where
  "update_where P f rs = (map (\<lambda>r. if P r then f r else r) rs, length (filter P rs))"

definition delete_where :: "('r \<Rightarrow> bool) \<Rightarrow> 'r list \<Rightarrow> 'r list \<times> nat" where
  "delete_where P rs = (filter (\<lambda>r. \<not> P r) rs, length (filter P rs))"

text \<open>A query for one row: the first that satisfies the condition.\<close>

definition find_row :: "('r \<Rightarrow> bool) \<Rightarrow> 'r list \<Rightarrow> 'r option" where
  "find_row P rs = find P rs"

definition limit :: "nat \<Rightarrow> 'r list \<Rightarrow> 'r list" where
  "limit n rs = take n rs"

section \<open>Facts\<close>

named_theorems sql_simps \<open>unfolding of the queries\<close>

declare update_where_def [sql_simps] delete_where_def [sql_simps] find_row_def [sql_simps]
  limit_def [sql_simps]

lemma upsert_keys:
  assumes "\<And>r n. key r = key n \<Longrightarrow> key (merge r n) = key r"
  shows "key ` set (upsert key merge new rs) = insert (key new) (key ` set rs)"
proof (induction rs)
  case (Cons r rs)
  then show ?case using assms [of r new] by auto
qed simp

lemma upsert_distinct:
  assumes "\<And>r n. key r = key n \<Longrightarrow> key (merge r n) = key r"
  shows "distinct (map key rs) \<Longrightarrow> distinct (map key (upsert key merge new rs))"
proof (induction rs)
  case (Cons r rs)
  have "key ` set (upsert key merge new rs) = insert (key new) (key ` set rs)"
    by (rule upsert_keys) (rule assms)
  then show ?case using Cons assms [of r new] by (auto simp: image_iff)
qed simp

text \<open>After an upsert the key holds the merged or the new row, every other key what it held.\<close>

lemma upsert_find_other:
  assumes "\<And>r n. key r = key n \<Longrightarrow> key (merge r n) = key r" "k \<noteq> key new"
  shows "find (\<lambda>r. key r = k) (upsert key merge new rs) = find (\<lambda>r. key r = k) rs"
proof (induction rs)
  case (Cons r rs)
  then show ?case using assms(2) assms(1) [of r new] by auto
qed (use assms(2) in auto)

lemma upsert_find_same:
  assumes "\<And>r n. key r = key n \<Longrightarrow> key (merge r n) = key r"
  shows "find (\<lambda>r. key r = key new) (upsert key merge new rs)
    = Some (case find (\<lambda>r. key r = key new) rs of None \<Rightarrow> new | Some r \<Rightarrow> merge r new)"
  by (induction rs) (auto simp: assms)

lemma upsert_set:
  "r \<in> set (upsert key merge new rs) \<Longrightarrow> r = new \<or> r \<in> set rs \<or> (\<exists>o0 \<in> set rs. key o0 = key new \<and> r = merge o0 new)"
  by (induction rs) (auto split: if_splits)

lemma upsert_set_eq:
  "distinct (map key rs) \<Longrightarrow> set (upsert key merge new rs) =
     {r \<in> set rs. key r \<noteq> key new}
     \<union> {case find (\<lambda>r. key r = key new) rs of None \<Rightarrow> new | Some r \<Rightarrow> merge r new}"
proof (induction rs)
  case (Cons r rs)
  then show ?case by (auto simp: image_iff)
qed simp

lemma find_row_Some: "find_row P rs = Some r \<Longrightarrow> r \<in> set rs \<and> P r"
  by (auto simp: find_row_def find_Some_iff)

lemma find_row_None: "find_row P rs = None \<longleftrightarrow> (\<forall>r \<in> set rs. \<not> P r)"
  by (auto simp: find_row_def find_None_iff)

lemma find_row_map:
  "(\<And>r. P (f r) = P r) \<Longrightarrow> find_row P (map f rs) = map_option f (find_row P rs)"
  unfolding find_row_def by (induction rs) auto

lemma update_where_fst [simp]: "fst (update_where P f rs) = map (\<lambda>r. if P r then f r else r) rs"
  by (simp add: update_where_def)

lemma update_where_none: "snd (update_where P f rs) = 0 \<Longrightarrow> fst (update_where P f rs) = rs"
  by (induction rs) (auto simp: update_where_def split: if_splits)

end
