(* ===== verification/Experiments.thy ===== *)
theory Experiments
  imports Models Usage_Parsers Json_Facts Sql_Table
begin

text \<open>
  Experiment routing (internal/proxy/experimentrouter.go) and the local experiment cache
  (internal/repositories/experiments.go): the weighted and the sticky choice of an arm, the
  matching of a request against the active experiments, the cache of the router in front of the
  repository, and the override of the model in a request body. The interface ExperimentStore is a
  locale, interpreted on the repository.
\<close>

section \<open>Selecting an arm\<close>

definition total_weight :: "LocalExperimentArm list \<Rightarrow> int" where
  "total_weight arms = foldl (\<lambda>t a. wrap64 (t + arm_weight a)) 0 arms"

definition fnv32a :: "string \<Rightarrow> 32 word" where
  "fnv32a s = foldl (\<lambda>h c. (xor h (of_nat (of_char c))) * 16777619) 2166136261 s"

fun walk_arms :: "int \<Rightarrow> LocalExperimentArm list \<Rightarrow> LocalExperimentArm option" where
  "walk_arms n [] = None"
| "walk_arms n (a # as) = (let n' = wrap64 (n - arm_weight a) in
     if n' < 0 then Some a else walk_arms n' as)"

definition pick_arm :: "int \<Rightarrow> LocalExperimentArm list \<Rightarrow> LocalExperimentArm" where
  "pick_arm n arms = (case walk_arms n arms of Some a \<Rightarrow> a | None \<Rightarrow> last arms)"

text \<open>A missing metadata key reads as the empty string. The argument draw is rand.Intn.\<close>

definition lookup_default :: "(string \<rightharpoonup> string) \<Rightarrow> string \<Rightarrow> string" where
  "lookup_default m k = (case m k of Some v \<Rightarrow> v | None \<Rightarrow> [])"

definition selectArm ::
    "LocalExperimentArm list \<Rightarrow> string option \<Rightarrow> (string \<rightharpoonup> string) \<Rightarrow> (int \<Rightarrow> int)
     \<Rightarrow> LocalExperimentArm option outcome" where
  "selectArm arms stickyKey metadata draw =
     (let total = total_weight arms in
      if total \<le> 0 then Ret None
      else case stickyKey of
        None \<Rightarrow> Ret (Some (pick_arm (draw total) arms))
      | Some k \<Rightarrow>
          let val = lookup_default metadata k in
          if val = [] then Ret (Some (pick_arm (draw total) arms))
          else if (word_of_int total :: 32 word) = 0 then Panic ''integer divide by zero''
          else Ret (Some (pick_arm (uint (fnv32a val mod word_of_int total)) arms)))"

section \<open>Routing\<close>

record ExperimentAssignment =
  ea_experiment_id :: uuid
  ea_arm_id :: uuid
  ea_assigned_model :: string
  ea_original_model :: string

record cachedExperiments =
  ce_experiments :: "LocalExperiment list"
  ce_fetched_at :: time

text \<open>The router's cache, by organization.\<close>

type_synonym router_cache = "uuid \<rightharpoonup> cachedExperiments"

definition router_cache_ttl :: duration where
  "router_cache_ttl = 30 * 1000000000"

definition matchesFilters :: "(string \<times> string) list \<Rightarrow> (string \<rightharpoonup> string) \<Rightarrow> bool" where
  "matchesFilters filters metadata = list_all (\<lambda>(k, v). lookup_default metadata k = v) filters"

text \<open>getExperiments: the store is a function of the instant it is asked about; tnow is the clock
  read by time.Since, tstore the one read when the entry is stored.\<close>

definition getExperiments ::
    "(uuid \<Rightarrow> time \<Rightarrow> err + LocalExperiment list) \<Rightarrow> uuid \<Rightarrow> time \<Rightarrow> time \<Rightarrow> time \<Rightarrow> router_cache
     \<Rightarrow> LocalExperiment list \<times> router_cache" where
  "getExperiments list_active orgID now tnow tstore cache =
     (let fetch = (case list_active orgID now of
            Inl _ \<Rightarrow> (case cache orgID of
                Some entry \<Rightarrow> (ce_experiments entry, cache)
              | None \<Rightarrow> ([], cache))
          | Inr exps \<Rightarrow> (exps, cache(orgID \<mapsto> \<lparr>ce_experiments = exps, ce_fetched_at = tstore\<rparr>)))
      in case cache orgID of
           Some entry \<Rightarrow> if tnow - ce_fetched_at entry < router_cache_ttl
                         then (ce_experiments entry, cache) else fetch
         | None \<Rightarrow> fetch)"

definition applies :: "uuid option \<Rightarrow> (string \<rightharpoonup> string) \<Rightarrow> LocalExperiment \<Rightarrow> bool" where
  "applies apiKeyID metadata ex =
     (exp_status ex = ''active''
      \<and> (exp_api_key_id ex = None \<or> (apiKeyID \<noteq> None \<and> exp_api_key_id ex = apiKeyID))
      \<and> matchesFilters (exp_metadata_filters ex) metadata
      \<and> exp_arms ex \<noteq> [])"

fun route_loop ::
    "LocalExperiment list \<Rightarrow> uuid option \<Rightarrow> (string \<rightharpoonup> string) \<Rightarrow> string \<Rightarrow> (int \<Rightarrow> int)
     \<Rightarrow> ExperimentAssignment option outcome" where
  "route_loop [] apiKeyID metadata model draw = Ret None"
| "route_loop (ex # exps) apiKeyID metadata model draw =
     (if \<not> applies apiKeyID metadata ex then route_loop exps apiKeyID metadata model draw
      else case selectArm (exp_arms ex) (exp_sticky_key ex) metadata draw of
        Panic s \<Rightarrow> Panic s
      | Fail e \<Rightarrow> Fail e
      | Ret None \<Rightarrow> route_loop exps apiKeyID metadata model draw
      | Ret (Some arm) \<Rightarrow> Ret (Some
          \<lparr>ea_experiment_id = exp_id ex, ea_arm_id = arm_id arm, ea_assigned_model = arm_model arm,
           ea_original_model = model\<rparr>))"

definition Route ::
    "(uuid \<Rightarrow> time \<Rightarrow> err + LocalExperiment list) \<Rightarrow> uuid \<Rightarrow> uuid option \<Rightarrow> (string \<rightharpoonup> string) \<Rightarrow> string
     \<Rightarrow> time \<Rightarrow> time \<Rightarrow> time \<Rightarrow> (int \<Rightarrow> int) \<Rightarrow> router_cache
     \<Rightarrow> ExperimentAssignment option outcome \<times> router_cache" where
  "Route list_active orgID apiKeyID metadata requestedModel now tnow tstore draw cache =
     (let (exps, cache') = getExperiments list_active orgID now tnow tstore cache
      in (route_loop exps apiKeyID metadata requestedModel draw, cache'))"

section \<open>Overriding the model\<close>

text \<open>Writing to the nil map that a null body leaves panics.\<close>

definition OverrideModel :: "string \<Rightarrow> string \<Rightarrow> string outcome" where
  "OverrideModel body newModel =
     (case unmarshal (dec_map JNull dec_raw) body None of
        Inl e \<Rightarrow> Fail (ErrWrap ''unmarshal request body for model override'' e)
      | Inr None \<Rightarrow> Panic ''assignment to entry in nil map''
      | Inr (Some req) \<Rightarrow> Ret (marshal_raw_map (AList.update ''model'' (JStr (quote newModel)) req)))"

section \<open>Facts about the selection\<close>

definition weights :: "LocalExperimentArm list \<Rightarrow> int" where
  "weights arms = sum_list (map arm_weight arms)"

definition sane_arms :: "LocalExperimentArm list \<Rightarrow> bool" where
  "sane_arms arms = ((\<forall>a \<in> set arms. 0 \<le> arm_weight a) \<and> weights arms < 2 ^ 31)"

lemma weights_Cons [simp]: "weights (a # as) = arm_weight a + weights as"
  by (simp add: weights_def)

lemma weights_nonneg: "\<forall>a \<in> set arms. 0 \<le> arm_weight a \<Longrightarrow> 0 \<le> weights arms"
  unfolding weights_def by (rule sum_list_nonneg) auto

lemma sane_arms_Cons: "sane_arms (a # as) \<Longrightarrow> sane_arms as \<and> 0 \<le> arm_weight a \<and> arm_weight a < 2 ^ 31"
  using weights_nonneg [of as] by (auto simp: sane_arms_def)

lemma total_weight_from:
  "sane_arms arms \<Longrightarrow> 0 \<le> t \<Longrightarrow> t + weights arms < 2 ^ 63 \<Longrightarrow>
   foldl (\<lambda>t a. wrap64 (t + arm_weight a)) t arms = t + weights arms"
proof (induction arms arbitrary: t)
  case Nil
  then show ?case by (simp add: weights_def)
next
  case (Cons a as)
  note s = sane_arms_Cons [OF Cons.prems(1)]
  have w: "0 \<le> weights as" using s weights_nonneg by (auto simp: sane_arms_def)
  then have "wrap64 (t + arm_weight a) = t + arm_weight a"
    using s Cons.prems by (intro wrap64_id) (auto simp: in_int64_def)
  then show ?case using Cons.IH [of "t + arm_weight a"] s Cons.prems by (simp add: add.assoc)
qed

lemma total_weight_eq: "sane_arms arms \<Longrightarrow> total_weight arms = weights arms"
  unfolding total_weight_def using total_weight_from [of arms 0] by (simp add: sane_arms_def)

text \<open>The arm picked by n is the one whose interval of partial sums contains n.\<close>

lemma walk_arms_split:
  "sane_arms arms \<Longrightarrow> 0 \<le> n \<Longrightarrow> n < weights arms \<Longrightarrow>
   \<exists>pre a post. arms = pre @ a # post \<and> weights pre \<le> n \<and> n < weights pre + arm_weight a
     \<and> walk_arms n arms = Some a"
proof (induction arms arbitrary: n)
  case Nil
  then show ?case by (simp add: weights_def)
next
  case (Cons a as)
  note s = sane_arms_Cons [OF Cons.prems(1)]
  have b: "n < 2 ^ 31" using Cons.prems by (simp add: sane_arms_def)
  have w: "wrap64 (n - arm_weight a) = n - arm_weight a"
    using s b Cons.prems(2) by (intro wrap64_id) (auto simp: in_int64_def)
  show ?case
  proof (cases "n < arm_weight a")
    case True
    then show ?thesis using Cons.prems w
      by (intro exI [of _ "[]"] exI [of _ a] exI [of _ as]) (simp add: weights_def)
  next
    case False
    then have "0 \<le> n - arm_weight a" "n - arm_weight a < weights as" using Cons.prems by auto
    from Cons.IH [OF _ this] s obtain pre x post where
      "as = pre @ x # post" "weights pre \<le> n - arm_weight a" "n - arm_weight a < weights pre + arm_weight x"
      "walk_arms (n - arm_weight a) as = Some x" by blast
    then show ?thesis using False w
      by (intro exI [of _ "a # pre"] exI [of _ x] exI [of _ post]) auto
  qed
qed

lemma weights_append [simp]: "weights (as @ bs) = weights as + weights bs"
  by (simp add: weights_def)

lemma pick_arm_iff:
  assumes "sane_arms arms" "distinct arms" "arms = pre @ a # post" "0 \<le> n" "n < weights arms"
  shows "pick_arm n arms = a \<longleftrightarrow> weights pre \<le> n \<and> n < weights pre + arm_weight a"
proof -
  obtain pre' a' post' where p: "arms = pre' @ a' # post'" "weights pre' \<le> n"
    "n < weights pre' + arm_weight a'" "walk_arms n arms = Some a'"
    using walk_arms_split [OF assms(1,4,5)] by blast
  have pick: "pick_arm n arms = a'" using p(4) by (simp add: pick_arm_def)
  have nn: "0 \<le> weights xs" if "set xs \<subseteq> set arms" for xs
    using that assms(1) by (intro weights_nonneg) (auto simp: sane_arms_def)
  show ?thesis
  proof (cases "a' = a")
    case True
    then have "pre' = pre" using p(1) assms(2,3) by (metis append_Cons_eq_iff distinct.simps(2) distinct_append not_distinct_conv_prefix)
    then show ?thesis using pick p True by simp
  next
    case False
    have "\<not> (weights pre \<le> n \<and> n < weights pre + arm_weight a)"
    proof -
      consider (before) zs where "pre = pre' @ a' # zs" | (after) zs where "pre' = pre @ a # zs"
        using p(1) assms(3) False by (auto simp: append_eq_append_conv2 Cons_eq_append_conv append_eq_Cons_conv)
      then show ?thesis
      proof cases
        case before
        then have "0 \<le> weights zs" by (intro nn) (auto simp: assms(3))
        then show ?thesis using before p(3) by simp
      next
        case after
        then have "0 \<le> weights zs" by (intro nn) (auto simp: p(1))
        then show ?thesis using after p(2) by simp
      qed
    qed
    then show ?thesis using pick False by simp
  qed
qed

lemma pick_arm_positive:
  "sane_arms arms \<Longrightarrow> 0 \<le> n \<Longrightarrow> n < weights arms \<Longrightarrow>
   pick_arm n arms \<in> set arms \<and> 0 < arm_weight (pick_arm n arms)"
  using walk_arms_split [of arms n] by (fastforce simp: pick_arm_def)

lemma pick_arm_share:
  assumes "sane_arms arms" "distinct arms" "a \<in> set arms"
  shows "card {n. 0 \<le> n \<and> n < weights arms \<and> pick_arm n arms = a} = nat (arm_weight a)"
proof -
  obtain pre post where p: "arms = pre @ a # post" using assms(3) by (meson split_list)
  have "0 \<le> weights pre" "0 \<le> weights post" "0 \<le> arm_weight a"
    using assms(1) p by (auto simp: sane_arms_def intro!: weights_nonneg)
  then have "{n. 0 \<le> n \<and> n < weights arms \<and> pick_arm n arms = a}
      = {weights pre ..< weights pre + arm_weight a}"
    using pick_arm_iff [OF assms(1,2) p] by (auto simp: p)
  then show ?thesis by simp
qed

text \<open>Every choice with a positive total is one of the intervals.\<close>

lemma selectArm_sane:
  assumes "sane_arms arms" "\<And>t. 0 < t \<Longrightarrow> 0 \<le> draw t \<and> draw t < t"
  shows "selectArm arms stickyKey metadata draw = (if weights arms = 0 then Ret None else
     Ret (Some (pick_arm (case stickyKey of
         Some k \<Rightarrow> (if lookup_default metadata k = [] then draw (weights arms)
                   else int (unat (fnv32a (lookup_default metadata k))) mod weights arms)
       | None \<Rightarrow> draw (weights arms)) arms)))"
proof -
  have w: "0 \<le> weights arms" "weights arms < 2 ^ 31"
    using assms(1) weights_nonneg by (auto simp: sane_arms_def)
  have u: "uint (word_of_int (weights arms) :: 32 word) = weights arms"
    using w by (simp add: uint_word_of_int)
  have nz: "(word_of_int (weights arms) :: 32 word) \<noteq> 0" if "weights arms \<noteq> 0"
    using u that by auto
  have m: "uint (h mod word_of_int (weights arms)) = int (unat h) mod weights arms" for h :: "32 word"
    using u by (simp add: uint_mod)
  show ?thesis
    using w nz m
    by (auto simp: selectArm_def total_weight_eq [OF assms(1)] Let_def split: option.split)
qed


text \<open>C10: Arm selection is exactly proportional and sticky: of the equally likely random numbers below
  the total weight, an arm is chosen by as many as its weight, so an arm of weight zero never is;
  and when the sticky metadata value is present, the choice does not depend on the random number
  at all and is an arm of positive weight.\<close>

theorem select_arm_fair:
  assumes "sane_arms arms" and "distinct arms" and "0 < weights arms" and "a \<in> set arms"
    and "lookup_default metadata k \<noteq> []"
  shows "card {n. 0 \<le> n \<and> n < weights arms \<and> selectArm arms None metadata (\<lambda>_. n) = Ret (Some a)}
           = nat (arm_weight a)
    \<and> (\<exists>b \<in> set arms. 0 < arm_weight b \<and> (\<forall>draw. selectArm arms (Some k) metadata draw = Ret (Some b)))"
proof -
  have u: "selectArm arms None metadata (\<lambda>_. n) = Ret (Some (pick_arm n arms))" for n
    using assms(3) by (simp add: selectArm_def total_weight_eq [OF assms(1)])
  let ?n = "int (unat (fnv32a (lookup_default metadata k))) mod weights arms"
  have "selectArm arms (Some k) metadata (\<lambda>_. 0) = Ret (Some (pick_arm ?n arms))"
    using selectArm_sane [OF assms(1), of "\<lambda>_. 0" "Some k" metadata] assms(3,5) by simp
  then have s: "selectArm arms (Some k) metadata draw = Ret (Some (pick_arm ?n arms))" for draw
    using assms(3,5) by (simp add: selectArm_def total_weight_eq [OF assms(1)] Let_def split: if_splits)
  have "pick_arm ?n arms \<in> set arms \<and> 0 < arm_weight (pick_arm ?n arms)"
    using assms(3) by (intro pick_arm_positive [OF assms(1)]) simp_all
  then show ?thesis using pick_arm_share [OF assms(1,2,4)] s by (auto simp: u)
qed

definition example_arms :: "LocalExperimentArm list" where
  "example_arms =
     [\<lparr>arm_id = 1, arm_experiment_id = 9, arm_name = ''a'', arm_model = ''m1'', arm_weight = 3, arm_is_control = True\<rparr>,
      \<lparr>arm_id = 2, arm_experiment_id = 9, arm_name = ''b'', arm_model = ''m2'', arm_weight = 0, arm_is_control = False\<rparr>,
      \<lparr>arm_id = 3, arm_experiment_id = 9, arm_name = ''c'', arm_model = ''m3'', arm_weight = 1, arm_is_control = False\<rparr>]"

theorem select_arm_fair_witness:
  "card {n. 0 \<le> n \<and> n < weights example_arms
     \<and> selectArm example_arms None [''user'' \<mapsto> ''u1''] (\<lambda>_. n) = Ret (Some (example_arms ! 0))} = 3"
  using select_arm_fair [of example_arms "example_arms ! 0" "[''user'' \<mapsto> ''u1'']" "''user''"]
  by (simp add: example_arms_def sane_arms_def weights_def lookup_default_def)

section \<open>Facts about the override\<close>

lemma dec_map_raw:
  "dec_map_members zero dec_raw ms m = (fold (\<lambda>(k, v). AList.update (unquote k) v) ms m, False)"
  by (induction zero "dec_raw :: json dec" ms m rule: dec_map_members.induct) (auto simp: dec_raw_def)

lemma fold_update_keys:
  "distinct (map fst m) \<Longrightarrow> distinct (map fst (fold (\<lambda>(k, v). AList.update (unquote k) v) ms m))"
  by (induction ms arbitrary: m) (auto simp: distinct_update)

lemma fold_update_set:
  "(k, v) \<in> set (fold (\<lambda>(k, v). AList.update (unquote k) v) ms m) \<Longrightarrow>
   (k, v) \<in> set m \<or> (\<exists>k'. (k', v) \<in> set ms \<and> unquote k' = k)"
proof (induction ms arbitrary: m)
  case (Cons x ms)
  obtain a b where x: "x = (a, b)" by (cases x)
  have "(k, v) \<in> set (AList.update (unquote a) b m) \<Longrightarrow> (k, v) \<in> set m \<or> (k = unquote a \<and> v = b)"
  proof (induction m)
    case (Cons y m)
    then show ?case by (cases y) (auto split: if_splits)
  qed simp
  then show ?case using Cons.IH [of "AList.update (unquote a) b m"] Cons.prems x by auto
qed simp

lemma map_of_fold_update:
  "map_of (fold (\<lambda>(k, v). AList.update (unquote k) v) ms m) =
   map_of m ++ map_of (rev (map (\<lambda>(k, v). (unquote k, v)) ms))"
  by (induction ms arbitrary: m) (auto simp: update_conv map_add_upd_left [symmetric] fun_eq_iff map_add_def
      split: option.splits)

lemma fold_name_length: "length (fold_name s) \<le> length s"
  by (induction s rule: fold_name.induct) auto

lemma fold_name_ascii:
  "CHR ''k'' \<notin> set (fold_name s) \<Longrightarrow> CHR ''s'' \<notin> set (fold_name s) \<Longrightarrow> fold_name s = map lower_byte s"
  by (induction s rule: fold_name.induct) (auto split: if_splits)

lemma lower_byte_cases: "lower_byte c = d \<Longrightarrow> c = d \<or> c = char_of (of_char d - 32 :: nat)"
  by (auto simp: lower_byte_def split: if_splits)

text \<open>Every other spelling of the key model comes before it in byte order.\<close>

lemma model_variants_before:
  assumes "fold_name k = ''model''" "k \<noteq> ''model''"
  shows "k < ''model''"
proof -
  have "map lower_byte k = ''model''" using fold_name_ascii [of k] assms(1) by simp
  then obtain c1 c2 c3 c4 c5 where k: "k = [c1, c2, c3, c4, c5]" and
    l: "lower_byte c1 = CHR ''m''" "lower_byte c2 = CHR ''o''" "lower_byte c3 = CHR ''d''"
       "lower_byte c4 = CHR ''e''" "lower_byte c5 = CHR ''l''"
    by (auto simp: map_eq_Cons_conv)
  have "c1 = CHR ''m'' \<or> c1 = CHR ''M''" "c2 = CHR ''o'' \<or> c2 = CHR ''O''" "c3 = CHR ''d'' \<or> c3 = CHR ''D''"
    "c4 = CHR ''e'' \<or> c4 = CHR ''E''" "c5 = CHR ''l'' \<or> c5 = CHR ''L''"
    using l [THEN lower_byte_cases] by (auto simp: char_of_eq_iff)
  then show ?thesis using assms(2) unfolding k by (elim disjE) (simp_all add: less_char_def)
qed

lemma fold_name_model [simp]: "fold_name ''model'' = ''model''"
  by code_simp

lemma find_model_field:
  "find_field [(''model'', d)] k = (if fold_name k = ''model'' then Some d else None)"
  by (auto simp: find_field_def simp del: fold_name.simps)

lemma dec_members_append:
  "dec_members fs (a @ b) r =
     (let (r1, e1) = dec_members fs a r; (r2, e2) = dec_members fs b r1 in (r2, e1 \<or> e2))"
  by (induction fs a r rule: dec_members.induct) (auto split: option.splits prod.splits simp: Let_def)

lemma dec_members_no_match:
  "\<forall>m \<in> set ms. find_field fs (unquote (fst m)) = None \<Longrightarrow> dec_members fs ms r = (r, False)"
  by (induction fs ms r rule: dec_members.induct) auto

text \<open>A value that decodes into a string field without an error.\<close>

definition string_or_null :: "json \<Rightarrow> bool" where
  "string_or_null j = (case j of JStr _ \<Rightarrow> True | JNull \<Rightarrow> True | _ \<Rightarrow> False)"

lemma dec_members_model_ok:
  "\<forall>m \<in> set ms. fold_name (unquote (fst m)) = ''model'' \<longrightarrow> string_or_null (snd m) \<Longrightarrow>
   \<not> snd (dec_members [(''model'', dec_string)] ms r)"
proof (induction ms arbitrary: r)
  case (Cons m ms)
  obtain k v where m: "m = (k, v)" by (cases m)
  show ?case
  proof (cases "fold_name (unquote k) = ''model''")
    case True
    then have "string_or_null v" using Cons.prems m by simp
    then have "\<not> snd (dec_string v r)" by (auto simp: string_or_null_def dec_string_def split: json.splits)
    then show ?thesis using Cons m True by (auto simp: find_model_field split_beta Let_def)
  next
    case False
    then show ?thesis using Cons m by (simp add: find_model_field)
  qed
qed simp

definition quoted_members :: "(string \<times> json) list \<Rightarrow> (string \<times> json) list" where
  "quoted_members m = map (\<lambda>(k, v). (quote k, esc_json v)) m"

definition wf_map :: "(string \<times> json) list \<Rightarrow> bool" where
  "wf_map m = (\<forall>e \<in> set m. valid_utf8 (fst e) \<and> wf_json (max_nesting_depth - 1) (snd e))"

lemma parse_marshal_raw_map:
  assumes "wf_map m"
  shows "parse_json (marshal_raw_map m) = Some (JObj (quoted_members (sort_key fst m)))"
proof -
  have "wf_json max_nesting_depth (JObj (map (\<lambda>(k, v). (quote k, v)) (sort_key fst m)))"
    using assms by (auto simp: wf_map_def max_nesting_depth_def)
  moreover have "esc_json (JObj (map (\<lambda>(k, v). (quote k, v)) (sort_key fst m)))
      = JObj (quoted_members (sort_key fst m))"
    using assms by (auto simp: quoted_members_def wf_map_def)
  ultimately show ?thesis by (simp add: marshal_raw_map_def parse_marshal)
qed

lemma quoted_members_model:
  assumes "wf_map m" "sorted (map fst m)" "distinct (map fst m)" "(''model'', JStr (quote new)) \<in> set m"
    and "valid_utf8 new" "\<forall>(k, v) \<in> set m. fold_name k = ''model'' \<longrightarrow> string_or_null v"
  shows "dec_members [(''model'', dec_string)] (quoted_members m) r = (new, False)"
proof -
  obtain pre post where m: "m = pre @ (''model'', JStr (quote new)) # post"
    using assms(4) by (meson split_list)
  have post: "fold_name (fst e) \<noteq> ''model''" if "e \<in> set post" for e
  proof
    assume f: "fold_name (fst e) = ''model''"
    have "''model'' \<le> fst e" "fst e \<noteq> ''model''"
      using assms(2,3) that by (auto simp: m sorted_append rev_image_eqI)
    then show False using model_variants_before [OF f] by simp
  qed
  have v: "valid_utf8 (fst e)" if "e \<in> set pre \<union> set post" for e
    using assms(1) that by (auto simp: wf_map_def m)
  have 1: "\<not> snd (dec_members [(''model'', dec_string)] (quoted_members pre) r)"
  proof (rule dec_members_model_ok, intro ballI impI)
    fix q assume q: "q \<in> set (quoted_members pre)" "fold_name (unquote (fst q)) = ''model''"
    then obtain k x where kx: "(k, x) \<in> set pre" "q = (quote k, esc_json x)"
      by (auto simp: quoted_members_def)
    then have "fold_name k = ''model''" using q(2) v [of "(k, x)"] by auto
    then have "string_or_null x" using assms(6) kx(1) by (auto simp: m)
    then show "string_or_null (snd q)" using kx(2) by (cases x) (auto simp: string_or_null_def)
  qed
  have 3: "dec_members [(''model'', dec_string)] (quoted_members post) r' = (r', False)" for r'
  proof (rule dec_members_no_match, intro ballI)
    fix q assume "q \<in> set (quoted_members post)"
    then obtain k x where kx: "(k, x) \<in> set post" "q = (quote k, esc_json x)"
      by (auto simp: quoted_members_def)
    then show "find_field [(''model'', dec_string)] (unquote (fst q)) = None"
      using post [OF kx(1)] v [of "(k, x)"] by (simp add: find_model_field)
  qed
  have 2: "find_field [(''model'', dec_string)] (unquote (quote ''model'')) = Some dec_string"
    by (simp add: find_model_field is_ascii_valid is_ascii_def del: fold_name.simps)
  have d: "dec_string (esc_json (JStr (quote new))) r' = (new, False)" for r'
    using dec_string_enc [OF assms(5)] by (simp add: enc_string_def)
  obtain r1 where r1: "dec_members [(''model'', dec_string)] (quoted_members pre) r = (r1, False)"
    using 1 by (cases "dec_members [(''model'', dec_string)] (quoted_members pre) r") simp
  have q: "quoted_members m
      = quoted_members pre @ (quote ''model'', esc_json (JStr (quote new))) # quoted_members post"
    by (simp only: m quoted_members_def map_append list.map prod.case)
  have "dec_members [(''model'', dec_string)]
      ((quote ''model'', esc_json (JStr (quote new))) # quoted_members post) r1 = (new, False)"
    by (simp only: dec_members.simps 2 d 3 option.case Let_def prod.case simp_thms)
  then show ?thesis by (simp only: q dec_members_append r1 Let_def prod.case) simp
qed


text \<open>The members of a request whose model is overridden.\<close>

definition with_model :: "(string \<times> json) list \<Rightarrow> string \<Rightarrow> (string \<times> json) list" where
  "with_model ms new = AList.update ''model'' (JStr (quote new)) (fold (\<lambda>(k, v). AList.update (unquote k) v) ms [])"

lemma OverrideModel_run:
  assumes "parse_json body = Some (JObj ms)"
  shows "OverrideModel body new = Ret (marshal_raw_map (with_model ms new))"
  by (simp add: OverrideModel_def unmarshal_def assms dec_map_def dec_map_raw with_model_def)

lemma with_model_distinct: "distinct (map fst (with_model ms new))"
  unfolding with_model_def by (intro distinct_update fold_update_keys) simp

lemma with_model_map: "map_of (with_model ms new) = (map_of (rev (map (\<lambda>(k, v). (unquote k, v)) ms)))(''model'' \<mapsto> JStr (quote new))"
  by (simp add: with_model_def update_conv' map_of_fold_update)

lemma with_model_entry:
  assumes "e \<in> set (with_model ms new)"
  shows "e = (''model'', JStr (quote new)) \<or> (fst e \<noteq> ''model'' \<and> (\<exists>k'. (k', snd e) \<in> set ms \<and> unquote k' = fst e))"
proof -
  have e: "map_of (with_model ms new) (fst e) = Some (snd e)"
    using assms with_model_distinct by (simp add: map_of_eq_Some_iff)
  show ?thesis
  proof (cases "fst e = ''model''")
    case True
    then show ?thesis using e by (auto simp: with_model_map intro: prod_eqI)
  next
    case False
    then have "(fst e, snd e) \<in> set (rev (map (\<lambda>(k, v). (unquote k, v)) ms))"
      using e by (intro map_of_SomeD) (simp add: with_model_map)
    then show ?thesis using False by auto
  qed
qed

lemma with_model_wf:
  assumes "parse_json body = Some (JObj ms)" "valid_utf8 new"
  shows "wf_map (with_model ms new)"
proof -
  have "\<forall>e \<in> set ms. wf_raw (fst e) \<and> wf_json (max_nesting_depth - 1) (snd e)" using parse_json_wf [OF assms(1)] by simp
  then show ?thesis unfolding wf_map_def using with_model_entry [of _ ms new] assms(2)
    by (fastforce simp: is_ascii_valid is_ascii_def)
qed

lemma with_model_parsed:
  assumes "parse_json body = Some (JObj ms)" "valid_utf8 new"
  defines "srt \<equiv> sort_key fst (with_model ms new)"
  shows "parse_json (marshal_raw_map (with_model ms new)) = Some (JObj (quoted_members srt))"
    "wf_map srt" "sorted (map fst srt)" "set srt = set (with_model ms new)" "distinct (map fst srt)"
  using parse_marshal_raw_map [OF with_model_wf [OF assms(1,2)]] with_model_wf [OF assms(1,2)] with_model_distinct [of ms new]
  by (simp_all add: srt_def wf_map_def distinct_map)

lemma with_model_model:
  assumes "parse_json body = Some (JObj ms)" "valid_utf8 new" "new \<noteq> []"
    "\<forall>(k, v) \<in> set ms. fold_name (unquote k) = ''model'' \<longrightarrow> unquote k = ''model'' \<or> string_or_null v"
  shows "extractModelFromRequest (marshal_raw_map (with_model ms new)) = new"
proof -
  note p = with_model_parsed [OF assms(1,2)]
  let ?srt = "sort_key fst (with_model ms new)"
  have mem: "(''model'', JStr (quote new)) \<in> set ?srt" unfolding p(4) by (rule map_of_SomeD) (simp add: with_model_map)
  have "\<forall>(k, v) \<in> set ?srt. fold_name k = ''model'' \<longrightarrow> string_or_null v"
  proof (intro ballI, clarify)
    fix k v assume kv: "(k, v) \<in> set ?srt" "fold_name k = ''model''"
    from with_model_entry [of "(k, v)" ms new] kv(1) p(4)
    consider "v = JStr (quote new)" | k' where "k \<noteq> ''model''" "(k', v) \<in> set ms" "unquote k' = k" by auto
    then show "string_or_null v" using assms(4) kv(2) by cases (auto simp: string_or_null_def)
  qed
  from quoted_members_model [OF p(2,3,5) mem assms(2) this] show ?thesis using assms(3)
    by (simp add: extractModelFromRequest_def unmarshal_def p(1) dec_model_field_def dec_struct_def)
qed

lemma with_model_members:
  assumes "parse_json body = Some (JObj ms)" "valid_utf8 new"
  shows "\<exists>members. unmarshal (dec_map JNull dec_raw) (marshal_raw_map (with_model ms new)) None = Inr (Some members)
    \<and> map_of members = (\<lambda>k. map_option esc_json (map_of (with_model ms new) k))"
proof -
  note p = with_model_parsed [OF assms]
  let ?srt = "sort_key fst (with_model ms new)"
  let ?members = "fold (\<lambda>(k, v). AList.update (unquote k) v) (quoted_members ?srt) []"
  have u: "unmarshal (dec_map JNull dec_raw) (marshal_raw_map (with_model ms new)) None = Inr (Some ?members)"
    by (simp add: unmarshal_def p(1) dec_map_def dec_map_raw)
  have "map (\<lambda>(k, v). (unquote k, v)) (quoted_members ?srt) = map (\<lambda>(k, v). (k, esc_json v)) ?srt"
    using p(2) by (auto simp: quoted_members_def wf_map_def)
  then have "map_of ?members = map_of (rev (map (\<lambda>(k, v). (k, esc_json v)) ?srt))" by (simp add: map_of_fold_update)
  also have "\<dots> = map_of (map (\<lambda>(k, v). (k, esc_json v)) ?srt)"
    using p(5) by (intro map_of_inject_set [THEN iffD2]) (auto simp: comp_def case_prod_beta rev_map [symmetric])
  also have "\<dots> = map_option esc_json \<circ> map_of ?srt" by (simp add: map_of_map)
  also have "map_of ?srt = map_of (with_model ms new)" using p(4,5) with_model_distinct by (simp add: map_of_inject_set)
  finally show ?thesis using u by (intro exI [of _ ?members]) (simp add: comp_def)
qed

text \<open>C17: Overriding the model is what the model extraction sees, and nothing else changes: for a JSON
  object body (whose other spellings of the key model, if any, hold strings), the overridden body
  reads as the new model, and every other member is kept with its value, up to the HTML escaping
  inside its strings. A body that is the JSON null panics (the write to a nil map).\<close>

theorem override_then_extract:
  assumes "parse_json body = Some (JObj ms)" and "valid_utf8 new" and "new \<noteq> []"
    and "\<forall>(k, v) \<in> set ms. fold_name (unquote k) = ''model'' \<longrightarrow> unquote k = ''model'' \<or> string_or_null v"
  shows "\<exists>out members. OverrideModel body new = Ret out
    \<and> extractModelFromRequest out = new
    \<and> unmarshal (dec_map JNull dec_raw) out None = Inr (Some members)
    \<and> map_of members = (\<lambda>k. map_option esc_json (map_of (rev (map (\<lambda>(k, v). (unquote k, v)) ms)) k))
          (''model'' \<mapsto> JStr (quote new))
    \<and> OverrideModel ''null'' new = Panic ''assignment to entry in nil map''"
proof -
  obtain members where m: "unmarshal (dec_map JNull dec_raw) (marshal_raw_map (with_model ms new)) None = Inr (Some members)"
    "map_of members = (\<lambda>k. map_option esc_json (map_of (with_model ms new) k))"
    using with_model_members [OF assms(1,2)] by blast
  have mo: "map_of members = (\<lambda>k. map_option esc_json (map_of (rev (map (\<lambda>(k, v). (unquote k, v)) ms)) k))
      (''model'' \<mapsto> JStr (quote new))"
    unfolding m(2) with_model_map using assms(2) by (auto simp: fun_eq_iff)
  have "parse_json ''null'' = Some JNull" by (simp add: parse_json_def eval_nat_numeral)
  then have "OverrideModel ''null'' new = Panic ''assignment to entry in nil map''"
    by (simp add: OverrideModel_def unmarshal_def dec_map_def)
  then show ?thesis using OverrideModel_run [OF assms(1)] with_model_model [OF assms] m(1) mo by blast
qed

theorem override_then_extract_witness:
  "extractModelFromRequest
     (case OverrideModel (CHR ''{'' # print_str ''Model'' @ '':'' @ print_str ''a'' @ '',''
          @ print_str ''model'' @ '':'' @ print_str ''b'' @ ''}'') ''gpt-4o'' of Ret out \<Rightarrow> out | _ \<Rightarrow> [])
   = ''gpt-4o''"
proof -
  let ?body = "CHR ''{'' # print_str ''Model'' @ '':'' @ print_str ''a'' @ '',''
          @ print_str ''model'' @ '':'' @ print_str ''b'' @ ''}''"
  have p: "parse_json ?body = Some (JObj [(''Model'', JStr ''a''), (''model'', JStr ''b'')])"
    by code_simp
  have v: "valid_utf8 ''gpt-4o''" by (rule is_ascii_valid) (simp add: is_ascii_def)
  from override_then_extract [OF p v] show ?thesis
    by (auto simp: string_or_null_def)
qed

section \<open>The store interface and the router on top of it\<close>

locale experiment_store =
  fixes list_active :: "'db \<Rightarrow> uuid \<Rightarrow> time \<Rightarrow> err + LocalExperiment list"
  assumes listed: "list_active db org now = Inr exps \<Longrightarrow> e \<in> set exps \<Longrightarrow>
    exp_org_id e = org \<and> exp_status e = ''active'' \<and> exp_starts_at e \<le> now \<and> now \<le> exp_ends_at e"
begin

text \<open>What every cache entry satisfies: its experiments are active ones of the organization.\<close>

definition cache_ok :: "router_cache \<Rightarrow> bool" where
  "cache_ok cache = (\<forall>org entry e. cache org = Some entry \<longrightarrow> e \<in> set (ce_experiments entry) \<longrightarrow>
     exp_org_id e = org \<and> exp_status e = ''active'')"

lemma getExperiments_ok:
  assumes "cache_ok cache" "getExperiments (list_active db) org now tnow tstore cache = (exps, cache')"
  shows "cache_ok cache' \<and> (\<forall>e \<in> set exps. exp_org_id e = org \<and> exp_status e = ''active'')"
proof -
  have "\<forall>x. list_active db org now = Inr x \<longrightarrow>
      (\<forall>e \<in> set x. exp_org_id e = org \<and> exp_status e = ''active'')"
    using listed by blast
  then show ?thesis using assms
    by (auto simp: getExperiments_def cache_ok_def Let_def split: option.splits sum.splits if_splits)
qed

text \<open>On a miss with a store that answers, the window has been checked against now.\<close>

lemma getExperiments_miss:
  assumes "cache org = None \<or> (\<exists>e. cache org = Some e \<and> router_cache_ttl \<le> tnow - ce_fetched_at e)"
    and "list_active db org now = Inr exps'"
    and "getExperiments (list_active db) org now tnow tstore cache = (exps, cache')"
  shows "exps = exps' \<and> (\<forall>e \<in> set exps. exp_starts_at e \<le> now \<and> now \<le> exp_ends_at e)"
  using assms by (auto simp: getExperiments_def Let_def split: option.splits dest: listed)

end

lemma route_loop_sound:
  "route_loop exps apiKeyID metadata model draw = Ret (Some asg) \<Longrightarrow>
   \<exists>e arm. e \<in> set exps \<and> applies apiKeyID metadata e \<and> arm \<in> set (exp_arms e)
     \<and> asg = \<lparr>ea_experiment_id = exp_id e, ea_arm_id = arm_id arm, ea_assigned_model = arm_model arm,
              ea_original_model = model\<rparr>"
proof (induction exps)
  case (Cons e exps)
  show ?case
  proof (cases "applies apiKeyID metadata e")
    case True
    then have ne: "exp_arms e \<noteq> []" by (simp add: applies_def)
    have pick: "pick_arm n (exp_arms e) \<in> set (exp_arms e)" for n
    proof -
      have "walk_arms n arms = Some a \<Longrightarrow> a \<in> set arms" for n a arms
        by (induction n arms rule: walk_arms.induct) (auto simp: Let_def split: if_splits)
      then show ?thesis using ne by (auto simp: pick_arm_def split: option.split)
    qed
    then have "selectArm (exp_arms e) (exp_sticky_key e) metadata draw = Ret (Some a) \<Longrightarrow> a \<in> set (exp_arms e)" for a
      by (auto simp: selectArm_def Let_def split: if_splits option.splits)
    then show ?thesis using True Cons
      by (auto split: outcome.splits option.splits)
  next
    case False
    then show ?thesis using Cons by auto
  qed
qed simp

end
