(* ===== verification/Experiment_Store.thy ===== *)
theory Experiment_Store
  imports Experiments
begin

text \<open>
  The experiment repository (internal/repositories/experiments.go) on the tables experiments and
  experiment_arms, and the sync records it is filled from (the structs of
  internal/stewardclient/experimentsync.go). The interface of the router is interpreted on it.
\<close>

record ExperimentArmRecord =
  ear_id :: uuid
  ear_experiment_id :: uuid
  ear_name :: string
  ear_model :: string
  ear_weight :: int
  ear_is_control :: bool

record ExperimentRecord =
  er_id :: uuid
  er_org_id :: uuid
  er_status :: string
  er_api_key_id :: "uuid option"
  er_metadata_filters :: "(string \<times> string) list"
  er_sticky_key :: "string option"
  er_starts_at :: time
  er_ends_at :: time
  er_updated_at :: time
  er_arms :: "ExperimentArmRecord list"

text \<open>The two tables. Rows are the model's structs; the arms of an experiment row are empty. The
  fault is the error of the next statement the driver executes, if any.\<close>

record ExperimentDB =
  xdb_experiments :: "LocalExperiment list"
  xdb_arms :: "LocalExperimentArm list"
  xdb_fault :: "err option"

definition experiment_row :: "ExperimentRecord \<Rightarrow> LocalExperiment" where
  "experiment_row rec =
     \<lparr>exp_id = er_id rec, exp_org_id = er_org_id rec, exp_status = er_status rec,
      exp_api_key_id = er_api_key_id rec, exp_metadata_filters = er_metadata_filters rec,
      exp_sticky_key = er_sticky_key rec, exp_starts_at = er_starts_at rec, exp_ends_at = er_ends_at rec,
      exp_updated_at = er_updated_at rec, exp_arms = []\<rparr>"

definition arm_row :: "ExperimentArmRecord \<Rightarrow> LocalExperimentArm" where
  "arm_row a = \<lparr>arm_id = ear_id a, arm_experiment_id = ear_experiment_id a, arm_name = ear_name a,
     arm_model = ear_model a, arm_weight = ear_weight a, arm_is_control = ear_is_control a\<rparr>"

text \<open>The ON CONFLICT clauses: an experiment keeps its organization, an arm its experiment.\<close>

definition merge_experiment :: "LocalExperiment \<Rightarrow> LocalExperiment \<Rightarrow> LocalExperiment" where
  "merge_experiment old new = new\<lparr>exp_id := exp_id old, exp_org_id := exp_org_id old\<rparr>"

definition merge_arm :: "LocalExperimentArm \<Rightarrow> LocalExperimentArm \<Rightarrow> LocalExperimentArm" where
  "merge_arm old new = new\<lparr>arm_id := arm_id old, arm_experiment_id := arm_experiment_id old\<rparr>"

definition int32 :: "int \<Rightarrow> bool" where
  "int32 n = (- (2 ^ 31) \<le> n \<and> n < 2 ^ 31)"

text \<open>One arm: the weight has to fit the INT column, and a new row needs its experiment (foreign key).\<close>

definition upsert_arm :: "LocalExperiment list \<Rightarrow> ExperimentArmRecord \<Rightarrow> LocalExperimentArm list
    \<Rightarrow> err + LocalExperimentArm list" where
  "upsert_arm exps a arms =
     (if \<not> int32 (ear_weight a) then Inl ErrDB
      else if list_ex (\<lambda>r. arm_id r = ear_id a) arms \<or> list_ex (\<lambda>x. exp_id x = ear_experiment_id a) exps
      then Inr (upsert arm_id merge_arm (arm_row a) arms)
      else Inl ErrDB)"

fun upsert_arms :: "LocalExperiment list \<Rightarrow> ExperimentArmRecord list \<Rightarrow> LocalExperimentArm list
    \<Rightarrow> err + LocalExperimentArm list" where
  "upsert_arms exps [] arms = Inr arms"
| "upsert_arms exps (a # as) arms =
     (case upsert_arm exps a arms of Inl e \<Rightarrow> Inl e | Inr arms' \<Rightarrow> upsert_arms exps as arms')"

definition upsert_experiment :: "ExperimentRecord \<Rightarrow> ExperimentDB \<Rightarrow> err + ExperimentDB" where
  "upsert_experiment rec db =
     (let exps = upsert exp_id merge_experiment (experiment_row rec) (xdb_experiments db) in
      case upsert_arms exps (er_arms rec) (xdb_arms db) of
        Inl e \<Rightarrow> Inl (ErrWrap ''upsert arm'' e)
      | Inr arms \<Rightarrow> Inr (db\<lparr>xdb_experiments := exps,
          xdb_arms := fst (delete_where (\<lambda>r. arm_experiment_id r = er_id rec
                         \<and> arm_id r \<notin> ear_id ` set (er_arms rec)) arms)\<rparr>))"

fun upsert_all :: "ExperimentRecord list \<Rightarrow> ExperimentDB \<Rightarrow> err + ExperimentDB" where
  "upsert_all [] db = Inr db"
| "upsert_all (rec # recs) db =
     (case upsert_experiment rec db of Inl e \<Rightarrow> Inl e | Inr db' \<Rightarrow> upsert_all recs db')"

text \<open>The transaction: on an error everything is rolled back.\<close>

definition UpsertExperiments :: "ExperimentRecord list \<Rightarrow> ExperimentDB \<Rightarrow> err option \<times> ExperimentDB" where
  "UpsertExperiments records db =
     (if records = [] then (None, db)
      else case xdb_fault db of
        Some e \<Rightarrow> (Some (ErrWrap ''begin transaction'' e), db)
      | None \<Rightarrow> (case upsert_all records db of
            Inl e \<Rightarrow> (Some e, db)
          | Inr db' \<Rightarrow> (None, db')))"

definition arm_order :: "LocalExperimentArm \<Rightarrow> bool \<times> string" where
  "arm_order a = (\<not> arm_is_control a, arm_name a)"

text \<open>ORDER BY is_control DESC, name ASC, grouped by experiment.\<close>

definition fetchArmsByExperimentIDs :: "uuid list \<Rightarrow> ExperimentDB \<Rightarrow> uuid \<Rightarrow> LocalExperimentArm list" where
  "fetchArmsByExperimentIDs ids db =
     (let rows = sort_key arm_order (filter (\<lambda>a. arm_experiment_id a \<in> set ids) (xdb_arms db))
      in (\<lambda>id. filter (\<lambda>a. arm_experiment_id a = id) rows))"

definition ListActiveExperiments :: "ExperimentDB \<Rightarrow> uuid \<Rightarrow> time \<Rightarrow> err + LocalExperiment list" where
  "ListActiveExperiments db orgID now =
     (case xdb_fault db of
        Some e \<Rightarrow> Inl (ErrWrap ''list active experiments'' e)
      | None \<Rightarrow>
          let exps = filter (\<lambda>x. exp_org_id x = orgID \<and> exp_status x = ''active''
                                \<and> exp_starts_at x \<le> now \<and> now \<le> exp_ends_at x) (xdb_experiments db)
          in if exps = [] then Inr []
             else let armMap = fetchArmsByExperimentIDs (map exp_id exps) db
                  in Inr (map (\<lambda>x. x\<lparr>exp_arms := armMap (exp_id x)\<rparr>) exps))"

section \<open>The repository provides the store interface\<close>

interpretation xs: experiment_store ListActiveExperiments
proof
  fix db org now exps e
  assume "ListActiveExperiments db org now = Inr exps" "e \<in> set exps"
  then show "exp_org_id e = org \<and> exp_status e = ''active'' \<and> exp_starts_at e \<le> now \<and> now \<le> exp_ends_at e"
    by (auto simp: ListActiveExperiments_def Let_def split: option.splits if_splits)
qed

lemma list_active_ok: "xdb_fault db = None \<Longrightarrow> \<exists>exps. ListActiveExperiments db org now = Inr exps"
  by (simp add: ListActiveExperiments_def Let_def)

text \<open>What a cache filled by the router satisfies, starting from the empty one.\<close>

inductive router_reachable :: "router_cache \<Rightarrow> bool" where
  start: "router_reachable Map.empty"
| route: "router_reachable cache \<Longrightarrow>
    router_reachable (snd (Route (ListActiveExperiments db) org key metadata model now tnow tstore draw cache))"

lemma router_reachable_ok: "router_reachable cache \<Longrightarrow> xs.cache_ok cache"
proof (induction rule: router_reachable.induct)
  case start
  then show ?case by (simp add: xs.cache_ok_def)
next
  case (route cache db org key metadata model now tnow tstore draw)
  obtain exps cache' where g: "getExperiments (ListActiveExperiments db) org now tnow tstore cache = (exps, cache')"
    by fastforce
  then show ?case
    using xs.getExperiments_ok [OF route.IH g] by (simp add: Route_def)
qed



definition example_experiment :: LocalExperiment where
  "example_experiment =
     \<lparr>exp_id = 9, exp_org_id = 7, exp_status = ''active'', exp_api_key_id = None,
      exp_metadata_filters = [(''env'', ''prod'')], exp_sticky_key = None, exp_starts_at = 10, exp_ends_at = 20,
      exp_updated_at = 5, exp_arms = []\<rparr>"

definition example_db :: ExperimentDB where
  "example_db = \<lparr>xdb_experiments = [example_experiment], xdb_arms = example_arms, xdb_fault = None\<rparr>"

lemma example_route:
  "Route (ListActiveExperiments example_db) 7 None [''env'' \<mapsto> ''prod''] ''m0'' 15 15 15 (\<lambda>_. 3) Map.empty
   = (Ret (Some \<lparr>ea_experiment_id = 9, ea_arm_id = 3, ea_assigned_model = ''m3'', ea_original_model = ''m0''\<rparr>),
      [7 \<mapsto> \<lparr>ce_experiments = [example_experiment\<lparr>exp_arms := example_arms\<rparr>], ce_fetched_at = 15\<rparr>])"
proof -
  have l: "ListActiveExperiments example_db 7 15 = Inr [example_experiment\<lparr>exp_arms := example_arms\<rparr>]"
    by (simp add: ListActiveExperiments_def example_db_def example_experiment_def
        fetchArmsByExperimentIDs_def example_arms_def arm_order_def insort_key_def)
  have s: "selectArm example_arms None [''env'' \<mapsto> ''prod''] (\<lambda>_. 3) = Ret (Some (example_arms ! 2))"
    by (simp add: selectArm_def total_weight_def example_arms_def wrap64_def pick_arm_def)
  have a: "applies None [''env'' \<mapsto> ''prod''] (example_experiment\<lparr>exp_arms := example_arms\<rparr>)"
    by (simp add: applies_def example_experiment_def matchesFilters_def lookup_default_def example_arms_def)
  show ?thesis
    using a s by (simp add: Route_def getExperiments_def l) (simp add: example_experiment_def example_arms_def)
qed


section \<open>Staleness\<close>

text \<open>The window of a cached experiment is not checked again: while a cache entry is younger than
  thirty seconds, or when the store fails, the result of Route does not depend on the instant now,
  so an experiment that has ended since is still assigned. A filter on the empty value is satisfied
  by a request without the key.\<close>

theorem cached_window_unchecked:
  assumes "cache org = Some entry" and "tnow - ce_fetched_at entry < router_cache_ttl \<or> xdb_fault db = Some err"
  shows "Route (ListActiveExperiments db) org key metadata model now1 tnow tstore draw cache
       = Route (ListActiveExperiments db) org key metadata model now2 tnow tstore draw cache
    \<and> matchesFilters [(k, [])] Map.empty"
  using assms
  by (auto simp: Route_def getExperiments_def Let_def ListActiveExperiments_def matchesFilters_def
      lookup_default_def)

theorem cached_window_unchecked_witness:
  "Route (ListActiveExperiments example_db) 7 None [''env'' \<mapsto> ''prod''] ''m0'' 15 16 16 (\<lambda>_. 3)
     [7 \<mapsto> \<lparr>ce_experiments = [example_experiment\<lparr>exp_arms := example_arms\<rparr>], ce_fetched_at = 15\<rparr>]
   = Route (ListActiveExperiments example_db) 7 None [''env'' \<mapsto> ''prod''] ''m0'' 1000 16 16 (\<lambda>_. 3)
     [7 \<mapsto> \<lparr>ce_experiments = [example_experiment\<lparr>exp_arms := example_arms\<rparr>], ce_fetched_at = 15\<rparr>]"
  using cached_window_unchecked [where db = example_db and org = 7 and tnow = 16 and k = "[]"
      and cache = "[7 \<mapsto> \<lparr>ce_experiments = [example_experiment\<lparr>exp_arms := example_arms\<rparr>], ce_fetched_at = 15\<rparr>]"]
  by (simp add: router_cache_ttl_def)

section \<open>Synchronisation\<close>

definition xdb_inv :: "ExperimentDB \<Rightarrow> bool" where
  "xdb_inv db = (distinct (map exp_id (xdb_experiments db)) \<and> distinct (map arm_id (xdb_arms db)))"

lemma merge_arm_id [simp]: "arm_id (merge_arm old new) = arm_id old"
  by (simp add: merge_arm_def)

lemma merge_experiment_id [simp]: "exp_id (merge_experiment old new) = exp_id old"
  by (simp add: merge_experiment_def)

lemma arm_row_id [simp]: "arm_id (arm_row a) = ear_id a" "arm_experiment_id (arm_row a) = ear_experiment_id a"
  by (simp_all add: arm_row_def)

text \<open>Arms that belong to the experiment they are stored under.\<close>

definition owned :: "uuid \<Rightarrow> ExperimentArmRecord list \<Rightarrow> LocalExperimentArm list \<Rightarrow> bool" where
  "owned x as arms = ((\<forall>a \<in> set as. ear_experiment_id a = x \<and> int32 (ear_weight a))
     \<and> (\<forall>r \<in> set arms. arm_id r \<in> ear_id ` set as \<longrightarrow> arm_experiment_id r = x))"

lemma upsert_arm_owned:
  assumes "owned x (a # as) arms" "distinct (map arm_id arms)"
  shows "set (upsert arm_id merge_arm (arm_row a) arms)
    = {r \<in> set arms. arm_id r \<noteq> ear_id a} \<union> {arm_row a}"
proof -
  have "merge_arm r (arm_row a) = arm_row a"
    if f: "find (\<lambda>r. arm_id r = ear_id a) arms = Some r" for r
  proof -
    have "r \<in> set arms" "arm_id r = ear_id a" using find_row_Some [of _ arms r] f by (auto simp: find_row_def)
    moreover from this have "arm_experiment_id r = ear_experiment_id a" using assms(1) by (auto simp: owned_def)
    ultimately show ?thesis by (simp add: merge_arm_def arm_row_def)
  qed
  then show ?thesis
    using upsert_set_eq [OF assms(2), of merge_arm "arm_row a"] by (auto split: option.splits)
qed

lemma upsert_arms_owned:
  assumes "owned x as arms" "distinct (map arm_id arms)" "distinct (map ear_id as)"
    and "\<exists>e \<in> set exps. exp_id e = x"
  shows "\<exists>arms'. upsert_arms exps as arms = Inr arms' \<and> distinct (map arm_id arms')
    \<and> set arms' = {r \<in> set arms. arm_id r \<notin> ear_id ` set as} \<union> arm_row ` set as"
  using assms
proof (induction as arbitrary: arms)
  case (Cons a as)
  let ?arms = "upsert arm_id merge_arm (arm_row a) arms"
  have s: "set ?arms = {r \<in> set arms. arm_id r \<noteq> ear_id a} \<union> {arm_row a}"
    by (rule upsert_arm_owned [OF Cons.prems(1,2)])
  have d: "distinct (map arm_id ?arms)"
    by (rule upsert_distinct) (simp_all add: Cons.prems(2))
  have u: "upsert_arm exps a arms = Inr ?arms"
    using Cons.prems(1,4) by (auto simp: upsert_arm_def owned_def list_ex_iff)
  have "owned x as ?arms"
    using Cons.prems(1) by (auto simp: owned_def s)
  from Cons.IH [OF this d] Cons.prems(3,4) obtain arms' where
    "upsert_arms exps as ?arms = Inr arms'" "distinct (map arm_id arms')"
    "set arms' = {r \<in> set ?arms. arm_id r \<notin> ear_id ` set as} \<union> arm_row ` set as" by auto
  then show ?case using u s Cons.prems(3) by (auto simp: image_iff)
qed simp

text \<open>What is listed of an active experiment: the row with all its arms.\<close>

lemma ListActiveExperiments_lists:
  assumes "xdb_fault db = None" "x \<in> set (xdb_experiments db)" "exp_status x = ''active''" "exp_starts_at x \<le> now" "now \<le> exp_ends_at x"
  shows "\<exists>exps e. ListActiveExperiments db (exp_org_id x) now = Inr exps \<and> e \<in> set exps \<and> exp_id e = exp_id x
    \<and> set (exp_arms e) = {r \<in> set (xdb_arms db). arm_experiment_id r = exp_id x}"
proof -
  define act where "act = filter (\<lambda>y. exp_org_id y = exp_org_id x \<and> exp_status y = ''active''
      \<and> exp_starts_at y \<le> now \<and> now \<le> exp_ends_at y) (xdb_experiments db)"
  let ?arms = "fetchArmsByExperimentIDs (map exp_id act) db"
  have x: "x \<in> set act" using assms(2-5) by (simp add: act_def)
  then have ne: "act \<noteq> []" by auto
  have l: "ListActiveExperiments db (exp_org_id x) now = Inr (map (\<lambda>y. y\<lparr>exp_arms := ?arms (exp_id y)\<rparr>) act)"
    using ne assms(1) by (simp add: ListActiveExperiments_def act_def [symmetric] Let_def)
  have "exp_id x \<in> exp_id ` set act" using x by (rule imageI)
  then have "set (?arms (exp_id x)) = {r \<in> set (xdb_arms db). arm_experiment_id r = exp_id x}"
    by (auto simp: fetchArmsByExperimentIDs_def Let_def)
  then show ?thesis unfolding l using x
    by (intro exI [of _ "map (\<lambda>y. y\<lparr>exp_arms := ?arms (exp_id y)\<rparr>) act"] exI [of _ "x\<lparr>exp_arms := ?arms (exp_id x)\<rparr>"]) simp
qed

text \<open>An experiment that keeps its organization is stored as it was received, with its arms for the old ones.\<close>

lemma experiment_row_stored:
  assumes "\<forall>x \<in> set rows. exp_id x = er_id rec \<longrightarrow> exp_org_id x = er_org_id rec"
  shows "experiment_row rec \<in> set (upsert exp_id merge_experiment (experiment_row rec) rows)"
proof -
  have "merge_experiment x (experiment_row rec) = experiment_row rec" if f: "find (\<lambda>x. exp_id x = er_id rec) rows = Some x" for x
    using find_row_Some [of _ rows x] f assms by (auto simp: find_row_def merge_experiment_def experiment_row_def)
  then have "find_row (\<lambda>x. exp_id x = er_id rec) (upsert exp_id merge_experiment (experiment_row rec) rows) = Some (experiment_row rec)"
    using upsert_find_same [of exp_id merge_experiment "experiment_row rec" rows]
    by (auto simp: find_row_def experiment_row_def split: option.splits)
  then show ?thesis by (rule find_row_Some [THEN conjunct1])
qed

lemma UpsertExperiments_one:
  assumes "xdb_inv db" "xdb_fault db = None" "owned (er_id rec) (er_arms rec) (xdb_arms db)" "distinct (map ear_id (er_arms rec))"
    "\<forall>x \<in> set (xdb_experiments db). exp_id x = er_id rec \<longrightarrow> exp_org_id x = er_org_id rec"
  obtains db' where "UpsertExperiments [rec] db = (None, db')" "xdb_inv db'" "xdb_fault db' = None"
    "xdb_experiments db' = upsert exp_id merge_experiment (experiment_row rec) (xdb_experiments db)"
    "set (xdb_arms db') = {r \<in> set (xdb_arms db). arm_experiment_id r \<noteq> er_id rec} \<union> arm_row ` set (er_arms rec)"
proof -
  let ?exps = "upsert exp_id merge_experiment (experiment_row rec) (xdb_experiments db)"
  have ex: "\<exists>e \<in> set ?exps. exp_id e = er_id rec"
    using experiment_row_stored [OF assms(5)] by (rule bexI [rotated]) (simp add: experiment_row_def)
  have da: "distinct (map arm_id (xdb_arms db))" using assms(1) by (simp add: xdb_inv_def)
  obtain arms' where arms: "upsert_arms ?exps (er_arms rec) (xdb_arms db) = Inr arms'" "distinct (map arm_id arms')"
    "set arms' = {r \<in> set (xdb_arms db). arm_id r \<notin> ear_id ` set (er_arms rec)} \<union> arm_row ` set (er_arms rec)"
    using upsert_arms_owned [OF assms(3) da assms(4) ex] by blast
  let ?db = "db\<lparr>xdb_experiments := ?exps, xdb_arms := filter (\<lambda>r. \<not> (arm_experiment_id r = er_id rec
      \<and> arm_id r \<notin> ear_id ` set (er_arms rec))) arms'\<rparr>"
  show thesis
  proof
    show "UpsertExperiments [rec] db = (None, ?db)"
      using assms(2) arms(1) by (simp add: UpsertExperiments_def upsert_experiment_def delete_where_def)
    show "xdb_inv ?db"
      using assms(1) arms(2) upsert_distinct [of exp_id merge_experiment "xdb_experiments db" "experiment_row rec"]
      by (simp add: xdb_inv_def distinct_map_filter)
    show "set (xdb_arms ?db) = {r \<in> set (xdb_arms db). arm_experiment_id r \<noteq> er_id rec} \<union> arm_row ` set (er_arms rec)"
      using assms(3) by (auto simp: arms(3) owned_def)
  qed (simp_all add: assms(2))
qed

text \<open>C19: Synchronising an experiment makes the local copy equal to the received record: after the
  transaction, an active experiment whose window contains now is listed for its organization with
  exactly the received arms (arms the record no longer has are gone), the rows of other experiments
  and their arms are unchanged, and the keys of both tables stay unique. With a failing database
  nothing changes.\<close>

theorem sync_experiment:
  assumes "xdb_inv db" and "xdb_fault db = None" and "owned (er_id rec) (er_arms rec) (xdb_arms db)"
    and "distinct (map ear_id (er_arms rec))" and "er_status rec = ''active''"
    and "er_starts_at rec \<le> now" and "now \<le> er_ends_at rec"
    and "\<forall>x \<in> set (xdb_experiments db). exp_id x = er_id rec \<longrightarrow> exp_org_id x = er_org_id rec"
  shows "\<exists>db'. UpsertExperiments [rec] db = (None, db') \<and> xdb_inv db'
    \<and> (\<exists>exps e. ListActiveExperiments db' (er_org_id rec) now = Inr exps \<and> e \<in> set exps
        \<and> exp_id e = er_id rec \<and> set (exp_arms e) = arm_row ` set (er_arms rec))
    \<and> (\<forall>k. k \<noteq> er_id rec \<longrightarrow> find_row (\<lambda>x. exp_id x = k) (xdb_experiments db')
                              = find_row (\<lambda>x. exp_id x = k) (xdb_experiments db))
    \<and> {r \<in> set (xdb_arms db'). arm_experiment_id r \<noteq> er_id rec}
        = {r \<in> set (xdb_arms db). arm_experiment_id r \<noteq> er_id rec}
    \<and> UpsertExperiments [rec] (db\<lparr>xdb_fault := Some e0\<rparr>)
        = (Some (ErrWrap ''begin transaction'' e0), db\<lparr>xdb_fault := Some e0\<rparr>)"
proof -
  obtain db' where up: "UpsertExperiments [rec] db = (None, db')" "xdb_inv db'" "xdb_fault db' = None"
    "xdb_experiments db' = upsert exp_id merge_experiment (experiment_row rec) (xdb_experiments db)"
    "set (xdb_arms db') = {r \<in> set (xdb_arms db). arm_experiment_id r \<noteq> er_id rec} \<union> arm_row ` set (er_arms rec)"
    by (rule UpsertExperiments_one [OF assms(1-4,8)])
  let ?row = "experiment_row rec"
  have own: "ear_experiment_id a = er_id rec" if "a \<in> set (er_arms rec)" for a using assms(3) that by (auto simp: owned_def)
  have row: "exp_id ?row = er_id rec" "exp_org_id ?row = er_org_id rec" "exp_status ?row = ''active''" "exp_starts_at ?row \<le> now"
    "now \<le> exp_ends_at ?row" using assms(5-7) by (simp_all add: experiment_row_def)
  have "?row \<in> set (xdb_experiments db')" unfolding up(4) by (rule experiment_row_stored [OF assms(8)])
  moreover have "{r \<in> set (xdb_arms db'). arm_experiment_id r = er_id rec} = arm_row ` set (er_arms rec)"
    using own by (auto simp: up(5))
  ultimately
  have listed: "\<exists>exps e. ListActiveExperiments db' (er_org_id rec) now = Inr exps \<and> e \<in> set exps
      \<and> exp_id e = er_id rec \<and> set (exp_arms e) = arm_row ` set (er_arms rec)"
    using ListActiveExperiments_lists [OF up(3) _ row(3-5), unfolded row(1,2)] by simp
  have other: "{r \<in> set (xdb_arms db'). arm_experiment_id r \<noteq> er_id rec} = {r \<in> set (xdb_arms db). arm_experiment_id r \<noteq> er_id rec}"
    using own by (auto simp: up(5))
  have rows: "find_row (\<lambda>x. exp_id x = k) (xdb_experiments db') = find_row (\<lambda>x. exp_id x = k) (xdb_experiments db)"
    if "k \<noteq> er_id rec" for k
    using that upsert_find_other [of exp_id merge_experiment k ?row "xdb_experiments db"] by (simp add: up(4) find_row_def row(1))
  have "UpsertExperiments [rec] (db\<lparr>xdb_fault := Some e0\<rparr>) = (Some (ErrWrap ''begin transaction'' e0), db\<lparr>xdb_fault := Some e0\<rparr>)"
    by (simp add: UpsertExperiments_def)
  then show ?thesis using up(1,2) listed other rows by blast
qed

definition example_record :: ExperimentRecord where
  "example_record =
     \<lparr>er_id = 9, er_org_id = 7, er_status = ''active'', er_api_key_id = None, er_metadata_filters = [],
      er_sticky_key = None, er_starts_at = 10, er_ends_at = 20, er_updated_at = 6,
      er_arms = [\<lparr>ear_id = 1, ear_experiment_id = 9, ear_name = ''a'', ear_model = ''m9'', ear_weight = 2,
                  ear_is_control = True\<rparr>]\<rparr>"

theorem sync_experiment_witness:
  "\<exists>db'. UpsertExperiments [example_record] example_db = (None, db') \<and> xdb_inv db'
    \<and> (\<exists>exps e. ListActiveExperiments db' 7 15 = Inr exps \<and> e \<in> set exps \<and> map arm_model (exp_arms e) = [''m9''])"
proof -
  have w: "xdb_inv example_db" "xdb_fault example_db = None"
    "owned (er_id example_record) (er_arms example_record) (xdb_arms example_db)"
    "distinct (map ear_id (er_arms example_record))" "er_status example_record = ''active''"
    "er_starts_at example_record \<le> 15" "15 \<le> er_ends_at example_record"
    "\<forall>x \<in> set (xdb_experiments example_db). exp_id x = er_id example_record \<longrightarrow> exp_org_id x = er_org_id example_record"
    by (simp_all add: xdb_inv_def example_db_def example_arms_def owned_def example_record_def int32_def
        example_experiment_def)
  from sync_experiment [OF this, of ErrDB] obtain db' exps e where
    d: "UpsertExperiments [example_record] example_db = (None, db')" "xdb_inv db'"
    "ListActiveExperiments db' 7 15 = Inr exps" "e \<in> set exps"
    "set (exp_arms e) = arm_row ` set (er_arms example_record)"
    by (auto simp: example_record_def)
  have db': "db' = snd (UpsertExperiments [example_record] example_db)" using d(1) by simp
  have "map arm_model (exp_arms e) = [''m9'']"
    using d(3,4)
    by (simp add: db' UpsertExperiments_def upsert_experiment_def example_record_def example_db_def
        example_arms_def example_experiment_def upsert_arm_def arm_row_def experiment_row_def int32_def
        merge_experiment_def merge_arm_def delete_where_def ListActiveExperiments_def
        fetchArmsByExperimentIDs_def arm_order_def) auto
  then show ?thesis
    by (intro exI [of _ db'] conjI exI [of _ exps] exI [of _ e] d(1) d(2) d(3) d(4))
qed

end
