(* ===== verification/Key_Store.thy ===== *)
theory Key_Store
  imports Models Sql_Table
begin

text \<open>
  The credential tables and their repositories: API keys (internal/repositories/api_keys.go), proxy
  keys and provider mappings (proxy_keys.go) and provider API keys (provider_keys.go).

  A statement either runs or reports an error of the driver. The outcomes of the statements to come
  are a list in the database, consumed one per statement: None for one that runs, Some e for one
  that fails with e before it changes anything; beyond the end of the list every statement runs.
  UNIQUE and REFERENCES constraints are part of the statements, the length limits of VARCHAR columns
  are among the failures. Generated identifiers and the clock of the database are arguments.
\<close>

record KeyDB =
  kdb_api_keys :: "APIKey list"
  kdb_proxy_keys :: "ProxyKey list"
  kdb_mappings :: "ProviderMapping list"
  kdb_provider_keys :: "ProviderAPIKey list"
  kdb_faults :: "err option list"

type_synonym 'a db_op = "KeyDB \<Rightarrow> (err + 'a) \<times> KeyDB"

definition stmt :: "'a db_op \<Rightarrow> 'a db_op" where
  "stmt f db =
     (case kdb_faults db of
        [] \<Rightarrow> f db
      | None # fs \<Rightarrow> f (db\<lparr>kdb_faults := fs\<rparr>)
      | Some e # fs \<Rightarrow> (Inl e, db\<lparr>kdb_faults := fs\<rparr>))"

text \<open>A statement whose error is wrapped with a message.\<close>

definition sql :: "string \<Rightarrow> 'a db_op \<Rightarrow> 'a db_op" where
  "sql msg f db = (case stmt f db of (Inl e, db') \<Rightarrow> (Inl (ErrWrap msg e), db') | (Inr v, db') \<Rightarrow> (Inr v, db'))"

text \<open>The row is required: no row is the given error.\<close>

definition or_err :: "err \<Rightarrow> (err + 'a option) \<times> KeyDB \<Rightarrow> (err + 'a) \<times> KeyDB" where
  "or_err e r = (case r of
     (Inl e', db) \<Rightarrow> (Inl e', db) | (Inr None, db) \<Rightarrow> (Inl e, db) | (Inr (Some v), db) \<Rightarrow> (Inr v, db))"

text \<open>At least one row has to be affected.\<close>

definition affected :: "err \<Rightarrow> (err + nat) \<times> KeyDB \<Rightarrow> (err + unit) \<times> KeyDB" where
  "affected e r = (case r of
     (Inl e', db) \<Rightarrow> (Inl e', db) | (Inr n, db) \<Rightarrow> (if n = 0 then (Inl e, db) else (Inr (), db)))"

section \<open>API keys\<close>

definition CreateAPIKey :: "uuid \<Rightarrow> time \<Rightarrow> string \<Rightarrow> CreateAPIKeyInput \<Rightarrow> APIKey db_op" where
  "CreateAPIKey newid now keyHash inp = sql ''create api key'' (\<lambda>db.
     if list_ex (\<lambda>k. ak_id k = newid \<or> ak_key_hash k = keyHash) (kdb_api_keys db) then (Inl ErrDB, db)
     else let key = \<lparr>ak_id = newid, ak_key_hash = keyHash, ak_name = cak_name inp,
                     ak_description = cak_description inp, ak_user_id = cak_user_id inp,
                     ak_org_id = cak_org_id inp, ak_is_active = True, ak_created_at = now,
                     ak_revoked_at = None, ak_last_used_at = None, ak_request_count = 0,
                     ak_deprecated_behavior = DeprecatedModelBehaviorPassthrough\<rparr>
          in (Inr key, db\<lparr>kdb_api_keys := kdb_api_keys db @ [key]\<rparr>))"

definition GetAPIKeyByHash :: "string \<Rightarrow> APIKey option db_op" where
  "GetAPIKeyByHash keyHash = sql ''get api key by hash''
     (\<lambda>db. (Inr (find_row (\<lambda>k. ak_key_hash k = keyHash) (kdb_api_keys db)), db))"

definition GetAPIKeyByID :: "uuid \<Rightarrow> APIKey db_op" where
  "GetAPIKeyByID kid db = or_err ErrAPIKeyNotFound (sql ''get api key by id''
     (\<lambda>db. (Inr (find_row (\<lambda>k. ak_id k = kid) (kdb_api_keys db)), db)) db)"

text \<open>ORDER BY created_at DESC.\<close>

definition ListAPIKeys :: "APIKey list db_op" where
  "ListAPIKeys = sql ''list api keys''
     (\<lambda>db. (Inr (sort_key (\<lambda>k. - ak_created_at k) (kdb_api_keys db)), db))"

definition apply_update :: "UpdateAPIKeyInput \<Rightarrow> APIKey \<Rightarrow> APIKey" where
  "apply_update inp k = k\<lparr>
     ak_name := (case uak_name inp of Some n \<Rightarrow> n | None \<Rightarrow> ak_name k),
     ak_description := (case uak_description inp of Some d \<Rightarrow> Some d | None \<Rightarrow> ak_description k),
     ak_deprecated_behavior :=
       (case uak_deprecated_behavior inp of Some b \<Rightarrow> b | None \<Rightarrow> ak_deprecated_behavior k)\<rparr>"

definition UpdateAPIKey :: "uuid \<Rightarrow> UpdateAPIKeyInput \<Rightarrow> APIKey db_op" where
  "UpdateAPIKey kid inp db =
     (if uak_name inp = None \<and> uak_description inp = None \<and> uak_deprecated_behavior inp = None
      then GetAPIKeyByID kid db
      else or_err ErrAPIKeyNotFound (sql ''update api key'' (\<lambda>db.
        let rows = fst (update_where (\<lambda>k. ak_id k = kid) (apply_update inp) (kdb_api_keys db))
        in (Inr (find_row (\<lambda>k. ak_id k = kid) rows), db\<lparr>kdb_api_keys := rows\<rparr>)) db))"

definition RevokeAPIKey :: "time \<Rightarrow> uuid \<Rightarrow> unit db_op" where
  "RevokeAPIKey now kid db = affected ErrAPIKeyNotFound (sql ''revoke api key'' (\<lambda>db.
     let (rows, n) = update_where (\<lambda>k. ak_id k = kid \<and> ak_is_active k)
           (\<lambda>k. k\<lparr>ak_is_active := False, ak_revoked_at := Some now\<rparr>) (kdb_api_keys db)
     in (Inr n, db\<lparr>kdb_api_keys := rows\<rparr>)) db)"

text \<open>The counter is a BIGINT: counting past its range is an error of the statement.\<close>

definition UpdateAPIKeyLastUsed :: "time \<Rightarrow> uuid \<Rightarrow> unit db_op" where
  "UpdateAPIKeyLastUsed now kid = sql ''update api key last used'' (\<lambda>db.
     if list_ex (\<lambda>k. ak_id k = kid \<and> \<not> in_int64 (ak_request_count k + 1)) (kdb_api_keys db) then (Inl ErrDB, db)
     else (Inr (), db\<lparr>kdb_api_keys := fst (update_where (\<lambda>k. ak_id k = kid)
            (\<lambda>k. k\<lparr>ak_last_used_at := Some now, ak_request_count := ak_request_count k + 1\<rparr>)
            (kdb_api_keys db))\<rparr>))"

definition ListAPIKeysByUserID :: "uuid \<Rightarrow> APIKey list db_op" where
  "ListAPIKeysByUserID userID = sql ''list api keys by user id'' (\<lambda>db.
     (Inr (sort_key (\<lambda>k. - ak_created_at k) (filter (\<lambda>k. ak_user_id k = Some userID) (kdb_api_keys db))), db))"

definition ListAPIKeysByOrgID :: "uuid \<Rightarrow> APIKey list db_op" where
  "ListAPIKeysByOrgID orgID = sql ''list api keys by org id'' (\<lambda>db.
     (Inr (sort_key (\<lambda>k. - ak_created_at k) (filter (\<lambda>k. ak_org_id k = Some orgID) (kdb_api_keys db))), db))"

section \<open>Proxy keys\<close>

definition CreateProxyKey :: "uuid \<Rightarrow> time \<Rightarrow> string \<Rightarrow> uuid \<Rightarrow> CreateProxyKeyInput \<Rightarrow> ProxyKey db_op" where
  "CreateProxyKey newid now keyHash majordomoKeyID inp = sql ''create proxy key'' (\<lambda>db.
     if list_ex (\<lambda>k. pk_id k = newid \<or> pk_key_hash k = keyHash) (kdb_proxy_keys db)
        \<or> \<not> list_ex (\<lambda>k. ak_id k = majordomoKeyID) (kdb_api_keys db) then (Inl ErrDB, db)
     else let key = \<lparr>pk_id = newid, pk_key_hash = keyHash, pk_name = cpk_name inp,
                     pk_description = cpk_description inp, pk_api_key_id = majordomoKeyID,
                     pk_is_active = True, pk_created_at = now, pk_revoked_at = None,
                     pk_last_used_at = None, pk_request_count = 0\<rparr>
          in (Inr key, db\<lparr>kdb_proxy_keys := kdb_proxy_keys db @ [key]\<rparr>))"

definition GetProxyKeyByHash :: "string \<Rightarrow> ProxyKey option db_op" where
  "GetProxyKeyByHash keyHash = sql ''get proxy key by hash''
     (\<lambda>db. (Inr (find_row (\<lambda>k. pk_key_hash k = keyHash) (kdb_proxy_keys db)), db))"

definition GetProxyKeyByID :: "uuid \<Rightarrow> ProxyKey db_op" where
  "GetProxyKeyByID kid db = or_err ErrProxyKeyNotFoundRepo (sql ''get proxy key by id''
     (\<lambda>db. (Inr (find_row (\<lambda>k. pk_id k = kid) (kdb_proxy_keys db)), db)) db)"

definition ListProxyKeys :: "uuid \<Rightarrow> ProxyKey list db_op" where
  "ListProxyKeys majordomoKeyID = sql ''list proxy keys'' (\<lambda>db.
     (Inr (sort_key (\<lambda>k. - pk_created_at k)
             (filter (\<lambda>k. pk_api_key_id k = majordomoKeyID) (kdb_proxy_keys db))), db))"

definition RevokeProxyKey :: "time \<Rightarrow> uuid \<Rightarrow> unit db_op" where
  "RevokeProxyKey now kid db = affected ErrProxyKeyNotFoundRepo (sql ''revoke proxy key'' (\<lambda>db.
     let (rows, n) = update_where (\<lambda>k. pk_id k = kid \<and> pk_is_active k)
           (\<lambda>k. k\<lparr>pk_is_active := False, pk_revoked_at := Some now\<rparr>) (kdb_proxy_keys db)
     in (Inr n, db\<lparr>kdb_proxy_keys := rows\<rparr>)) db)"

definition UpdateProxyKeyLastUsed :: "time \<Rightarrow> uuid \<Rightarrow> unit db_op" where
  "UpdateProxyKeyLastUsed now kid = sql ''update proxy key last used'' (\<lambda>db.
     if list_ex (\<lambda>k. pk_id k = kid \<and> \<not> in_int64 (pk_request_count k + 1)) (kdb_proxy_keys db) then (Inl ErrDB, db)
     else (Inr (), db\<lparr>kdb_proxy_keys := fst (update_where (\<lambda>k. pk_id k = kid)
            (\<lambda>k. k\<lparr>pk_last_used_at := Some now, pk_request_count := pk_request_count k + 1\<rparr>)
            (kdb_proxy_keys db))\<rparr>))"

text \<open>The conflict key is the pair of proxy key and provider; a mapping keeps its identifier and its
  creation time.\<close>

definition mapping_key :: "ProviderMapping \<Rightarrow> uuid \<times> string" where
  "mapping_key m = (pm_proxy_key_id m, pm_provider m)"

definition merge_mapping :: "ProviderMapping \<Rightarrow> ProviderMapping \<Rightarrow> ProviderMapping" where
  "merge_mapping old new = old\<lparr>pm_encrypted_key := pm_encrypted_key new, pm_updated_at := pm_updated_at new\<rparr>"

definition SetProviderMapping :: "uuid \<Rightarrow> time \<Rightarrow> uuid \<Rightarrow> string \<Rightarrow> string \<Rightarrow> unit db_op" where
  "SetProviderMapping newid now proxyKeyID prov encryptedKey = sql ''set provider mapping'' (\<lambda>db.
     if \<not> list_ex (\<lambda>k. pk_id k = proxyKeyID) (kdb_proxy_keys db) then (Inl ErrDB, db)
     else (Inr (), db\<lparr>kdb_mappings := upsert mapping_key merge_mapping
            \<lparr>pm_id = newid, pm_proxy_key_id = proxyKeyID, pm_provider = prov,
             pm_encrypted_key = encryptedKey, pm_created_at = now, pm_updated_at = now\<rparr>
            (kdb_mappings db)\<rparr>))"

definition GetProviderMapping :: "uuid \<Rightarrow> string \<Rightarrow> ProviderMapping option db_op" where
  "GetProviderMapping proxyKeyID prov = sql ''get provider mapping''
     (\<lambda>db. (Inr (find_row (\<lambda>m. mapping_key m = (proxyKeyID, prov)) (kdb_mappings db)), db))"

definition ListProviderMappings :: "uuid \<Rightarrow> ProviderMapping list db_op" where
  "ListProviderMappings proxyKeyID = sql ''list provider mappings'' (\<lambda>db.
     (Inr (sort_key pm_provider (filter (\<lambda>m. pm_proxy_key_id m = proxyKeyID) (kdb_mappings db))), db))"

definition DeleteProviderMapping :: "uuid \<Rightarrow> string \<Rightarrow> unit db_op" where
  "DeleteProviderMapping proxyKeyID prov db = affected ErrProviderMappingNotFound
     (sql ''delete provider mapping'' (\<lambda>db.
       let (rows, n) = delete_where (\<lambda>m. mapping_key m = (proxyKeyID, prov)) (kdb_mappings db)
       in (Inr n, db\<lparr>kdb_mappings := rows\<rparr>)) db)"

section \<open>Provider API keys\<close>

text \<open>The statement of an upsert: the owner is the user when one is given, else the organization.\<close>

definition provider_key_owner :: "ProviderAPIKey \<Rightarrow> uuid option \<times> uuid option \<times> string" where
  "provider_key_owner k = (pak_user_id k, pak_org_id k, pak_provider k)"

definition merge_provider_key :: "ProviderAPIKey \<Rightarrow> ProviderAPIKey \<Rightarrow> ProviderAPIKey" where
  "merge_provider_key old new = old\<lparr>pak_encrypted_key := pak_encrypted_key new, pak_updated_at := pak_updated_at new\<rparr>"

definition put_provider_key :: "uuid \<Rightarrow> time \<Rightarrow> uuid option \<Rightarrow> uuid option \<Rightarrow> ProviderAPIKey \<Rightarrow> unit db_op" where
  "put_provider_key newid now uid oid k db =
     (Inr (), db\<lparr>kdb_provider_keys := upsert provider_key_owner merge_provider_key
        \<lparr>pak_id = newid, pak_user_id = uid, pak_org_id = oid, pak_provider = pak_provider k,
         pak_encrypted_key = pak_encrypted_key k, pak_created_at = now, pak_updated_at = now\<rparr>
        (kdb_provider_keys db)\<rparr>)"

definition upsertProviderKey :: "uuid \<Rightarrow> time \<Rightarrow> ProviderAPIKey \<Rightarrow> unit db_op" where
  "upsertProviderKey newid now k db =
     (case pak_user_id k of
        Some u \<Rightarrow> sql ''upsert provider key for user'' (put_provider_key newid now (Some u) None k) db
      | None \<Rightarrow>
          (case pak_org_id k of
             None \<Rightarrow> (Inl (ErrMsg ''upsert provider key: user_id and org_id both nil''), db)
           | Some orgid \<Rightarrow> sql ''upsert provider key for org'' (put_provider_key newid now None (Some orgid) k) db))"

fun upsert_keys_tx :: "time \<Rightarrow> (uuid \<times> ProviderAPIKey) list \<Rightarrow> unit db_op" where
  "upsert_keys_tx now [] db = (Inr (), db)"
| "upsert_keys_tx now ((newid, k) # ks) db =
     (case upsertProviderKey newid now k db of
        (Inl e, db') \<Rightarrow> (Inl e, db')
      | (Inr _, db') \<Rightarrow> upsert_keys_tx now ks db')"

text \<open>The batch runs in a transaction: on any error, that of the commit included, the tables are as
  before. The identifiers the database would generate are given with the keys.\<close>

definition UpsertBatch :: "time \<Rightarrow> (uuid \<times> ProviderAPIKey) list \<Rightarrow> unit db_op" where
  "UpsertBatch now keys db =
     (if keys = [] then (Inr (), db)
      else case sql ''begin tx'' (\<lambda>d. (Inr (), d)) db of
        (Inl e, db1) \<Rightarrow> (Inl e, db1)
      | (Inr _, db1) \<Rightarrow>
          (case upsert_keys_tx now keys db1 of
             (Inl e, db2) \<Rightarrow> (Inl e, db1\<lparr>kdb_faults := kdb_faults db2\<rparr>)
           | (Inr _, db2) \<Rightarrow>
               (case sql ''commit upsert provider keys'' (\<lambda>d. (Inr (), d)) db2 of
                  (Inl e, db3) \<Rightarrow> (Inl e, db1\<lparr>kdb_faults := kdb_faults db3\<rparr>)
                | (Inr _, db3) \<Rightarrow> (Inr (), db3))))"

text \<open>Without an organization the user is dereferenced.\<close>

definition provider_key_query :: "uuid option \<Rightarrow> uuid option \<Rightarrow> string \<Rightarrow> ProviderAPIKey \<Rightarrow> bool" where
  "provider_key_query userID orgID prov k =
     (case orgID of
        Some orgid \<Rightarrow> pak_org_id k = Some orgid \<and> pak_provider k = prov
      | None \<Rightarrow> pak_user_id k = userID \<and> pak_provider k = prov)"

definition GetProviderKey :: "uuid option \<Rightarrow> uuid option \<Rightarrow> string \<Rightarrow> KeyDB \<Rightarrow> ProviderAPIKey outcome \<times> KeyDB" where
  "GetProviderKey userID orgID prov db =
     (if orgID = None \<and> userID = None then (Panic ''nil pointer dereference'', db)
      else apfst (case_sum Fail Ret) (or_err ErrProviderKeyNotFound (sql ''get provider key''
             (\<lambda>db. (Inr (find_row (provider_key_query userID orgID prov) (kdb_provider_keys db)), db)) db)))"

section \<open>Statements\<close>

text \<open>The same tables; only the outcomes still to come may differ.\<close>

definition same_tables :: "KeyDB \<Rightarrow> KeyDB \<Rightarrow> bool" where
  "same_tables db db' = (db\<lparr>kdb_faults := []\<rparr> = db'\<lparr>kdb_faults := []\<rparr>)"

lemma same_tables_iff: "same_tables db db' \<longleftrightarrow>
    kdb_api_keys db' = kdb_api_keys db \<and> kdb_proxy_keys db' = kdb_proxy_keys db
    \<and> kdb_mappings db' = kdb_mappings db \<and> kdb_provider_keys db' = kdb_provider_keys db"
  by (cases db; cases db') (auto simp: same_tables_def)

lemma same_tables_refl [simp]: "same_tables db db" "same_tables db (db\<lparr>kdb_faults := fs\<rparr>)"
  by (simp_all add: same_tables_iff)

lemma same_tables_trans: "same_tables a b \<Longrightarrow> same_tables b c \<Longrightarrow> same_tables a c"
  by (simp add: same_tables_def)

text \<open>A statement fails without a change, or runs on the same tables.\<close>

lemma stmt_cases:
  obtains (fail) e fs where "stmt f db = (Inl e, db\<lparr>kdb_faults := fs\<rparr>)"
  | (run) fs where "stmt f db = f (db\<lparr>kdb_faults := fs\<rparr>)"
proof (cases "kdb_faults db")
  case Nil
  then have "stmt f db = f (db\<lparr>kdb_faults := []\<rparr>)" by (cases db) (simp add: stmt_def)
  then show ?thesis by (rule run)
next
  case (Cons r fs)
  then show ?thesis using fail run by (cases r) (auto simp: stmt_def)
qed

lemma sql_cases:
  obtains (fail) e fs where "sql msg f db = (Inl (ErrWrap msg e), db\<lparr>kdb_faults := fs\<rparr>)"
  | (run) fs where "sql msg f db = apfst (map_sum (ErrWrap msg) (\<lambda>v. v)) (f (db\<lparr>kdb_faults := fs\<rparr>))"
proof (cases rule: stmt_cases [of f db])
  case (fail e fs)
  then show ?thesis using that(1) by (simp add: sql_def)
next
  case (run fs)
  then show ?thesis using that(2) [of fs]
    by (cases "f (db\<lparr>kdb_faults := fs\<rparr>)") (auto simp: sql_def split: sum.splits)
qed

text \<open>With no failure ahead a statement just runs.\<close>

lemma sql_ok: "kdb_faults db = [] \<Longrightarrow> sql msg f db = apfst (map_sum (ErrWrap msg) (\<lambda>v. v)) (f db)"
  by (cases "f db") (auto simp: sql_def stmt_def split: sum.splits)

text \<open>A query reads and changes nothing.\<close>

lemma sql_query: "same_tables db (snd (sql msg (\<lambda>d. (Inr (q d), d)) db))"
  by (cases rule: sql_cases [of msg "\<lambda>d. (Inr (q d), d)" db]) simp_all

lemma sql_query_val:
  assumes "\<And>fs. q (db\<lparr>kdb_faults := fs\<rparr>) = q db" "fst (sql msg (\<lambda>d. (Inr (q d), d)) db) = Inr v"
  shows "v = q db"
  using assms(2) by (cases rule: sql_cases [of msg "\<lambda>d. (Inr (q d), d)" db]) (simp_all add: assms(1))

lemma or_err_Inr: "or_err e r = (Inr v, db) \<longleftrightarrow> r = (Inr (Some v), db)"
  by (cases r; cases "fst r") (auto simp: or_err_def split: option.splits)

lemma or_err_snd [simp]: "snd (or_err e r) = snd r"
  by (cases r) (auto simp: or_err_def split: sum.splits option.splits)

lemma affected_snd [simp]: "snd (affected e r) = snd r"
  by (cases r) (auto simp: affected_def split: sum.splits)

section \<open>The invariant of the tables\<close>

text \<open>Keys are unique, references are to existing rows, and a revoked key is not active.\<close>

definition api_keys_ok :: "APIKey list \<Rightarrow> bool" where
  "api_keys_ok ks = (distinct (map ak_id ks) \<and> distinct (map ak_key_hash ks)
     \<and> list_all (\<lambda>k. ak_revoked_at k \<noteq> None \<longrightarrow> \<not> ak_is_active k) ks)"

definition proxy_keys_ok :: "uuid set \<Rightarrow> ProxyKey list \<Rightarrow> bool" where
  "proxy_keys_ok owners ks = (distinct (map pk_id ks) \<and> distinct (map pk_key_hash ks)
     \<and> list_all (\<lambda>k. pk_api_key_id k \<in> owners) ks
     \<and> list_all (\<lambda>k. pk_revoked_at k \<noteq> None \<longrightarrow> \<not> pk_is_active k) ks)"

definition mappings_ok :: "uuid set \<Rightarrow> ProviderMapping list \<Rightarrow> bool" where
  "mappings_ok owners ms = (distinct (map mapping_key ms) \<and> list_all (\<lambda>m. pm_proxy_key_id m \<in> owners) ms)"

text \<open>A provider key belongs to a user or to an organization, not to both, one per provider.\<close>

definition provider_keys_ok :: "ProviderAPIKey list \<Rightarrow> bool" where
  "provider_keys_ok ks = (distinct (map provider_key_owner ks)
     \<and> list_all (\<lambda>k. (pak_user_id k = None) \<noteq> (pak_org_id k = None)) ks)"

definition key_db_ok :: "KeyDB \<Rightarrow> bool" where
  "key_db_ok db = (api_keys_ok (kdb_api_keys db)
     \<and> proxy_keys_ok (ak_id ` set (kdb_api_keys db)) (kdb_proxy_keys db)
     \<and> mappings_ok (pk_id ` set (kdb_proxy_keys db)) (kdb_mappings db)
     \<and> provider_keys_ok (kdb_provider_keys db))"

lemma key_db_ok_same: "same_tables db db' \<Longrightarrow> key_db_ok db \<Longrightarrow> key_db_ok db'"
  by (simp add: same_tables_iff key_db_ok_def)

lemma key_db_ok_faults [simp]: "key_db_ok (db\<lparr>kdb_faults := fs\<rparr>) = key_db_ok db"
  by (simp add: key_db_ok_def)

text \<open>A statement keeps the invariant when what it runs does.\<close>

lemma sql_keeps:
  assumes "key_db_ok db" "\<And>d. key_db_ok d \<Longrightarrow> key_db_ok (snd (f d))"
  shows "key_db_ok (snd (sql msg f db))"
  using assms by (cases rule: sql_cases [of msg f db]) simp_all

text \<open>Updates of rows that keep the identity and do not revive a key.\<close>

lemma api_keys_ok_update:
  assumes "\<And>k. ak_id (F k) = ak_id k" "\<And>k. ak_key_hash (F k) = ak_key_hash k"
    "\<And>k. (ak_revoked_at k \<noteq> None \<longrightarrow> \<not> ak_is_active k) \<Longrightarrow> ak_revoked_at (F k) \<noteq> None \<longrightarrow> \<not> ak_is_active (F k)"
    "api_keys_ok ks"
  shows "api_keys_ok (map F ks)"
  using assms(3,4) by (simp add: api_keys_ok_def list_all_iff comp_def assms(1,2))

lemma proxy_keys_ok_update:
  assumes "\<And>k. pk_id (F k) = pk_id k" "\<And>k. pk_key_hash (F k) = pk_key_hash k"
    "\<And>k. pk_api_key_id (F k) = pk_api_key_id k"
    "\<And>k. (pk_revoked_at k \<noteq> None \<longrightarrow> \<not> pk_is_active k) \<Longrightarrow> pk_revoked_at (F k) \<noteq> None \<longrightarrow> \<not> pk_is_active (F k)"
    "proxy_keys_ok owners ks"
  shows "proxy_keys_ok owners (map F ks)"
  using assms(4,5) by (simp add: proxy_keys_ok_def list_all_iff comp_def assms(1-3))

lemma image_update: "(\<And>r. g (F r) = g r) \<Longrightarrow> g ` set (map F rs) = g ` set rs"
  by (simp add: image_image)

section \<open>Every operation keeps the invariant\<close>

named_theorems keeps \<open>operations that keep the invariant of the tables\<close>

lemma query_keeps: "key_db_ok db \<Longrightarrow> key_db_ok (snd (sql msg (\<lambda>d. (Inr (q d), d)) db))"
  by (rule key_db_ok_same [OF sql_query])

lemma queries_keep [keeps]:
  assumes "key_db_ok db"
  shows "key_db_ok (snd (GetAPIKeyByHash h db))" "key_db_ok (snd (GetAPIKeyByID kid db))"
    "key_db_ok (snd (ListAPIKeys db))" "key_db_ok (snd (ListAPIKeysByUserID kid db))"
    "key_db_ok (snd (ListAPIKeysByOrgID kid db))" "key_db_ok (snd (GetProxyKeyByHash h db))"
    "key_db_ok (snd (GetProxyKeyByID kid db))" "key_db_ok (snd (ListProxyKeys kid db))"
    "key_db_ok (snd (GetProviderMapping kid h db))" "key_db_ok (snd (ListProviderMappings kid db))"
  unfolding GetAPIKeyByHash_def GetAPIKeyByID_def ListAPIKeys_def ListAPIKeysByUserID_def
    ListAPIKeysByOrgID_def GetProxyKeyByHash_def GetProxyKeyByID_def ListProxyKeys_def
    GetProviderMapping_def ListProviderMappings_def or_err_snd
  by (rule query_keeps [OF assms])+

lemma CreateAPIKey_keeps [keeps]: "key_db_ok db \<Longrightarrow> key_db_ok (snd (CreateAPIKey newid now h inp db))"
  unfolding CreateAPIKey_def
  by (rule sql_keeps, assumption)
    (auto simp: key_db_ok_def api_keys_ok_def proxy_keys_ok_def list_all_iff list_ex_iff Let_def)

lemma update_api_keys_keeps:
  assumes "\<And>k. ak_id (F k) = ak_id k" "\<And>k. ak_key_hash (F k) = ak_key_hash k"
    "\<And>k. (ak_revoked_at k \<noteq> None \<longrightarrow> \<not> ak_is_active k) \<Longrightarrow> ak_revoked_at (F k) \<noteq> None \<longrightarrow> \<not> ak_is_active (F k)"
    "key_db_ok d"
  shows "key_db_ok (d\<lparr>kdb_api_keys := map F (kdb_api_keys d)\<rparr>)"
proof -
  have "api_keys_ok (map F (kdb_api_keys d))"
    by (rule api_keys_ok_update) (use assms in \<open>auto simp: key_db_ok_def\<close>)
  moreover have "ak_id ` set (map F (kdb_api_keys d)) = ak_id ` set (kdb_api_keys d)"
    by (rule image_update) (rule assms)
  ultimately show ?thesis using assms(4) unfolding key_db_ok_def by simp
qed

lemma update_proxy_keys_keeps:
  assumes "\<And>k. pk_id (F k) = pk_id k" "\<And>k. pk_key_hash (F k) = pk_key_hash k"
    "\<And>k. pk_api_key_id (F k) = pk_api_key_id k"
    "\<And>k. (pk_revoked_at k \<noteq> None \<longrightarrow> \<not> pk_is_active k) \<Longrightarrow> pk_revoked_at (F k) \<noteq> None \<longrightarrow> \<not> pk_is_active (F k)"
    "key_db_ok d"
  shows "key_db_ok (d\<lparr>kdb_proxy_keys := map F (kdb_proxy_keys d)\<rparr>)"
proof -
  have "proxy_keys_ok (ak_id ` set (kdb_api_keys d)) (map F (kdb_proxy_keys d))"
    by (rule proxy_keys_ok_update) (use assms in \<open>auto simp: key_db_ok_def\<close>)
  moreover have "pk_id ` set (map F (kdb_proxy_keys d)) = pk_id ` set (kdb_proxy_keys d)"
    by (rule image_update) (rule assms)
  ultimately show ?thesis using assms(5) unfolding key_db_ok_def by simp
qed

lemma UpdateAPIKey_keeps [keeps]: "key_db_ok db \<Longrightarrow> key_db_ok (snd (UpdateAPIKey kid inp db))"
  unfolding UpdateAPIKey_def
  by (auto simp: Let_def queries_keep apply_update_def split: if_splits intro!: sql_keeps update_api_keys_keeps)

lemma RevokeAPIKey_keeps [keeps]: "key_db_ok db \<Longrightarrow> key_db_ok (snd (RevokeAPIKey now kid db))"
  unfolding RevokeAPIKey_def
  by (auto simp: Let_def update_where_def split: if_splits intro!: sql_keeps update_api_keys_keeps)

lemma UpdateAPIKeyLastUsed_keeps [keeps]: "key_db_ok db \<Longrightarrow> key_db_ok (snd (UpdateAPIKeyLastUsed now kid db))"
  unfolding UpdateAPIKeyLastUsed_def
  by (auto split: if_splits intro!: sql_keeps update_api_keys_keeps)

lemma CreateProxyKey_keeps [keeps]: "key_db_ok db \<Longrightarrow> key_db_ok (snd (CreateProxyKey newid now h m inp db))"
  unfolding CreateProxyKey_def
  by (rule sql_keeps, assumption)
    (auto simp: key_db_ok_def mappings_ok_def proxy_keys_ok_def list_all_iff list_ex_iff Let_def)

lemma RevokeProxyKey_keeps [keeps]: "key_db_ok db \<Longrightarrow> key_db_ok (snd (RevokeProxyKey now kid db))"
  unfolding RevokeProxyKey_def
  by (auto simp: Let_def update_where_def split: if_splits intro!: sql_keeps update_proxy_keys_keeps)

lemma UpdateProxyKeyLastUsed_keeps [keeps]:
  "key_db_ok db \<Longrightarrow> key_db_ok (snd (UpdateProxyKeyLastUsed now kid db))"
  unfolding UpdateProxyKeyLastUsed_def
  by (auto split: if_splits intro!: sql_keeps update_proxy_keys_keeps)

lemma merge_mapping_key: "mapping_key (merge_mapping r n) = mapping_key r"
  by (simp add: mapping_key_def merge_mapping_def)

lemma merge_provider_key_owner: "provider_key_owner (merge_provider_key r n) = provider_key_owner r"
  by (simp add: provider_key_owner_def merge_provider_key_def)

lemma SetProviderMapping_keeps [keeps]:
  "key_db_ok db \<Longrightarrow> key_db_ok (snd (SetProviderMapping newid now kid prov enc db))"
  unfolding SetProviderMapping_def
  by (rule sql_keeps, assumption)
    (auto simp: key_db_ok_def mappings_ok_def list_all_iff list_ex_iff merge_mapping_def
      dest!: upsert_set intro!: upsert_distinct merge_mapping_key)

lemma DeleteProviderMapping_keeps [keeps]:
  "key_db_ok db \<Longrightarrow> key_db_ok (snd (DeleteProviderMapping kid prov db))"
  unfolding DeleteProviderMapping_def affected_snd
  by (rule sql_keeps, assumption)
    (auto simp: key_db_ok_def mappings_ok_def list_all_iff delete_where_def Let_def intro!: distinct_map_filter)

lemma put_provider_key_keeps:
  assumes "(uid = None) \<noteq> (oid = None)" "key_db_ok d"
  shows "key_db_ok (snd (put_provider_key newid now uid oid k d))"
proof -
  let ?new = "\<lparr>pak_id = newid, pak_user_id = uid, pak_org_id = oid, pak_provider = pak_provider k,
     pak_encrypted_key = pak_encrypted_key k, pak_created_at = now, pak_updated_at = now\<rparr>"
  let ?rows = "upsert provider_key_owner merge_provider_key ?new (kdb_provider_keys d)"
  have ok: "provider_keys_ok (kdb_provider_keys d)" using assms(2) by (simp add: key_db_ok_def)
  have "distinct (map provider_key_owner ?rows)"
    using ok by (intro upsert_distinct merge_provider_key_owner) (simp add: provider_keys_ok_def)
  moreover have "(pak_user_id r = None) \<noteq> (pak_org_id r = None)" if "r \<in> set ?rows" for r
    using upsert_set [OF that] ok assms(1) by (auto simp: provider_keys_ok_def list_all_iff merge_provider_key_def)
  ultimately have "provider_keys_ok ?rows" by (simp add: provider_keys_ok_def list_all_iff)
  then show ?thesis using assms(2) by (simp add: put_provider_key_def key_db_ok_def)
qed

lemma upsertProviderKey_keeps [keeps]:
  "key_db_ok db \<Longrightarrow> key_db_ok (snd (upsertProviderKey newid now k db))"
  unfolding upsertProviderKey_def
  by (auto split: option.splits intro!: sql_keeps put_provider_key_keeps)

lemma upsert_keys_tx_keeps: "key_db_ok db \<Longrightarrow> key_db_ok (snd (upsert_keys_tx now ks db))"
proof (induction now ks db rule: upsert_keys_tx.induct)
  case (2 now newid k ks db)
  then show ?case using upsertProviderKey_keeps [OF 2(2), of newid now k]
    by (auto split: prod.split sum.split)
qed simp

lemma sql_unit_keeps: "key_db_ok db \<Longrightarrow> key_db_ok (snd (sql msg (\<lambda>d. (Inr (), d)) db))"
  using query_keeps [of db msg "\<lambda>_. ()"] .

lemma UpsertBatch_keeps [keeps]:
  assumes ok: "key_db_ok db"
  shows "key_db_ok (snd (UpsertBatch now ks db))"
proof -
  obtain r1 db1 where 1: "sql ''begin tx'' (\<lambda>d. (Inr (), d)) db = (r1, db1)" by fastforce
  obtain r2 db2 where 2: "upsert_keys_tx now ks db1 = (r2, db2)" by fastforce
  obtain r3 db3 where 3: "sql ''commit upsert provider keys'' (\<lambda>d. (Inr (), d)) db2 = (r3, db3)" by fastforce
  have ok1: "key_db_ok db1" using sql_unit_keeps [OF ok, of "''begin tx''"] 1 by simp
  then have "key_db_ok db2" using upsert_keys_tx_keeps [OF ok1, of now ks] 2 by simp
  then have "key_db_ok db3" using sql_unit_keeps [of db2 "''commit upsert provider keys''"] 3 by simp
  then show ?thesis using ok ok1 by (simp add: UpsertBatch_def 1 2 3 split: sum.split)
qed

lemma GetProviderKey_keeps [keeps]:
  "key_db_ok db \<Longrightarrow> key_db_ok (snd (GetProviderKey u g prov db))"
  by (simp add: GetProviderKey_def query_keeps)

text \<open>The operations of the four repositories, from any caller and in any order.\<close>

inductive key_step :: "KeyDB \<Rightarrow> KeyDB \<Rightarrow> bool" where
  create_api_key: "key_step db (snd (CreateAPIKey newid now h cinp db))"
| update_api_key: "key_step db (snd (UpdateAPIKey kid uinp db))"
| revoke_api_key: "key_step db (snd (RevokeAPIKey now kid db))"
| touch_api_key: "key_step db (snd (UpdateAPIKeyLastUsed now kid db))"
| create_proxy_key: "key_step db (snd (CreateProxyKey newid now h m pinp db))"
| revoke_proxy_key: "key_step db (snd (RevokeProxyKey now kid db))"
| touch_proxy_key: "key_step db (snd (UpdateProxyKeyLastUsed now kid db))"
| set_mapping: "key_step db (snd (SetProviderMapping newid now kid prov enc db))"
| delete_mapping: "key_step db (snd (DeleteProviderMapping kid prov db))"
| upsert_provider_key: "key_step db (snd (upsertProviderKey newid now k db))"
| upsert_batch: "key_step db (snd (UpsertBatch now ks db))"

definition empty_key_db :: "err option list \<Rightarrow> KeyDB" where
  "empty_key_db fs = \<lparr>kdb_api_keys = [], kdb_proxy_keys = [], kdb_mappings = [],
     kdb_provider_keys = [], kdb_faults = fs\<rparr>"

lemma empty_key_db_ok: "key_db_ok (empty_key_db fs)"
  by (simp add: empty_key_db_def key_db_ok_def api_keys_ok_def proxy_keys_ok_def mappings_ok_def provider_keys_ok_def)

lemma key_step_keeps: "key_step db db' \<Longrightarrow> key_db_ok db \<Longrightarrow> key_db_ok db'"
  by (induction rule: key_step.induct) (auto intro: keeps)

inductive_cases key_step_elim: "key_step db db'"



section \<open>What the operations return\<close>

lemma GetAPIKeyByHash_Some:
  "fst (GetAPIKeyByHash h db) = Inr (Some k) \<Longrightarrow> k \<in> set (kdb_api_keys db) \<and> ak_key_hash k = h"
  unfolding GetAPIKeyByHash_def
  by (drule sql_query_val [rotated]) (auto dest!: sym [of "Some k"] find_row_Some)

lemma GetAPIKeyByHash_None:
  "fst (GetAPIKeyByHash h db) = Inr None \<Longrightarrow> k \<in> set (kdb_api_keys db) \<Longrightarrow> ak_key_hash k \<noteq> h"
  unfolding GetAPIKeyByHash_def
  by (drule sql_query_val [rotated]) (auto dest!: sym [of None] simp: find_row_None)

lemma GetProxyKeyByHash_Some:
  "fst (GetProxyKeyByHash h db) = Inr (Some k) \<Longrightarrow> k \<in> set (kdb_proxy_keys db) \<and> pk_key_hash k = h"
  unfolding GetProxyKeyByHash_def
  by (drule sql_query_val [rotated]) (auto dest!: sym [of "Some k"] find_row_Some)

lemma GetProviderMapping_Some:
  "fst (GetProviderMapping kid prov db) = Inr (Some m) \<Longrightarrow> m \<in> set (kdb_mappings db) \<and> mapping_key m = (kid, prov)"
  unfolding GetProviderMapping_def
  by (drule sql_query_val [rotated]) (auto dest!: sym [of "Some m"] find_row_Some)

lemma GetProxyKeyByID_Inr:
  "GetProxyKeyByID kid db = (Inr k, db') \<Longrightarrow> k \<in> set (kdb_proxy_keys db) \<and> pk_id k = kid \<and> same_tables db db'"
proof -
  assume "GetProxyKeyByID kid db = (Inr k, db')"
  then have r: "sql ''get proxy key by id'' (\<lambda>db. (Inr (find_row (\<lambda>k. pk_id k = kid) (kdb_proxy_keys db)), db)) db
      = (Inr (Some k), db')" by (simp add: GetProxyKeyByID_def or_err_Inr)
  have "Some k = find_row (\<lambda>k. pk_id k = kid) (kdb_proxy_keys db)"
    using r sql_query_val [of "\<lambda>db. find_row (\<lambda>k. pk_id k = kid) (kdb_proxy_keys db)" db
        "''get proxy key by id''" "Some k"] by simp
  from find_row_Some [OF this [symmetric]]
  have "k \<in> set (kdb_proxy_keys db)" "pk_id k = kid" by simp_all
  moreover have "same_tables db db'"
    using sql_query [of db "''get proxy key by id''" "\<lambda>db. find_row (\<lambda>k. pk_id k = kid) (kdb_proxy_keys db)"]
    unfolding r by simp
  ultimately show ?thesis by simp
qed

lemma GetProxyKeyByID_same: "same_tables db (snd (GetProxyKeyByID kid db))"
  by (simp add: GetProxyKeyByID_def sql_query)

lemma query_same:
  "same_tables db (snd (GetAPIKeyByHash h db))" "same_tables db (snd (GetProxyKeyByHash h db))"
  "same_tables db (snd (GetProviderMapping kid prov db))" "same_tables db (snd (ListProviderMappings kid db))"
  "same_tables db (snd (ListProxyKeys kid db))"
  unfolding GetAPIKeyByHash_def GetProxyKeyByHash_def GetProviderMapping_def ListProviderMappings_def
    ListProxyKeys_def by (rule sql_query)+

end
