(* ===== verification/Go_Crypto.thy ===== *)
theory Go_Crypto
  imports Prelude Go_Json
begin

unbundle bit_operations_syntax

text \<open>
  What the program uses of the packages encoding/hex, encoding/base64 and crypto/sha256: the hex
  and base64 codecs with the decoders' error cases, and SHA-256 on 32-bit words.
\<close>

section \<open>encoding/hex\<close>

fun hex_encode :: "bytes \<Rightarrow> string" where
  "hex_encode [] = []"
| "hex_encode (c # cs) =
     hex_digit (of_char c div 16) # hex_digit (of_char c mod 16) # hex_encode cs"

fun hex_decode :: "string \<Rightarrow> bytes option" where
  "hex_decode [] = Some []"
| "hex_decode [c] = None"
| "hex_decode (a # b # cs) =
     (if is_hex a \<and> is_hex b
      then map_option (\<lambda>bs. char_of (16 * hex_val a + hex_val b) # bs) (hex_decode cs)
      else None)"

section \<open>encoding/base64\<close>

definition b64_std :: string where
  "b64_std = ''ABCDEFGHIJKLMNOPQRSTUVWXYZabcdefghijklmnopqrstuvwxyz0123456789+/''"

definition b64_url :: string where
  "b64_url = ''ABCDEFGHIJKLMNOPQRSTUVWXYZabcdefghijklmnopqrstuvwxyz0123456789-_''"

text \<open>EncodeToString: pad is the padding character, none for the raw encodings.\<close>

fun b64_encode :: "string \<Rightarrow> char option \<Rightarrow> bytes \<Rightarrow> string" where
  "b64_encode al pad [] = []"
| "b64_encode al pad [a] =
     (let v = of_char a :: nat in
      [al ! (v div 4), al ! (v mod 4 * 16)] @ (case pad of None \<Rightarrow> [] | Some p \<Rightarrow> [p, p]))"
| "b64_encode al pad [a, b] =
     (let v = of_char a * 256 + of_char b :: nat in
      [al ! (v div 1024), al ! (v div 16 mod 64), al ! (v mod 16 * 4)]
        @ (case pad of None \<Rightarrow> [] | Some p \<Rightarrow> [p]))"
| "b64_encode al pad (a # b # c # cs) =
     (let v = (of_char a * 256 + of_char b) * 256 + of_char c :: nat in
      [al ! (v div 262144), al ! (v div 4096 mod 64), al ! (v div 64 mod 64), al ! (v mod 64)]
        @ b64_encode al pad cs)"

fun b64_index :: "string \<Rightarrow> char \<Rightarrow> nat option" where
  "b64_index [] c = None"
| "b64_index (a # al) c = (if a = c then Some 0 else map_option Suc (b64_index al c))"

text \<open>One quantum of two, three or four digits; the bits beyond the last byte are dropped.\<close>

definition b64_digits :: "string \<Rightarrow> string \<Rightarrow> nat list option" where
  "b64_digits al cs = (if list_all (\<lambda>c. b64_index al c \<noteq> None) cs
                       then Some (map (\<lambda>c. the (b64_index al c)) cs) else None)"

definition b64_bytes :: "nat list \<Rightarrow> bytes" where
  "b64_bytes ds =
     (case ds of
        [a, b] \<Rightarrow> [char_of (a * 4 + b div 16)]
      | [a, b, c] \<Rightarrow> [char_of (a * 4 + b div 16), char_of (b mod 16 * 16 + c div 4)]
      | [a, b, c, d] \<Rightarrow> [char_of (a * 4 + b div 16), char_of (b mod 16 * 16 + c div 4),
                       char_of (c mod 4 * 64 + d)]
      | _ \<Rightarrow> [])"

text \<open>The last quantum: with padding exactly two or three digits and the padding, without it two or
  three digits alone.\<close>

definition b64_tail :: "string \<Rightarrow> char option \<Rightarrow> string \<Rightarrow> bytes option" where
  "b64_tail al pad cs =
     (case pad of
        None \<Rightarrow> (if length cs = 2 \<or> length cs = 3 then map_option b64_bytes (b64_digits al cs) else None)
      | Some p \<Rightarrow> (if length cs = 4 \<and> cs ! 3 = p
                  then map_option b64_bytes (b64_digits al (if cs ! 2 = p then take 2 cs else take 3 cs))
                  else None))"

fun b64_quanta :: "string \<Rightarrow> char option \<Rightarrow> string \<Rightarrow> bytes option" where
  "b64_quanta al pad [] = Some []"
| "b64_quanta al pad (a # b # c # d # cs) =
     (case b64_digits al [a, b, c, d] of
        Some ds \<Rightarrow> map_option ((@) (b64_bytes ds)) (b64_quanta al pad cs)
      | None \<Rightarrow> if cs = [] then b64_tail al pad [a, b, c, d] else None)"
| "b64_quanta al pad cs = b64_tail al pad cs"

text \<open>DecodeString skips carriage returns and line feeds wherever they stand.\<close>

definition b64_decode :: "string \<Rightarrow> char option \<Rightarrow> string \<Rightarrow> bytes option" where
  "b64_decode al pad s = b64_quanta al pad (filter (\<lambda>c. c \<noteq> CHR 0x0A \<and> c \<noteq> CHR 0x0D) s)"

definition StdEncoding_encode :: "bytes \<Rightarrow> string" where
  "StdEncoding_encode = b64_encode b64_std (Some (CHR ''=''))"

definition StdEncoding_decode :: "string \<Rightarrow> bytes option" where
  "StdEncoding_decode = b64_decode b64_std (Some (CHR ''=''))"

definition RawStdEncoding_decode :: "string \<Rightarrow> bytes option" where
  "RawStdEncoding_decode = b64_decode b64_std None"

definition RawURLEncoding_encode :: "bytes \<Rightarrow> string" where
  "RawURLEncoding_encode = b64_encode b64_url None"

section \<open>crypto/sha256\<close>

definition sha_k :: "32 word list" where
  "sha_k = [
     1116352408, 1899447441, 3049323471, 3921009573, 961987163, 1508970993, 2453635748, 2870763221,
     3624381080, 310598401, 607225278, 1426881987, 1925078388, 2162078206, 2614888103, 3248222580,
     3835390401, 4022224774, 264347078, 604807628, 770255983, 1249150122, 1555081692, 1996064986,
     2554220882, 2821834349, 2952996808, 3210313671, 3336571891, 3584528711, 113926993, 338241895,
     666307205, 773529912, 1294757372, 1396182291, 1695183700, 1986661051, 2177026350, 2456956037,
     2730485921, 2820302411, 3259730800, 3345764771, 3516065817, 3600352804, 4094571909, 275423344,
     430227734, 506948616, 659060556, 883997877, 958139571, 1322822218, 1537002063, 1747873779,
     1955562222, 2024104815, 2227730452, 2361852424, 2428436474, 2756734187, 3204031479, 3329325298]"

definition sha_iv :: "32 word list" where
  "sha_iv = [1779033703, 3144134277, 1013904242, 2773480762, 1359893119, 2600822924, 528734635, 1541459225]"

definition rotr :: "nat \<Rightarrow> 32 word \<Rightarrow> 32 word" where
  "rotr n x = drop_bit n x OR push_bit (32 - n) x"

definition be_word :: "bytes \<Rightarrow> 32 word" where
  "be_word cs = of_nat (foldl (\<lambda>a c. a * 256 + of_char c) 0 cs)"

fun be_words :: "bytes \<Rightarrow> 32 word list" where
  "be_words (a # b # c # d # cs) = be_word [a, b, c, d] # be_words cs"
| "be_words cs = []"

text \<open>k bytes of n, the most significant first.\<close>

fun be_bytes :: "nat \<Rightarrow> nat \<Rightarrow> bytes" where
  "be_bytes 0 n = []"
| "be_bytes (Suc k) n = be_bytes k (n div 256) @ [char_of (n mod 256)]"

definition sha_pad :: "bytes \<Rightarrow> bytes" where
  "sha_pad m = m @ char_of (128 :: nat) # replicate ((119 - length m mod 64) mod 64) (char_of (0 :: nat))
                 @ be_bytes 8 (8 * length m)"

text \<open>The message schedule, latest word first.\<close>

fun sha_schedule :: "nat \<Rightarrow> 32 word list \<Rightarrow> 32 word list" where
  "sha_schedule 0 ws = ws"
| "sha_schedule (Suc n) ws =
     (let x = ws ! 14; y = ws ! 1;
          s0 = rotr 7 x XOR rotr 18 x XOR drop_bit 3 x;
          s1 = rotr 17 y XOR rotr 19 y XOR drop_bit 10 y
      in sha_schedule n ((s1 + ws ! 6 + s0 + ws ! 15) # ws))"

fun sha_round :: "32 word list \<Rightarrow> 32 word \<times> 32 word \<Rightarrow> 32 word list" where
  "sha_round [a, b, c, d, e, f, g, h] (k, w) =
     (let s1 = rotr 6 e XOR rotr 11 e XOR rotr 25 e;
          ch = (e AND f) XOR (NOT e AND g);
          t1 = h + s1 + ch + k + w;
          s0 = rotr 2 a XOR rotr 13 a XOR rotr 22 a;
          maj = (a AND b) XOR (a AND c) XOR (b AND c)
      in [t1 + (s0 + maj), a, b, c, d + t1, e, f, g])"
| "sha_round st kw = st"

definition sha_block :: "32 word list \<Rightarrow> bytes \<Rightarrow> 32 word list" where
  "sha_block st blk =
     map2 (+) st (foldl sha_round st (zip sha_k (rev (sha_schedule 48 (rev (be_words blk))))))"

fun sha_blocks :: "nat \<Rightarrow> 32 word list \<Rightarrow> bytes \<Rightarrow> 32 word list" where
  "sha_blocks 0 st bs = st"
| "sha_blocks (Suc n) st bs = sha_blocks n (sha_block st (take 64 bs)) (drop 64 bs)"

definition Sum256 :: "bytes \<Rightarrow> bytes" where
  "Sum256 m = (let p = sha_pad m in
     concat (map (\<lambda>w. be_bytes 4 (unat w)) (sha_blocks (length p div 64) sha_iv p)))"

section \<open>Round trips of the codecs\<close>

lemma of_char_less [simp]: "(of_char c :: nat) < 256"
  using nat_of_char_less_256 by simp

lemma hex_digit_ok:
  assumes "n < 16"
  shows "is_hex (hex_digit n) \<and> hex_val (hex_digit n) = n"
proof -
  have "list_all (\<lambda>n. is_hex (hex_digit n) \<and> hex_val (hex_digit n) = n) [0..<16]"
    by code_simp
  then show ?thesis using assms by (simp add: list_all_iff)
qed

lemma hex_decode_encode [simp]: "hex_decode (hex_encode bs) = Some bs"
proof (induction bs)
  case (Cons c bs)
  have "(of_char c :: nat) div 16 < 16" "(of_char c :: nat) mod 16 < 16"
    using of_char_less [of c] by (simp_all add: less_mult_imp_div_less)
  then show ?case using Cons by (simp add: hex_digit_ok)
qed simp

lemma hex_decode_length: "hex_decode s = Some bs \<Longrightarrow> length s = 2 * length bs"
  by (induction s arbitrary: bs rule: hex_decode.induct) (auto split: if_splits)

text \<open>An alphabet of 64 distinct digits without the padding and the line breaks.\<close>

definition b64_ok :: "string \<Rightarrow> bool" where
  "b64_ok al = (distinct al \<and> length al = 64 \<and> CHR ''='' \<notin> set al
     \<and> CHR 0x0A \<notin> set al \<and> CHR 0x0D \<notin> set al)"

lemma b64_std_ok: "b64_ok b64_std" by code_simp

lemma b64_index_nth: "distinct al \<Longrightarrow> i < length al \<Longrightarrow> b64_index al (al ! i) = Some i"
proof (induction al arbitrary: i)
  case (Cons a al)
  then show ?case by (cases i) auto
qed simp

lemma b64_index_None: "b64_index al c = None \<longleftrightarrow> c \<notin> set al"
  by (induction al) auto

lemma b64_digits_nth:
  "b64_ok al \<Longrightarrow> list_all (\<lambda>i. i < 64) ds \<Longrightarrow> b64_digits al (map ((!) al) ds) = Some ds"
  by (auto simp: b64_digits_def b64_ok_def list_all_iff b64_index_nth intro!: map_idI)

lemma b64_byte1: "(x :: nat) div 64 * 4 + x mod 64 div 16 = x div 16"
proof -
  have "x mod 64 = 16 * (x div 16 mod 4) + x mod 16" using mod_mult2_eq [of x 16 4] by simp
  then have "x mod 64 div 16 = x div 16 mod 4" by simp
  moreover have "x div 64 = x div 16 div 4" by (simp add: div_mult2_eq [symmetric])
  ultimately show ?thesis by simp
qed

lemma b64_byte2: "(y :: nat) div 64 mod 64 mod 16 * 16 + y mod 64 div 4 = y div 4 mod 256"
proof -
  have "y div 64 mod 64 mod 16 = y div 64 mod 16" by (rule mod_mod_cancel) simp
  moreover have "y mod 64 div 4 = y div 4 mod 16"
    using mod_mult2_eq [of y 4 16] by simp
  moreover have "y div 64 = y div 4 div 16" by (simp add: div_mult2_eq [symmetric])
  moreover have "(z div 16) mod 16 * 16 + z mod 16 = z mod 256" for z :: nat
    using mod_mult2_eq [of z 16 16] by simp
  ultimately show ?thesis by simp
qed

lemma b64_byte3: "(v :: nat) div 64 mod 64 mod 4 * 64 + v mod 64 = v mod 256"
proof -
  have "v div 64 mod 64 mod 4 = v div 64 mod 4" by (rule mod_mod_cancel) simp
  then show ?thesis using mod_mult2_eq [of v 64 4] by simp
qed

lemma split_bytes:
  fixes a b c :: nat
  assumes "a < 256" "b < 256" "c < 256"
  shows "((a * 256 + b) * 256 + c) div 65536 = a"
    "((a * 256 + b) * 256 + c) div 256 mod 256 = b"
    "((a * 256 + b) * 256 + c) mod 256 = c"
proof -
  have d: "((a * 256 + b) * 256 + c) div 256 = a * 256 + b" "(a * 256 + b) div 256 = a"
    using assms by (simp_all only: div_mult_self3 div_less add_0_right zero_neq_numeral not_False_eq_True)
  show "((a * 256 + b) * 256 + c) div 256 mod 256 = b"
    unfolding d using assms(2) by (simp only: mod_mult_self3 mod_less)
  show "((a * 256 + b) * 256 + c) mod 256 = c"
    using assms(3) by (simp only: mod_mult_self3 mod_less)
  have "((a * 256 + b) * 256 + c) div 65536 = ((a * 256 + b) * 256 + c) div 256 div 256"
    by (simp only: div_mult2_eq [symmetric]) simp
  then show "((a * 256 + b) * 256 + c) div 65536 = a" unfolding d .
qed

lemma b64_bytes4:
  fixes a b c :: char
  defines "v \<equiv> (of_char a * 256 + of_char b) * 256 + of_char c :: nat"
  shows "b64_bytes [v div 262144, v div 4096 mod 64, v div 64 mod 64, v mod 64] = [a, b, c]"
proof -
  have d: "v div 262144 = v div 4096 div 64" "v div 4096 = v div 64 div 64"
    by (simp_all add: div_mult2_eq [symmetric])
  note sb = split_bytes [OF of_char_less of_char_less of_char_less, of a b c, folded v_def]
  have w: "v div 4096 div 16 = of_char a" "v div 64 div 4 mod 256 = of_char b" "v mod 256 = of_char c"
    by (simp_all add: div_mult2_eq [symmetric] sb)
  have 1: "v div 4096 div 64 * 4 + v div 4096 mod 64 div 16 = of_char a"
    using b64_byte1 [of "v div 4096"] w(1) by (rule trans)
  have 2: "v div 64 div 64 mod 64 mod 16 * 16 + v div 64 mod 64 div 4 = of_char b"
    using b64_byte2 [of "v div 64"] w(2) by (rule trans)
  have 3: "v div 64 mod 64 mod 4 * 64 + v mod 64 = of_char c"
    using b64_byte3 [of v] w(3) by (rule trans)
  show ?thesis using 1 2 3 d by (simp add: b64_bytes_def)
qed

lemma b64_bytes2: "b64_bytes [(of_char a :: nat) div 4, of_char a mod 4 * 16] = [a :: char]"
  by (simp add: b64_bytes_def)

lemma b64_bytes3:
  fixes a b :: char
  defines "v \<equiv> of_char a * 256 + of_char b :: nat"
  shows "b64_bytes [v div 1024, v div 16 mod 64, v mod 16 * 4] = [a, b]"
proof -
  have v: "v div 256 = of_char a" "v mod 256 = of_char b"
    using of_char_less [of b] by (simp_all add: v_def div_mult_self3 mod_mult_self3)
  have 1: "v div 1024 * 4 + v div 16 mod 64 div 16 = of_char a"
    using b64_byte1 [of "v div 16"] v(1) unfolding div_mult2_eq [symmetric] by simp
  have "v div 16 mod 64 mod 16 = v div 16 mod 16" by (rule mod_mod_cancel) simp
  then have 2: "v div 16 mod 64 mod 16 * 16 + v mod 16 * 4 div 4 = of_char b"
    using mod_mult2_eq [of v 16 16] v(2) by simp
  show ?thesis unfolding b64_bytes_def list.case 1 2 by (simp only: char_of_nat of_char_of char_of_char)
qed

lemma b64_digits_pad: "b64_ok al \<Longrightarrow> CHR ''='' \<in> set cs \<Longrightarrow> b64_digits al cs = None"
proof -
  assume "b64_ok al" "CHR ''='' \<in> set cs"
  then have "b64_index al (CHR ''='') = None" "CHR ''='' \<in> set cs"
    by (simp_all only: b64_index_None b64_ok_def not_False_eq_True)
  then have "\<not> list_all (\<lambda>c. b64_index al c \<noteq> None) cs"
    unfolding list_all_iff by blast
  then show ?thesis unfolding b64_digits_def by (rule if_not_P)
qed

lemma b64_tail2:
  assumes ok: "b64_ok al" and "i < 64" "j < 64"
  shows "b64_quanta al (Some (CHR ''='')) [al ! i, al ! j, CHR ''='', CHR ''=''] = Some (b64_bytes [i, j])"
proof -
  have d: "b64_digits al [al ! i, al ! j] = Some [i, j]"
    using b64_digits_nth [OF ok, of "[i, j]"] assms by simp
  have n: "b64_digits al [al ! i, al ! j, CHR ''='', CHR ''=''] = None"
    by (rule b64_digits_pad [OF ok]) simp
  show ?thesis by (simp add: n b64_tail_def d numeral_2_eq_2 numeral_3_eq_3)
qed

lemma b64_tail3:
  assumes ok: "b64_ok al" and "i < 64" "j < 64" "k < 64"
  shows "b64_quanta al (Some (CHR ''='')) [al ! i, al ! j, al ! k, CHR ''=''] = Some (b64_bytes [i, j, k])"
proof -
  have d: "b64_digits al [al ! i, al ! j, al ! k] = Some [i, j, k]"
    using b64_digits_nth [OF ok, of "[i, j, k]"] assms by simp
  have n: "b64_digits al [al ! i, al ! j, al ! k, CHR ''=''] = None"
    by (rule b64_digits_pad [OF ok]) simp
  have "al ! k \<in> set al" "CHR ''='' \<notin> set al"
    using ok assms(4) by (simp_all add: b64_ok_def)
  then have "al ! k \<noteq> CHR ''=''" by metis
  then show ?thesis by (simp add: n b64_tail_def d numeral_2_eq_2 numeral_3_eq_3)
qed

lemma b64_quantum:
  assumes ok: "b64_ok al" and "list_all (\<lambda>i. i < 64) [i, j, k, l]"
  shows "b64_quanta al pad (al ! i # al ! j # al ! k # al ! l # cs)
    = map_option ((@) (b64_bytes [i, j, k, l])) (b64_quanta al pad cs)"
  using b64_digits_nth [OF ok assms(2)] by simp

lemma of_char_div [simp]: "(of_char a :: nat) div 4 < 64" "(of_char a :: nat) div 16 < 16"
  using of_char_less [of a] by (simp_all add: less_mult_imp_div_less)

lemma three_bytes: "((of_char a :: nat) * 256 + of_char b) * 256 + of_char c < 16777216"
proof -
  have "(of_char x :: nat) \<le> 255" for x :: char
    using of_char_less [of x] by linarith
  from this [of a] this [of b] this [of c] show ?thesis unfolding distrib_right by linarith
qed

lemma b64_quanta_encode:
  assumes ok: "b64_ok al"
  shows "b64_quanta al (Some (CHR ''='')) (b64_encode al (Some (CHR ''='')) bs) = Some bs"
  using ok
proof (induction al "Some (CHR ''='')" bs rule: b64_encode.induct)
  case (1 al)
  show ?case by simp
next
  case (2 al a)
  have "(of_char a :: nat) mod 4 * 16 < 64" using mod_less_divisor [of 4 "of_char a"] by linarith
  from b64_tail2 [OF 2 of_char_div(1) this] show ?case
    by (simp only: b64_encode.simps Let_def option.case append.simps b64_bytes2)
next
  case (3 al a b)
  define v :: nat where "v = of_char a * 256 + of_char b"
  have "v < 65536" using of_char_less [of a] of_char_less [of b] unfolding v_def by linarith
  then have "v div 1024 < 64" "v div 16 mod 64 < 64" "v mod 16 * 4 < 64"
    using mod_less_divisor [of 16 v] by (simp_all add: less_mult_imp_div_less)
  from b64_tail3 [OF 3 this] show ?case
    by (simp only: b64_encode.simps Let_def option.case append.simps v_def b64_bytes3)
next
  case (4 al a b c cs)
  define v :: nat where "v = (of_char a * 256 + of_char b) * 256 + of_char c"
  have "v < 16777216"
    unfolding v_def by (rule three_bytes)
  then have "list_all (\<lambda>i. i < 64) [v div 262144, v div 4096 mod 64, v div 64 mod 64, v mod 64]"
    by (simp add: less_mult_imp_div_less)
  from b64_quantum [OF 4(2) this] 4(1) [OF v_def 4(2)] show ?case
    by (simp only: b64_encode.simps Let_def append.simps v_def b64_bytes4 option.map)
qed

lemma b64_encode_set:
  assumes ok: "b64_ok al"
  shows "set (b64_encode al (Some (CHR ''='')) bs) \<subseteq> insert (CHR ''='') (set al)"
  using ok
proof (induction al "Some (CHR ''='')" bs rule: b64_encode.induct)
  case (1 al)
  show ?case by simp
next
  case (2 al a)
  have "(of_char a :: nat) mod 4 * 16 < 64" using mod_less_divisor [of 4 "of_char a"] by linarith
  then show ?case using 2 nth_mem [of _ al] by (simp add: b64_ok_def Let_def)
next
  case (3 al a b)
  define v :: nat where "v = of_char a * 256 + of_char b"
  have "v < 65536" using of_char_less [of a] of_char_less [of b] unfolding v_def by linarith
  then have "v div 1024 < 64" "v div 16 mod 64 < 64" "v mod 16 * 4 < 64"
    using mod_less_divisor [of 16 v] by (simp_all add: less_mult_imp_div_less)
  then show ?case using 3 nth_mem [of _ al] by (simp add: b64_ok_def v_def [symmetric])
next
  case (4 al a b c cs)
  define v :: nat where "v = (of_char a * 256 + of_char b) * 256 + of_char c"
  have "v < 16777216"
    unfolding v_def by (rule three_bytes)
  then have "v div 262144 < 64" by (simp add: less_mult_imp_div_less)
  then have "{al ! (v div 262144), al ! (v div 4096 mod 64), al ! (v div 64 mod 64), al ! (v mod 64)} \<subseteq> set al"
    using 4(2) nth_mem [of _ al] by (simp add: b64_ok_def)
  then show ?case using 4(1) [OF v_def 4(2)]
    unfolding b64_encode.simps Let_def v_def [symmetric] set_append list.set by blast
qed

lemma StdEncoding_decode_encode [simp]: "StdEncoding_decode (StdEncoding_encode bs) = Some bs"
proof -
  have "CHR 0x0A \<notin> set (StdEncoding_encode bs)" "CHR 0x0D \<notin> set (StdEncoding_encode bs)"
    using b64_encode_set [OF b64_std_ok, of bs] b64_std_ok
    unfolding StdEncoding_encode_def b64_ok_def by auto
  then have "filter (\<lambda>c. c \<noteq> CHR 0x0A \<and> c \<noteq> CHR 0x0D) (StdEncoding_encode bs) = StdEncoding_encode bs"
    unfolding filter_id_conv by metis
  then show ?thesis
    unfolding StdEncoding_decode_def b64_decode_def
    by (simp only: StdEncoding_encode_def b64_quanta_encode [OF b64_std_ok])
qed

end
