(* ===== verification/Aes_Gcm.thy ===== *)
theory Aes_Gcm
  imports Prelude
begin

unbundle bit_operations_syntax

text \<open>
  crypto/aes and crypto/cipher as the secret store uses them: the AES block cipher on lists of bytes,
  and Galois counter mode with a nonce of twelve bytes, a tag of sixteen and no additional data.
\<close>

section \<open>The block cipher\<close>

type_synonym byte = "8 word"

definition sbox :: "byte list" where
  "sbox = [
     0x63, 0x7c, 0x77, 0x7b, 0xf2, 0x6b, 0x6f, 0xc5, 0x30, 0x01, 0x67, 0x2b, 0xfe, 0xd7, 0xab, 0x76,
     0xca, 0x82, 0xc9, 0x7d, 0xfa, 0x59, 0x47, 0xf0, 0xad, 0xd4, 0xa2, 0xaf, 0x9c, 0xa4, 0x72, 0xc0,
     0xb7, 0xfd, 0x93, 0x26, 0x36, 0x3f, 0xf7, 0xcc, 0x34, 0xa5, 0xe5, 0xf1, 0x71, 0xd8, 0x31, 0x15,
     0x04, 0xc7, 0x23, 0xc3, 0x18, 0x96, 0x05, 0x9a, 0x07, 0x12, 0x80, 0xe2, 0xeb, 0x27, 0xb2, 0x75,
     0x09, 0x83, 0x2c, 0x1a, 0x1b, 0x6e, 0x5a, 0xa0, 0x52, 0x3b, 0xd6, 0xb3, 0x29, 0xe3, 0x2f, 0x84,
     0x53, 0xd1, 0x00, 0xed, 0x20, 0xfc, 0xb1, 0x5b, 0x6a, 0xcb, 0xbe, 0x39, 0x4a, 0x4c, 0x58, 0xcf,
     0xd0, 0xef, 0xaa, 0xfb, 0x43, 0x4d, 0x33, 0x85, 0x45, 0xf9, 0x02, 0x7f, 0x50, 0x3c, 0x9f, 0xa8,
     0x51, 0xa3, 0x40, 0x8f, 0x92, 0x9d, 0x38, 0xf5, 0xbc, 0xb6, 0xda, 0x21, 0x10, 0xff, 0xf3, 0xd2,
     0xcd, 0x0c, 0x13, 0xec, 0x5f, 0x97, 0x44, 0x17, 0xc4, 0xa7, 0x7e, 0x3d, 0x64, 0x5d, 0x19, 0x73,
     0x60, 0x81, 0x4f, 0xdc, 0x22, 0x2a, 0x90, 0x88, 0x46, 0xee, 0xb8, 0x14, 0xde, 0x5e, 0x0b, 0xdb,
     0xe0, 0x32, 0x3a, 0x0a, 0x49, 0x06, 0x24, 0x5c, 0xc2, 0xd3, 0xac, 0x62, 0x91, 0x95, 0xe4, 0x79,
     0xe7, 0xc8, 0x37, 0x6d, 0x8d, 0xd5, 0x4e, 0xa9, 0x6c, 0x56, 0xf4, 0xea, 0x65, 0x7a, 0xae, 0x08,
     0xba, 0x78, 0x25, 0x2e, 0x1c, 0xa6, 0xb4, 0xc6, 0xe8, 0xdd, 0x74, 0x1f, 0x4b, 0xbd, 0x8b, 0x8a,
     0x70, 0x3e, 0xb5, 0x66, 0x48, 0x03, 0xf6, 0x0e, 0x61, 0x35, 0x57, 0xb9, 0x86, 0xc1, 0x1d, 0x9e,
     0xe1, 0xf8, 0x98, 0x11, 0x69, 0xd9, 0x8e, 0x94, 0x9b, 0x1e, 0x87, 0xe9, 0xce, 0x55, 0x28, 0xdf,
     0x8c, 0xa1, 0x89, 0x0d, 0xbf, 0xe6, 0x42, 0x68, 0x41, 0x99, 0x2d, 0x0f, 0xb0, 0x54, 0xbb, 0x16]"

definition sub_byte :: "byte \<Rightarrow> byte" where
  "sub_byte b = sbox ! unat b"

definition shift_rows :: "byte list \<Rightarrow> byte list" where
  "shift_rows s = map ((!) s) [0, 5, 10, 15, 4, 9, 14, 3, 8, 13, 2, 7, 12, 1, 6, 11]"

definition xtime :: "byte \<Rightarrow> byte" where
  "xtime b = push_bit 1 b XOR (if bit b 7 then 0x1b else 0)"

fun mix_columns :: "byte list \<Rightarrow> byte list" where
  "mix_columns (a # b # c # d # s) =
     (let t = a XOR b XOR c XOR d in
      (a XOR t XOR xtime (a XOR b)) # (b XOR t XOR xtime (b XOR c))
        # (c XOR t XOR xtime (c XOR d)) # (d XOR t XOR xtime (d XOR a)) # mix_columns s)"
| "mix_columns s = []"

definition add_round_key :: "byte list \<Rightarrow> byte list \<Rightarrow> byte list" where
  "add_round_key k s = map2 (XOR) s k"

fun aes_rounds :: "byte list \<Rightarrow> byte list list \<Rightarrow> byte list" where
  "aes_rounds s [] = s"
| "aes_rounds s [k] = add_round_key k (shift_rows (map sub_byte s))"
| "aes_rounds s (k # ks) = aes_rounds (add_round_key k (mix_columns (shift_rows (map sub_byte s)))) ks"

text \<open>The key schedule: words of four bytes, the latest first; nk is the number of words of the key.\<close>

fun chunks :: "nat \<Rightarrow> nat \<Rightarrow> 'a list \<Rightarrow> 'a list list" where
  "chunks 0 k xs = []"
| "chunks (Suc n) k xs = take k xs # chunks n k (drop k xs)"

definition next_word :: "nat \<Rightarrow> nat \<Rightarrow> byte \<Rightarrow> byte list list \<Rightarrow> byte list" where
  "next_word nk i rcon ws =
     (let t = hd ws;
          u = (if i mod nk = 0 then map2 (XOR) (map sub_byte (rotate1 t)) [rcon, 0, 0, 0]
               else if 6 < nk \<and> i mod nk = 4 then map sub_byte t else t)
      in map2 (XOR) (ws ! (nk - 1)) u)"

fun expand :: "nat \<Rightarrow> nat \<Rightarrow> nat \<Rightarrow> byte \<Rightarrow> byte list list \<Rightarrow> byte list list" where
  "expand 0 nk i rcon ws = ws"
| "expand (Suc n) nk i rcon ws =
     expand n nk (i + 1) (if i mod nk = 0 then xtime rcon else rcon) (next_word nk i rcon ws # ws)"

definition round_keys :: "byte list \<Rightarrow> byte list list" where
  "round_keys key =
     (let nk = length key div 4; total = 4 * (nk + 7)
      in chunks (nk + 7) 16 (concat (rev (expand (total - nk) nk nk 1 (rev (chunks nk 4 key))))))"

definition aes_block :: "byte list list \<Rightarrow> byte list \<Rightarrow> byte list" where
  "aes_block rks s = aes_rounds (add_round_key (hd rks) s) (tl rks)"

section \<open>Blocks as words\<close>

definition block_bytes :: "128 word \<Rightarrow> byte list" where
  "block_bytes w = map (\<lambda>i. ucast (drop_bit (8 * (15 - i)) w)) [0..<16]"

definition bytes_block :: "byte list \<Rightarrow> 128 word" where
  "bytes_block bs = foldl (\<lambda>a b. push_bit 8 a OR ucast b) 0 bs"

definition encrypt_block :: "byte list list \<Rightarrow> 128 word \<Rightarrow> byte list" where
  "encrypt_block rks w = block_bytes (bytes_block (aes_block rks (block_bytes w)))"

section \<open>Galois counter mode\<close>

text \<open>Multiplication in the field of GCM, most significant bit first.\<close>

fun gf_mul :: "nat \<Rightarrow> 128 word \<Rightarrow> 128 word \<Rightarrow> 128 word \<Rightarrow> 128 word" where
  "gf_mul 0 x v z = z"
| "gf_mul (Suc n) x v z =
     gf_mul n x (drop_bit 1 v XOR (if bit v 0 then push_bit 120 0xe1 else 0)) (if bit x n then z XOR v else z)"

definition pad_block :: "byte list \<Rightarrow> byte list" where
  "pad_block bs = bs @ replicate (16 - length bs) 0"

fun ghash :: "nat \<Rightarrow> 128 word \<Rightarrow> 128 word \<Rightarrow> byte list \<Rightarrow> 128 word" where
  "ghash 0 h y bs = y"
| "ghash (Suc n) h y bs = ghash n h (gf_mul 128 (y XOR bytes_block (pad_block (take 16 bs))) h 0) (drop 16 bs)"

definition gcm_tag :: "byte list list \<Rightarrow> 128 word \<Rightarrow> byte list \<Rightarrow> byte list" where
  "gcm_tag rks j0 ct =
     (let h = bytes_block (encrypt_block rks 0);
          y = ghash ((length ct + 15) div 16) h 0 ct;
          s = gf_mul 128 (y XOR of_nat (8 * length ct)) h 0
      in map2 (XOR) (block_bytes s) (encrypt_block rks j0))"

text \<open>Counter mode; the counter is the last 32 bits of the block.\<close>

definition inc32 :: "128 word \<Rightarrow> 128 word" where
  "inc32 w = push_bit 32 (drop_bit 32 w) OR ucast (ucast w + 1 :: 32 word)"

fun gcm_crypt :: "nat \<Rightarrow> byte list list \<Rightarrow> 128 word \<Rightarrow> byte list \<Rightarrow> byte list" where
  "gcm_crypt 0 rks ctr bs = []"
| "gcm_crypt (Suc n) rks ctr bs =
     map2 (XOR) (take 16 bs) (encrypt_block rks (inc32 ctr)) @ gcm_crypt n rks (inc32 ctr) (drop 16 bs)"

definition crypt_all :: "byte list list \<Rightarrow> 128 word \<Rightarrow> byte list \<Rightarrow> byte list" where
  "crypt_all rks j0 bs = gcm_crypt ((length bs + 15) div 16) rks j0 bs"

definition byte_of :: "char \<Rightarrow> byte" where
  "byte_of c = of_nat (of_char c)"

definition of_byte :: "byte \<Rightarrow> char" where
  "of_byte b = char_of (unat b)"

text \<open>Seal and Open of the package cipher, the tag behind the text.\<close>

definition first_counter :: "bytes \<Rightarrow> 128 word" where
  "first_counter nonce = bytes_block (map byte_of nonce @ [0, 0, 0, 1])"

definition Seal :: "bytes \<Rightarrow> bytes \<Rightarrow> bytes \<Rightarrow> bytes" where
  "Seal key nonce p =
     (let rks = round_keys (map byte_of key); j0 = first_counter nonce;
          ct = crypt_all rks j0 (map byte_of p)
      in map of_byte (ct @ gcm_tag rks j0 ct))"

definition Open :: "bytes \<Rightarrow> bytes \<Rightarrow> bytes \<Rightarrow> bytes option" where
  "Open key nonce sealed =
     (if length sealed < 16 then None
      else let rks = round_keys (map byte_of key); j0 = first_counter nonce;
               bs = map byte_of sealed; ct = take (length bs - 16) bs; tag = drop (length bs - 16) bs
           in if gcm_tag rks j0 ct = tag then Some (map of_byte (crypt_all rks j0 ct)) else None)"

section \<open>Opening a sealed text\<close>

lemma of_byte_byte_of [simp]: "of_byte (byte_of c) = c"
proof -
  have "(of_char c :: nat) < 256" using nat_of_char_less_256 [of c] by simp
  then have "unat (of_nat (of_char c) :: byte) = of_char c" by (simp add: unat_of_nat)
  then show ?thesis by (simp add: of_byte_def byte_of_def)
qed

lemma byte_of_of_byte [simp]: "byte_of (of_byte b) = b"
proof -
  have "unat b < 256" using unsigned_less [of b] by simp
  then show ?thesis by (simp add: of_byte_def byte_of_def of_char_of)
qed

lemma block_bytes_length [simp]: "length (block_bytes w) = 16"
  by (simp add: block_bytes_def)

lemma encrypt_block_length [simp]: "length (encrypt_block rks w) = 16"
  by (simp add: encrypt_block_def)

lemma map2_xor_xor: "length bs \<le> length ks \<Longrightarrow> map2 (XOR) (map2 (XOR) bs ks) ks = (bs :: byte list)"
proof (induction bs arbitrary: ks)
  case (Cons b bs)
  then show ?case by (cases ks) (simp_all add: xor.assoc)
qed simp

lemma gcm_crypt_length: "length bs \<le> 16 * n \<Longrightarrow> length (gcm_crypt n rks ctr bs) = length bs"
  by (induction n arbitrary: ctr bs) auto

lemma gcm_crypt_twice:
  "length bs \<le> 16 * n \<Longrightarrow> gcm_crypt n rks ctr (gcm_crypt n rks ctr bs) = bs"
proof (induction n arbitrary: ctr bs)
  case (Suc n)
  let ?k = "encrypt_block rks (inc32 ctr)" and ?r = "gcm_crypt n rks (inc32 ctr) (drop 16 bs)"
  show ?case
  proof (cases "length bs \<le> 16")
    case True
    then have "?r = []" using gcm_crypt_length [of "drop 16 bs" n] by simp
    then show ?thesis using True Suc.IH [of "[]"] by (simp add: map2_xor_xor)
  next
    case False
    have x: "length (map2 (XOR) (take 16 bs) ?k) = 16" using False by simp
    have "take 16 (map2 (XOR) (take 16 bs) ?k @ ?r) = map2 (XOR) (take 16 bs) ?k"
      "drop 16 (map2 (XOR) (take 16 bs) ?k @ ?r) = ?r" by (simp_all only: take_append drop_append x) simp_all
    moreover have "gcm_crypt n rks (inc32 ctr) ?r = drop 16 bs" using Suc by (intro Suc.IH) simp
    moreover have "map2 (XOR) (map2 (XOR) (take 16 bs) ?k) ?k = take 16 bs" by (rule map2_xor_xor) simp
    ultimately show ?thesis unfolding gcm_crypt.simps by (simp only: append_take_drop_id)
  qed
qed simp

lemma crypt_all_twice: "crypt_all rks j0 (crypt_all rks j0 bs) = bs"
proof -
  have "length bs \<le> 16 * ((length bs + 15) div 16)" by presburger
  then show ?thesis using gcm_crypt_length [of bs "(length bs + 15) div 16" rks j0]
    by (simp add: crypt_all_def gcm_crypt_twice)
qed

lemma gcm_tag_length [simp]: "length (gcm_tag rks j0 ct) = 16"
  by (simp add: gcm_tag_def Let_def)

lemma Open_Seal: "Open key nonce (Seal key nonce p) = Some p"
  by (simp add: Open_def Seal_def Let_def crypt_all_twice comp_def)

end
