(* ===== verification/Secrets.thy ===== *)
theory Secrets
  imports Go_Crypto Aes_Gcm
begin

text \<open>
  The secret store (internal/secrets/aes.go): parsing of the encryption key, and AES-256-GCM
  encryption to base64(nonce + ciphertext). The random bytes are the result of the read from the system.
\<close>

definition NewAESStore :: "string \<Rightarrow> err + bytes" where
  "NewAESStore key =
     (if key = [] then Inl (ErrMsg ''encryption key is required'')
      else let good = (\<lambda>r. case r of Some bs \<Rightarrow> length bs = 32 | None \<Rightarrow> False) in
        if good (hex_decode key) then Inr (the (hex_decode key))
        else if good (StdEncoding_decode key) then Inr (the (StdEncoding_decode key))
        else if good (RawStdEncoding_decode key) then Inr (the (RawStdEncoding_decode key))
        else Inl (ErrMsg ''encryption key must be 32 bytes, provide as 64-char hex or base64''))"

definition gcm_nonce_size :: nat where
  "gcm_nonce_size = 12"

text \<open>NewCipher accepts the key sizes of AES.\<close>

definition aes_key_size :: "bytes \<Rightarrow> bool" where
  "aes_key_size key = (length key = 16 \<or> length key = 24 \<or> length key = 32)"

text \<open>ReadFull of the nonce from the bytes the system delivers.\<close>

definition read_nonce :: "err + bytes \<Rightarrow> err + bytes" where
  "read_nonce rnd = (case rnd of Inl e \<Rightarrow> Inl e
     | Inr bs \<Rightarrow> if length bs < gcm_nonce_size then Inl (ErrMsg ''unexpected EOF'') else Inr (take gcm_nonce_size bs))"

definition Encrypt :: "bytes \<Rightarrow> err + bytes \<Rightarrow> string \<Rightarrow> err + string" where
  "Encrypt key rnd plaintext =
     (if \<not> aes_key_size key then Inl (ErrWrap ''failed to create cipher'' (ErrMsg ''invalid key size''))
      else case read_nonce rnd of
        Inl e \<Rightarrow> Inl (ErrWrap ''failed to generate nonce'' e)
      | Inr nonce \<Rightarrow> Inr (StdEncoding_encode (nonce @ Seal key nonce plaintext)))"

definition Decrypt :: "bytes \<Rightarrow> string \<Rightarrow> err + string" where
  "Decrypt key ciphertext =
     (case StdEncoding_decode ciphertext of
        None \<Rightarrow> Inl (ErrWrap ''failed to decode ciphertext'' (ErrMsg ''illegal base64 data''))
      | Some bs \<Rightarrow>
          if \<not> aes_key_size key then Inl (ErrWrap ''failed to create cipher'' (ErrMsg ''invalid key size''))
          else if length bs < gcm_nonce_size then Inl (ErrMsg ''ciphertext too short'')
          else (case Open key (take gcm_nonce_size bs) (drop gcm_nonce_size bs) of
                  None \<Rightarrow> Inl (ErrWrap ''failed to decrypt'' (ErrMsg ''message authentication failed''))
                | Some plaintext \<Rightarrow> Inr plaintext))"

section \<open>The interface of a secret store\<close>

text \<open>What the resolver and the service rely on: what was encrypted decrypts to the same text.\<close>

locale secret_store =
  fixes encrypt :: "'r \<Rightarrow> string \<Rightarrow> err + string" and decrypt :: "string \<Rightarrow> err + string"
  assumes decrypt_encrypt: "encrypt rnd p = Inr c \<Longrightarrow> decrypt c = Inr p"
begin

lemma encrypt_inj: "encrypt rnd p = Inr c \<Longrightarrow> encrypt rnd' p' = Inr c \<Longrightarrow> p = p'"
  using decrypt_encrypt [of rnd p c] decrypt_encrypt [of rnd' p' c] by simp

end

section \<open>Facts\<close>

lemma NewAESStore_length: "NewAESStore s = Inr key \<Longrightarrow> length key = 32"
  by (auto simp: NewAESStore_def Let_def split: if_splits option.splits)

lemma Decrypt_Encrypt:
  assumes "Encrypt key rnd p = Inr c"
  shows "Decrypt key c = Inr p"
proof -
  from assms obtain nonce where n: "read_nonce rnd = Inr nonce" "aes_key_size key"
      "c = StdEncoding_encode (nonce @ Seal key nonce p)"
    by (auto simp: Encrypt_def split: if_splits sum.splits)
  have "length nonce = gcm_nonce_size" using n(1) by (auto simp: read_nonce_def split: sum.splits if_splits)
  then show ?thesis using n by (simp add: Decrypt_def Open_Seal)
qed

interpretation aes: secret_store "Encrypt key" "Decrypt key" for key
  by unfold_locales (rule Decrypt_Encrypt)

text \<open>Characters outside the two alphabets are never accepted.\<close>

lemma hex_decode_set: "hex_decode s = Some bs \<Longrightarrow> list_all is_hex s"
  by (induction s arbitrary: bs rule: hex_decode.induct) (auto split: if_splits)

lemma b64_digits_set: "b64_digits al cs = Some ds \<Longrightarrow> set cs \<subseteq> set al"
  by (auto simp: b64_digits_def list_all_iff b64_index_None split: if_splits)

lemma b64_tail_set:
  "b64_tail al pad cs = Some bs \<Longrightarrow> set cs \<subseteq> set al \<union> set_option pad"
proof (cases pad)
  case None
  then show "b64_tail al pad cs = Some bs \<Longrightarrow> set cs \<subseteq> set al \<union> set_option pad"
    by (auto simp: b64_tail_def split: if_splits dest: b64_digits_set)
next
  case (Some p)
  assume t: "b64_tail al pad cs = Some bs"
  then obtain a b c where cs: "cs = [a, b, c, p]"
    using Some by (auto simp: b64_tail_def length_Suc_conv numeral_eq_Suc split: if_splits)
  show ?thesis using t unfolding cs Some
    by (auto simp: b64_tail_def numeral_2_eq_2 numeral_3_eq_3 split: if_splits dest!: b64_digits_set)
qed

lemma b64_quanta_set: "b64_quanta al pad s = Some bs \<Longrightarrow> set s \<subseteq> set al \<union> set_option pad"
proof (induction al pad s arbitrary: bs rule: b64_quanta.induct)
  case (2 al pad a b c d cs)
  show ?case
  proof (cases "b64_digits al [a, b, c, d]")
    case None
    then show ?thesis using 2(2) b64_tail_set [of al pad "[a, b, c, d]" bs] by (auto split: if_splits)
  next
    case (Some ds)
    then show ?thesis using 2 b64_digits_set [OF Some] by auto
  qed
qed (auto dest: b64_tail_set)

lemma b64_decode_set:
  "b64_decode al pad s = Some bs \<Longrightarrow> set s \<subseteq> set al \<union> set_option pad \<union> {CHR 0x0A, CHR 0x0D}"
  unfolding b64_decode_def by (drule b64_quanta_set) auto

lemma minus_not_in: "CHR ''-'' \<notin> set b64_std" "CHR ''_'' \<notin> set b64_std"
  "\<not> is_hex (CHR ''-'')" "\<not> is_hex (CHR ''_'')"
  by code_simp+

text \<open>C16: The secret store. An encryption key in hexadecimal, or in standard base64 with or without
  padding, that stands for 32 bytes is accepted as these bytes (the first reading that fits wins), and
  with it every text encrypts, whenever the system delivers a nonce, to a text that decrypts to it.
  A key in the URL alphabet of base64 is refused, against the comment in the source.\<close>

theorem secret_round_trip:
  assumes "NewAESStore s = Inr key" "12 \<le> length rnd"
  shows "length key = 32
    \<and> (hex_decode s = Some key \<or> StdEncoding_decode s = Some key \<or> RawStdEncoding_decode s = Some key)
    \<and> CHR ''-'' \<notin> set s \<and> CHR ''_'' \<notin> set s
    \<and> (\<exists>c. Encrypt key (Inr rnd) p = Inr c \<and> Decrypt key c = Inr p)"
proof -
  have len: "length key = 32" by (rule NewAESStore_length [OF assms(1)])
  have dec: "hex_decode s = Some key \<or> StdEncoding_decode s = Some key \<or> RawStdEncoding_decode s = Some key"
    using assms(1) by (auto simp: NewAESStore_def Let_def split: if_splits option.splits)
  have chars: "list_all is_hex s \<or> set s \<subseteq> set b64_std \<union> {CHR ''='', CHR 0x0A, CHR 0x0D}"
    using dec unfolding StdEncoding_decode_def RawStdEncoding_decode_def
    by (elim disjE) (auto dest!: hex_decode_set b64_decode_set)
  have "CHR ''-'' \<notin> set s \<and> CHR ''_'' \<notin> set s"
    using chars minus_not_in by (auto simp: list_all_iff)
  moreover obtain c where c: "Encrypt key (Inr rnd) p = Inr c"
    using len assms(2) by (auto simp: Encrypt_def aes_key_size_def read_nonce_def gcm_nonce_size_def)
  ultimately show ?thesis using len dec aes.decrypt_encrypt [OF c] by blast
qed

lemma secret_round_trip_witness:
  "\<exists>c. Encrypt (replicate 32 (CHR ''A'')) (Inr (replicate 12 (CHR ''n''))) ''sk'' = Inr c
     \<and> Decrypt (replicate 32 (CHR ''A'')) c = Inr ''sk''"
proof -
  have "hex_decode (concat (replicate 32 ''41'')) = Some (replicate 32 (CHR ''A''))" by code_simp
  then have "NewAESStore (concat (replicate 32 ''41'')) = Inr (replicate 32 (CHR ''A''))"
    by (simp add: NewAESStore_def numeral_eq_Suc)
  from secret_round_trip [OF this, of "replicate 12 (CHR ''n'')" "''sk''"] show ?thesis by simp
qed

end
