(* ===== verification/Lru.thy ===== *)
theory Lru
  imports Main
begin

text \<open>
  The cache of the library golang-lru as the resolvers use it: its operations are a parameter of the
  model, its documented behaviour a predicate. A key just added is present, a removed one absent, a
  lookup changes no entry, and adding a key changes no other entry, but may evict one.
\<close>

record ('k, 'v, 'c) lru =
  lru_get :: "'k \<Rightarrow> 'c \<Rightarrow> 'v option \<times> 'c"
  lru_add :: "'k \<Rightarrow> 'v \<Rightarrow> 'c \<Rightarrow> 'c"
  lru_remove :: "'k \<Rightarrow> 'c \<Rightarrow> 'c"

definition lru_view :: "('k, 'v, 'c) lru \<Rightarrow> 'c \<Rightarrow> 'k \<Rightarrow> 'v option" where
  "lru_view L c k = fst (lru_get L k c)"

definition lru_spec :: "('k, 'v, 'c) lru \<Rightarrow> bool" where
  "lru_spec L =
     ((\<forall>k c k'. lru_view L (snd (lru_get L k c)) k' = lru_view L c k')
      \<and> (\<forall>k v c. lru_view L (lru_add L k v c) k = Some v)
      \<and> (\<forall>k v c k' w. k' \<noteq> k \<longrightarrow> lru_view L (lru_add L k v c) k' = Some w \<longrightarrow> lru_view L c k' = Some w)
      \<and> (\<forall>k c. lru_view L (lru_remove L k c) k = None)
      \<and> (\<forall>k c k'. k' \<noteq> k \<longrightarrow> lru_view L (lru_remove L k c) k' = lru_view L c k'))"

lemma lru_specD:
  assumes "lru_spec L"
  shows "lru_view L (snd (lru_get L k c)) k' = lru_view L c k'"
    and "lru_view L (lru_add L k v c) k = Some v"
    and "k' \<noteq> k \<Longrightarrow> lru_view L (lru_add L k v c) k' = Some w \<Longrightarrow> lru_view L c k' = Some w"
    and "lru_view L (lru_remove L k c) k = None"
    and "k' \<noteq> k \<Longrightarrow> lru_view L (lru_remove L k c) k' = lru_view L c k'"
  using assms unfolding lru_spec_def by blast+

text \<open>A bounded list, most recent first, behaves this way.\<close>

definition list_lru :: "nat \<Rightarrow> ('k, 'v, ('k \<times> 'v) list) lru" where
  "list_lru n = \<lparr>
     lru_get = (\<lambda>k c. case map_of c k of None \<Rightarrow> (None, c)
                  | Some v \<Rightarrow> (Some v, (k, v) # filter (\<lambda>p. fst p \<noteq> k) c)),
     lru_add = (\<lambda>k v c. take n ((k, v) # filter (\<lambda>p. fst p \<noteq> k) c)),
     lru_remove = (\<lambda>k c. filter (\<lambda>p. fst p \<noteq> k) c)\<rparr>"

lemma map_of_filter_key: "map_of (filter (\<lambda>p. fst p \<noteq> k) c) k' = (if k' = k then None else map_of c k')"
  by (induction c) auto

lemma map_of_take: "map_of (take n c) k = Some v \<Longrightarrow> map_of c k = Some v"
proof -
  assume "map_of (take n c) k = Some v"
  then have "(map_of (drop n c) ++ map_of (take n c)) k = Some v" by (rule map_add_find_right)
  then show ?thesis by (metis append_take_drop_id map_of_append)
qed

lemma list_lru_view: "lru_view (list_lru n) c k = map_of c k"
  by (simp add: lru_view_def list_lru_def split: option.splits)

lemma list_lru_spec: "lru_spec (list_lru (Suc n))"
  unfolding lru_spec_def list_lru_view
  by (auto simp: list_lru_def map_of_filter_key split: option.splits if_splits dest!: map_of_take)

end
