(* ===== verification/Auth.thy ===== *)
theory Auth
  imports Key_Store Go_Crypto Secrets Lru
begin

text \<open>
  Authentication (internal/auth): key generation and format checks (keygen.go), the resolver of API
  keys (resolver.go) and the resolver of proxy keys to provider keys (proxy_resolver.go), both with
  their caches. The storage is an interface of the Go code and a locale here; a call that is started
  in the background (the update of last_used_at) is returned as the key identifier it is for.
\<close>

section \<open>Keys (keygen.go)\<close>

definition KeyPrefix :: string where "KeyPrefix = ''mdm_sk_''"
definition ProxyKeyPrefix :: string where "ProxyKeyPrefix = ''mdm_pk_''"
definition KeyByteLength :: nat where "KeyByteLength = 32"

definition HashAPIKey :: "string \<Rightarrow> string" where
  "HashAPIKey key = hex_encode (Sum256 key)"

text \<open>The random bytes are the result of the read from the system.\<close>

definition generate_key :: "string \<Rightarrow> err + bytes \<Rightarrow> err + string \<times> string" where
  "generate_key prefix rnd =
     (case rnd of
        Inl e \<Rightarrow> Inl (ErrWrap ''failed to generate random bytes'' e)
      | Inr bs \<Rightarrow> let plaintext = prefix @ RawURLEncoding_encode (take KeyByteLength bs)
                 in Inr (plaintext, HashAPIKey plaintext))"

definition GenerateAPIKey :: "err + bytes \<Rightarrow> err + string \<times> string" where
  "GenerateAPIKey = generate_key KeyPrefix"

definition GenerateProxyKey :: "err + bytes \<Rightarrow> err + string \<times> string" where
  "GenerateProxyKey = generate_key ProxyKeyPrefix"

definition ValidateKeyFormat :: "string \<Rightarrow> bool" where
  "ValidateKeyFormat key = (if length key \<le> length KeyPrefix then False else has_prefix key KeyPrefix)"

definition ValidateProxyKeyFormat :: "string \<Rightarrow> bool" where
  "ValidateProxyKeyFormat key =
     (if length key \<le> length ProxyKeyPrefix then False else has_prefix key ProxyKeyPrefix)"

section \<open>The resolver of API keys (resolver.go)\<close>

record cachedKey =
  ck_info :: "APIKeyInfo option"
  ck_expires_at :: time
  ck_is_valid :: bool

definition cacheTTL :: duration where
  "cacheTTL = 5 * 60 * 1000000000"

type_synonym 'c key_cache = "(string, cachedKey, 'c) lru"

text \<open>An entry past its expiry is removed.\<close>

definition getFromCache :: "'c key_cache \<Rightarrow> time \<Rightarrow> string \<Rightarrow> 'c \<Rightarrow> cachedKey option \<times> 'c" where
  "getFromCache L now hash c =
     (case lru_get L hash c of
        (None, c') \<Rightarrow> (None, c')
      | (Some ck, c') \<Rightarrow> if ck_expires_at ck < now then (None, lru_remove L hash c') else (Some ck, c'))"

definition cacheValid :: "'c key_cache \<Rightarrow> time \<Rightarrow> string \<Rightarrow> APIKeyInfo \<Rightarrow> 'c \<Rightarrow> 'c" where
  "cacheValid L now hash info =
     lru_add L hash \<lparr>ck_info = Some info, ck_expires_at = now + cacheTTL, ck_is_valid = True\<rparr>"

definition cacheInvalid :: "'c key_cache \<Rightarrow> time \<Rightarrow> string \<Rightarrow> 'c \<Rightarrow> 'c" where
  "cacheInvalid L now hash =
     lru_add L hash \<lparr>ck_info = None, ck_expires_at = now + cacheTTL, ck_is_valid = False\<rparr>"

definition InvalidateCache :: "'c key_cache \<Rightarrow> string \<Rightarrow> 'c \<Rightarrow> 'c" where
  "InvalidateCache L hash = lru_remove L hash"

definition key_info :: "string \<Rightarrow> APIKey \<Rightarrow> APIKeyInfo" where
  "key_info hash k = \<lparr>aki_id = ak_id k, aki_hash = hash, aki_alias = Some (ak_name k),
     aki_user_id = ak_user_id k, aki_org_id = ak_org_id k,
     aki_deprecated_behavior = ak_deprecated_behavior k\<rparr>"

text \<open>What a resolution leaves behind: its result, the background update of a key, if one was started,
  the cache and the storage. The clock is read for the lookup and again for the new entry.\<close>

record ('a, 'c, 's) resolution =
  res_result :: "err + 'a"
  res_touch :: "uuid option"
  res_cache :: 'c
  res_store :: 's

definition ResolveAPIKey :: "'c key_cache \<Rightarrow> (string \<Rightarrow> 's \<Rightarrow> (err + APIKey option) \<times> 's)
    \<Rightarrow> time \<Rightarrow> time \<Rightarrow> string \<Rightarrow> 'c \<Rightarrow> 's \<Rightarrow> (APIKeyInfo option, 'c, 's) resolution" where
  "ResolveAPIKey L by_hash now later apiKey c s =
     (let ret = (\<lambda>r t c s. \<lparr>res_result = r, res_touch = t, res_cache = c, res_store = s\<rparr>) in
      if apiKey = [] then ret (Inl ErrInvalidAPIKey) None c s
      else let hash = HashAPIKey apiKey in
        case getFromCache L now hash c of
          (Some ck, c1) \<Rightarrow>
            if \<not> ck_is_valid ck then ret (Inl ErrAPIKeyInactive) None c1 s
            else ret (Inr (ck_info ck)) None c1 s
        | (None, c1) \<Rightarrow>
            (case by_hash hash s of
               (Inl e, s1) \<Rightarrow> ret (Inl e) None c1 s1
             | (Inr None, s1) \<Rightarrow> ret (Inl ErrInvalidAPIKey) None (cacheInvalid L later hash c1) s1
             | (Inr (Some key), s1) \<Rightarrow>
                 if \<not> ak_is_active key
                 then ret (Inl (if ak_revoked_at key \<noteq> None then ErrAPIKeyRevoked else ErrAPIKeyInactive))
                        None (cacheInvalid L later hash c1) s1
                 else let info = key_info hash key
                      in ret (Inr (Some info)) (Some (ak_id key)) (cacheValid L later hash info c1) s1))"

section \<open>The resolver of proxy keys (proxy_resolver.go)\<close>

record cachedProxyKey =
  cp_proxy_key_id :: uuid
  cp_api_key_id :: uuid
  cp_is_active :: bool
  cp_revoked_at :: "time option"
  cp_expires_at :: time

type_synonym 'c proxy_cache = "(string, cachedProxyKey, 'c) lru"
type_synonym 'd prov_cache = "(string, string, 'd) lru"

definition provCacheKey :: "string \<Rightarrow> string \<Rightarrow> string" where
  "provCacheKey hash prov = hash @ '':'' @ prov"

text \<open>The lookup in both caches: the decrypted key counts only with live metadata of the proxy key.\<close>

definition proxy_cache_hit :: "'c proxy_cache \<Rightarrow> 'd prov_cache \<Rightarrow> time \<Rightarrow> string \<Rightarrow> string \<Rightarrow> 'c \<times> 'd
    \<Rightarrow> (string \<times> uuid) option \<times> 'c \<times> 'd" where
  "proxy_cache_hit K P now hash prov cd =
     (case lru_get P (provCacheKey hash prov) (snd cd) of
        (None, d) \<Rightarrow> (None, fst cd, d)
      | (Some decrypted, d) \<Rightarrow>
          (case lru_get K hash (fst cd) of
             (None, c) \<Rightarrow> (None, c, d)
           | (Some pkc, c) \<Rightarrow>
               (if now < cp_expires_at pkc then Some (decrypted, cp_proxy_key_id pkc) else None, c, d)))"

text \<open>The path through the storage, up to the entries to cache.\<close>

definition proxy_lookup :: "(string \<Rightarrow> 's \<Rightarrow> (err + ProxyKey option) \<times> 's)
    \<Rightarrow> (uuid \<Rightarrow> string \<Rightarrow> 's \<Rightarrow> (err + ProviderMapping option) \<times> 's) \<Rightarrow> (string \<Rightarrow> err + string)
    \<Rightarrow> string \<Rightarrow> string \<Rightarrow> uuid \<Rightarrow> 's \<Rightarrow> (err + ProxyKey \<times> string) \<times> 's" where
  "proxy_lookup by_hash mapping decrypt hash prov majordomoKeyID s =
     (case by_hash hash s of
        (Inl e, s1) \<Rightarrow> (Inl (ErrWrap ''failed to look up proxy key'' e), s1)
      | (Inr None, s1) \<Rightarrow> (Inl ErrProxyKeyNotFound, s1)
      | (Inr (Some pk), s1) \<Rightarrow>
          if \<not> pk_is_active pk
          then (Inl (if pk_revoked_at pk \<noteq> None then ErrProxyKeyRevoked else ErrProxyKeyInactive), s1)
          else if pk_api_key_id pk \<noteq> majordomoKeyID then (Inl ErrProxyKeyWrongOwner, s1)
          else (case mapping (pk_id pk) prov s1 of
                  (Inl e, s2) \<Rightarrow> (Inl (ErrWrap ''failed to look up provider mapping'' e), s2)
                | (Inr None, s2) \<Rightarrow> (Inl (ErrWrap prov ErrNoProviderMapping), s2)
                | (Inr (Some m), s2) \<Rightarrow>
                    (case decrypt (pm_encrypted_key m) of
                       Inl e \<Rightarrow> (Inl (ErrWrap ''failed to decrypt provider key'' e), s2)
                     | Inr decrypted \<Rightarrow> (Inr (pk, decrypted), s2))))"

text \<open>The result: no key at all for a key that is not a proxy key, else the provider key and the
  identifier of the proxy key.\<close>

definition ResolveProxyKey :: "'c proxy_cache \<Rightarrow> 'd prov_cache \<Rightarrow> (string \<Rightarrow> 's \<Rightarrow> (err + ProxyKey option) \<times> 's)
    \<Rightarrow> (uuid \<Rightarrow> string \<Rightarrow> 's \<Rightarrow> (err + ProviderMapping option) \<times> 's) \<Rightarrow> (string \<Rightarrow> err + string)
    \<Rightarrow> time \<Rightarrow> time \<Rightarrow> string \<Rightarrow> string \<Rightarrow> uuid \<Rightarrow> 'c \<times> 'd \<Rightarrow> 's
    \<Rightarrow> ((string \<times> uuid) option, 'c \<times> 'd, 's) resolution" where
  "ResolveProxyKey K P by_hash mapping decrypt now later authKey prov majordomoKeyID cd s =
     (let ret = (\<lambda>r t cd s. \<lparr>res_result = r, res_touch = t, res_cache = cd, res_store = s\<rparr>) in
      if \<not> has_prefix authKey ProxyKeyPrefix then ret (Inr None) None cd s
      else let hash = HashAPIKey authKey in
        case proxy_cache_hit K P now hash prov cd of
          (Some (decrypted, kid), cd1) \<Rightarrow> ret (Inr (Some (decrypted, kid))) None cd1 s
        | (None, cd1) \<Rightarrow>
            (case proxy_lookup by_hash mapping decrypt hash prov majordomoKeyID s of
               (Inl e, s1) \<Rightarrow> ret (Inl e) None cd1 s1
             | (Inr (pk, decrypted), s1) \<Rightarrow>
                 ret (Inr (Some (decrypted, pk_id pk))) (Some (pk_id pk))
                   (lru_add K hash \<lparr>cp_proxy_key_id = pk_id pk, cp_api_key_id = pk_api_key_id pk,
                      cp_is_active = pk_is_active pk, cp_revoked_at = pk_revoked_at pk,
                      cp_expires_at = later + cacheTTL\<rparr> (fst cd1),
                    lru_add P (provCacheKey hash prov) decrypted (snd cd1)) s1))"

definition InvalidateProxyCache :: "'c proxy_cache \<Rightarrow> string \<Rightarrow> 'c \<times> 'd \<Rightarrow> 'c \<times> 'd" where
  "InvalidateProxyCache K hash cd = (lru_remove K hash (fst cd), snd cd)"

section \<open>The storage interfaces\<close>

text \<open>What the resolver of API keys relies on: a lookup by hash finds a row with the hash or reports
  that there is none, and changes no row.\<close>

locale api_key_storage =
  fixes rows :: "'s \<Rightarrow> APIKey list"
    and by_hash :: "string \<Rightarrow> 's \<Rightarrow> (err + APIKey option) \<times> 's"
  assumes by_hash_rows: "rows (snd (by_hash h s)) = rows s"
    and by_hash_some: "fst (by_hash h s) = Inr (Some k) \<Longrightarrow> k \<in> set (rows s) \<and> ak_key_hash k = h"
begin

text \<open>A result comes from a live valid entry of the cache or from an active row.\<close>

lemma resolve_cases:
  assumes "lru_spec L" "res_result (ResolveAPIKey L by_hash now later apiKey c s) = Inr info"
  shows "(\<exists>ck. lru_view L c (HashAPIKey apiKey) = Some ck \<and> ck_is_valid ck \<and> ck_info ck = info
             \<and> now \<le> ck_expires_at ck)
       \<or> (\<exists>k \<in> set (rows s). ak_key_hash k = HashAPIKey apiKey \<and> ak_is_active k
             \<and> info = Some (key_info (HashAPIKey apiKey) k))"
  using assms(2) by_hash_some [of "HashAPIKey apiKey" s]
  by (auto simp: ResolveAPIKey_def Let_def getFromCache_def lru_view_def
      split: if_splits prod.splits option.splits sum.splits)

text \<open>What the call leaves in the cache: entries it found, or the new one for this key.\<close>

lemma resolve_view:
  assumes "lru_spec L"
    "lru_view L (res_cache (ResolveAPIKey L by_hash now later apiKey c s)) h = Some ck"
  shows "lru_view L c h = Some ck
    \<or> (h = HashAPIKey apiKey \<and> ck_expires_at ck = later + cacheTTL
        \<and> (ck_is_valid ck \<longrightarrow> (\<exists>k \<in> set (rows s). ak_key_hash k = h \<and> ak_is_active k
                             \<and> ck_info ck = Some (key_info h k))))"
proof -
  note spec = lru_specD [OF assms(1)]
  define hash where "hash = HashAPIKey apiKey"
  have get: "lru_view L (snd (getFromCache L now hash c)) h' = Some ck \<Longrightarrow> lru_view L c h' = Some ck" for h'
    using spec(1) [of hash c] spec(4) [of hash] spec(5) [of h' hash]
    by (cases "h' = hash") (auto simp: getFromCache_def split: prod.splits option.splits if_splits
        dest: arg_cong [of _ _ snd])
  have row: "fst (by_hash hash s) = Inr (Some k) \<Longrightarrow> k \<in> set (rows s) \<and> ak_key_hash k = hash" for k
    by (rule by_hash_some)
  have added: "lru_view L c h = Some ck \<or> h = hash \<and> ck = v"
    if "lru_view L (lru_add L hash v (snd (getFromCache L now hash c))) h = Some ck" for v
  proof (cases "h = hash")
    case True
    then show ?thesis using that spec(2) [of hash v] by simp
  next
    case False
    then show ?thesis using get [OF spec(3) [OF False that]] by simp
  qed
  obtain hit c1 where g: "getFromCache L now hash c = (hit, c1)" by fastforce
  obtain r s1 where b: "by_hash hash s = (r, s1)" by fastforce
  note res = ResolveAPIKey_def Let_def hash_def [symmetric] g b
  show ?thesis
  proof (cases "apiKey = [] \<or> hit \<noteq> None")
    case True
    then have "res_cache (ResolveAPIKey L by_hash now later apiKey c s) \<in> {c, c1}"
      by (auto simp: res)
    then show ?thesis using assms(2) get [of h] g by auto
  next
    case False
    show ?thesis
    proof (cases r)
      case (Inl e)
      then have "res_cache (ResolveAPIKey L by_hash now later apiKey c s) = c1" using False by (simp add: res)
      then show ?thesis using assms(2) get [of h] g by simp
    next
      case (Inr ko)
      show ?thesis
      proof (cases "\<exists>k. ko = Some k \<and> ak_is_active k")
        case True
        then obtain k where k: "ko = Some k" "ak_is_active k" by blast
        then have "res_cache (ResolveAPIKey L by_hash now later apiKey c s)
            = cacheValid L later hash (key_info hash k) c1" using False Inr by (simp add: res)
        with assms(2) have "lru_view L (lru_add L hash \<lparr>ck_info = Some (key_info hash k),
            ck_expires_at = later + cacheTTL, ck_is_valid = True\<rparr> c1) h = Some ck"
          by (simp add: cacheValid_def)
        from added [unfolded g snd_conv, OF this] show ?thesis
          using row [of k] k b Inr by (auto simp: hash_def)
      next
        case no: False
        have "res_cache (ResolveAPIKey L by_hash now later apiKey c s) = cacheInvalid L later hash c1"
          using False Inr no by (cases ko) (auto simp: res)
        with assms(2) have "lru_view L (lru_add L hash \<lparr>ck_info = None,
            ck_expires_at = later + cacheTTL, ck_is_valid = False\<rparr> c1) h = Some ck"
          by (simp add: cacheInvalid_def)
        from added [unfolded g snd_conv, OF this] show ?thesis by (auto simp: hash_def)
      qed
    qed
  qed
qed

end

interpretation ak: api_key_storage kdb_api_keys GetAPIKeyByHash
proof
  show "kdb_api_keys (snd (GetAPIKeyByHash h s)) = kdb_api_keys s" for h s
    using query_same(1) [of s h] by (simp add: same_tables_iff)
qed (rule GetAPIKeyByHash_Some)

section \<open>Runs of the resolver\<close>

text \<open>Between calls the clock advances and the storage changes; every storage of a run satisfies a
  condition. The cache starts empty.\<close>

record ('c, 's) auth_state =
  as_now :: time
  as_cache :: 'c
  as_store :: 's

inductive auth_step :: "'c key_cache \<Rightarrow> (string \<Rightarrow> 's \<Rightarrow> (err + APIKey option) \<times> 's) \<Rightarrow> ('s \<Rightarrow> bool)
    \<Rightarrow> ('c, 's) auth_state \<Rightarrow> ('c, 's) auth_state \<Rightarrow> bool"
  for L by_hash ok where
  tick: "as_now st \<le> t \<Longrightarrow> auth_step L by_hash ok st (st\<lparr>as_now := t\<rparr>)"
| change: "ok s' \<Longrightarrow> auth_step L by_hash ok st (st\<lparr>as_store := s'\<rparr>)"
| resolve: "as_now st \<le> later \<Longrightarrow> r = ResolveAPIKey L by_hash (as_now st) later apiKey (as_cache st) (as_store st)
    \<Longrightarrow> ok (res_store r) \<Longrightarrow> auth_step L by_hash ok st \<lparr>as_now = later, as_cache = res_cache r, as_store = res_store r\<rparr>"
| invalidate: "auth_step L by_hash ok st (st\<lparr>as_cache := InvalidateCache L hash (as_cache st)\<rparr>)"

text \<open>Entries expire within the TTL, and a valid entry holds the information of its key.\<close>

definition key_cache_ok :: "'c key_cache \<Rightarrow> time \<Rightarrow> 'c \<Rightarrow> bool" where
  "key_cache_ok L now c = (\<forall>h ck. lru_view L c h = Some ck \<longrightarrow>
     ck_expires_at ck \<le> now + cacheTTL \<and> (ck_is_valid ck \<longrightarrow> (\<exists>i. ck_info ck = Some i \<and> aki_hash i = h)))"

text \<open>No valid entry for the hash lasts longer than the given time.\<close>

definition valid_until :: "'c key_cache \<Rightarrow> string \<Rightarrow> time \<Rightarrow> 'c \<Rightarrow> bool" where
  "valid_until L h t c = (\<forall>ck. lru_view L c h = Some ck \<longrightarrow> ck_is_valid ck \<longrightarrow> ck_expires_at ck \<le> t)"

lemma InvalidateCache_view:
  "lru_spec L \<Longrightarrow> lru_view L (InvalidateCache L hash c) h = Some ck \<Longrightarrow> lru_view L c h = Some ck"
  using lru_specD(4) [of L hash c] lru_specD(5) [of L h hash c]
  by (cases "h = hash") (auto simp: InvalidateCache_def)

context api_key_storage begin

lemma step_key_cache_ok:
  assumes "lru_spec L" "auth_step L by_hash ok st st'" "key_cache_ok L (as_now st) (as_cache st)"
  shows "key_cache_ok L (as_now st') (as_cache st')"
  using assms(2,3)
proof (cases rule: auth_step.cases)
  case (resolve later r apiKey)
  have "ck_expires_at ck \<le> later + cacheTTL \<and> (ck_is_valid ck \<longrightarrow> (\<exists>i. ck_info ck = Some i \<and> aki_hash i = h))"
    if "lru_view L (res_cache r) h = Some ck" for h ck
    using resolve_view [OF assms(1) that [unfolded resolve(3)]] assms(3) resolve(2)
    by (force simp: key_cache_ok_def key_info_def)
  then show ?thesis using resolve(1) by (simp add: key_cache_ok_def)
qed (auto simp: key_cache_ok_def dest: InvalidateCache_view [OF assms(1)], fastforce+)

lemma step_valid_until:
  assumes "lru_spec L" "auth_step L by_hash ok st st'" "valid_until L h t (as_cache st)"
    "\<And>s k. ok s \<Longrightarrow> k \<in> set (rows s) \<Longrightarrow> ak_key_hash k = h \<Longrightarrow> \<not> ak_is_active k" "ok (as_store st)"
  shows "valid_until L h t (as_cache st') \<and> ok (as_store st')"
  using assms(2)
proof (cases rule: auth_step.cases)
  case (resolve later r apiKey)
  have "ck_expires_at ck \<le> t" if "lru_view L (res_cache r) h = Some ck" "ck_is_valid ck" for ck
    using resolve_view [OF assms(1) that(1) [unfolded resolve(3)]] assms(3) that(2) assms(4) [OF assms(5)]
    by (auto simp: valid_until_def)
  then show ?thesis using resolve(1,4) by (simp add: valid_until_def)
qed (use assms(3,5) in \<open>auto simp: valid_until_def dest: InvalidateCache_view [OF assms(1)]\<close>)

lemma run_key_cache_ok:
  assumes "lru_spec L" "(auth_step L by_hash ok)\<^sup>*\<^sup>* st st'" "key_cache_ok L (as_now st) (as_cache st)"
  shows "key_cache_ok L (as_now st') (as_cache st')"
  using assms(2,3) by (induction rule: rtranclp_induct) (auto intro: step_key_cache_ok [OF assms(1)])

text \<open>While no active row has the hash, the key is refused as soon as the TTL has passed.\<close>

lemma run_refused:
  assumes "lru_spec L" "key_cache_ok L (as_now st) (as_cache st)" "(auth_step L by_hash ok)\<^sup>*\<^sup>* st st'"
    "\<And>s k. ok s \<Longrightarrow> k \<in> set (rows s) \<Longrightarrow> ak_key_hash k = HashAPIKey apiKey \<Longrightarrow> \<not> ak_is_active k"
    "ok (as_store st)" "as_now st + cacheTTL < as_now st'"
  shows "\<exists>e. res_result (ResolveAPIKey L by_hash (as_now st') later apiKey (as_cache st') (as_store st')) = Inl e"
proof -
  let ?h = "HashAPIKey apiKey"
  have "valid_until L ?h (as_now st + cacheTTL) (as_cache st') \<and> ok (as_store st')"
    using assms(3)
  proof (induction rule: rtranclp_induct)
    case base
    then show ?case using assms(2,5) by (auto simp: key_cache_ok_def valid_until_def)
  next
    case (step y z)
    then show ?case using step_valid_until [OF assms(1) step(2)] assms(4) by blast
  qed
  then have "valid_until L ?h (as_now st + cacheTTL) (as_cache st')" "ok (as_store st')" by auto
  then have "res_result (ResolveAPIKey L by_hash (as_now st') later apiKey (as_cache st') (as_store st')) \<noteq> Inr info" for info
    using resolve_cases [OF assms(1), of "as_now st'" later apiKey "as_cache st'" "as_store st'" info] assms(4,6)
    by (force simp: valid_until_def)
  then show ?thesis by (cases "res_result (ResolveAPIKey L by_hash (as_now st') later apiKey (as_cache st') (as_store st'))") auto
qed

end

text \<open>C5: A revocation takes effect. Once no active row carries the hash of an API key, and as long as this
  stays so, the key is refused by every resolution more than five minutes later, whatever calls,
  cache evictions, background updates, statement failures and other changes of the tables come in between.\<close>

theorem revocation_takes_effect:
  assumes "lru_spec L" "\<forall>h. lru_view L c0 h = None"
    "(auth_step L GetAPIKeyByHash (\<lambda>_. True))\<^sup>*\<^sup>* \<lparr>as_now = t0, as_cache = c0, as_store = db0\<rparr> st"
    "(auth_step L GetAPIKeyByHash (\<lambda>db. \<forall>k \<in> set (kdb_api_keys db).
        ak_key_hash k = HashAPIKey apiKey \<longrightarrow> \<not> ak_is_active k))\<^sup>*\<^sup>* st st'"
    "\<forall>k \<in> set (kdb_api_keys (as_store st)). ak_key_hash k = HashAPIKey apiKey \<longrightarrow> \<not> ak_is_active k"
    "as_now st + cacheTTL < as_now st'"
  shows "\<exists>e. res_result (ResolveAPIKey L GetAPIKeyByHash (as_now st') later apiKey
               (as_cache st') (as_store st')) = Inl e"
proof -
  have "key_cache_ok L (as_now \<lparr>as_now = t0, as_cache = c0, as_store = db0\<rparr>)
      (as_cache \<lparr>as_now = t0, as_cache = c0, as_store = db0\<rparr>)"
    using assms(2) by (simp add: key_cache_ok_def)
  then have "key_cache_ok L (as_now st) (as_cache st)"
    by (rule ak.run_key_cache_ok [OF assms(1,3)])
  from ak.run_refused [OF assms(1) this assms(4) _ assms(5,6), of apiKey] show ?thesis by blast
qed

definition sample_db :: "bool \<Rightarrow> KeyDB" where
  "sample_db act = (empty_key_db [])\<lparr>kdb_api_keys :=
     [\<lparr>ak_id = 1, ak_key_hash = HashAPIKey ''k'', ak_name = ''n'', ak_description = None, ak_user_id = None,
       ak_org_id = Some 7, ak_is_active = act, ak_created_at = 0, ak_revoked_at = (if act then None else Some 10),
       ak_last_used_at = None, ak_request_count = 0, ak_deprecated_behavior = ''warn''\<rparr>]\<rparr>"

lemma list_lru_empty: "lru_view (list_lru n) [] h = None"
  by (simp add: list_lru_view)

lemma revocation_takes_effect_witness:
  "\<exists>e. res_result (ResolveAPIKey (list_lru 4096) GetAPIKeyByHash 300000000011 300000000011 ''k'' [] (sample_db False)) = Inl e"
proof -
  let ?st = "\<lparr>as_now = 10, as_cache = [] :: (string \<times> cachedKey) list, as_store = sample_db False\<rparr>"
  have spec: "lru_spec (list_lru 4096 :: (string, cachedKey, _) lru)"
    using list_lru_spec [of 4095] by simp
  have run: "(auth_step (list_lru 4096) GetAPIKeyByHash ok)\<^sup>*\<^sup>* ?st (?st\<lparr>as_now := 300000000011\<rparr>)" for ok
    by (rule r_into_rtranclp, rule auth_step.tick) simp
  show ?thesis
    using revocation_takes_effect [OF spec _ rtranclp.rtrancl_refl run, of "''k''" 300000000011]
    by (simp add: list_lru_empty sample_db_def cacheTTL_def)
qed

section \<open>Answers of the resolver\<close>

lemma resolve_hit:
  assumes "lru_view L c (HashAPIKey apiKey) = Some ck" "now \<le> ck_expires_at ck" "apiKey \<noteq> []"
  shows "res_result (ResolveAPIKey L f now later apiKey c s)
    = (if ck_is_valid ck then Inr (ck_info ck) else Inl ErrAPIKeyInactive)"
proof -
  obtain c1 where "lru_get L (HashAPIKey apiKey) c = (Some ck, c1)"
    using assms(1) by (metis lru_view_def prod.collapse)
  then show ?thesis using assms(2,3) by (simp add: ResolveAPIKey_def getFromCache_def Let_def)
qed

text \<open>The row's answer to a key that is not in the cache.\<close>

definition key_answer :: "string \<Rightarrow> APIKey option \<Rightarrow> err + APIKeyInfo option" where
  "key_answer apiKey row = (case row of
     None \<Rightarrow> Inl ErrInvalidAPIKey
   | Some k \<Rightarrow> if ak_is_active k then Inr (Some (key_info (HashAPIKey apiKey) k))
              else if ak_revoked_at k \<noteq> None then Inl ErrAPIKeyRevoked else Inl ErrAPIKeyInactive)"

text \<open>The answers of the resolver. A key that is not in the cache gets the answer of its row, and
  the background update is started for an accepted key only; for the next five minutes the same key is
  answered from the cache, whatever has become of the row: an accepted key stays accepted although it
  has been revoked, and every refused key, an unknown one included, is reported as inactive although it may
  have been created in the meantime.\<close>

theorem resolve_answers:
  assumes "lru_spec L" "apiKey \<noteq> []" "lru_view L c (HashAPIKey apiKey) = None"
    "kdb_faults db = []" "now' \<le> later + cacheTTL"
    and row_def: "row = find_row (\<lambda>k. ak_key_hash k = HashAPIKey apiKey) (kdb_api_keys db)"
    and r_def: "r = ResolveAPIKey L GetAPIKeyByHash now later apiKey c db"
  shows "res_result r = key_answer apiKey row
    \<and> res_touch r = (case row of Some k \<Rightarrow> if ak_is_active k then Some (ak_id k) else None | None \<Rightarrow> None)
    \<and> res_store r = db
    \<and> res_result (ResolveAPIKey L GetAPIKeyByHash now' later' apiKey (res_cache r) db')
        = (case key_answer apiKey row of Inr info \<Rightarrow> Inr info | Inl _ \<Rightarrow> Inl ErrAPIKeyInactive)"
proof -
  define hash where "hash = HashAPIKey apiKey"
  have "fst (lru_get L hash c) = None" using assms(3) by (simp add: lru_view_def hash_def)
  then obtain c1 where "lru_get L hash c = (None, c1)" by (metis prod.collapse)
  then have g: "getFromCache L now hash c = (None, c1)" by (simp add: getFromCache_def)
  have q: "GetAPIKeyByHash hash db = (Inr row, db)"
    by (simp add: GetAPIKeyByHash_def sql_ok [OF assms(4)] row_def hash_def)
  note res = r_def ResolveAPIKey_def Let_def hash_def [symmetric] g q
  define ck where "ck = (case row of
      Some k \<Rightarrow> if ak_is_active k then \<lparr>ck_info = Some (key_info hash k), ck_expires_at = later + cacheTTL, ck_is_valid = True\<rparr>
               else \<lparr>ck_info = None, ck_expires_at = later + cacheTTL, ck_is_valid = False\<rparr>
    | None \<Rightarrow> \<lparr>ck_info = None, ck_expires_at = later + cacheTTL, ck_is_valid = False\<rparr>)"
  have "res_cache r = lru_add L hash ck c1"
    using assms(2) by (cases row) (auto simp: res ck_def cacheValid_def cacheInvalid_def)
  then have "lru_view L (res_cache r) hash = Some ck" by (simp add: lru_specD(2) [OF assms(1)])
  then have "res_result (ResolveAPIKey L GetAPIKeyByHash now' later' apiKey (res_cache r) db')
      = (if ck_is_valid ck then Inr (ck_info ck) else Inl ErrAPIKeyInactive)"
    unfolding hash_def
    by (rule resolve_hit) (use assms(2,5) in \<open>auto simp: ck_def split: option.splits\<close>)
  then show ?thesis
    using assms(2) by (cases row) (auto simp: res ck_def key_answer_def)
qed

lemma resolve_answers_witness:
  "res_result (ResolveAPIKey (list_lru 4096) GetAPIKeyByHash 200 300 ''k''
      (res_cache (ResolveAPIKey (list_lru 4096) GetAPIKeyByHash 0 0 ''k'' [] (sample_db True))) (sample_db False))
    = Inr (Some \<lparr>aki_id = 1, aki_hash = HashAPIKey ''k'', aki_alias = Some ''n'', aki_user_id = None,
        aki_org_id = Some 7, aki_deprecated_behavior = ''warn''\<rparr>)"
proof -
  have spec: "lru_spec (list_lru 4096 :: (string, cachedKey, _) lru)"
    using list_lru_spec [of 4095] by simp
  have db: "kdb_faults (sample_db True) = []" by (simp add: sample_db_def empty_key_db_def)
  show ?thesis
    using resolve_answers [OF spec _ list_lru_empty db _ refl refl, of "''k''" 200 0 0 300 "sample_db False"]
    by (simp add: sample_db_def cacheTTL_def key_answer_def find_row_def key_info_def)
qed

section \<open>The resolver of proxy keys\<close>

text \<open>What it relies on: both lookups find rows with the keys they were asked for, and change none.\<close>

locale proxy_key_storage =
  fixes proxies :: "'s \<Rightarrow> ProxyKey list" and mappings :: "'s \<Rightarrow> ProviderMapping list"
    and by_hash :: "string \<Rightarrow> 's \<Rightarrow> (err + ProxyKey option) \<times> 's"
    and mapping :: "uuid \<Rightarrow> string \<Rightarrow> 's \<Rightarrow> (err + ProviderMapping option) \<times> 's"
  assumes by_hash_keeps: "proxies (snd (by_hash h s)) = proxies s" "mappings (snd (by_hash h s)) = mappings s"
    and by_hash_found: "fst (by_hash h s) = Inr (Some k) \<Longrightarrow> k \<in> set (proxies s) \<and> pk_key_hash k = h"
    and mapping_found: "fst (mapping i prov s) = Inr (Some m) \<Longrightarrow> m \<in> set (mappings s) \<and> mapping_key m = (i, prov)"
begin

text \<open>A key is released only for an active proxy key of the caller, from its mapping.\<close>

lemma lookup_authorised:
  assumes "proxy_lookup by_hash mapping decrypt hash prov owner s = (Inr (pk, d), s')"
  shows "pk \<in> set (proxies s) \<and> pk_key_hash pk = hash \<and> pk_is_active pk \<and> pk_api_key_id pk = owner
    \<and> (\<exists>m \<in> set (mappings s). mapping_key m = (pk_id pk, prov) \<and> decrypt (pm_encrypted_key m) = Inr d)"
proof -
  obtain r s1 where b: "by_hash hash s = (r, s1)" by fastforce
  then obtain k where k: "r = Inr (Some k)" "pk_is_active k" "pk_api_key_id k = owner"
    using assms by (auto simp: proxy_lookup_def split: sum.splits option.splits if_splits)
  obtain r2 s2 where m: "mapping (pk_id k) prov s1 = (r2, s2)" by fastforce
  then obtain m' where r2: "r2 = Inr (Some m')" "decrypt (pm_encrypted_key m') = Inr d" "k = pk"
    using assms k by (auto simp: proxy_lookup_def b split: sum.splits option.splits if_splits)
  have "mappings s1 = mappings s" using by_hash_keeps(2) [of hash s] b by simp
  then show ?thesis using by_hash_found [of hash s k] mapping_found [of "pk_id k" prov s1 m'] b k m r2 by auto
qed

end

interpretation pk: proxy_key_storage kdb_proxy_keys kdb_mappings GetProxyKeyByHash GetProviderMapping
proof
  show "kdb_proxy_keys (snd (GetProxyKeyByHash h s)) = kdb_proxy_keys s"
    "kdb_mappings (snd (GetProxyKeyByHash h s)) = kdb_mappings s" for h s
    using query_same(2) [of s h] by (simp_all add: same_tables_iff)
qed (rule GetProxyKeyByHash_Some GetProviderMapping_Some; assumption)+

abbreviation resolve_proxy where
  "resolve_proxy K P key \<equiv> ResolveProxyKey K P GetProxyKeyByHash GetProviderMapping (Decrypt key)"

lemma proxy_cache_hit_iff:
  "fst (proxy_cache_hit K P now hash prov cd) = Some (d, kid) \<longleftrightarrow>
     lru_view P (snd cd) (provCacheKey hash prov) = Some d
     \<and> (\<exists>e. lru_view K (fst cd) hash = Some e \<and> cp_proxy_key_id e = kid \<and> now < cp_expires_at e)"
  by (auto simp: proxy_cache_hit_def lru_view_def split: prod.splits option.splits)

text \<open>C6: Who gets a provider key. With no live cache entry for the proxy key, a provider key is released
  only if an active proxy key of the calling API key has the presented hash and the decrypted mapping of
  that proxy key to the provider is the released key. Once it is cached, however, the owner is not looked
  at again: for five minutes any other API key that presents the proxy key gets the provider key too, even
  if the proxy key or the mapping has been revoked, changed or deleted.\<close>

theorem proxy_key_release:
  assumes "lru_spec K" "lru_spec P" "lru_view K (fst cd) (HashAPIKey authKey) = None"
    and r: "r = resolve_proxy K P key now later authKey prov owner cd db"
    and ok: "res_result r = Inr (Some (d, kid))"
    and "now' < later + cacheTTL"
  shows "(\<exists>pk \<in> set (kdb_proxy_keys db). pk_key_hash pk = HashAPIKey authKey \<and> pk_is_active pk
             \<and> pk_api_key_id pk = owner \<and> pk_id pk = kid
             \<and> (\<exists>m \<in> set (kdb_mappings db). mapping_key m = (kid, prov) \<and> Decrypt key (pm_encrypted_key m) = Inr d))
    \<and> res_result (resolve_proxy K P key now' later' authKey prov anyone (res_cache r) db') = Inr (Some (d, kid))"
proof -
  define hash where "hash = HashAPIKey authKey"
  have pre: "has_prefix authKey ProxyKeyPrefix" using ok by (auto simp: r ResolveProxyKey_def Let_def split: if_splits)
  have "fst (proxy_cache_hit K P now hash prov cd) = None"
    using assms(3) proxy_cache_hit_iff [of K P now hash prov cd] by (cases "fst (proxy_cache_hit K P now hash prov cd)") (auto simp: hash_def)
  then obtain cd1 where h: "proxy_cache_hit K P now hash prov cd = (None, cd1)" by (metis prod.collapse)
  obtain q s1 where l: "proxy_lookup GetProxyKeyByHash GetProviderMapping (Decrypt key) hash prov owner db = (q, s1)"
    by fastforce
  note res = r ResolveProxyKey_def Let_def hash_def [symmetric] h l
  obtain pk where q: "q = Inr (pk, d)" "pk_id pk = kid"
    using ok pre by (cases q) (auto simp: res)
  then have c: "res_cache r = (lru_add K hash \<lparr>cp_proxy_key_id = pk_id pk, cp_api_key_id = pk_api_key_id pk,
                      cp_is_active = pk_is_active pk, cp_revoked_at = pk_revoked_at pk,
                      cp_expires_at = later + cacheTTL\<rparr> (fst cd1),
                    lru_add P (provCacheKey hash prov) d (snd cd1))"
    using pre by (simp add: res)
  have "fst (proxy_cache_hit K P now' hash prov (res_cache r)) = Some (d, kid)"
    unfolding proxy_cache_hit_iff c by (simp add: lru_specD(2) [OF assms(1)] lru_specD(2) [OF assms(2)] q assms(6))
  then obtain cd2 where "proxy_cache_hit K P now' hash prov (res_cache r) = (Some (d, kid), cd2)"
    by (metis prod.collapse)
  then have "res_result (resolve_proxy K P key now' later' authKey prov anyone (res_cache r) db') = Inr (Some (d, kid))"
    using pre by (simp add: ResolveProxyKey_def Let_def hash_def)
  moreover have "\<exists>pk \<in> set (kdb_proxy_keys db). pk_key_hash pk = HashAPIKey authKey \<and> pk_is_active pk
             \<and> pk_api_key_id pk = owner \<and> pk_id pk = kid
             \<and> (\<exists>m \<in> set (kdb_mappings db). mapping_key m = (kid, prov) \<and> Decrypt key (pm_encrypted_key m) = Inr d)"
    using pk.lookup_authorised [OF l [unfolded q]] q(2) by (auto simp: hash_def)
  ultimately show ?thesis by blast
qed

text \<open>A storage with one API key, one of its proxy keys and a mapping of it.\<close>

definition sample_proxy_db :: "string \<Rightarrow> KeyDB" where
  "sample_proxy_db enc = (sample_db True)\<lparr>
     kdb_proxy_keys := [\<lparr>pk_id = 3, pk_key_hash = HashAPIKey ''mdm_pk_x'', pk_name = ''p'', pk_description = None,
       pk_api_key_id = 1, pk_is_active = True, pk_created_at = 0, pk_revoked_at = None, pk_last_used_at = None,
       pk_request_count = 0\<rparr>],
     kdb_mappings := [\<lparr>pm_id = 4, pm_proxy_key_id = 3, pm_provider = ''openai'', pm_encrypted_key = enc,
       pm_created_at = 0, pm_updated_at = 0\<rparr>]\<rparr>"

lemma sample_resolves:
  assumes "Decrypt key enc = Inr d" "map_of ps (provCacheKey (HashAPIKey ''mdm_pk_x'') ''openai'') = None"
  defines "r \<equiv> resolve_proxy (list_lru 8) (list_lru 8) key 0 0 ''mdm_pk_x'' ''openai'' 1 ([], ps) (sample_proxy_db enc)"
  shows "res_result r = Inr (Some (d, 3))"
    and "snd (res_cache r) = lru_add (list_lru 8) (provCacheKey (HashAPIKey ''mdm_pk_x'') ''openai'') d ps"
proof -
  have f: "kdb_faults (sample_proxy_db enc) = []" by (simp add: sample_proxy_db_def sample_db_def empty_key_db_def)
  have q: "GetProxyKeyByHash (HashAPIKey ''mdm_pk_x'') (sample_proxy_db enc)
      = (Inr (Some (hd (kdb_proxy_keys (sample_proxy_db enc)))), sample_proxy_db enc)"
    by (simp add: GetProxyKeyByHash_def sql_ok [OF f]) (simp add: sample_proxy_db_def find_row_def)
  have m: "GetProviderMapping 3 ''openai'' (sample_proxy_db enc)
      = (Inr (Some (hd (kdb_mappings (sample_proxy_db enc)))), sample_proxy_db enc)"
    by (simp add: GetProviderMapping_def sql_ok [OF f]) (simp add: sample_proxy_db_def find_row_def mapping_key_def)
  have "proxy_lookup GetProxyKeyByHash GetProviderMapping (Decrypt key) (HashAPIKey ''mdm_pk_x'') ''openai'' 1
      (sample_proxy_db enc) = (Inr (hd (kdb_proxy_keys (sample_proxy_db enc)), d), sample_proxy_db enc)"
    unfolding proxy_lookup_def q by (simp add: sample_proxy_db_def m [unfolded sample_proxy_db_def] assms)
  moreover have "proxy_cache_hit (list_lru 8) (list_lru 8) 0 (HashAPIKey ''mdm_pk_x'') ''openai'' ([], ps) = (None, [], ps)"
    using assms(2) by (simp add: proxy_cache_hit_def list_lru_def)
  moreover have "has_prefix ''mdm_pk_x'' ProxyKeyPrefix" by (simp add: ProxyKeyPrefix_def)
  ultimately show "res_result r = Inr (Some (d, 3))"
    and "snd (res_cache r) = lru_add (list_lru 8) (provCacheKey (HashAPIKey ''mdm_pk_x'') ''openai'') d ps"
    by (simp_all add: r_def ResolveProxyKey_def Let_def) (simp add: sample_proxy_db_def)
qed

lemma proxy_key_release_witness:
  "\<exists>enc. res_result (resolve_proxy (list_lru 8) (list_lru 8) (replicate 32 (CHR ''A'')) 7 7 ''mdm_pk_x'' ''openai'' 99
      (res_cache (resolve_proxy (list_lru 8) (list_lru 8) (replicate 32 (CHR ''A'')) 0 0 ''mdm_pk_x'' ''openai'' 1
         ([], []) (sample_proxy_db enc))) (empty_key_db [])) = Inr (Some (''sk'', 3))"
proof -
  let ?key = "replicate 32 (CHR ''A'')"
  obtain enc where "Encrypt ?key (Inr (replicate 12 (CHR ''n''))) ''sk'' = Inr enc"
    by (auto simp: Encrypt_def aes_key_size_def read_nonce_def gcm_nonce_size_def)
  then have "Decrypt ?key enc = Inr ''sk''" by (rule aes.decrypt_encrypt)
  note r = sample_resolves(1) [OF this, of "[]", simplified]
  have K: "lru_spec (list_lru 8 :: (string, cachedProxyKey, _) lru)" and P: "lru_spec (list_lru 8 :: (string, string, _) lru)"
    using list_lru_spec [of 7] by simp_all
  show ?thesis
    using proxy_key_release [OF K P _ refl r, of 7 7 99 "empty_key_db []"]
    by (auto simp: list_lru_empty cacheTTL_def intro!: exI [of _ enc])
qed

text \<open>Invalidation of a proxy key. After InvalidateCache the next resolution of the proxy key, for any
  provider, asks the storage. But the decrypted keys stay in the second cache, and they are not dead, as the
  comment says: as soon as the proxy key has been resolved for some provider, the old decrypted key of
  another provider is served again, for as long as it has not been evicted.\<close>

theorem proxy_invalidation:
  assumes "lru_spec K" "lru_spec P"
    and r: "r = resolve_proxy K P key now later authKey prov2 owner (InvalidateProxyCache K (HashAPIKey authKey) cd) db"
    and ok: "res_result r = Inr (Some (d, kid))"
    and old: "lru_view P (snd (res_cache r)) (provCacheKey (HashAPIKey authKey) prov1) = Some stale"
    and "now' < later + cacheTTL"
  shows "fst (proxy_cache_hit K P now (HashAPIKey authKey) prov (InvalidateProxyCache K (HashAPIKey authKey) cd)) = None
    \<and> res_result (resolve_proxy K P key now' later' authKey prov1 anyone (res_cache r) db') = Inr (Some (stale, kid))"
proof -
  define hash where "hash = HashAPIKey authKey"
  define cd0 where "cd0 = InvalidateProxyCache K hash cd"
  have none: "fst (proxy_cache_hit K P t hash p cd0) = None" for t p
    using proxy_cache_hit_iff [of K P t hash p cd0] lru_specD(4) [OF assms(1), of hash "fst cd"]
    by (cases "fst (proxy_cache_hit K P t hash p cd0)") (auto simp: cd0_def InvalidateProxyCache_def)
  then obtain cd1 where h: "proxy_cache_hit K P now hash prov2 cd0 = (None, cd1)" by (metis prod.collapse)
  have pre: "has_prefix authKey ProxyKeyPrefix" using ok by (auto simp: r ResolveProxyKey_def Let_def split: if_splits)
  obtain q s1 where l: "proxy_lookup GetProxyKeyByHash GetProviderMapping (Decrypt key) hash prov2 owner db = (q, s1)"
    by fastforce
  note res = r [folded hash_def, folded cd0_def] ResolveProxyKey_def Let_def hash_def [symmetric] h l
  obtain pk where q: "q = Inr (pk, d)" "pk_id pk = kid"
    using ok pre by (cases q) (auto simp: res)
  then have "fst (res_cache r) = lru_add K hash \<lparr>cp_proxy_key_id = pk_id pk, cp_api_key_id = pk_api_key_id pk,
                      cp_is_active = pk_is_active pk, cp_revoked_at = pk_revoked_at pk,
                      cp_expires_at = later + cacheTTL\<rparr> (fst cd1)"
    using pre by (simp add: res)
  then have "fst (proxy_cache_hit K P now' hash prov1 (res_cache r)) = Some (stale, kid)"
    unfolding proxy_cache_hit_iff using old q assms(6) by (simp add: lru_specD(2) [OF assms(1)] hash_def)
  then obtain cd2 where "proxy_cache_hit K P now' hash prov1 (res_cache r) = (Some (stale, kid), cd2)"
    by (metis prod.collapse)
  then show ?thesis using pre none by (simp add: ResolveProxyKey_def Let_def hash_def cd0_def)
qed

lemma proxy_invalidation_witness:
  "\<exists>enc. res_result (resolve_proxy (list_lru 8) (list_lru 8) (replicate 32 (CHR ''A'')) 7 7 ''mdm_pk_x'' ''anthropic'' 1
      (res_cache (resolve_proxy (list_lru 8) (list_lru 8) (replicate 32 (CHR ''A'')) 0 0 ''mdm_pk_x'' ''openai'' 1
         (InvalidateProxyCache (list_lru 8) (HashAPIKey ''mdm_pk_x'')
            ([], [(provCacheKey (HashAPIKey ''mdm_pk_x'') ''anthropic'', ''stale'')])) (sample_proxy_db enc)))
      (empty_key_db [])) = Inr (Some (''stale'', 3))"
proof -
  let ?key = "replicate 32 (CHR ''A'')" and ?h = "HashAPIKey ''mdm_pk_x''"
  let ?ps = "[(provCacheKey ?h ''anthropic'', ''stale'')]"
  obtain enc where "Encrypt ?key (Inr (replicate 12 (CHR ''n''))) ''sk'' = Inr enc"
    by (auto simp: Encrypt_def aes_key_size_def read_nonce_def gcm_nonce_size_def)
  then have dec: "Decrypt ?key enc = Inr ''sk''" by (rule aes.decrypt_encrypt)
  have ps: "map_of ?ps (provCacheKey ?h ''openai'') = None" by (simp add: provCacheKey_def)
  have inv: "InvalidateProxyCache (list_lru 8) ?h ([], ?ps) = ([], ?ps)"
    by (simp add: InvalidateProxyCache_def list_lru_def)
  note r = sample_resolves [OF dec ps]
  have K: "lru_spec (list_lru 8 :: (string, cachedProxyKey, _) lru)" and P: "lru_spec (list_lru 8 :: (string, string, _) lru)"
    using list_lru_spec [of 7] by simp_all
  have "lru_view (list_lru 8) (lru_add (list_lru 8) (provCacheKey ?h ''openai'') ''sk'' ?ps) (provCacheKey ?h ''anthropic'')
      = Some ''stale''"
    by (simp add: list_lru_view) (simp add: list_lru_def provCacheKey_def)
  then show ?thesis
    using proxy_invalidation [OF K P refl, of ?key 0 0 "''mdm_pk_x''" "''openai''" 1 "([], ?ps)" "sample_proxy_db enc"
        "''sk''" 3 "''anthropic''" "''stale''" 7 _ 7 1 "empty_key_db []"]
    by (auto simp: inv r cacheTTL_def intro!: exI [of _ enc])
qed

section \<open>Generated keys\<close>

lemma b64_raw_length: "length (b64_encode al None bs) = (8 * length bs + 5) div 6"
proof (induction al "None :: char option" bs rule: b64_encode.induct)
  case (4 al a b c cs)
  have "length (b64_encode al None cs) = (8 * length cs + 5) div 6" by (rule 4 [OF refl])
  then have "length (b64_encode al None (a # b # c # cs)) = 4 + (8 * length cs + 5) div 6"
    by (simp add: Let_def)
  also have "\<dots> = (8 * length (a # b # c # cs) + 5) div 6" by simp
  finally show ?case .
qed (simp_all add: Let_def)

text \<open>C37: Generated keys. Whenever the system delivers 32 random bytes, a new API key and a new proxy key
  are 50 characters long, pass the format check of their own kind and fail that of the other, and the hash that
  goes with them is the one their presentation is looked up under.\<close>

theorem generated_keys:
  assumes "32 \<le> length rnd"
  shows "\<exists>k p. GenerateAPIKey (Inr rnd) = Inr (k, HashAPIKey k) \<and> GenerateProxyKey (Inr rnd) = Inr (p, HashAPIKey p)
    \<and> length k = 50 \<and> length p = 50 \<and> ValidateKeyFormat k \<and> \<not> ValidateProxyKeyFormat k
    \<and> ValidateProxyKeyFormat p \<and> \<not> ValidateKeyFormat p"
  using assms
  by (simp add: GenerateAPIKey_def GenerateProxyKey_def generate_key_def Let_def KeyPrefix_def ProxyKeyPrefix_def
      KeyByteLength_def ValidateKeyFormat_def ValidateProxyKeyFormat_def RawURLEncoding_encode_def b64_raw_length)

lemma generated_keys_witness:
  "\<exists>k. GenerateAPIKey (Inr (replicate 32 (CHR ''r''))) = Inr (k, HashAPIKey k) \<and> length k = 50 \<and> ValidateKeyFormat k"
  using generated_keys [of "replicate 32 (CHR ''r'')"] by auto

end
