(* ===== verification/Proxy_Key_Api.thy ===== *)
theory Proxy_Key_Api
  imports Auth
begin

text \<open>
  The REST API for proxy keys (internal/api): the service with its ownership checks
  (proxy_key_service.go), the handlers (handler.go) and the middleware that authenticates them
  (middleware.go), with the responses of internal/httputil/response.go. A response is its status and
  its JSON value. The texts of identifiers and instants (google/uuid, and the time zone of the
  driver) are parameters.
\<close>

record codec =
  parse_uuid :: "string \<Rightarrow> uuid option"
  fmt_uuid :: "uuid \<Rightarrow> string"
  fmt_time :: "time \<Rightarrow> string"
  fmt_seconds :: "time \<Rightarrow> string"

record reply =
  rp_status :: int
  rp_body :: json

definition WriteJSON :: "int \<Rightarrow> json \<Rightarrow> reply" where
  "WriteJSON code v = \<lparr>rp_status = code, rp_body = v\<rparr>"

definition WriteJSONError :: "int \<Rightarrow> string \<Rightarrow> reply" where
  "WriteJSONError code msg = WriteJSON code (JObj [(''error'', enc_string msg)])"

section \<open>The service\<close>

text \<open>Every operation on one key begins with the lookup and the check of the owner.\<close>

definition with_owned :: "uuid \<Rightarrow> uuid \<Rightarrow> (ProxyKey \<Rightarrow> 'a db_op) \<Rightarrow> 'a db_op" where
  "with_owned kid owner f db =
     (case GetProxyKeyByID kid db of
        (Inl e, db1) \<Rightarrow> (Inl e, db1)
      | (Inr pk, db1) \<Rightarrow> if pk_api_key_id pk \<noteq> owner then (Inl ErrProxyKeyNotFoundRepo, db1) else f pk db1)"

definition svc_CreateProxyKey :: "err + bytes \<Rightarrow> uuid \<Rightarrow> time \<Rightarrow> uuid \<Rightarrow> string \<Rightarrow> string option \<Rightarrow> (ProxyKey \<times> string) db_op" where
  "svc_CreateProxyKey rnd newid now owner nm desc db =
     (case GenerateProxyKey rnd of
        Inl e \<Rightarrow> (Inl (ErrWrap ''generate proxy key'' e), db)
      | Inr (plaintext, hash) \<Rightarrow>
          (case CreateProxyKey newid now hash owner \<lparr>cpk_name = nm, cpk_description = desc\<rparr> db of
             (Inl e, db1) \<Rightarrow> (Inl (ErrWrap ''create proxy key'' e), db1)
           | (Inr pk, db1) \<Rightarrow> (Inr (pk, plaintext), db1)))"

definition svc_GetProxyKey :: "uuid \<Rightarrow> uuid \<Rightarrow> ProxyKey db_op" where
  "svc_GetProxyKey kid owner = with_owned kid owner (\<lambda>pk db. (Inr pk, db))"

definition svc_RevokeProxyKey :: "time \<Rightarrow> uuid \<Rightarrow> uuid \<Rightarrow> unit db_op" where
  "svc_RevokeProxyKey now kid owner = with_owned kid owner (\<lambda>pk. RevokeProxyKey now kid)"

definition svc_SetProviderMapping :: "bytes \<Rightarrow> err + bytes \<Rightarrow> uuid \<Rightarrow> time \<Rightarrow> uuid \<Rightarrow> uuid \<Rightarrow> string \<Rightarrow> string \<Rightarrow> unit db_op" where
  "svc_SetProviderMapping key rnd newid now kid owner prov apiKey = with_owned kid owner (\<lambda>pk db.
     case Encrypt key rnd apiKey of
       Inl e \<Rightarrow> (Inl (ErrWrap ''encrypt provider key'' e), db)
     | Inr encrypted \<Rightarrow> SetProviderMapping newid now kid prov encrypted db)"

definition svc_DeleteProviderMapping :: "uuid \<Rightarrow> uuid \<Rightarrow> string \<Rightarrow> unit db_op" where
  "svc_DeleteProviderMapping kid owner prov = with_owned kid owner (\<lambda>pk. DeleteProviderMapping kid prov)"

record providerMappingResponse =
  pmr_id :: uuid
  pmr_proxy_key_id :: uuid
  pmr_provider :: string
  pmr_created_at :: time
  pmr_updated_at :: time

definition mapping_response :: "ProviderMapping \<Rightarrow> providerMappingResponse" where
  "mapping_response m = \<lparr>pmr_id = pm_id m, pmr_proxy_key_id = pm_proxy_key_id m, pmr_provider = pm_provider m,
     pmr_created_at = pm_created_at m, pmr_updated_at = pm_updated_at m\<rparr>"

definition svc_ListProviderMappings :: "uuid \<Rightarrow> uuid \<Rightarrow> providerMappingResponse list db_op" where
  "svc_ListProviderMappings kid owner = with_owned kid owner (\<lambda>pk db.
     case ListProviderMappings kid db of
       (Inl e, db1) \<Rightarrow> (Inl e, db1) | (Inr ms, db1) \<Rightarrow> (Inr (map mapping_response ms), db1))"

section \<open>JSON of the requests and responses\<close>

record createProxyKeyRequest =
  cpr_name :: string
  cpr_description :: "string option"

definition dec_create_proxy_key :: "createProxyKeyRequest dec" where
  "dec_create_proxy_key = dec_struct [
     (''name'', fld cpr_name cpr_name_update dec_string),
     (''description'', fld cpr_description cpr_description_update (dec_ptr [] dec_string))]"

definition dec_set_mapping :: "string dec" where
  "dec_set_mapping = dec_struct [(''api_key'', dec_string)]"

definition proxy_key_members :: "codec \<Rightarrow> ProxyKey \<Rightarrow> (string \<times> json) list" where
  "proxy_key_members C pk =
     [(''id'', enc_string (fmt_uuid C (pk_id pk))), (''name'', enc_string (pk_name pk))]
     @ omit_ptr enc_string ''description'' (pk_description pk)
     @ [(''majordomo_api_key_id'', enc_string (fmt_uuid C (pk_api_key_id pk))),
        (''is_active'', JBool (pk_is_active pk)), (''created_at'', enc_string (fmt_time C (pk_created_at pk)))]
     @ omit_ptr (enc_string \<circ> fmt_time C) ''revoked_at'' (pk_revoked_at pk)
     @ omit_ptr (enc_string \<circ> fmt_time C) ''last_used_at'' (pk_last_used_at pk)
     @ [(''request_count'', enc_int (pk_request_count pk))]"

definition enc_mapping_response :: "codec \<Rightarrow> providerMappingResponse \<Rightarrow> json" where
  "enc_mapping_response C m = JObj [
     (''id'', enc_string (fmt_uuid C (pmr_id m))), (''proxy_key_id'', enc_string (fmt_uuid C (pmr_proxy_key_id m))),
     (''provider'', enc_string (pmr_provider m)), (''created_at'', enc_string (fmt_seconds C (pmr_created_at m))),
     (''updated_at'', enc_string (fmt_seconds C (pmr_updated_at m)))]"

section \<open>The handlers\<close>

text \<open>What the environment gives a call: random bytes, a fresh identifier, the clock and the secret key.\<close>

record call_env =
  ce_rnd :: "err + bytes"
  ce_newid :: uuid
  ce_now :: time
  ce_key :: bytes
  ce_codec :: codec

type_synonym handler = "APIKeyInfo option \<Rightarrow> KeyDB \<Rightarrow> reply \<times> KeyDB"

definition with_info :: "(APIKeyInfo \<Rightarrow> KeyDB \<Rightarrow> reply \<times> KeyDB) \<Rightarrow> handler" where
  "with_info f info db = (case info of
     None \<Rightarrow> (WriteJSONError 401 ''unauthorized'', db) | Some i \<Rightarrow> f i db)"

definition with_id :: "call_env \<Rightarrow> string \<Rightarrow> (uuid \<Rightarrow> KeyDB \<Rightarrow> reply \<times> KeyDB) \<Rightarrow> KeyDB \<Rightarrow> reply \<times> KeyDB" where
  "with_id E idText f db = (case parse_uuid (ce_codec E) idText of
     None \<Rightarrow> (WriteJSONError 400 ''invalid proxy key ID'', db) | Some kid \<Rightarrow> f kid db)"

text \<open>The replies to the errors of the service; the errors are compared, not unwrapped.\<close>

definition service_error :: "err \<Rightarrow> reply" where
  "service_error e = (if e = ErrProxyKeyNotFoundRepo then WriteJSONError 404 ''proxy key not found''
                      else WriteJSONError 500 ''internal error'')"

definition delete_error :: "err \<Rightarrow> reply" where
  "delete_error e = (if e = ErrProxyKeyNotFoundRepo then WriteJSONError 404 ''proxy key not found''
                     else if e = ErrProviderMappingNotFound then WriteJSONError 404 ''provider mapping not found''
                     else WriteJSONError 500 ''internal error'')"

definition answer :: "(err \<Rightarrow> reply) \<Rightarrow> ('a \<Rightarrow> reply) \<Rightarrow> (err + 'a) \<times> KeyDB \<Rightarrow> reply \<times> KeyDB" where
  "answer bad good r = apfst (case_sum bad good) r"

definition h_CreateProxyKey :: "call_env \<Rightarrow> string \<Rightarrow> handler" where
  "h_CreateProxyKey E body = with_info (\<lambda>info db.
     case decode_stream dec_create_proxy_key body \<lparr>cpr_name = [], cpr_description = None\<rparr> of
       Inl _ \<Rightarrow> (WriteJSONError 400 ''invalid request body'', db)
     | Inr req \<Rightarrow>
         if cpr_name req = [] then (WriteJSONError 400 ''name is required'', db)
         else answer (\<lambda>e. WriteJSONError 500 ''internal error'')
                (\<lambda>(pk, plaintext). WriteJSON 201
                   (JObj (proxy_key_members (ce_codec E) pk @ [(''key'', enc_string plaintext)])))
                (svc_CreateProxyKey (ce_rnd E) (ce_newid E) (ce_now E) (aki_id info) (cpr_name req)
                   (cpr_description req) db))"

definition h_ListProxyKeys :: "call_env \<Rightarrow> handler" where
  "h_ListProxyKeys E = with_info (\<lambda>info db.
     answer (\<lambda>e. WriteJSONError 500 ''internal error'')
       (\<lambda>ks. WriteJSON 200 (enc_slice (\<lambda>pk. JObj (proxy_key_members (ce_codec E) pk)) ks))
       (ListProxyKeys (aki_id info) db))"

definition h_GetProxyKey :: "call_env \<Rightarrow> string \<Rightarrow> handler" where
  "h_GetProxyKey E idText = with_info (\<lambda>info. with_id E idText (\<lambda>kid db.
     answer service_error (\<lambda>pk. WriteJSON 200 (JObj (proxy_key_members (ce_codec E) pk)))
       (svc_GetProxyKey kid (aki_id info) db)))"

definition h_RevokeProxyKey :: "call_env \<Rightarrow> string \<Rightarrow> handler" where
  "h_RevokeProxyKey E idText = with_info (\<lambda>info. with_id E idText (\<lambda>kid db.
     answer service_error (\<lambda>_. WriteJSON 200 (JObj [(''status'', enc_string ''revoked'')]))
       (svc_RevokeProxyKey (ce_now E) kid (aki_id info) db)))"

definition h_SetProviderMapping :: "call_env \<Rightarrow> string \<Rightarrow> string \<Rightarrow> string \<Rightarrow> handler" where
  "h_SetProviderMapping E idText prov body = with_info (\<lambda>info. with_id E idText (\<lambda>kid db.
     if prov = [] then (WriteJSONError 400 ''provider is required'', db)
     else case decode_stream dec_set_mapping body [] of
       Inl _ \<Rightarrow> (WriteJSONError 400 ''invalid request body'', db)
     | Inr apiKey \<Rightarrow>
         if apiKey = [] then (WriteJSONError 400 ''api_key is required'', db)
         else answer service_error
                (\<lambda>_. WriteJSON 200 (JObj [(''provider'', enc_string prov), (''status'', enc_string ''ok'')]))
                (svc_SetProviderMapping (ce_key E) (ce_rnd E) (ce_newid E) (ce_now E) kid (aki_id info) prov apiKey db)))"

definition h_DeleteProviderMapping :: "call_env \<Rightarrow> string \<Rightarrow> string \<Rightarrow> handler" where
  "h_DeleteProviderMapping E idText prov = with_info (\<lambda>info. with_id E idText (\<lambda>kid db.
     answer delete_error (\<lambda>_. WriteJSON 200 (JObj [(''status'', enc_string ''deleted'')]))
       (svc_DeleteProviderMapping kid (aki_id info) prov db)))"

definition h_ListProviderMappings :: "call_env \<Rightarrow> string \<Rightarrow> handler" where
  "h_ListProviderMappings E idText = with_info (\<lambda>info. with_id E idText (\<lambda>kid db.
     answer service_error (\<lambda>ms. WriteJSON 200 (enc_slice (enc_mapping_response (ce_codec E)) ms))
       (svc_ListProviderMappings kid (aki_id info) db)))"

text \<open>The requests of the API, with the path parameters and the body.\<close>

datatype api_request =
    CreateReq string
  | ListReq
  | GetReq string
  | RevokeReq string
  | SetMappingReq string string string
  | DeleteMappingReq string string
  | ListMappingsReq string

fun handle :: "call_env \<Rightarrow> api_request \<Rightarrow> handler" where
  "handle E (CreateReq body) = h_CreateProxyKey E body"
| "handle E ListReq = h_ListProxyKeys E"
| "handle E (GetReq kid) = h_GetProxyKey E kid"
| "handle E (RevokeReq kid) = h_RevokeProxyKey E kid"
| "handle E (SetMappingReq kid prov body) = h_SetProviderMapping E kid prov body"
| "handle E (DeleteMappingReq kid prov) = h_DeleteProviderMapping E kid prov"
| "handle E (ListMappingsReq kid) = h_ListProviderMappings E kid"

text \<open>The middleware: the header value, empty when the header is missing, has to resolve.\<close>

definition AuthMiddleware :: "'c key_cache \<Rightarrow> time \<Rightarrow> time \<Rightarrow> string \<Rightarrow> handler \<Rightarrow> 'c \<Rightarrow> KeyDB \<Rightarrow> (reply \<times> KeyDB) \<times> 'c" where
  "AuthMiddleware L now later apiKey next c db =
     (let r = ResolveAPIKey L GetAPIKeyByHash now later apiKey c db in
      (case res_result r of
         Inl _ \<Rightarrow> (WriteJSONError 401 ''unauthorized'', res_store r)
       | Inr info \<Rightarrow> next info (res_store r), res_cache r))"

section \<open>Tenants\<close>

text \<open>What belongs to an API key: its proxy keys and their mappings.\<close>

definition tenant_keys :: "uuid \<Rightarrow> KeyDB \<Rightarrow> ProxyKey list" where
  "tenant_keys A db = filter (\<lambda>k. pk_api_key_id k = A) (kdb_proxy_keys db)"

definition tenant_mappings :: "uuid \<Rightarrow> KeyDB \<Rightarrow> ProviderMapping list" where
  "tenant_mappings A db = filter (\<lambda>m. pm_proxy_key_id m \<in> pk_id ` set (tenant_keys A db)) (kdb_mappings db)"

definition tenant :: "uuid \<Rightarrow> KeyDB \<Rightarrow> ProxyKey list \<times> ProviderMapping list" where
  "tenant A db = (tenant_keys A db, tenant_mappings A db)"

lemma tenant_same: "same_tables db db' \<Longrightarrow> tenant A db' = tenant A db"
  by (simp add: tenant_def tenant_keys_def tenant_mappings_def same_tables_iff)

lemma tenant_faults [simp]: "tenant A (db\<lparr>kdb_faults := fs\<rparr>) = tenant A db"
  by (simp add: tenant_def tenant_keys_def tenant_mappings_def)

text \<open>The statement on the tables, when it runs, decides what is left of a tenant.\<close>

lemma sql_tenant:
  assumes "\<And>d. same_tables db d \<Longrightarrow> tenant B (snd (f d)) = tenant B db"
  shows "tenant B (snd (sql msg f db)) = tenant B db"
proof (cases rule: sql_cases [of msg f db])
  case (run fs)
  then show ?thesis using assms [of "db\<lparr>kdb_faults := fs\<rparr>"] by simp
qed simp

lemma owner_unique:
  assumes "key_db_ok db" "k \<in> set (kdb_proxy_keys db)" "k' \<in> set (kdb_proxy_keys db)" "pk_id k = pk_id k'"
  shows "k = k'"
  using assms by (simp add: key_db_ok_def proxy_keys_ok_def distinct_map inj_on_def)

text \<open>Rows of other owners are out of reach of an operation on one proxy key of the owner.\<close>

lemma not_foreign:
  assumes "key_db_ok db" "pk \<in> set (kdb_proxy_keys db)" "pk_api_key_id pk \<noteq> B"
  shows "pk_id pk \<notin> pk_id ` set (tenant_keys B db)"
  using owner_unique [OF assms(1,2)] assms(3) by (auto simp: tenant_keys_def)

lemma filter_map_keep:
  "(\<And>x. P (F x) = P x) \<Longrightarrow> (\<And>x. x \<in> set xs \<Longrightarrow> P x \<Longrightarrow> F x = x) \<Longrightarrow> filter P (map F xs) = filter P xs"
  by (induction xs) auto

lemma filter_upsert_keep:
  "\<not> P new \<Longrightarrow> (\<And>r. r \<in> set xs \<Longrightarrow> key r = key new \<Longrightarrow> \<not> P r \<and> \<not> P (merge r new)) \<Longrightarrow> filter P (upsert key merge new xs) = filter P xs"
  by (induction xs) auto

lemma revoke_tenant:
  assumes "key_db_ok db" "pk \<in> set (kdb_proxy_keys db)" "pk_api_key_id pk \<noteq> B"
  shows "tenant B (snd (RevokeProxyKey now (pk_id pk) db)) = tenant B db"
  unfolding RevokeProxyKey_def affected_snd
proof (rule sql_tenant)
  fix d assume "same_tables db d"
  then have d: "kdb_proxy_keys d = kdb_proxy_keys db" "kdb_mappings d = kdb_mappings db"
    by (simp_all add: same_tables_iff)
  let ?F = "\<lambda>k. if pk_id k = pk_id pk \<and> pk_is_active k then k\<lparr>pk_is_active := False, pk_revoked_at := Some now\<rparr> else k"
  have "filter (\<lambda>k. pk_api_key_id k = B) (map ?F (kdb_proxy_keys db)) = filter (\<lambda>k. pk_api_key_id k = B) (kdb_proxy_keys db)"
  proof (rule filter_map_keep)
    fix k assume "k \<in> set (kdb_proxy_keys db)" "pk_api_key_id k = B"
    then have "pk_id k \<in> pk_id ` set (tenant_keys B db)" by (auto simp: tenant_keys_def)
    then have "pk_id k \<noteq> pk_id pk" using not_foreign [OF assms] by auto
    then show "?F k = k" by simp
  qed simp
  then show "tenant B (snd (let (rows, n) = update_where (\<lambda>k. pk_id k = pk_id pk \<and> pk_is_active k)
           (\<lambda>k. k\<lparr>pk_is_active := False, pk_revoked_at := Some now\<rparr>) (kdb_proxy_keys d)
     in (Inr n, d\<lparr>kdb_proxy_keys := rows\<rparr>))) = tenant B db"
    by (simp add: d update_where_def tenant_def tenant_keys_def tenant_mappings_def)
qed

lemma set_mapping_tenant:
  assumes "key_db_ok db" "pk \<in> set (kdb_proxy_keys db)" "pk_api_key_id pk \<noteq> B"
  shows "tenant B (snd (SetProviderMapping newid now (pk_id pk) prov enc db)) = tenant B db"
  unfolding SetProviderMapping_def
proof (rule sql_tenant)
  fix d assume "same_tables db d"
  then have d: "kdb_proxy_keys d = kdb_proxy_keys db" "kdb_mappings d = kdb_mappings db"
    by (simp_all add: same_tables_iff)
  let ?new = "\<lparr>pm_id = newid, pm_proxy_key_id = pk_id pk, pm_provider = prov,
             pm_encrypted_key = enc, pm_created_at = now, pm_updated_at = now\<rparr>"
  have "filter (\<lambda>m. pm_proxy_key_id m \<in> pk_id ` set (tenant_keys B db)) (upsert mapping_key merge_mapping ?new (kdb_mappings db))
      = filter (\<lambda>m. pm_proxy_key_id m \<in> pk_id ` set (tenant_keys B db)) (kdb_mappings db)"
    by (rule filter_upsert_keep)
      (use not_foreign [OF assms] in \<open>auto simp: mapping_key_def merge_mapping_def\<close>)
  then show "tenant B (snd (if \<not> list_ex (\<lambda>k. pk_id k = pk_id pk) (kdb_proxy_keys d) then (Inl ErrDB, d)
     else (Inr (), d\<lparr>kdb_mappings := upsert mapping_key merge_mapping ?new (kdb_mappings d)\<rparr>))) = tenant B db"
    by (simp add: d tenant_def tenant_keys_def tenant_mappings_def)
qed

lemma delete_mapping_tenant:
  assumes "key_db_ok db" "pk \<in> set (kdb_proxy_keys db)" "pk_api_key_id pk \<noteq> B"
  shows "tenant B (snd (DeleteProviderMapping (pk_id pk) prov db)) = tenant B db"
  unfolding DeleteProviderMapping_def affected_snd
proof (rule sql_tenant)
  fix d assume "same_tables db d"
  then have d: "kdb_proxy_keys d = kdb_proxy_keys db" "kdb_mappings d = kdb_mappings db"
    by (simp_all add: same_tables_iff)
  have "filter (\<lambda>m. pm_proxy_key_id m \<in> pk_id ` set (tenant_keys B db))
      (filter (\<lambda>m. mapping_key m \<noteq> (pk_id pk, prov)) (kdb_mappings db))
      = filter (\<lambda>m. pm_proxy_key_id m \<in> pk_id ` set (tenant_keys B db)) (kdb_mappings db)"
    unfolding filter_filter
    by (rule filter_cong [OF refl]) (use not_foreign [OF assms] in \<open>auto simp: mapping_key_def\<close>)
  then show "tenant B (snd (let (rows, n) = delete_where (\<lambda>m. mapping_key m = (pk_id pk, prov)) (kdb_mappings d)
       in (Inr n, d\<lparr>kdb_mappings := rows\<rparr>))) = tenant B db"
    by (simp add: d delete_where_def tenant_def tenant_keys_def tenant_mappings_def)
qed

lemma tenant_append:
  assumes "pk_api_key_id k \<noteq> B"
  shows "tenant B (d\<lparr>kdb_proxy_keys := kdb_proxy_keys d @ [k]\<rparr>) = tenant B d"
proof -
  have "tenant_keys B (d\<lparr>kdb_proxy_keys := kdb_proxy_keys d @ [k]\<rparr>) = tenant_keys B d"
    using assms by (simp add: tenant_keys_def)
  then show ?thesis by (simp add: tenant_def tenant_mappings_def)
qed

lemma create_tenant:
  assumes "A \<noteq> B"
  shows "tenant B (snd (CreateProxyKey newid now h A inp db)) = tenant B db"
  unfolding CreateProxyKey_def
proof (rule sql_tenant)
  fix d assume d: "same_tables db d"
  show "tenant B (snd (if list_ex (\<lambda>k. pk_id k = newid \<or> pk_key_hash k = h) (kdb_proxy_keys d)
        \<or> \<not> list_ex (\<lambda>k. ak_id k = A) (kdb_api_keys d) then (Inl ErrDB, d)
     else let key = \<lparr>pk_id = newid, pk_key_hash = h, pk_name = cpk_name inp,
                     pk_description = cpk_description inp, pk_api_key_id = A,
                     pk_is_active = True, pk_created_at = now, pk_revoked_at = None,
                     pk_last_used_at = None, pk_request_count = 0\<rparr>
          in (Inr key, d\<lparr>kdb_proxy_keys := kdb_proxy_keys d @ [key]\<rparr>))) = tenant B db"
    using assms tenant_same [OF d, of B] by (simp add: tenant_append Let_def)
qed

text \<open>An operation on an owned key keeps the other tenants when its body does.\<close>

lemma with_owned_tenant:
  assumes "key_db_ok db" "A \<noteq> B"
    "\<And>pk d. key_db_ok d \<Longrightarrow> pk \<in> set (kdb_proxy_keys d) \<Longrightarrow> pk_api_key_id pk \<noteq> B \<Longrightarrow> pk_id pk = kid
        \<Longrightarrow> tenant B (snd (f pk d)) = tenant B d"
  shows "tenant B (snd (with_owned kid A f db)) = tenant B db"
proof (cases "GetProxyKeyByID kid db")
  case (Pair r db1)
  have same: "same_tables db db1" using GetProxyKeyByID_same [of db kid] Pair by simp
  then have ok1: "key_db_ok db1" using assms(1) by (rule key_db_ok_same)
  show ?thesis
  proof (cases r)
    case (Inl e)
    then show ?thesis using Pair tenant_same [OF same] by (simp add: with_owned_def)
  next
    case (Inr pk)
    have "pk \<in> set (kdb_proxy_keys db1)" "pk_id pk = kid"
      using GetProxyKeyByID_Inr [of kid db pk db1] Pair Inr by (auto simp: same_tables_iff)
    then show ?thesis using Pair Inr tenant_same [OF same] assms(2) assms(3) [OF ok1, of pk]
      by (auto simp: with_owned_def)
  qed
qed

lemma service_tenant:
  assumes "key_db_ok db" "A \<noteq> B"
  shows "tenant B (snd (svc_GetProxyKey kid A db)) = tenant B db"
    "tenant B (snd (svc_RevokeProxyKey now kid A db)) = tenant B db"
    "tenant B (snd (svc_SetProviderMapping key rnd newid now kid A prov apiKey db)) = tenant B db"
    "tenant B (snd (svc_DeleteProviderMapping kid A prov db)) = tenant B db"
    "tenant B (snd (svc_ListProviderMappings kid A db)) = tenant B db"
    "tenant B (snd (svc_CreateProxyKey rnd newid now A nm desc db)) = tenant B db"
  unfolding svc_GetProxyKey_def svc_RevokeProxyKey_def svc_SetProviderMapping_def svc_DeleteProviderMapping_def
    svc_ListProviderMappings_def svc_CreateProxyKey_def
      apply (rule with_owned_tenant [OF assms]; simp)
     apply (rule with_owned_tenant [OF assms]; use revoke_tenant in blast)
    apply (rule with_owned_tenant [OF assms]; use set_mapping_tenant in \<open>force split: sum.split\<close>)
   apply (rule with_owned_tenant [OF assms]; use delete_mapping_tenant in blast)
  subgoal
  proof (rule with_owned_tenant [OF assms])
    fix d and pk :: ProxyKey
    have "same_tables d (snd (ListProviderMappings kid d))" by (rule query_same)
    then show "tenant B (snd (case ListProviderMappings kid d of (Inl e, db1) \<Rightarrow> (Inl e, db1)
        | (Inr ms, db1) \<Rightarrow> (Inr (map mapping_response ms), db1))) = tenant B d"
      using tenant_same by (fastforce split: prod.split sum.split)
  qed
  subgoal
  proof (cases "GenerateProxyKey rnd")
    case (Inr q)
    obtain p h where q: "q = (p, h)" by fastforce
    obtain r db1 where c: "CreateProxyKey newid now h A \<lparr>cpk_name = nm, cpk_description = desc\<rparr> db = (r, db1)" by fastforce
    then have "tenant B db1 = tenant B db" using create_tenant [OF assms(2)] by (metis snd_conv)
    then show ?thesis by (cases r) (simp_all add: Inr q c)
  qed simp
  done

lemma answer_snd [simp]: "snd (answer bad good r) = snd r"
  by (simp add: answer_def)

lemma answer_fst: "fst (answer bad good r) = case_sum bad good (fst r)"
  by (simp add: answer_def)

lemma with_id_tenant:
  "(\<And>kid. tenant B (snd (f kid db)) = tenant B db) \<Longrightarrow> tenant B (snd (with_id E t f db)) = tenant B db"
  by (simp add: with_id_def split: option.split)

lemma list_keys_tenant: "tenant B (snd (ListProxyKeys A db)) = tenant B db"
  by (rule tenant_same) (rule query_same)

lemmas handler_defs = h_CreateProxyKey_def h_ListProxyKeys_def h_GetProxyKey_def h_RevokeProxyKey_def
  h_SetProviderMapping_def h_DeleteProviderMapping_def h_ListProviderMappings_def with_info_def

lemma handle_tenant:
  assumes "key_db_ok db" "aki_id i \<noteq> B"
  shows "tenant B (snd (handle E req (Some i) db)) = tenant B db"
  by (cases req)
    (auto simp: handler_defs service_tenant [OF assms] list_keys_tenant
      intro!: with_id_tenant split: sum.split)

section \<open>What a reply can depend on\<close>

text \<open>Two databases that look the same to an API key.\<close>

definition same_view :: "uuid \<Rightarrow> KeyDB \<Rightarrow> KeyDB \<Rightarrow> bool" where
  "same_view A db db' = (kdb_faults db' = kdb_faults db \<and> kdb_api_keys db' = kdb_api_keys db
     \<and> tenant A db' = tenant A db)"

lemma find_tenant:
  assumes "key_db_ok db"
  shows "find_row (\<lambda>k. pk_id k = kid) (tenant_keys A db)
    = (case find_row (\<lambda>k. pk_id k = kid) (kdb_proxy_keys db) of
         None \<Rightarrow> None | Some pk \<Rightarrow> if pk_api_key_id pk = A then Some pk else None)"
proof (cases "find_row (\<lambda>k. pk_id k = kid) (kdb_proxy_keys db)")
  case None
  then have "find_row (\<lambda>k. pk_id k = kid) (tenant_keys A db) = None"
    unfolding find_row_None tenant_keys_def by simp
  then show ?thesis using None by simp
next
  case (Some pk)
  from find_row_Some [OF Some] have pk: "pk \<in> set (kdb_proxy_keys db)" "pk_id pk = kid" by auto
  have u: "k = pk" if "k \<in> set (tenant_keys A db)" "pk_id k = kid" for k
    using owner_unique [OF assms _ pk(1), of k] that pk(2) by (auto simp: tenant_keys_def)
  show ?thesis
  proof (cases "pk_api_key_id pk = A")
    case True
    then have "pk \<in> set (tenant_keys A db)" using pk by (simp add: tenant_keys_def)
    then have "find_row (\<lambda>k. pk_id k = kid) (tenant_keys A db) \<noteq> None" using pk(2) by (auto simp: find_row_None)
    then obtain k where k: "find_row (\<lambda>k. pk_id k = kid) (tenant_keys A db) = Some k" by blast
    with u [of k] find_row_Some [OF k] show ?thesis using Some True by simp
  next
    case False
    then have "find_row (\<lambda>k. pk_id k = kid) (tenant_keys A db) = None"
      using u by (fastforce simp: find_row_None tenant_keys_def)
    then show ?thesis using Some False by simp
  qed
qed

lemma same_views:
  assumes "same_view A db db'"
  shows "tenant_keys A db' = tenant_keys A db" "tenant_mappings A db' = tenant_mappings A db"
    "kdb_api_keys db' = kdb_api_keys db" "kdb_faults db' = kdb_faults db"
  using assms by (simp_all add: same_view_def tenant_def)

text \<open>A statement that reads only the view gives the same result on both.\<close>

lemma sql_view:
  assumes "same_view A db db'"
    "\<And>fs. fst (f (db\<lparr>kdb_faults := fs\<rparr>)) = fst (g (db'\<lparr>kdb_faults := fs\<rparr>))"
  shows "fst (sql msg f db) = fst (sql msg g db')"
proof -
  have d: "db = db\<lparr>kdb_faults := kdb_faults db\<rparr>" "db' = db'\<lparr>kdb_faults := kdb_faults db\<rparr>"
    using same_views(4) [OF assms(1)] by (simp_all add: equality)
  have "fst (f db) = fst (g db')" using assms(2) [of "kdb_faults db"] d by simp
  then have "fst (stmt f db) = fst (stmt g db')"
    using assms(2) same_views(4) [OF assms(1)] by (simp add: stmt_def split: list.split option.split)
  then show ?thesis
    by (cases "stmt f db"; cases "stmt g db'") (auto simp: sql_def split: sum.split)
qed

lemma GetProxyKeyByID_run:
  "GetProxyKeyByID kid db =
     (case kdb_faults db of
        Some e # fs \<Rightarrow> (Inl (ErrWrap ''get proxy key by id'' e), db\<lparr>kdb_faults := fs\<rparr>)
      | _ \<Rightarrow> (case find_row (\<lambda>k. pk_id k = kid) (kdb_proxy_keys db) of
               None \<Rightarrow> (Inl ErrProxyKeyNotFoundRepo, db\<lparr>kdb_faults := tl (kdb_faults db)\<rparr>)
             | Some pk \<Rightarrow> (Inr pk, db\<lparr>kdb_faults := tl (kdb_faults db)\<rparr>)))"
  by (cases db)
    (auto simp: GetProxyKeyByID_def or_err_def sql_def stmt_def split: list.split option.split)

lemma same_view_faults: "same_view A db db' \<Longrightarrow> same_view A (db\<lparr>kdb_faults := fs\<rparr>) (db'\<lparr>kdb_faults := fs\<rparr>)"
  by (simp add: same_view_def)

lemma with_owned_view:
  assumes ok: "key_db_ok db" "key_db_ok db'" and v: "same_view A db db'"
    and f: "\<And>pk d d'. key_db_ok d \<Longrightarrow> key_db_ok d' \<Longrightarrow> same_view A d d' \<Longrightarrow> pk \<in> set (tenant_keys A d)
      \<Longrightarrow> pk_id pk = kid \<Longrightarrow> fst (f pk d) = fst (f pk d')"
  shows "fst (with_owned kid A f db) = fst (with_owned kid A f db')"
proof (cases "\<exists>e fs. kdb_faults db = Some e # fs")
  case True
  then show ?thesis using same_views(4) [OF v] by (auto simp: with_owned_def GetProxyKeyByID_run)
next
  case False
  let ?d = "db\<lparr>kdb_faults := tl (kdb_faults db)\<rparr>" and ?d' = "db'\<lparr>kdb_faults := tl (kdb_faults db)\<rparr>"
  have run: "with_owned kid A f d0 = (case find_row (\<lambda>k. pk_id k = kid) (tenant_keys A d0) of
      None \<Rightarrow> (Inl ErrProxyKeyNotFoundRepo, d0\<lparr>kdb_faults := tl (kdb_faults d0)\<rparr>)
    | Some pk \<Rightarrow> f pk (d0\<lparr>kdb_faults := tl (kdb_faults d0)\<rparr>))"
    if "key_db_ok d0" "\<not> (\<exists>e fs. kdb_faults d0 = Some e # fs)" for d0
    using that(2) unfolding with_owned_def GetProxyKeyByID_run find_tenant [OF that(1)]
    by (auto split: list.split option.split)
  show ?thesis
  proof (cases "find_row (\<lambda>k. pk_id k = kid) (tenant_keys A db)")
    case None
    then show ?thesis using run [OF ok(1)] run [OF ok(2)] False same_views [OF v] by simp
  next
    case (Some pk)
    have "fst (f pk ?d) = fst (f pk ?d')"
    proof (rule f)
      show "key_db_ok ?d" "key_db_ok ?d'" using ok by simp_all
      show "same_view A ?d ?d'" by (rule same_view_faults [OF v])
      show "pk \<in> set (tenant_keys A ?d)" "pk_id pk = kid"
        using find_row_Some [OF Some] by (simp_all add: tenant_keys_def)
    qed
    then show ?thesis using Some run [OF ok(1)] run [OF ok(2)] False same_views [OF v] by simp
  qed
qed

lemma affected_fst: "fst r = fst r' \<Longrightarrow> fst (affected e r) = fst (affected e r')"
  by (cases r; cases r') (auto simp: affected_def split: sum.split)

lemma own_key_rows:
  assumes "key_db_ok d" "pk \<in> set (tenant_keys A d)" "pk_id pk = kid"
  shows "filter (\<lambda>k. pk_id k = kid \<and> Q k) (kdb_proxy_keys d) = filter (\<lambda>k. pk_id k = kid \<and> Q k) (tenant_keys A d)"
  unfolding tenant_keys_def filter_filter
  by (rule filter_cong [OF refl])
    (use assms owner_unique [OF assms(1)] in \<open>fastforce simp: tenant_keys_def\<close>)

lemma own_mapping_rows:
  assumes "pk \<in> set (tenant_keys A d)" "pk_id pk = kid"
  shows "filter (\<lambda>m. pm_proxy_key_id m = kid \<and> Q m) (kdb_mappings d)
    = filter (\<lambda>m. pm_proxy_key_id m = kid \<and> Q m) (tenant_mappings A d)"
  unfolding tenant_mappings_def filter_filter
  by (rule filter_cong [OF refl]) (use assms in auto)

lemma same_view_own: "same_view A d d' \<Longrightarrow> pk \<in> set (tenant_keys A d) \<Longrightarrow> pk \<in> set (tenant_keys A d')"
  by (simp add: same_views)

lemma revoke_view:
  assumes "key_db_ok d" "key_db_ok d'" "same_view A d d'" "pk \<in> set (tenant_keys A d)" "pk_id pk = kid"
  shows "fst (RevokeProxyKey now kid d) = fst (RevokeProxyKey now kid d')"
  unfolding RevokeProxyKey_def
  by (rule affected_fst, rule sql_view [OF assms(3)])
    (simp add: update_where_def own_key_rows [OF assms(1,4,5)]
      own_key_rows [OF assms(2) same_view_own [OF assms(3,4)] assms(5)] same_views [OF assms(3)])

lemma set_mapping_view:
  assumes "same_view A d d'" "pk \<in> set (tenant_keys A d)" "pk_id pk = kid"
  shows "fst (SetProviderMapping newid now kid prov enc d) = fst (SetProviderMapping newid now kid prov enc d')"
proof -
  have "list_ex (\<lambda>k. pk_id k = kid) (kdb_proxy_keys d)" "list_ex (\<lambda>k. pk_id k = kid) (kdb_proxy_keys d')"
    using assms(2,3) same_view_own [OF assms(1,2)] by (auto simp: list_ex_iff tenant_keys_def)
  then show ?thesis unfolding SetProviderMapping_def by (intro sql_view [OF assms(1)]) simp
qed

lemma delete_mapping_view:
  assumes "same_view A d d'" "pk \<in> set (tenant_keys A d)" "pk_id pk = kid"
  shows "fst (DeleteProviderMapping kid prov d) = fst (DeleteProviderMapping kid prov d')"
  unfolding DeleteProviderMapping_def
  by (rule affected_fst, rule sql_view [OF assms(1)])
    (simp add: delete_where_def mapping_key_def own_mapping_rows [OF assms(2,3)]
      own_mapping_rows [OF same_view_own [OF assms(1,2)] assms(3)] same_views [OF assms(1)])

lemma list_mappings_view:
  assumes "same_view A d d'" "pk \<in> set (tenant_keys A d)" "pk_id pk = kid"
  shows "fst (ListProviderMappings kid d) = fst (ListProviderMappings kid d')"
  unfolding ListProviderMappings_def
  by (rule sql_view [OF assms(1)])
    (use own_mapping_rows [OF assms(2,3), of "\<lambda>_. True"]
      own_mapping_rows [OF same_view_own [OF assms(1,2)] assms(3), of "\<lambda>_. True"] same_views [OF assms(1)] in simp)

lemma fst_case_Inr: "fst (case r of (Inl e, d) \<Rightarrow> (Inl e, d) | (Inr v, d) \<Rightarrow> (Inr (h v), d)) = map_sum (\<lambda>e. e) h (fst r)"
  by (cases r; cases "fst r") auto

lemma service_view:
  assumes "key_db_ok db" "key_db_ok db'" "same_view A db db'"
  shows "fst (svc_GetProxyKey kid A db) = fst (svc_GetProxyKey kid A db')"
    "fst (svc_RevokeProxyKey now kid A db) = fst (svc_RevokeProxyKey now kid A db')"
    "fst (svc_SetProviderMapping key rnd newid now kid A prov apiKey db)
      = fst (svc_SetProviderMapping key rnd newid now kid A prov apiKey db')"
    "fst (svc_DeleteProviderMapping kid A prov db) = fst (svc_DeleteProviderMapping kid A prov db')"
    "fst (svc_ListProviderMappings kid A db) = fst (svc_ListProviderMappings kid A db')"
    "fst (ListProxyKeys A db) = fst (ListProxyKeys A db')"
  unfolding svc_GetProxyKey_def svc_RevokeProxyKey_def svc_SetProviderMapping_def svc_DeleteProviderMapping_def
    svc_ListProviderMappings_def
  subgoal by (rule with_owned_view [OF assms]) simp
  subgoal by (rule with_owned_view [OF assms]) (rule revoke_view)
  subgoal by (rule with_owned_view [OF assms]) (auto split: sum.split intro: set_mapping_view)
  subgoal by (rule with_owned_view [OF assms]) (rule delete_mapping_view)
  subgoal by (rule with_owned_view [OF assms])
      (simp only: fst_case_Inr list_mappings_view)
  subgoal unfolding ListProxyKeys_def
    by (rule sql_view [OF assms(3)]) (use same_views(1) [OF assms(3)] in \<open>simp add: tenant_keys_def\<close>)
  done

lemma with_id_view:
  "(\<And>kid. fst (f kid db) = fst (f kid db')) \<Longrightarrow> fst (with_id E t f db) = fst (with_id E t f db')"
  by (simp add: with_id_def split: option.split)

lemma handle_view:
  assumes "key_db_ok db" "key_db_ok db'" "same_view (aki_id i) db db'" "\<And>body. req \<noteq> CreateReq body"
  shows "fst (handle E req (Some i) db) = fst (handle E req (Some i) db')"
  using assms(4)
  by (cases req)
    (auto simp: handler_defs answer_fst service_view [OF assms(1-3)]
      intro!: with_id_view split: sum.split)

text \<open>C1: Tenant isolation of the proxy key API. Whatever a request does in the name of one API key, the
  proxy keys and provider mappings of every other API key stay as they are, a request that does not
  authenticate changes nothing at all, and (creation of a key aside, which can meet a taken hash) the reply is
  the same on any two databases that agree on the rows of the calling API key: another tenant's key is
  answered exactly as a key that does not exist.\<close>

theorem tenant_isolation:
  assumes "key_db_ok db" "key_db_ok db'" "aki_id i \<noteq> B"
  shows "tenant B (snd (handle E req (Some i) db)) = tenant B db
    \<and> handle E req None db = (WriteJSONError 401 ''unauthorized'', db)
    \<and> (same_view (aki_id i) db db' \<longrightarrow> (\<forall>body. req \<noteq> CreateReq body)
         \<longrightarrow> fst (handle E req (Some i) db) = fst (handle E req (Some i) db'))"
proof -
  have "handle E req None db = (WriteJSONError 401 ''unauthorized'', db)"
    by (cases req) (simp_all add: handler_defs)
  then show ?thesis using handle_tenant [OF assms(1,3)] handle_view [OF assms(1,2)] by blast
qed

text \<open>A concrete environment for the witnesses.\<close>

definition sample_codec :: codec where
  "sample_codec = \<lparr>parse_uuid = (\<lambda>s. if s = ''3'' then Some 3 else None), fmt_uuid = (\<lambda>u. itoa (uint u)),
     fmt_time = itoa, fmt_seconds = itoa\<rparr>"

definition sample_env :: call_env where
  "sample_env = \<lparr>ce_rnd = Inr (replicate 32 (CHR ''r'')), ce_newid = 9, ce_now = 50,
     ce_key = replicate 32 (CHR ''A''), ce_codec = sample_codec\<rparr>"

definition sample_info :: "uuid \<Rightarrow> APIKeyInfo" where
  "sample_info i = \<lparr>aki_id = i, aki_hash = [], aki_alias = None, aki_user_id = None, aki_org_id = None,
     aki_deprecated_behavior = ''warn''\<rparr>"

lemma sample_proxy_db_ok: "key_db_ok (sample_proxy_db enc)"
  by (simp add: sample_proxy_db_def sample_db_def empty_key_db_def key_db_ok_def api_keys_ok_def proxy_keys_ok_def
      mappings_ok_def provider_keys_ok_def)

lemma tenant_isolation_witness:
  "tenant 1 (snd (handle sample_env (RevokeReq ''3'') (Some (sample_info 2)) (sample_proxy_db ''e''))) = tenant 1 (sample_proxy_db ''e'')
   \<and> fst (handle sample_env (GetReq ''3'') (Some (sample_info 2)) (sample_proxy_db ''e''))
     = fst (handle sample_env (GetReq ''3'') (Some (sample_info 2)) ((sample_proxy_db ''e'')\<lparr>kdb_proxy_keys := [], kdb_mappings := []\<rparr>))"
proof -
  let ?db = "sample_proxy_db ''e''"
  let ?db' = "?db\<lparr>kdb_proxy_keys := [], kdb_mappings := []\<rparr>"
  have ok: "key_db_ok ?db'"
    using sample_proxy_db_ok [of "''e''"] by (simp add: key_db_ok_def proxy_keys_ok_def mappings_ok_def)
  have v: "same_view (aki_id (sample_info 2)) ?db ?db'"
    by (simp add: same_view_def tenant_def tenant_keys_def tenant_mappings_def sample_info_def sample_proxy_db_def)
  have B: "aki_id (sample_info 2) \<noteq> 1" by (simp add: sample_info_def)
  show ?thesis
    using tenant_isolation [OF sample_proxy_db_ok ok B, of sample_env "RevokeReq ''3''" "''e''"]
      tenant_isolation [OF sample_proxy_db_ok ok B, of sample_env "GetReq ''3''" "''e''"] v
    by simp
qed

text \<open>What a mapping endpoint does. With a working database, setting the mapping of an owned proxy
  key stores the encrypted key under that proxy key and provider: it reads back as a mapping that decrypts to
  the given key, and listing the mappings never shows more than identifiers, the provider and times.\<close>

theorem set_mapping_reads_back:
  assumes "kdb_faults db = []" "aes_key_size key" "12 \<le> length rnd"
    "find_row (\<lambda>k. pk_id k = kid) (kdb_proxy_keys db) = Some pk" "pk_api_key_id pk = A"
    and r: "svc_SetProviderMapping key (Inr rnd) newid now kid A prov apiKey db = (r, db')"
  shows "r = Inr () \<and> (\<exists>m. fst (GetProviderMapping kid prov db') = Inr (Some m)
    \<and> Decrypt key (pm_encrypted_key m) = Inr apiKey \<and> pm_updated_at m = now)"
proof -
  obtain enc where enc: "Encrypt key (Inr rnd) apiKey = Inr enc"
    using assms(2,3) by (auto simp: Encrypt_def read_nonce_def gcm_nonce_size_def)
  let ?new = "\<lparr>pm_id = newid, pm_proxy_key_id = kid, pm_provider = prov,
             pm_encrypted_key = enc, pm_created_at = now, pm_updated_at = now\<rparr>"
  have "list_ex (\<lambda>k. pk_id k = kid) (kdb_proxy_keys db)" "pk_id pk = kid"
    using find_row_Some [OF assms(4)] by (auto simp: list_ex_iff)
  then have r': "r = Inr ()" "db' = db\<lparr>kdb_mappings := upsert mapping_key merge_mapping ?new (kdb_mappings db)\<rparr>"
    using r assms(4,5) enc assms(1)
    by (auto simp: svc_SetProviderMapping_def with_owned_def GetProxyKeyByID_run SetProviderMapping_def sql_ok)
  define m where "m = (case find (\<lambda>m. mapping_key m = (kid, prov)) (kdb_mappings db) of
      None \<Rightarrow> ?new | Some m0 \<Rightarrow> merge_mapping m0 ?new)"
  have key: "mapping_key ?new = (kid, prov)" by (simp add: mapping_key_def)
  have "find (\<lambda>m. mapping_key m = (kid, prov)) (kdb_mappings db') = Some m"
    using upsert_find_same [of mapping_key merge_mapping ?new "kdb_mappings db", unfolded key, OF merge_mapping_key]
    by (simp add: r' m_def)
  then have "fst (GetProviderMapping kid prov db') = Inr (Some m)"
    using assms(1) by (simp add: GetProviderMapping_def sql_ok r' find_row_def)
  moreover have "pm_encrypted_key m = enc" "pm_updated_at m = now"
    by (auto simp: m_def merge_mapping_def split: option.split)
  ultimately show ?thesis using r' aes.decrypt_encrypt [OF enc] by simp
qed

lemma set_mapping_reads_back_witness:
  "\<exists>m. fst (GetProviderMapping 3 ''openai'' (snd (svc_SetProviderMapping (replicate 32 (CHR ''A'')) (Inr (replicate 12 (CHR ''n'')))
       8 50 3 1 ''openai'' ''sk'' (sample_proxy_db ''e'')))) = Inr (Some m)
     \<and> Decrypt (replicate 32 (CHR ''A'')) (pm_encrypted_key m) = Inr ''sk''"
proof -
  let ?r = "svc_SetProviderMapping (replicate 32 (CHR ''A'')) (Inr (replicate 12 (CHR ''n''))) 8 50 3 1 ''openai'' ''sk''
      (sample_proxy_db ''e'')"
  have f: "kdb_faults (sample_proxy_db ''e'') = []"
    "find_row (\<lambda>k. pk_id k = 3) (kdb_proxy_keys (sample_proxy_db ''e'')) = Some (hd (kdb_proxy_keys (sample_proxy_db ''e'')))"
    "pk_api_key_id (hd (kdb_proxy_keys (sample_proxy_db ''e''))) = 1"
    by (simp_all add: sample_proxy_db_def sample_db_def empty_key_db_def find_row_def)
  have k: "aes_key_size (replicate 32 (CHR ''A''))" "12 \<le> length (replicate 12 (CHR ''n''))"
    by (simp_all add: aes_key_size_def)
  show ?thesis
    using set_mapping_reads_back [OF f(1) k f(2,3), of 8 50 "''openai''" "''sk''" "fst ?r" "snd ?r"] by auto
qed

end
