(* ===== verification/Proxy_Http.thy ===== *)
theory Proxy_Http
  imports Provider_Detect Auth
begin

text \<open>
  The HTTP side of the proxy (internal/proxy/upstream.go, compression.go and the header and region
  helpers of handler.go). A header is a list of canonical names with their values, names distinct,
  as net/http keeps it; the order of the list stands for the order in which Go iterates over the
  map.
\<close>

section \<open>Headers (net/http)\<close>

type_synonym header = "(string \<times> string list) list"

definition token_bytes :: string where
  "token_bytes = ''!#$%&*+-.^_|~0123456789'' @ [CHR 0x27, CHR 0x60]
     @ ''abcdefghijklmnopqrstuvwxyzABCDEFGHIJKLMNOPQRSTUVWXYZ''"

fun canon_from :: "bool \<Rightarrow> string \<Rightarrow> string" where
  "canon_from up [] = []"
| "canon_from up (c # cs) = (if up then upper_byte c else lower_byte c) # canon_from (c = CHR ''-'') cs"

text \<open>CanonicalHeaderKey: a name with a byte that is no token byte is left alone.\<close>

definition canonical_key :: "string \<Rightarrow> string" where
  "canonical_key k = (if list_all (\<lambda>c. c \<in> set token_bytes) k then canon_from True k else k)"

definition hget :: "string \<Rightarrow> header \<Rightarrow> string" where
  "hget k h = (case map_of h (canonical_key k) of Some (v # vs) \<Rightarrow> v | _ \<Rightarrow> [])"

definition hset :: "string \<Rightarrow> string \<Rightarrow> header \<Rightarrow> header" where
  "hset k v h = AList.update (canonical_key k) [v] h"

definition hadd :: "string \<Rightarrow> string \<Rightarrow> header \<Rightarrow> header" where
  "hadd k v h = AList.update (canonical_key k)
     ((case map_of h (canonical_key k) of Some vs \<Rightarrow> vs | None \<Rightarrow> []) @ [v]) h"

definition hdel :: "string \<Rightarrow> header \<Rightarrow> header" where
  "hdel k h = AList.delete (canonical_key k) h"

text \<open>The request as the server hands it over. Its body is what the read of it returns.\<close>

record http_request =
  hr_method :: string
  hr_path :: string
  hr_query :: string
  hr_host :: string
  hr_header :: header
  hr_body :: "err + string"

section \<open>The upstream client (upstream.go)\<close>

definition hopByHopHeaders :: "string list" where
  "hopByHopHeaders = [''connection'', ''keep-alive'', ''proxy-authenticate'', ''proxy-authorization'', ''te'',
     ''trailers'', ''transfer-encoding'', ''upgrade'', ''host'', ''content-length'', ''accept-encoding'']"

definition add_all :: "string \<Rightarrow> string list \<Rightarrow> header \<Rightarrow> header" where
  "add_all k vs dst = fold (hadd k) vs dst"

definition skipped_request_header :: "string \<Rightarrow> bool" where
  "skipped_request_header key = (let lowerKey = to_lower key in
     has_prefix lowerKey ''x-majordomo'' \<or> lowerKey \<in> set hopByHopHeaders)"

definition copyHeaders :: "header \<Rightarrow> header \<Rightarrow> header" where
  "copyHeaders src dst =
     fold (\<lambda>(key, vs) d. if skipped_request_header key then d else add_all key vs d) src dst"

definition skipped_response_header :: "string \<Rightarrow> bool" where
  "skipped_response_header key = (let lowerKey = to_lower key in
     lowerKey \<in> set hopByHopHeaders \<or> lowerKey = ''content-encoding'')"

definition copyResponseHeaders :: "header \<Rightarrow> header \<Rightarrow> header" where
  "copyResponseHeaders src dst =
     fold (\<lambda>(key, vs) d. if skipped_response_header key then d else add_all key vs d) src dst"

record UpstreamRequest =
  ur_method :: string
  ur_url :: string
  ur_header :: header
  ur_body :: string

text \<open>An answer whose body is read in chunks; the read ends with an error or at the end of the body.\<close>

record UpstreamAnswer =
  ua_status :: int
  ua_header :: header
  ua_chunks :: "string list"
  ua_read_error :: "err option"

record UpstreamResponse =
  us_status :: int
  us_header :: header
  us_body :: string
  us_response_time :: duration

definition target_url :: "string \<Rightarrow> http_request \<Rightarrow> string" where
  "target_url baseURL r = (let targetURL = baseURL @ hr_path r in
     if hr_query r \<noteq> [] then targetURL @ ''?'' @ hr_query r else targetURL)"

definition upstream_request :: "string \<Rightarrow> http_request \<Rightarrow> string \<Rightarrow> UpstreamRequest" where
  "upstream_request baseURL r body =
     \<lparr>ur_method = hr_method r, ur_url = target_url baseURL r, ur_header = copyHeaders (hr_header r) [],
      ur_body = body\<rparr>"

text \<open>ReadAll.\<close>

definition read_all :: "UpstreamAnswer \<Rightarrow> err + string" where
  "read_all a = (case ua_read_error a of Some e \<Rightarrow> Inl e | None \<Rightarrow> Inr (concat (ua_chunks a)))"

text \<open>Forward: the transport is a parameter; start and the later reading of the clock give the time.\<close>

definition Forward :: "(UpstreamRequest \<Rightarrow> err + UpstreamAnswer) \<Rightarrow> time \<Rightarrow> time \<Rightarrow> UpstreamRequest
    \<Rightarrow> err + UpstreamResponse" where
  "Forward send start done req =
     (case send req of
        Inl e \<Rightarrow> Inl e
      | Inr a \<Rightarrow> (case read_all a of
            Inl e \<Rightarrow> Inl e
          | Inr body \<Rightarrow> Inr \<lparr>us_status = ua_status a, us_header = ua_header a, us_body = body,
                             us_response_time = done - start\<rparr>))"

text \<open>io.Copy through a TeeReader: every chunk that is read is captured, and copying stops at the first
  chunk the client does not take. The result is what is captured and the chunks relayed in full.\<close>

fun relay :: "(nat \<Rightarrow> bool) \<Rightarrow> nat \<Rightarrow> string list \<Rightarrow> string \<times> string list" where
  "relay takes n [] = ([], [])"
| "relay takes n (c # cs) =
     (if takes n then (case relay takes (Suc n) cs of (buf, out) \<Rightarrow> (c @ buf, c # out)) else (c, []))"

section \<open>Compression (compression.go)\<close>

definition MinCompressionSize :: nat where
  "MinCompressionSize = 1024"

text \<open>TrimSpace: the length of the white space code point at the head of a text, and at its end when
  the text is given backwards.\<close>

fun space_len :: "string \<Rightarrow> nat" where
  "space_len (c # d # e # cs) =
     (if is_ascii_space c then 1
      else if c = CHR 0xC2 \<and> (d = CHR 0x85 \<or> d = CHR 0xA0) then 2
      else if (c = CHR 0xE1 \<and> d = CHR 0x9A \<and> e = CHR 0x80)
           \<or> (c = CHR 0xE2 \<and> d = CHR 0x80 \<and> (of_char e \<in> {0x80..0x8A :: nat} \<or> e \<in> set [CHR 0xA8, CHR 0xA9, CHR 0xAF]))
           \<or> (c = CHR 0xE2 \<and> d = CHR 0x81 \<and> e = CHR 0x9F)
           \<or> (c = CHR 0xE3 \<and> d = CHR 0x80 \<and> e = CHR 0x80) then 3
      else 0)"
| "space_len [c, d] = (if is_ascii_space c then 1
     else if c = CHR 0xC2 \<and> (d = CHR 0x85 \<or> d = CHR 0xA0) then 2 else 0)"
| "space_len [c] = (if is_ascii_space c then 1 else 0)"
| "space_len [] = 0"

definition space_suffix_len :: "string \<Rightarrow> nat" where
  "space_suffix_len s = (case find (\<lambda>n. n \<le> length s \<and> space_len (drop (length s - n) s) = n) [1, 2, 3] of
     Some n \<Rightarrow> n | None \<Rightarrow> 0)"

fun trim_spaces_left :: "nat \<Rightarrow> string \<Rightarrow> string" where
  "trim_spaces_left 0 s = s"
| "trim_spaces_left (Suc n) s = (if space_len s = 0 then s else trim_spaces_left n (drop (space_len s) s))"

fun trim_spaces_right :: "nat \<Rightarrow> string \<Rightarrow> string" where
  "trim_spaces_right 0 s = s"
| "trim_spaces_right (Suc n) s = (if space_suffix_len s = 0 then s
     else trim_spaces_right n (take (length s - space_suffix_len s) s))"

definition TrimSpace :: "string \<Rightarrow> string" where
  "TrimSpace s = trim_spaces_right (length s) (trim_spaces_left (length s) s)"

definition AcceptsGzip :: "string \<Rightarrow> bool" where
  "AcceptsGzip acceptEncoding =
     list_ex (\<lambda>e. has_prefix (TrimSpace e) ''gzip'') (split_byte CHR '','' acceptEncoding)"

definition compressibleTypes :: "string list" where
  "compressibleTypes = [''text/'', ''application/json'', ''application/xml'', ''application/javascript'',
     ''application/x-javascript'', ''application/ld+json'', ''application/manifest+json'',
     ''application/vnd.api+json'']"

definition isCompressibleContentType :: "string \<Rightarrow> bool" where
  "isCompressibleContentType contentType =
     list_ex (contains_str (to_lower contentType)) compressibleTypes"

definition ShouldCompress :: "string \<Rightarrow> string \<Rightarrow> nat \<Rightarrow> bool" where
  "ShouldCompress acceptEncoding contentType bodySize =
     (if \<not> AcceptsGzip acceptEncoding then False
      else if bodySize < MinCompressionSize then False
      else isCompressibleContentType contentType)"

section \<open>Headers and regions (handler.go)\<close>

definition is_region_byte :: "char \<Rightarrow> bool" where
  "is_region_byte c = (let n = (of_char c :: nat) in (97 \<le> n \<and> n \<le> 122) \<or> (48 \<le> n \<and> n \<le> 57) \<or> c = CHR ''-'')"

definition isValidAWSRegion :: "string \<Rightarrow> bool" where
  "isValidAWSRegion s = (s \<noteq> [] \<and> list_all is_region_byte s)"

definition bedrock_host_prefix :: string where "bedrock_host_prefix = ''bedrock-runtime.''"
definition bedrock_host_suffix :: string where "bedrock_host_suffix = ''.amazonaws.com''"

text \<open>The slice between prefix and suffix panics when its bounds cross.\<close>

definition parseBedrockRegionFromHost :: "string \<Rightarrow> string option outcome" where
  "parseBedrockRegionFromHost hostport =
     (let host = (case index_str hostport '':'' of Some i \<Rightarrow> take i hostport | None \<Rightarrow> hostport);
          lo = length bedrock_host_prefix;
          hi = int (length host) - int (length bedrock_host_suffix)
      in if \<not> has_prefix host bedrock_host_prefix \<or> \<not> has_suffix host bedrock_host_suffix then Ret None
         else if hi < int lo then Panic ''slice bounds out of range''
         else let region = drop lo (take (nat hi) host)
              in if \<not> isValidAWSRegion region then Ret None else Ret (Some region))"

definition BedrockRegionHeader :: string where
  "BedrockRegionHeader = ''X-Majordomo-Bedrock-Region''"

definition resolveBedrockRegion :: "http_request \<Rightarrow> string option outcome" where
  "resolveBedrockRegion r = (let v = hget BedrockRegionHeader (hr_header r) in
     if v \<noteq> [] then (if isValidAWSRegion v then Ret (Some v) else Ret None)
     else parseBedrockRegionFromHost (hr_host r))"

record ProviderKeyInfo =
  pki_hash :: "string option"
  pki_alias :: "string option"

definition extractProviderKeyInfo :: "header \<Rightarrow> ProviderKeyInfo" where
  "extractProviderKeyInfo h = (let authHeader = hget ''Authorization'' h; alias = hget ''X-Majordomo-Provider-Alias'' h in
     \<lparr>pki_hash = (if authHeader \<noteq> [] then Some (HashAPIKey authHeader) else None),
      pki_alias = (if alias \<noteq> [] then Some alias else None)\<rparr>)"

definition extractHeaders :: "header \<Rightarrow> (string \<times> string) list" where
  "extractHeaders h = fold (\<lambda>(key, values) result. let lowerKey = to_lower key in
     if has_prefix lowerKey ''x-majordomo'' then AList.update lowerKey (hd values) result else result) h []"

definition reserved_headers :: "string list" where
  "reserved_headers = [''x-majordomo-key'', ''x-majordomo-provider'', ''x-majordomo-provider-alias'',
     ''x-majordomo-client'', ''x-majordomo-claudecode-session-id'', ''x-majordomo-claudecode-session-name'']"

definition extractCustomMetadata :: "(string \<times> string) list \<Rightarrow> (string \<times> string) list" where
  "extractCustomMetadata headers = fold (\<lambda>(key, v) m.
     if key \<notin> set reserved_headers then AList.update (trim_prefix key ''x-majordomo-'') v m else m) headers []"

definition ExtractResponseHeaders :: "header \<Rightarrow> (string \<times> string) list" where
  "ExtractResponseHeaders h = fold (\<lambda>(key, values) m.
     case values of [] \<Rightarrow> m | v # vs \<Rightarrow> AList.update key v m) h []"

end
