(* ===== verification/Repo_Db.thy ===== *)
theory Repo_Db
  imports Sql_Table
begin

text \<open>
  The database the repositories work on, over any set of tables: an operation takes the tables and
  the errors the driver reports for the next statements (none for a statement that is executed), and
  returns its result with what is left. A transaction is executed on the tables and undone on an
  error.
\<close>

record 't repo_db =
  rdb_tables :: 't
  rdb_faults :: "err option list"

type_synonym ('t, 'a) repo = "'t repo_db \<Rightarrow> (err + 'a) \<times> 't repo_db"

definition next_fault :: "'t repo_db \<Rightarrow> err option \<times> 't repo_db" where
  "next_fault db = (case rdb_faults db of
     [] \<Rightarrow> (None, db)
   | f # fs \<Rightarrow> (f, db\<lparr>rdb_faults := fs\<rparr>))"

text \<open>A query, and a statement that changes the tables or is refused by a constraint.\<close>

definition rquery :: "('t \<Rightarrow> 'a) \<Rightarrow> ('t, 'a) repo" where
  "rquery f db = (case next_fault db of
     (Some e, db') \<Rightarrow> (Inl e, db')
   | (None, db') \<Rightarrow> (Inr (f (rdb_tables db')), db'))"

definition rexec :: "('t \<Rightarrow> err + ('a \<times> 't)) \<Rightarrow> ('t, 'a) repo" where
  "rexec f db = (case next_fault db of
     (Some e, db') \<Rightarrow> (Inl e, db')
   | (None, db') \<Rightarrow> (case f (rdb_tables db') of
         Inl e \<Rightarrow> (Inl e, db')
       | Inr (v, t) \<Rightarrow> (Inr v, db'\<lparr>rdb_tables := t\<rparr>)))"

definition rreturn :: "(err + 'a) \<Rightarrow> ('t, 'a) repo" where
  "rreturn r db = (r, db)"

definition rbind :: "('t, 'a) repo \<Rightarrow> ('a \<Rightarrow> ('t, 'b) repo) \<Rightarrow> ('t, 'b) repo" where
  "rbind m f db = (case m db of (Inl e, db') \<Rightarrow> (Inl e, db') | (Inr v, db') \<Rightarrow> f v db')"

definition rwrap :: "string \<Rightarrow> ('t, 'a) repo \<Rightarrow> ('t, 'a) repo" where
  "rwrap msg m db = (case m db of (Inl e, db') \<Rightarrow> (Inl (ErrWrap msg e), db') | r \<Rightarrow> r)"

text \<open>No row is the given error.\<close>

definition rfound :: "err \<Rightarrow> ('t, 'a option) repo \<Rightarrow> ('t, 'a) repo" where
  "rfound e m = rbind m (\<lambda>v. rreturn (case v of Some x \<Rightarrow> Inr x | None \<Rightarrow> Inl e))"

text \<open>The operations of a loop, one after the other, up to the first error.\<close>

fun rall :: "('x \<Rightarrow> ('t, unit) repo) \<Rightarrow> 'x list \<Rightarrow> ('t, unit) repo" where
  "rall f [] = rreturn (Inr ())"
| "rall f (x # xs) = rbind (f x) (\<lambda>_. rall f xs)"

text \<open>A transaction: BeginTx, the body, Commit. An error rolls the tables back.\<close>

definition rollback :: "'t \<Rightarrow> (err + 'a) \<times> 't repo_db \<Rightarrow> (err + 'a) \<times> 't repo_db" where
  "rollback t r = (case r of (Inl e, db) \<Rightarrow> (Inl e, db\<lparr>rdb_tables := t\<rparr>) | _ \<Rightarrow> r)"

definition transaction :: "string \<Rightarrow> string \<Rightarrow> ('t, 'a) repo \<Rightarrow> ('t, 'a) repo" where
  "transaction begin_msg commit_msg body db = rollback (rdb_tables db)
     (rbind (rwrap begin_msg (rquery (\<lambda>_. ())))
       (\<lambda>_. rbind body (\<lambda>v. rbind (rwrap commit_msg (rquery (\<lambda>_. ()))) (\<lambda>_. rreturn (Inr v)))) db)"

section \<open>Facts\<close>

named_theorems repo_defs \<open>unfolding of the database operations\<close>

declare rquery_def [repo_defs] rexec_def [repo_defs] rreturn_def [repo_defs] rbind_def [repo_defs]
  rwrap_def [repo_defs] rfound_def [repo_defs]

lemma next_fault_tables [simp]: "rdb_tables (snd (next_fault db)) = rdb_tables db"
  by (simp add: next_fault_def split: list.split)

lemma next_fault_eq: "next_fault db = (f, db') \<Longrightarrow> rdb_tables db' = rdb_tables db"
  using next_fault_tables [of db] by simp

lemma rquery_tables [simp]: "rdb_tables (snd (rquery f db)) = rdb_tables db"
  by (auto simp: rquery_def split: prod.splits option.splits dest: next_fault_eq)

lemma rquery_val: "fst (rquery f db) = Inr v \<Longrightarrow> v = f (rdb_tables db)"
  by (auto simp: rquery_def split: prod.splits option.splits dest: next_fault_eq)

lemma rexec_cases:
  "rdb_tables (snd (rexec f db)) = rdb_tables db \<and> is_Inl (fst (rexec f db))
   \<or> (\<exists>v t. f (rdb_tables db) = Inr (v, t) \<and> fst (rexec f db) = Inr v \<and> rdb_tables (snd (rexec f db)) = t)"
  by (auto simp: rexec_def is_Inl_def split: prod.splits option.splits sum.splits dest: next_fault_eq)

lemma rexec_keeps:
  assumes "\<And>v t. f (rdb_tables db) = Inr (v, t) \<Longrightarrow> P t" "P (rdb_tables db)"
  shows "P (rdb_tables (snd (rexec f db)))"
  using rexec_cases [of f db] assms by auto

lemma rwrap_tables [simp]: "rdb_tables (snd (rwrap msg m db)) = rdb_tables (snd (m db))"
  by (auto simp: rwrap_def split: prod.splits sum.splits)

lemma rwrap_Inr [simp]: "fst (rwrap msg m db) = Inr v \<longleftrightarrow> fst (m db) = Inr v"
  by (auto simp: rwrap_def split: prod.splits sum.splits)

lemma rfound_Inr: "fst (rfound e m db) = Inr v \<longleftrightarrow> fst (m db) = Inr (Some v)"
  by (auto simp: rfound_def rbind_def rreturn_def split: prod.splits sum.splits option.splits)

lemma rfound_tables [simp]: "rdb_tables (snd (rfound e m db)) = rdb_tables (snd (m db))"
  by (auto simp: rfound_def rbind_def rreturn_def split: prod.splits sum.splits option.splits)

text \<open>A transaction that fails leaves the tables as they were.\<close>

lemma transaction_error:
  "fst (transaction b c body db) = Inl e \<Longrightarrow> rdb_tables (snd (transaction b c body db)) = rdb_tables db"
  by (auto simp: transaction_def rollback_def split: prod.splits sum.splits)

lemma transaction_ok:
  assumes "fst (transaction b c body db) = Inr v"
  shows "\<exists>db1. rdb_tables db1 = rdb_tables db \<and> fst (body db1) = Inr v
    \<and> rdb_tables (snd (transaction b c body db)) = rdb_tables (snd (body db1))"
proof -
  obtain r1 db1 where q1: "rwrap b (rquery (\<lambda>_. ())) db = (r1, db1)" by fastforce
  then have t1: "rdb_tables db1 = rdb_tables db" using rwrap_tables [of b "rquery (\<lambda>_. ())" db] by simp
  obtain r2 db2 where b2: "body db1 = (r2, db2)" by fastforce
  obtain r3 db3 where q3: "rwrap c (rquery (\<lambda>_. ())) db2 = (r3, db3)" by fastforce
  then have t3: "rdb_tables db3 = rdb_tables db2" using rwrap_tables [of c "rquery (\<lambda>_. ())" db2] by simp
  have "r2 = Inr v \<and> rdb_tables (snd (transaction b c body db)) = rdb_tables db2"
    using assms q1 b2 q3 t3
    by (auto simp: transaction_def rollback_def rbind_def rreturn_def split: prod.splits sum.splits)
  then show ?thesis using t1 b2 by (intro exI [of _ db1]) simp
qed

text \<open>A loop of statements, each of which either fails and changes nothing or takes a step f of the
  tables, has taken all the steps when it succeeds.\<close>

lemma rall_fold:
  assumes "\<And>x db. fst (m x db) = Inr () \<Longrightarrow> rdb_tables (snd (m x db)) = f x (rdb_tables db)"
  shows "fst (rall m xs db) = Inr () \<Longrightarrow> rdb_tables (snd (rall m xs db)) = fold f xs (rdb_tables db)"
proof (induction xs arbitrary: db)
  case (Cons x xs)
  obtain r db' where m: "m x db = (r, db')" by fastforce
  then have "r = Inr ()" using Cons.prems by (cases r) (auto simp: rbind_def)
  then show ?case using Cons m assms [of x db] by (simp add: rbind_def)
qed (simp add: rreturn_def)

end
