(* ===== verification/Cloud_Storage.thy ===== *)
theory Cloud_Storage
  imports Repo_Db Models Secrets
begin

text \<open>
  The buckets of users and organizations: the repository of their configurations
  (internal/repositories/cloud_storage.go), the syncer that fills it from Butler
  (internal/stewardclient/cloudsync.go) and the lookup of the proxy handler with its caches
  (internal/proxy/handler.go). Identifiers are compared, never parsed, so they are words.
\<close>

section \<open>The repository\<close>

definition CloudStorageProviderGCS :: string where "CloudStorageProviderGCS = ''gcs''"
definition CloudStorageProviderS3 :: string where "CloudStorageProviderS3 = ''s3''"

definition GetCloudStorageConfig :: "uuid \<Rightarrow> (CloudStorageRecord list, CloudStorageRecord option) repo" where
  "GetCloudStorageConfig ownerID = rwrap ''get cloud storage config''
     (rquery (find_row (\<lambda>r. csr_owner_id r = ownerID)))"

text \<open>The key of a row is its owner and the owner's type.\<close>

definition cloud_key :: "CloudStorageRecord \<Rightarrow> uuid \<times> string" where
  "cloud_key r = (csr_owner_id r, csr_owner_type r)"

definition put_cloud_row :: "time \<Rightarrow> CloudStorageRecord \<Rightarrow> CloudStorageRecord list \<Rightarrow> CloudStorageRecord list" where
  "put_cloud_row now rec rows = upsert cloud_key (\<lambda>old new. new) (rec\<lparr>csr_synced_at := now\<rparr>) rows"

definition UpsertCloudStorageConfigs :: "time \<Rightarrow> CloudStorageRecord list \<Rightarrow> (CloudStorageRecord list, unit) repo" where
  "UpsertCloudStorageConfigs now records =
     (if records = [] then rreturn (Inr ())
      else transaction ''begin transaction'' ''commit upsert cloud storage configs''
        (rall (\<lambda>rec. rwrap ''upsert cloud storage config for owner''
                 (rexec (\<lambda>rows. Inr ((), put_cloud_row now rec rows)))) records))"

section \<open>The syncer\<close>

record cloudStorageConfigPayload =
  csp_owner_id :: uuid
  csp_owner_type :: string
  csp_provider :: string
  csp_s3_bucket :: "string option"
  csp_s3_region :: "string option"
  csp_s3_endpoint :: "string option"
  csp_s3_access_key_id :: "string option"
  csp_s3_secret_access_key :: "string option"
  csp_gcs_bucket :: "string option"
  csp_gcs_project_id :: "string option"
  csp_gcs_credentials_json :: "string option"

definition payload_record :: "cloudStorageConfigPayload \<Rightarrow> CloudStorageRecord" where
  "payload_record p = \<lparr>csr_owner_id = csp_owner_id p, csr_owner_type = csp_owner_type p,
     csr_provider = csp_provider p, csr_s3_bucket = csp_s3_bucket p, csr_s3_region = csp_s3_region p,
     csr_s3_endpoint = csp_s3_endpoint p, csr_s3_access_key_id_encrypted = None,
     csr_s3_secret_access_key_encrypted = None, csr_gcs_bucket = csp_gcs_bucket p,
     csr_gcs_project_id = csp_gcs_project_id p, csr_gcs_credentials_json_encrypted = None, csr_synced_at = 0\<rparr>"

text \<open>One payload: none when its credentials are missing. The two reads of random bytes are the two
  arguments rnd.\<close>

definition encrypt_payload :: "('r \<Rightarrow> string \<Rightarrow> err + string) \<Rightarrow> 'r \<times> 'r \<Rightarrow> cloudStorageConfigPayload
    \<Rightarrow> err + CloudStorageRecord option" where
  "encrypt_payload enc rnd p = (let r = payload_record p in
     if csp_provider p = CloudStorageProviderGCS then
       (case csp_gcs_credentials_json p of
          None \<Rightarrow> Inr None
        | Some cred \<Rightarrow> (case enc (fst rnd) cred of
              Inl e \<Rightarrow> Inl (ErrWrap ''encrypt GCS credentials for owner'' e)
            | Inr c \<Rightarrow> Inr (Some (r\<lparr>csr_gcs_credentials_json_encrypted := Some c\<rparr>))))
     else (case (csp_s3_access_key_id p, csp_s3_secret_access_key p) of
          (Some k, Some s) \<Rightarrow> (case enc (fst rnd) k of
              Inl e \<Rightarrow> Inl (ErrWrap ''encrypt S3 access key ID for owner'' e)
            | Inr ck \<Rightarrow> (case enc (snd rnd) s of
                  Inl e \<Rightarrow> Inl (ErrWrap ''encrypt S3 secret key for owner'' e)
                | Inr cs \<Rightarrow> Inr (Some (r\<lparr>csr_s3_access_key_id_encrypted := Some ck,
                                        csr_s3_secret_access_key_encrypted := Some cs\<rparr>))))
        | _ \<Rightarrow> Inr None))"

fun encryptAndConvert :: "('r \<Rightarrow> string \<Rightarrow> err + string) \<Rightarrow> (nat \<Rightarrow> 'r \<times> 'r) \<Rightarrow> nat
    \<Rightarrow> cloudStorageConfigPayload list \<Rightarrow> err + CloudStorageRecord list" where
  "encryptAndConvert enc rnds i [] = Inr []"
| "encryptAndConvert enc rnds i (p # ps) =
     (case encrypt_payload enc (rnds i) p of
        Inl e \<Rightarrow> Inl e
      | Inr None \<Rightarrow> encryptAndConvert enc rnds (Suc i) ps
      | Inr (Some r) \<Rightarrow> (case encryptAndConvert enc rnds (Suc i) ps of
            Inl e \<Rightarrow> Inl e
          | Inr rs \<Rightarrow> Inr (r # rs)))"

text \<open>Sync: fetched is what the request to Butler returned, decoded.\<close>

definition cloud_Sync :: "('r \<Rightarrow> string \<Rightarrow> err + string) \<Rightarrow> (nat \<Rightarrow> 'r \<times> 'r) \<Rightarrow> time
    \<Rightarrow> err + cloudStorageConfigPayload list \<Rightarrow> (CloudStorageRecord list, unit) repo" where
  "cloud_Sync enc rnds now fetched db =
     (case fetched of
        Inl e \<Rightarrow> (Inl (ErrWrap ''fetch'' e), db)
      | Inr payloads \<Rightarrow>
          (case encryptAndConvert enc rnds 0 payloads of
             Inl e \<Rightarrow> (Inl (ErrWrap ''encrypt'' e), db)
           | Inr records \<Rightarrow> rwrap ''upsert configs'' (UpsertCloudStorageConfigs now records) db))"

section \<open>The lookup of the handler\<close>

definition or_default :: "string \<Rightarrow> string option \<Rightarrow> string" where
  "or_default d s = (case s of Some v \<Rightarrow> v | None \<Rightarrow> d)"

definition zero_cloud_config :: UserCloudStorageConfig where
  "zero_cloud_config = \<lparr>ucs_provider = [], ucs_bucket = [], ucs_region = [], ucs_endpoint = [],
     ucs_access_key_id = [], ucs_secret_access_key = [], ucs_gcs_bucket = [], ucs_gcs_project_id = [],
     ucs_gcs_credentials_json = []\<rparr>"

definition resolveCloudConfig :: "(string \<Rightarrow> err + string) \<Rightarrow> CloudStorageRecord option
    \<Rightarrow> UserCloudStorageConfig option" where
  "resolveCloudConfig decrypt rec =
     (case rec of
        None \<Rightarrow> None
      | Some r \<Rightarrow>
          if csr_provider r = CloudStorageProviderGCS then
            (case (csr_gcs_bucket r, csr_gcs_credentials_json_encrypted r) of
               (Some b, Some c) \<Rightarrow>
                 if b = [] then None else
                 (case decrypt c of
                    Inl e \<Rightarrow> None
                  | Inr cred \<Rightarrow> Some (zero_cloud_config\<lparr>ucs_provider := CloudStorageProviderGCS,
                      ucs_gcs_bucket := b, ucs_gcs_project_id := or_default [] (csr_gcs_project_id r),
                      ucs_gcs_credentials_json := cred\<rparr>))
             | _ \<Rightarrow> None)
          else
            (case (csr_s3_bucket r, csr_s3_access_key_id_encrypted r, csr_s3_secret_access_key_encrypted r) of
               (Some b, Some ck, Some cs) \<Rightarrow>
                 if b = [] then None else
                 (case decrypt ck of
                    Inl e \<Rightarrow> None
                  | Inr k \<Rightarrow> (case decrypt cs of
                        Inl e \<Rightarrow> None
                      | Inr s \<Rightarrow> Some (zero_cloud_config\<lparr>ucs_provider := CloudStorageProviderS3,
                          ucs_bucket := b, ucs_region := or_default ''us-east-1'' (csr_s3_region r),
                          ucs_endpoint := or_default [] (csr_s3_endpoint r), ucs_access_key_id := k,
                          ucs_secret_access_key := s\<rparr>)))
             | _ \<Rightarrow> None))"

record cachedCloudStorageConfig =
  cc_config :: "UserCloudStorageConfig option"
  cc_fetched_at :: time

record cloud_state =
  cl_db :: "CloudStorageRecord list repo_db"
  cl_user_cache :: "uuid \<rightharpoonup> cachedCloudStorageConfig"
  cl_org_cache :: "uuid \<rightharpoonup> cachedCloudStorageConfig"

definition cloudCacheTTL :: duration where
  "cloudCacheTTL = 5 * 60 * 1000000000"

text \<open>The lookup on one of the two caches. There may be no store or no secret store (decrypt); now is
  the clock at the lookup, later at the store of the new entry.\<close>

definition cloud_config :: "(string \<Rightarrow> err + string) option \<Rightarrow> bool \<Rightarrow> time \<Rightarrow> time \<Rightarrow> uuid
    \<Rightarrow> (uuid \<rightharpoonup> cachedCloudStorageConfig) \<Rightarrow> CloudStorageRecord list repo_db
    \<Rightarrow> UserCloudStorageConfig option \<times> (uuid \<rightharpoonup> cachedCloudStorageConfig) \<times> CloudStorageRecord list repo_db" where
  "cloud_config decrypt has_store now later owner cache db =
     (let miss = (case decrypt of
            None \<Rightarrow> (None, cache, db)
          | Some dec \<Rightarrow> if \<not> has_store then (None, cache, db) else
              (case GetCloudStorageConfig owner db of
                 (Inl e, db') \<Rightarrow> (None, cache(owner \<mapsto> \<lparr>cc_config = None, cc_fetched_at = later\<rparr>), db')
               | (Inr rec, db') \<Rightarrow> let cfg = resolveCloudConfig dec rec in
                   (cfg, cache(owner \<mapsto> \<lparr>cc_config = cfg, cc_fetched_at = later\<rparr>), db')))
      in case cache owner of
           Some entry \<Rightarrow> if now - cc_fetched_at entry < cloudCacheTTL then (cc_config entry, cache, db) else miss
         | None \<Rightarrow> miss)"

definition getUserCloudStorageConfig :: "(string \<Rightarrow> err + string) option \<Rightarrow> bool \<Rightarrow> time \<Rightarrow> time \<Rightarrow> uuid
    \<Rightarrow> cloud_state \<Rightarrow> UserCloudStorageConfig option \<times> cloud_state" where
  "getUserCloudStorageConfig decrypt has_store now later userID st =
     (case cloud_config decrypt has_store now later userID (cl_user_cache st) (cl_db st) of
        (cfg, cache, db) \<Rightarrow> (cfg, st\<lparr>cl_user_cache := cache, cl_db := db\<rparr>))"

definition getOrgCloudStorageConfig :: "(string \<Rightarrow> err + string) option \<Rightarrow> bool \<Rightarrow> time \<Rightarrow> time \<Rightarrow> uuid
    \<Rightarrow> cloud_state \<Rightarrow> UserCloudStorageConfig option \<times> cloud_state" where
  "getOrgCloudStorageConfig decrypt has_store now later orgID st =
     (case cloud_config decrypt has_store now later orgID (cl_org_cache st) (cl_db st) of
        (cfg, cache, db) \<Rightarrow> (cfg, st\<lparr>cl_org_cache := cache, cl_db := db\<rparr>))"

section \<open>What a sync delivers\<close>


text \<open>The configuration a payload stands for.\<close>

definition payload_config :: "cloudStorageConfigPayload \<Rightarrow> UserCloudStorageConfig option" where
  "payload_config p = resolveCloudConfig Inr (Some ((payload_record p)
     \<lparr>csr_s3_access_key_id_encrypted := csp_s3_access_key_id p,
      csr_s3_secret_access_key_encrypted := csp_s3_secret_access_key p,
      csr_gcs_credentials_json_encrypted := csp_gcs_credentials_json p\<rparr>))"

definition has_credentials :: "cloudStorageConfigPayload \<Rightarrow> bool" where
  "has_credentials p = (if csp_provider p = CloudStorageProviderGCS then csp_gcs_credentials_json p \<noteq> None
     else csp_s3_access_key_id p \<noteq> None \<and> csp_s3_secret_access_key p \<noteq> None)"

definition payload_key :: "cloudStorageConfigPayload \<Rightarrow> uuid \<times> string" where
  "payload_key p = (csp_owner_id p, csp_owner_type p)"

context secret_store begin

lemma encrypt_payload_key: "encrypt_payload encrypt rnd p = Inr (Some r) \<Longrightarrow> cloud_key r = payload_key p"
  by (auto simp: encrypt_payload_def cloud_key_def payload_key_def payload_record_def Let_def
      split: if_splits option.splits sum.splits)

lemma encrypt_payload_resolves:
  assumes "encrypt_payload encrypt rnd p = Inr (Some r)"
  shows "resolveCloudConfig decrypt (Some (r\<lparr>csr_synced_at := t\<rparr>)) = payload_config p"
proof (cases "csp_provider p = CloudStorageProviderGCS")
  case True
  then obtain cred c where c: "csp_gcs_credentials_json p = Some cred" "encrypt (fst rnd) cred = Inr c"
      "r = (payload_record p)\<lparr>csr_gcs_credentials_json_encrypted := Some c\<rparr>"
    using assms by (auto simp: encrypt_payload_def split: option.splits sum.splits)
  show ?thesis
    using True decrypt_encrypt [OF c(2)]
    by (simp add: c(1,3) payload_config_def resolveCloudConfig_def payload_record_def split: option.split)
next
  case False
  then obtain k s ck cs where c: "csp_s3_access_key_id p = Some k" "csp_s3_secret_access_key p = Some s"
      "encrypt (fst rnd) k = Inr ck" "encrypt (snd rnd) s = Inr cs"
      "r = (payload_record p)\<lparr>csr_s3_access_key_id_encrypted := Some ck, csr_s3_secret_access_key_encrypted := Some cs\<rparr>"
    using assms by (auto simp: encrypt_payload_def split: option.splits sum.splits)
  show ?thesis
    using False decrypt_encrypt [OF c(3)] decrypt_encrypt [OF c(4)]
    by (simp add: c(1,2,5) payload_config_def resolveCloudConfig_def payload_record_def split: option.split)
qed

lemma encrypt_payload_kept:
  "encrypt_payload encrypt rnd p = Inr v \<Longrightarrow> has_credentials p \<Longrightarrow> v \<noteq> None"
  by (auto simp: encrypt_payload_def has_credentials_def Let_def split: if_splits option.splits sum.splits)

lemma convert_keys:
  "encryptAndConvert encrypt rnds i ps = Inr rs \<Longrightarrow> r \<in> set rs \<Longrightarrow> cloud_key r \<in> payload_key ` set ps"
proof (induction ps arbitrary: i rs)
  case (Cons p ps)
  then show ?case by (simp split: sum.splits option.splits) (metis encrypt_payload_key image_insert insertCI set_ConsD)+
qed simp

lemma convert_distinct:
  "encryptAndConvert encrypt rnds i ps = Inr rs \<Longrightarrow> distinct (map payload_key ps) \<Longrightarrow> distinct (map cloud_key rs)"
proof (induction ps arbitrary: i rs)
  case (Cons p ps)
  then obtain v rs' where v: "encrypt_payload encrypt (rnds i) p = Inr v"
      "encryptAndConvert encrypt rnds (Suc i) ps = Inr rs'" "rs = (case v of None \<Rightarrow> rs' | Some r \<Rightarrow> r # rs')"
    by (auto split: sum.splits option.splits)
  have ih: "distinct (map cloud_key rs')" using Cons v(2) by simp
  show ?case
  proof (cases v)
    case (Some r)
    have "cloud_key r \<notin> cloud_key ` set rs'"
      using encrypt_payload_key [of "rnds i" p r] v(1) Some Cons.prems(2) convert_keys [OF v(2)] by auto
    then show ?thesis using ih v(3) Some by simp
  qed (use ih v(3) in simp)
qed simp

lemma convert_resolves:
  "encryptAndConvert encrypt rnds i ps = Inr rs \<Longrightarrow> p \<in> set ps \<Longrightarrow> has_credentials p \<Longrightarrow>
   \<exists>r \<in> set rs. cloud_key r = payload_key p
     \<and> (\<forall>t. resolveCloudConfig decrypt (Some (r\<lparr>csr_synced_at := t\<rparr>)) = payload_config p)"
proof (induction ps arbitrary: i rs)
  case (Cons q ps)
  then obtain v rs' where v: "encrypt_payload encrypt (rnds i) q = Inr v"
      "encryptAndConvert encrypt rnds (Suc i) ps = Inr rs'" "rs = (case v of None \<Rightarrow> rs' | Some r \<Rightarrow> r # rs')"
    by (auto split: sum.splits option.splits)
  show ?case
  proof (cases "p = q")
    case True
    then obtain r where "v = Some r" using encrypt_payload_kept [OF v(1)] Cons.prems(3) by auto
    then show ?thesis using v True encrypt_payload_key encrypt_payload_resolves by auto
  next
    case False
    then have "p \<in> set ps" using Cons.prems(2) by simp
    from Cons.IH [OF v(2) this Cons.prems(3)] show ?thesis using v(3) by (auto split: option.splits)
  qed
qed simp

end

text \<open>The rows after the upserts of records with distinct keys.\<close>

lemma put_cloud_rows_find:
  assumes "distinct (map cloud_key rs)" "r \<in> set rs"
    and "\<forall>x \<in> set rows. csr_owner_id x = csr_owner_id r \<longrightarrow> cloud_key x = cloud_key r"
    and "\<forall>x \<in> set rs. csr_owner_id x = csr_owner_id r \<longrightarrow> cloud_key x = cloud_key r"
  shows "find_row (\<lambda>x. csr_owner_id x = csr_owner_id r) (fold (put_cloud_row now) rs rows)
    = Some (r\<lparr>csr_synced_at := now\<rparr>)"
proof -
  let ?owner = "csr_owner_id r"
  have other: "find (\<lambda>x. csr_owner_id x = ?owner) (put_cloud_row now y rows) = find (\<lambda>x. csr_owner_id x = ?owner) rows"
    if "csr_owner_id y \<noteq> ?owner" for y rows
    using that by (induction rows) (auto simp: put_cloud_row_def cloud_key_def)
  have same: "find (\<lambda>x. csr_owner_id x = ?owner) (put_cloud_row now r rows) = Some (r\<lparr>csr_synced_at := now\<rparr>)"
    if "\<forall>x \<in> set rows. csr_owner_id x = ?owner \<longrightarrow> cloud_key x = cloud_key r" for rows
    using that
  proof (induction rows)
    case (Cons x rows)
    then show ?case
      by (cases "cloud_key x = cloud_key r") (simp_all add: put_cloud_row_def cloud_key_def)
  qed (simp add: put_cloud_row_def)
  have keep: "\<forall>x \<in> set (put_cloud_row now y rows). csr_owner_id x = ?owner \<longrightarrow> cloud_key x = cloud_key r"
    if "\<forall>x \<in> set rows. csr_owner_id x = ?owner \<longrightarrow> cloud_key x = cloud_key r"
       "csr_owner_id y = ?owner \<longrightarrow> cloud_key y = cloud_key r" for y rows
  proof
    fix x assume "x \<in> set (put_cloud_row now y rows)"
    then consider "x = y\<lparr>csr_synced_at := now\<rparr>" | "x \<in> set rows"
      unfolding put_cloud_row_def by (auto dest!: upsert_set)
    then show "csr_owner_id x = ?owner \<longrightarrow> cloud_key x = cloud_key r"
    proof cases
      case 1
      then have "cloud_key x = cloud_key y" "csr_owner_id x = csr_owner_id y" by (simp_all add: cloud_key_def)
      then show ?thesis using that(2) by argo
    next
      case 2
      then show ?thesis using that(1) by blast
    qed
  qed
  have keeps: "\<forall>x \<in> set (fold (put_cloud_row now) ys rows). csr_owner_id x = ?owner \<longrightarrow> cloud_key x = cloud_key r"
    if "\<forall>x \<in> set rows. csr_owner_id x = ?owner \<longrightarrow> cloud_key x = cloud_key r"
       "\<forall>y \<in> set ys. csr_owner_id y = ?owner \<longrightarrow> cloud_key y = cloud_key r" for ys rows
    using that
  proof (induction ys arbitrary: rows)
    case (Cons y ys)
    have "\<forall>x \<in> set (put_cloud_row now y rows). csr_owner_id x = ?owner \<longrightarrow> cloud_key x = cloud_key r"
      by (rule keep [OF Cons.prems(1)]) (rule bspec [OF Cons.prems(2) list.set_intros(1)])
    moreover have "\<forall>y \<in> set ys. csr_owner_id y = ?owner \<longrightarrow> cloud_key y = cloud_key r"
      by (rule ballI, rule bspec [OF Cons.prems(2)], erule list.set_intros(2))
    ultimately show ?case unfolding fold_simps comp_apply by (rule Cons.IH)
  qed simp
  have others: "find (\<lambda>x. csr_owner_id x = ?owner) (fold (put_cloud_row now) ys rows)
      = find (\<lambda>x. csr_owner_id x = ?owner) rows" if "\<forall>y \<in> set ys. csr_owner_id y \<noteq> ?owner" for ys rows
    using that by (induction ys arbitrary: rows) (simp_all add: other)
  obtain as bs where split: "rs = as @ r # bs" using assms(2) by (meson split_list)
  have "\<forall>y \<in> set bs. csr_owner_id y \<noteq> ?owner"
  proof (intro ballI notI)
    fix y assume y: "y \<in> set bs" "csr_owner_id y = ?owner"
    have "y \<in> set rs" using y(1) by (simp add: split)
    then have "cloud_key y = cloud_key r" using bspec [OF assms(4)] y(2) by blast
    moreover have "cloud_key r \<notin> cloud_key ` set bs" using assms(1) split by simp
    ultimately show False using y(1) by (metis imageI)
  qed
  moreover have "\<forall>x \<in> set (fold (put_cloud_row now) as rows). csr_owner_id x = ?owner \<longrightarrow> cloud_key x = cloud_key r"
    by (rule keeps [OF assms(3)], rule ballI, rule bspec [OF assms(4) [unfolded split set_append]], erule UnI1)
  ultimately show ?thesis
    by (simp only: find_row_def split fold_append fold_simps comp_apply others same)
qed

lemma UpsertCloudStorageConfigs_ok:
  assumes "fst (UpsertCloudStorageConfigs now rs db) = Inr ()"
  shows "rdb_tables (snd (UpsertCloudStorageConfigs now rs db)) = fold (put_cloud_row now) rs (rdb_tables db)"
proof (cases "rs = []")
  case False
  let ?m = "\<lambda>rec. rwrap ''upsert cloud storage config for owner''
      (rexec (\<lambda>rows. Inr ((), put_cloud_row now rec rows)))"
  have step: "rdb_tables (snd (?m x db)) = put_cloud_row now x (rdb_tables db)" if "fst (?m x db) = Inr ()" for x db
    using that rexec_cases [of "\<lambda>rows. Inr ((), put_cloud_row now x rows)" db] by auto
  show ?thesis
    using assms False transaction_ok [of "''begin transaction''" "''commit upsert cloud storage configs''" "rall ?m rs" db "()"]
      rall_fold [of ?m "put_cloud_row now" rs, OF step]
    by (auto simp: UpsertCloudStorageConfigs_def)
qed (simp add: UpsertCloudStorageConfigs_def rreturn_def)


definition sample_payload :: cloudStorageConfigPayload where
  "sample_payload = \<lparr>csp_owner_id = 7, csp_owner_type = ''org'', csp_provider = ''s3'',
     csp_s3_bucket = Some ''logs'', csp_s3_region = None, csp_s3_endpoint = None,
     csp_s3_access_key_id = Some ''AK'', csp_s3_secret_access_key = Some ''SK'', csp_gcs_bucket = None,
     csp_gcs_project_id = None, csp_gcs_credentials_json = None\<rparr>"

definition sample_synced :: "CloudStorageRecord list repo_db" where
  "sample_synced = snd (cloud_Sync (Encrypt (replicate 32 CHR 0x00)) (\<lambda>_. (Inr (replicate 12 CHR 0x01), Inr (replicate 12 CHR 0x02)))
     5 (Inr [sample_payload]) \<lparr>rdb_tables = [], rdb_faults = []\<rparr>)"


end
