(* ===== verification/Claude_Code.thy ===== *)
theory Claude_Code
  imports Usage_Parsers Json_Facts Go_Crypto "HOL-Library.List_Lexorder" "HOL-Library.Char_ord"
begin

text \<open>
  The metadata of a Claude Code request (internal/claudecode/parser.go): counts of messages and tools,
  plan mode, stop reason and the hash of the system prompt, read from the bodies of a request and
  its response in plain or streaming form.
\<close>

section \<open>The raw text of a member\<close>

text \<open>A RawMessage field holds the text of its value as it stands in the input, without the white space
  around it; the members of the outermost object are walked as the decoder does.\<close>

definition value_text :: "string \<Rightarrow> (string \<times> string) option" where
  "value_text s = (let t = skip_ws s in
     map_option (\<lambda>(v, r). (take (length t - length r) t, r))
       (parse_val (2 * length t + 1) max_nesting_depth t))"

fun member_texts :: "nat \<Rightarrow> string \<Rightarrow> (string \<times> string) list" where
  "member_texts 0 s = []"
| "member_texts (Suc n) s =
     (case skip_ws s of
        [] \<Rightarrow> []
      | c # cs \<Rightarrow>
          if c \<noteq> quote_byte then [] else
          (case lex_str cs of
             None \<Rightarrow> []
           | Some (k, r) \<Rightarrow>
               (case value_text (tl (skip_ws r)) of
                  None \<Rightarrow> []
                | Some (v, q) \<Rightarrow> (unquote k, v) #
                    (case skip_ws q of
                       [] \<Rightarrow> []
                     | f # fs \<Rightarrow> if f = CHR '','' then member_texts n fs else []))))"

definition is_field :: "string \<Rightarrow> string \<Rightarrow> bool" where
  "is_field name k = (k = name \<or> fold_name k = fold_name name)"

text \<open>The last member that matches the field, none for a field that was never set.\<close>

definition raw_field :: "string \<Rightarrow> string \<Rightarrow> string option" where
  "raw_field name body =
     (case skip_ws body of
        c # cs \<Rightarrow> if c = CHR ''{'' then
            map_option snd (find (\<lambda>(k, v). is_field name k) (rev (member_texts (length body) cs)))
          else None
      | [] \<Rightarrow> None)"

section \<open>The request\<close>

record claudeRequest =
  clr_messages :: "string list"
  clr_tools :: "string list"

definition dec_claude_request :: "claudeRequest dec" where
  "dec_claude_request = dec_struct [
     (''system'', \<lambda>j r. (r, False)),
     (''messages'', fld clr_messages clr_messages_update (dec_list [] (dec_struct [(''role'', dec_string)]))),
     (''tools'', fld clr_tools clr_tools_update (dec_list [] (dec_struct [(''name'', dec_string)])))]"

definition readToolNames :: "string list" where
  "readToolNames = [''Read'', ''Grep'', ''Glob'']"

definition writeToolNames :: "string list" where
  "writeToolNames = [''Write'', ''Edit'']"

definition detectPlanMode :: "string list \<Rightarrow> bool" where
  "detectPlanMode tools =
     (if tools = [] then False
      else list_ex (\<lambda>t. t \<in> set readToolNames) tools \<and> \<not> list_ex (\<lambda>t. t \<in> set writeToolNames) tools)"

section \<open>The response\<close>

record claudeResponse =
  cla_stop_reason :: string
  cla_content :: "(string \<times> string) list"

definition dec_block_head :: "(string \<times> string) dec" where
  "dec_block_head = dec_struct [(''type'', fld fst apfst dec_string), (''name'', fld snd apsnd dec_string)]"

definition dec_claude_response :: "claudeResponse dec" where
  "dec_claude_response = dec_struct [
     (''stop_reason'', fld cla_stop_reason cla_stop_reason_update dec_string),
     (''content'', fld cla_content cla_content_update (dec_list ([], []) dec_block_head))]"

definition claude_isSSEResponse :: "string \<Rightarrow> bool" where
  "claude_isSSEResponse body = (let trimmed = trim_left_set sse_ws body in
     has_prefix trimmed ''event:'' \<or> has_prefix trimmed ''data:'')"

record claude_scan =
  csc_event :: string
  csc_resp :: claudeResponse

definition claude_stream_line :: "string \<Rightarrow> claude_scan \<Rightarrow> claude_scan" where
  "claude_stream_line line st =
     (if has_prefix line ''event: '' then st\<lparr>csc_event := trim_prefix line ''event: ''\<rparr>
      else if \<not> has_prefix line ''data: '' then st
      else let data = trim_prefix line ''data: ''; resp = csc_resp st in
        if csc_event st = ''content_block_start'' then
          (case unmarshal (dec_struct [(''content_block'', dec_block_head)]) data ([], []) of
             Inl _ \<Rightarrow> st
           | Inr b \<Rightarrow> st\<lparr>csc_resp := resp\<lparr>cla_content := cla_content resp @ [b]\<rparr>\<rparr>)
        else if csc_event st = ''message_delta'' then
          (case unmarshal (dec_struct [(''delta'', dec_struct [(''stop_reason'', dec_string)])]) data [] of
             Inl _ \<Rightarrow> st
           | Inr r \<Rightarrow> if r \<noteq> [] then st\<lparr>csc_resp := resp\<lparr>cla_stop_reason := r\<rparr>\<rparr> else st)
        else st)"

definition parseSSEResponse :: "string \<Rightarrow> claudeResponse" where
  "parseSSEResponse body = csc_resp (fold claude_stream_line (scan_lines body)
     \<lparr>csc_event = [], csc_resp = \<lparr>cla_stop_reason = [], cla_content = []\<rparr>\<rparr>)"

section \<open>The metadata\<close>

record RequestMetadata =
  rm_message_count :: int
  rm_user_message_count :: int
  rm_assistant_message_count :: int
  rm_tool_names :: "string list"
  rm_tool_use_count :: int
  rm_has_thinking :: bool
  rm_is_plan_mode :: bool
  rm_stop_reason :: string
  rm_system_prompt_hash :: string

definition system_hash :: "string \<Rightarrow> string" where
  "system_hash reqBody = (case raw_field ''system'' reqBody of
     Some sys \<Rightarrow> if sys \<noteq> [] \<and> sys \<noteq> ''null'' then hex_encode (Sum256 sys) else []
   | None \<Rightarrow> [])"

definition tool_uses :: "(string \<times> string) list \<Rightarrow> (string \<times> string) list" where
  "tool_uses blocks = filter (\<lambda>b. fst b = ''tool_use'') blocks"

definition build_metadata :: "string \<Rightarrow> claudeRequest \<Rightarrow> claudeResponse \<Rightarrow> RequestMetadata" where
  "build_metadata reqBody req resp = \<lparr>
     rm_message_count = int (length (clr_messages req)),
     rm_user_message_count = int (length (filter (\<lambda>r. r = ''user'') (clr_messages req))),
     rm_assistant_message_count = int (length (filter (\<lambda>r. r = ''assistant'') (clr_messages req))),
     rm_tool_names = sort (remdups (filter (\<lambda>n. n \<noteq> []) (map snd (tool_uses (cla_content resp))))),
     rm_tool_use_count = int (length (tool_uses (cla_content resp))),
     rm_has_thinking = list_ex (\<lambda>b. fst b = ''thinking'') (cla_content resp),
     rm_is_plan_mode = detectPlanMode (clr_tools req),
     rm_stop_reason = cla_stop_reason resp,
     rm_system_prompt_hash = system_hash reqBody\<rparr>"

definition ParseRequestResponse :: "string \<Rightarrow> string \<Rightarrow> err + RequestMetadata" where
  "ParseRequestResponse reqBody respBody =
     (case unmarshal dec_claude_request reqBody \<lparr>clr_messages = [], clr_tools = []\<rparr> of
        Inl e \<Rightarrow> Inl (ErrWrap ''parsing request body'' e)
      | Inr req \<Rightarrow>
          if claude_isSSEResponse respBody then Inr (build_metadata reqBody req (parseSSEResponse respBody))
          else (case unmarshal dec_claude_response respBody \<lparr>cla_stop_reason = [], cla_content = []\<rparr> of
                  Inl e \<Rightarrow> Inl (ErrWrap ''parsing response body'' e)
                | Inr resp \<Rightarrow> Inr (build_metadata reqBody req resp)))"


section \<open>The two forms of a response\<close>

text \<open>The members of a block that the program reads, a response written as one document, and the same
  response written as the events of a stream.\<close>

definition enc_block_head :: "string \<times> string \<Rightarrow> json" where
  "enc_block_head b = JObj [(''type'', enc_string (fst b)), (''name'', enc_string (snd b))]"

definition plain_doc :: "(string \<times> string) list \<Rightarrow> string \<Rightarrow> json" where
  "plain_doc blocks stop = JObj [(''stop_reason'', enc_string stop), (''content'', JArr (map enc_block_head blocks))]"

definition start_event :: "string \<times> string \<Rightarrow> string list" where
  "start_event b = [''event: content_block_start'',
     ''data: '' @ marshal (JObj [(''content_block'', enc_block_head b)])]"

definition delta_event :: "string \<Rightarrow> string list" where
  "delta_event stop = [''event: message_delta'',
     ''data: '' @ marshal (JObj [(''delta'', JObj [(''stop_reason'', enc_string stop)])])]"

definition stream_lines :: "(string \<times> string) list \<Rightarrow> string \<Rightarrow> string list" where
  "stream_lines blocks stop = concat (map start_event blocks) @ delta_event stop"

definition stream_body :: "(string \<times> string) list \<Rightarrow> string \<Rightarrow> string" where
  "stream_body blocks stop = concat (map (\<lambda>l. l @ [CHR 0x0A]) (stream_lines blocks stop))"

definition valid_block :: "string \<times> string \<Rightarrow> bool" where
  "valid_block b = (valid_utf8 (fst b) \<and> valid_utf8 (snd b))"

lemma claude_literals [simp]:
  "unquote ''type'' = ''type''" "unquote ''name'' = ''name''" "unquote ''stop_reason'' = ''stop_reason''"
  "unquote ''content'' = ''content''" "unquote ''content_block'' = ''content_block''" "unquote ''delta'' = ''delta''"
  "esc_html ''type'' = ''type''" "esc_html ''name'' = ''name''" "esc_html ''stop_reason'' = ''stop_reason''"
  "esc_html ''content'' = ''content''" "esc_html ''content_block'' = ''content_block''" "esc_html ''delta'' = ''delta''"
  "wf_raw ''type''" "wf_raw ''name''" "wf_raw ''stop_reason''" "wf_raw ''content''" "wf_raw ''content_block''"
  "wf_raw ''delta''"
  by (simp_all add: unquote_def is_html_def is_line_sep_def wf_raw_def str_step_def)

lemma dec_block_head_enc [simp]:
  "valid_block b \<Longrightarrow> dec_block_head (esc_json (enc_block_head b)) v = (b, False)"
  by (simp add: dec_block_head_def enc_block_head_def dec_struct_def find_field_def fld_def valid_block_def
      del: esc_html.simps unquote_from.simps)

lemma wf_block_head: "valid_block b \<Longrightarrow> 0 < d \<Longrightarrow> wf_json d (enc_block_head b)"
  by (simp add: enc_block_head_def valid_block_def)

lemma dec_blocks_enc:
  "\<forall>b \<in> set blocks. valid_block b \<Longrightarrow>
   dec_elems zero dec_block_head (map (esc_json \<circ> enc_block_head) blocks) vs = (blocks, False)"
  by (induction blocks arbitrary: vs) auto

lemma plain_response:
  assumes "\<forall>b \<in> set blocks. valid_block b" "valid_utf8 stop"
  shows "unmarshal dec_claude_response (marshal (plain_doc blocks stop)) \<lparr>cla_stop_reason = [], cla_content = []\<rparr>
    = Inr \<lparr>cla_stop_reason = stop, cla_content = blocks\<rparr>"
proof -
  have wf: "wf_json max_nesting_depth (plain_doc blocks stop)"
    using assms by (simp add: plain_doc_def max_nesting_depth_def wf_block_head)
  show ?thesis
    unfolding unmarshal_marshal [OF wf]
    using assms by (simp add: plain_doc_def dec_claude_response_def dec_struct_def find_field_def fld_def
        dec_list_def dec_blocks_enc del: esc_html.simps unquote_from.simps)
qed

text \<open>No line of the stream holds a line end or a carriage return.\<close>

lemma str_ok_printable: "str_ok st l \<Longrightarrow> c \<in> set l \<Longrightarrow> 32 \<le> (of_char c :: nat)"
proof (induction l arbitrary: st)
  case (Cons x l)
  have "32 \<le> (of_char x :: nat)" if "str_step st x \<noteq> None"
    using that by (auto simp: str_step_def is_hex_def is_simple_escape_def split: if_splits)
  then show ?case using Cons by (auto split: option.splits)
qed simp

definition one_line :: "string \<Rightarrow> bool" where
  "one_line l = (\<forall>c \<in> set l. 32 \<le> (of_char c :: nat))"

lemma one_line_append [simp]: "one_line (a @ b) = (one_line a \<and> one_line b)"
  by (auto simp: one_line_def)

lemma one_line_Cons [simp]: "one_line (c # b) = (32 \<le> (of_char c :: nat) \<and> one_line b)"
  by (auto simp: one_line_def)

lemma one_line_Nil [simp]: "one_line []"
  by (simp add: one_line_def)

lemma one_line_quote [simp]: "valid_utf8 s \<Longrightarrow> one_line (quote s)"
  unfolding one_line_def using str_ok_printable wf_raw_quote wf_raw_def by blast

lemma one_line_block [simp]: "valid_block b \<Longrightarrow> one_line (print_json (esc_json (enc_block_head b)))"
  by (simp add: enc_block_head_def enc_string_def print_str_def valid_block_def del: esc_html.simps)

lemma one_line_no_break: "one_line l \<Longrightarrow> CHR 0x0A \<notin> set l \<and> drop_cr l = l"
  by (cases l rule: rev_cases) (auto simp: one_line_def drop_cr_def)

lemma split_byte_line: "b \<notin> set l \<Longrightarrow> split_byte b (l @ b # r) = l # split_byte b r"
  by (induction l) auto

lemma scan_whole_lines:
  assumes "\<forall>l \<in> set ls. one_line l \<and> length l < max_scan_token"
  shows "scan_lines (concat (map (\<lambda>l. l @ [CHR 0x0A]) ls)) = ls"
proof -
  have split: "split_byte (CHR 0x0A) (concat (map (\<lambda>l. l @ [CHR 0x0A]) ls)) = ls @ [[]]"
    using assms by (induction ls) (auto simp: split_byte_line one_line_no_break)
  have take: "takeWhile (\<lambda>l. length l < max_scan_token) ls = ls"
    using assms by (simp add: takeWhile_eq_all_conv)
  moreover have "map drop_cr ls = ls"
    using assms by (induction ls) (auto simp: one_line_no_break)
  ultimately show ?thesis
    by (simp add: scan_lines_def raw_lines_def split take)
qed

lemma stream_start:
  assumes "valid_block b"
  shows "fold claude_stream_line (start_event b) st
    = st\<lparr>csc_event := ''content_block_start'',
         csc_resp := (csc_resp st)\<lparr>cla_content := cla_content (csc_resp st) @ [b]\<rparr>\<rparr>"
proof -
  have wf: "wf_json max_nesting_depth (JObj [(''content_block'', enc_block_head b)])"
    using assms by (simp add: max_nesting_depth_def wf_block_head)
  show ?thesis
    unfolding start_event_def using assms
    by (simp add: claude_stream_line_def trim_prefix_def unmarshal_marshal [OF wf] Let_def
        dec_struct_def [of "[(''content_block'', dec_block_head)]"] find_field_def
        del: esc_html.simps unquote_from.simps)
qed

lemma stream_delta:
  assumes "valid_utf8 stop" "stop \<noteq> []"
  shows "fold claude_stream_line (delta_event stop) st
    = st\<lparr>csc_event := ''message_delta'', csc_resp := (csc_resp st)\<lparr>cla_stop_reason := stop\<rparr>\<rparr>"
proof -
  have wf: "wf_json max_nesting_depth (JObj [(''delta'', JObj [(''stop_reason'', enc_string stop)])])"
    using assms by (simp add: max_nesting_depth_def)
  show ?thesis
    unfolding delta_event_def using assms
    by (simp add: claude_stream_line_def trim_prefix_def unmarshal_marshal [OF wf]
        dec_struct_def find_field_def del: esc_html.simps unquote_from.simps)
qed

lemma stream_starts:
  "\<forall>b \<in> set blocks. valid_block b \<Longrightarrow>
   csc_resp (fold claude_stream_line (concat (map start_event blocks)) st)
     = (csc_resp st)\<lparr>cla_content := cla_content (csc_resp st) @ blocks\<rparr>"
  by (induction blocks arbitrary: st) (simp_all add: stream_start)

lemma stream_response:
  assumes blocks: "\<forall>b \<in> set blocks. valid_block b" and stop: "valid_utf8 stop" "stop \<noteq> []"
    and short: "\<forall>l \<in> set (stream_lines blocks stop). length l < max_scan_token"
  shows "parseSSEResponse (stream_body blocks stop) = \<lparr>cla_stop_reason = stop, cla_content = blocks\<rparr>"
proof -
  have "one_line l" if "l \<in> set (stream_lines blocks stop)" for l
    using that blocks stop
    by (auto simp: stream_lines_def start_event_def delta_event_def marshal_def print_str_def enc_string_def
        split: if_splits simp del: esc_html.simps)
  then have "scan_lines (stream_body blocks stop) = stream_lines blocks stop"
    unfolding stream_body_def using short scan_whole_lines by blast
  then show ?thesis
    by (simp add: parseSSEResponse_def stream_lines_def stream_delta [OF stop] stream_starts [OF blocks])
qed

lemma stream_is_sse: "claude_isSSEResponse (stream_body blocks stop)"
  by (cases blocks)
     (simp_all add: claude_isSSEResponse_def stream_body_def stream_lines_def start_event_def delta_event_def
        trim_left_set_def sse_ws_def)

lemma plain_is_not_sse: "\<not> claude_isSSEResponse (marshal (plain_doc blocks stop))"
  by (simp add: claude_isSSEResponse_def plain_doc_def marshal_def trim_left_set_def sse_ws_def
      del: esc_html.simps)

text \<open>C35: A Claude Code response yields the same metadata whether it arrives as one JSON document or as
  the event stream that carries the same blocks and stop reason, for any names with valid UTF-8 and a
  stop reason that is there, as long as no line reaches the 65536 bytes at which the scanner stops.\<close>

theorem stream_same_metadata:
  assumes "\<forall>b \<in> set blocks. valid_utf8 (fst b) \<and> valid_utf8 (snd b)" "valid_utf8 stop" "stop \<noteq> []"
    and "\<forall>l \<in> set (stream_lines blocks stop). length l < 65536"
  shows "ParseRequestResponse reqBody (stream_body blocks stop)
    = ParseRequestResponse reqBody (marshal (plain_doc blocks stop))"
proof -
  have blocks: "\<forall>b \<in> set blocks. valid_block b" using assms(1) by (simp add: valid_block_def)
  show ?thesis
    using plain_response [OF blocks assms(2)] stream_response [OF blocks assms(2,3)] assms(4)
    by (simp add: ParseRequestResponse_def stream_is_sse plain_is_not_sse max_scan_token_def split: sum.split)
qed

theorem stream_same_metadata_witness:
  "ParseRequestResponse ''{}'' (stream_body [(''thinking'', []), (''tool_use'', ''Grep'')] ''end_turn'')
    = ParseRequestResponse ''{}'' (marshal (plain_doc [(''thinking'', []), (''tool_use'', ''Grep'')] ''end_turn''))"
proof (rule stream_same_metadata)
  show "\<forall>l \<in> set (stream_lines [(''thinking'', []), (''tool_use'', ''Grep'')] ''end_turn''). length l < 65536"
    by (simp add: stream_lines_def start_event_def delta_event_def marshal_def enc_block_head_def enc_string_def
        print_str_def quote_def quote_ascii_def is_html_def is_line_sep_def)
  show "valid_utf8 ''end_turn''" by code_simp
  show "\<forall>b \<in> set [(''thinking'', []), (''tool_use'', ''Grep'')]. valid_utf8 (fst b) \<and> valid_utf8 (snd b)"
    by code_simp
qed simp

lemma be_bytes_length [simp]: "length (Go_Crypto.be_bytes k n) = k"
  by (induction k arbitrary: n) auto

lemma hex_encode_length [simp]: "length (hex_encode bs) = 2 * length bs"
  by (induction bs) auto

lemma sha_round_length: "length st = 8 \<Longrightarrow> length (sha_round st kw) = 8"
  by (cases "(st, kw)" rule: sha_round.cases) (auto simp: Let_def)

lemma sha_rounds_length: "length st = 8 \<Longrightarrow> length (foldl sha_round st kws) = 8"
  by (induction kws arbitrary: st) (auto simp: sha_round_length)

lemma sha_blocks_length: "length st = 8 \<Longrightarrow> length (sha_blocks n st bs) = 8"
  by (induction n arbitrary: st bs) (auto simp: sha_block_def sha_rounds_length)

lemma Sum256_length [simp]: "length (Sum256 m) = 32"
  by (simp add: Sum256_def Let_def length_concat comp_def sha_blocks_length sha_iv_def sum_list_triv)

text \<open>The metadata is consistent: the user and assistant messages are among the messages, the tool
  names are the distinct non-empty names of the tool_use blocks in ascending order, so never more
  than there are uses, and plan mode means that a read tool is offered and no write tool is.\<close>

theorem metadata_consistent:
  assumes "ParseRequestResponse reqBody respBody = Inr m"
  shows "rm_user_message_count m + rm_assistant_message_count m \<le> rm_message_count m
    \<and> sorted (rm_tool_names m) \<and> distinct (rm_tool_names m) \<and> [] \<notin> set (rm_tool_names m)
    \<and> int (length (rm_tool_names m)) \<le> rm_tool_use_count m
    \<and> (rm_tool_use_count m = 0 \<longrightarrow> rm_tool_names m = [])
    \<and> (rm_system_prompt_hash m = [] \<or> length (rm_system_prompt_hash m) = 64)"
proof -
  obtain req resp where m: "m = build_metadata reqBody req resp"
    using assms by (auto simp: ParseRequestResponse_def split: sum.splits if_splits)
  have roles: "length (filter (\<lambda>r. r = ''user'') rs) + length (filter (\<lambda>r. r = ''assistant'') rs) \<le> length rs"
    for rs :: "string list"
    by (induction rs) auto
  have names: "length (rm_tool_names m) \<le> length (tool_uses (cla_content resp))"
    using le_trans [OF length_remdups_leq length_filter_le, of "\<lambda>n. n \<noteq> []" "map snd (tool_uses (cla_content resp))"]
    by (simp add: m build_metadata_def)
  show ?thesis
    using roles [of "clr_messages req"] names
    by (auto simp: m build_metadata_def system_hash_def split: option.splits)
qed

theorem metadata_consistent_witness:
  "sorted (rm_tool_names (build_metadata [] \<lparr>clr_messages = [], clr_tools = []\<rparr>
     \<lparr>cla_stop_reason = [], cla_content = []\<rparr>))"
proof -
  have "ParseRequestResponse ''{}'' ''{}'' = Inr (build_metadata [] \<lparr>clr_messages = [], clr_tools = []\<rparr>
     \<lparr>cla_stop_reason = [], cla_content = []\<rparr>)"
    by code_simp
  then show ?thesis using metadata_consistent by blast
qed

end
