(* ===== verification/Config.thy ===== *)
theory Config
  imports Go_Json
begin

text \<open>
  The configuration (internal/config/config.go): its structs, the defaults, the connection string and
  the effective limits of stored bodies, and Load with the variables of the environment; how the viper library reads a
  number, a switch or a duration is a parameter.
\<close>

record StewardConfig =
  sc_butler_base_url :: string
  sc_steward_token :: string
  sc_org_id :: uuid
  sc_batch_interval :: duration
  sc_batch_max_size :: int
  sc_work_tick_interval :: duration
  sc_work_tick_limit :: int

record ManagedConfig =
  mc_enabled :: bool
  mc_master_token :: string
  mc_butler_url :: string
  mc_poll_interval :: duration

record ServerConfig =
  sv_host :: string
  sv_port :: int
  sv_read_timeout :: duration
  sv_write_timeout :: duration
  sv_upstream_timeout :: duration
  sv_stream_header_timeout :: duration

record PostgresConfig =
  pg_host :: string
  pg_port :: int
  pg_user :: string
  pg_password :: string
  pg_database :: string
  pg_sslmode :: string
  pg_max_conns :: int

record StorageConfig =
  st_driver :: string
  st_postgres :: PostgresConfig

record LoggingConfig =
  lg_level :: string
  lg_store_request_body :: bool
  lg_store_response_body :: bool
  lg_max_body_size :: int
  lg_max_request_body_size :: int
  lg_max_response_body_size :: int
  lg_body_storage :: string

record PricingConfig =
  pc_remote_url :: string
  pc_refresh_interval :: duration
  pc_fallback_file :: string
  pc_aliases_file :: string
  pc_deprecated_models_file :: string

record ProvidersConfig =
  pv_openai :: string
  pv_anthropic :: string
  pv_gemini :: string
  pv_fireworks :: string
  pv_together :: string

record MetadataConfig =
  md_hll_flush_interval :: duration
  md_active_keys_cache_ttl :: duration

record SecretsConfig =
  sec_encryption_key :: string
  sec_admin_token :: string

record Config =
  cfg_server :: ServerConfig
  cfg_storage :: StorageConfig
  cfg_logging :: LoggingConfig
  cfg_pricing :: PricingConfig
  cfg_providers :: ProvidersConfig
  cfg_metadata :: MetadataConfig
  cfg_secrets :: SecretsConfig
  cfg_upstream :: StewardConfig
  cfg_managed :: ManagedConfig

definition DSN :: "PostgresConfig \<Rightarrow> string" where
  "DSN p = ''postgres://'' @ pg_user p @ '':'' @ pg_password p @ ''@'' @ pg_host p @ '':'' @ itoa (pg_port p)
     @ ''/'' @ pg_database p @ ''?sslmode='' @ pg_sslmode p"

text \<open>Nothing is escaped: two configurations can have one connection string.\<close>

lemma DSN_ambiguous:
  "DSN (p\<lparr>pg_password := ''a'', pg_host := ''b@c''\<rparr>) = DSN (p\<lparr>pg_password := ''a@b'', pg_host := ''c''\<rparr>)"
  by (simp add: DSN_def)

definition EffectiveMaxRequestBodySize :: "LoggingConfig \<Rightarrow> int" where
  "EffectiveMaxRequestBodySize l =
     (if lg_max_request_body_size l > 0 then lg_max_request_body_size l
      else if lg_max_body_size l > 0 then lg_max_body_size l else 65536)"

definition EffectiveMaxResponseBodySize :: "LoggingConfig \<Rightarrow> int" where
  "EffectiveMaxResponseBodySize l =
     (if lg_max_response_body_size l > 0 then lg_max_response_body_size l
      else if lg_max_body_size l > 0 then lg_max_body_size l else 65536)"

text \<open>What Load returns in an empty environment.\<close>

abbreviation seconds :: "int \<Rightarrow> duration" where "seconds n \<equiv> n * 1000000000"

definition setDefaults :: Config where
  "setDefaults = \<lparr>
     cfg_server = \<lparr>sv_host = ''0.0.0.0'', sv_port = 7680, sv_read_timeout = seconds 30,
       sv_write_timeout = seconds 600, sv_upstream_timeout = seconds 600, sv_stream_header_timeout = 0\<rparr>,
     cfg_storage = \<lparr>st_driver = ''postgres'', st_postgres = \<lparr>pg_host = ''localhost'', pg_port = 5432,
       pg_user = [], pg_password = [], pg_database = ''majordomo_steward'', pg_sslmode = ''disable'',
       pg_max_conns = 20\<rparr>\<rparr>,
     cfg_logging = \<lparr>lg_level = ''info'', lg_store_request_body = False, lg_store_response_body = False,
       lg_max_body_size = 65536, lg_max_request_body_size = 65536, lg_max_response_body_size = 65536,
       lg_body_storage = ''none''\<rparr>,
     cfg_pricing = \<lparr>pc_remote_url = ''https://www.llm-prices.com/current-v1.json'',
       pc_refresh_interval = seconds 3600, pc_fallback_file = ''./pricing.json'',
       pc_aliases_file = ''./model_aliases.json'', pc_deprecated_models_file = ''./deprecated_models.json''\<rparr>,
     cfg_providers = \<lparr>pv_openai = ''https://api.openai.com'', pv_anthropic = ''https://api.anthropic.com'',
       pv_gemini = ''https://generativelanguage.googleapis.com'',
       pv_fireworks = ''https://api.fireworks.ai/inference'', pv_together = ''https://api.together.xyz''\<rparr>,
     cfg_metadata = \<lparr>md_hll_flush_interval = seconds 60, md_active_keys_cache_ttl = seconds 300\<rparr>,
     cfg_secrets = \<lparr>sec_encryption_key = [], sec_admin_token = []\<rparr>,
     cfg_upstream = \<lparr>sc_butler_base_url = [], sc_steward_token = [], sc_org_id = 0,
       sc_batch_interval = seconds 60, sc_batch_max_size = 500, sc_work_tick_interval = seconds 30,
       sc_work_tick_limit = 25\<rparr>,
     cfg_managed = \<lparr>mc_enabled = False, mc_master_token = [], mc_butler_url = [],
       mc_poll_interval = seconds 30\<rparr>\<rparr>"

section \<open>Reading the environment\<close>

text \<open>The texts of numbers, switches and durations are read by the library.\<close>

record casts =
  cast_int :: "string \<Rightarrow> err + int"
  cast_bool :: "string \<Rightarrow> err + bool"
  cast_duration :: "string \<Rightarrow> err + duration"

definition bind :: "(string \<Rightarrow> err + 'a) \<Rightarrow> (('a \<Rightarrow> 'a) \<Rightarrow> Config \<Rightarrow> Config) \<Rightarrow> string \<Rightarrow> Config \<Rightarrow> err + Config" where
  "bind parse upd v cfg = (case parse v of Inl e \<Rightarrow> Inl e | Inr x \<Rightarrow> Inr (upd (\<lambda>_. x) cfg))"

definition bindEnv :: "casts \<Rightarrow> (string \<times> (string \<Rightarrow> Config \<Rightarrow> err + Config)) list" where
  "bindEnv L = [
     (''HOST'', bind Inr (cfg_server_update \<circ> sv_host_update)),
     (''PORT'', bind (cast_int L) (cfg_server_update \<circ> sv_port_update)),
     (''READ_TIMEOUT'', bind (cast_duration L) (cfg_server_update \<circ> sv_read_timeout_update)),
     (''WRITE_TIMEOUT'', bind (cast_duration L) (cfg_server_update \<circ> sv_write_timeout_update)),
     (''UPSTREAM_TIMEOUT'', bind (cast_duration L) (cfg_server_update \<circ> sv_upstream_timeout_update)),
     (''STREAM_HEADER_TIMEOUT'', bind (cast_duration L) (cfg_server_update \<circ> sv_stream_header_timeout_update)),
     (''POSTGRES_HOST'', bind Inr (cfg_storage_update \<circ> st_postgres_update \<circ> pg_host_update)),
     (''POSTGRES_PORT'', bind (cast_int L) (cfg_storage_update \<circ> st_postgres_update \<circ> pg_port_update)),
     (''POSTGRES_USER'', bind Inr (cfg_storage_update \<circ> st_postgres_update \<circ> pg_user_update)),
     (''POSTGRES_PASSWORD'', bind Inr (cfg_storage_update \<circ> st_postgres_update \<circ> pg_password_update)),
     (''POSTGRES_DB'', bind Inr (cfg_storage_update \<circ> st_postgres_update \<circ> pg_database_update)),
     (''POSTGRES_SSLMODE'', bind Inr (cfg_storage_update \<circ> st_postgres_update \<circ> pg_sslmode_update)),
     (''POSTGRES_MAX_CONNS'', bind (cast_int L) (cfg_storage_update \<circ> st_postgres_update \<circ> pg_max_conns_update)),
     (''LOG_LEVEL'', bind Inr (cfg_logging_update \<circ> lg_level_update)),
     (''LOG_STORE_REQUEST_BODY'', bind (cast_bool L) (cfg_logging_update \<circ> lg_store_request_body_update)),
     (''LOG_STORE_RESPONSE_BODY'', bind (cast_bool L) (cfg_logging_update \<circ> lg_store_response_body_update)),
     (''LOG_MAX_REQUEST_BODY_SIZE'', bind (cast_int L) (cfg_logging_update \<circ> lg_max_request_body_size_update)),
     (''LOG_MAX_RESPONSE_BODY_SIZE'', bind (cast_int L) (cfg_logging_update \<circ> lg_max_response_body_size_update)),
     (''LOG_BODY_STORAGE'', bind Inr (cfg_logging_update \<circ> lg_body_storage_update)),
     (''PRICING_REMOTE_URL'', bind Inr (cfg_pricing_update \<circ> pc_remote_url_update)),
     (''PRICING_REFRESH_INTERVAL'', bind (cast_duration L) (cfg_pricing_update \<circ> pc_refresh_interval_update)),
     (''PRICING_FALLBACK_FILE'', bind Inr (cfg_pricing_update \<circ> pc_fallback_file_update)),
     (''PRICING_ALIASES_FILE'', bind Inr (cfg_pricing_update \<circ> pc_aliases_file_update)),
     (''DEPRECATED_MODELS_FILE'', bind Inr (cfg_pricing_update \<circ> pc_deprecated_models_file_update)),
     (''OPENAI_BASE_URL'', bind Inr (cfg_providers_update \<circ> pv_openai_update)),
     (''ANTHROPIC_BASE_URL'', bind Inr (cfg_providers_update \<circ> pv_anthropic_update)),
     (''GEMINI_BASE_URL'', bind Inr (cfg_providers_update \<circ> pv_gemini_update)),
     (''FIREWORKS_BASE_URL'', bind Inr (cfg_providers_update \<circ> pv_fireworks_update)),
     (''TOGETHER_BASE_URL'', bind Inr (cfg_providers_update \<circ> pv_together_update)),
     (''METADATA_HLL_FLUSH_INTERVAL'', bind (cast_duration L) (cfg_metadata_update \<circ> md_hll_flush_interval_update)),
     (''METADATA_ACTIVE_KEYS_CACHE_TTL'', bind (cast_duration L) (cfg_metadata_update \<circ> md_active_keys_cache_ttl_update)),
     (''ENCRYPTION_KEY'', bind Inr (cfg_secrets_update \<circ> sec_encryption_key_update)),
     (''STEWARD_ADMIN_TOKEN'', bind Inr (cfg_secrets_update \<circ> sec_admin_token_update)),
     (''BATCH_INTERVAL'', bind (cast_duration L) (cfg_upstream_update \<circ> sc_batch_interval_update)),
     (''BATCH_MAX_SIZE'', bind (cast_int L) (cfg_upstream_update \<circ> sc_batch_max_size_update)),
     (''WORK_TICK_INTERVAL'', bind (cast_duration L) (cfg_upstream_update \<circ> sc_work_tick_interval_update)),
     (''WORK_TICK_LIMIT'', bind (cast_int L) (cfg_upstream_update \<circ> sc_work_tick_limit_update)),
     (''MANAGED_ENABLED'', bind (cast_bool L) (cfg_managed_update \<circ> mc_enabled_update)),
     (''MANAGED_MASTER_TOKEN'', bind Inr (cfg_managed_update \<circ> mc_master_token_update)),
     (''MANAGED_BUTLER_URL'', bind Inr (cfg_managed_update \<circ> mc_butler_url_update)),
     (''MANAGED_POLL_INTERVAL'', bind (cast_duration L) (cfg_managed_update \<circ> mc_poll_interval_update))]"

text \<open>A variable that is unset, or empty, leaves the default; one that cannot be read is an error.\<close>

fun read_env :: "(string \<rightharpoonup> string) \<Rightarrow> (string \<times> (string \<Rightarrow> Config \<Rightarrow> err + Config)) list \<Rightarrow> Config \<Rightarrow> err + Config" where
  "read_env env [] cfg = Inr cfg"
| "read_env env ((name, set_field) # bs) cfg = (case env name of
     None \<Rightarrow> read_env env bs cfg
   | Some v \<Rightarrow> if v = [] then read_env env bs cfg
               else (case set_field v cfg of Inl e \<Rightarrow> Inl e | Inr cfg' \<Rightarrow> read_env env bs cfg'))"

definition Load :: "casts \<Rightarrow> (string \<rightharpoonup> string) \<Rightarrow> err + Config" where
  "Load L env = read_env env (bindEnv L) setDefaults"

lemma Load_empty: "Load L Map.empty = Inr setDefaults"
proof -
  have "read_env Map.empty bs cfg = Inr cfg" for bs cfg by (induction bs) auto
  then show ?thesis by (simp add: Load_def)
qed

text \<open>A field that one binding sets and no other touches has the value of its variable.\<close>

definition leaves :: "(Config \<Rightarrow> 'a) \<Rightarrow> (string \<Rightarrow> Config \<Rightarrow> err + Config) \<Rightarrow> bool" where
  "leaves get set_field = (\<forall>v c c'. set_field v c = Inr c' \<longrightarrow> get c' = get c)"

lemma leaves_bind: "(\<And>x c. get (upd (\<lambda>_. x) c) = get c) \<Longrightarrow> leaves get (bind parse upd)"
  by (auto simp: leaves_def bind_def split: sum.splits)

lemma read_env_keeps:
  assumes "list_all (\<lambda>(name, set_field). leaves get set_field) bs" "read_env env bs cfg = Inr cfg'"
  shows "get cfg' = get cfg"
  using assms
proof (induction bs arbitrary: cfg)
  case (Cons b bs)
  obtain name set_field where b: "b = (name, set_field)" by (cases b) auto
  have IH: "get cfg' = get c" if "read_env env bs c = Inr cfg'" for c
    by (rule Cons.IH) (use Cons.prems(1) that in simp_all)
  have "get c' = get c" if "set_field v c = Inr c'" for v c c'
    using Cons.prems(1) that by (auto simp: b leaves_def)
  then show ?case using Cons.prems(2) IH by (force simp: b split: option.splits if_splits sum.splits)
qed simp

lemma read_env_append: "read_env env (xs @ ys) cfg = (case read_env env xs cfg of Inl e \<Rightarrow> Inl e | Inr c \<Rightarrow> read_env env ys c)"
  by (induction xs arbitrary: cfg) (auto split: option.split sum.split)

lemma Load_secret:
  assumes "Load L env = Inr cfg"
  shows "sec_encryption_key (cfg_secrets cfg) = (case env ''ENCRYPTION_KEY'' of None \<Rightarrow> [] | Some v \<Rightarrow> v)"
    "sec_admin_token (cfg_secrets cfg) = (case env ''STEWARD_ADMIN_TOKEN'' of None \<Rightarrow> [] | Some v \<Rightarrow> v)"
proof -
  let ?key = "(''ENCRYPTION_KEY'', bind Inr (cfg_secrets_update \<circ> sec_encryption_key_update))"
  let ?token = "(''STEWARD_ADMIN_TOKEN'', bind Inr (cfg_secrets_update \<circ> sec_admin_token_update))"
  let ?leaves = "list_all (\<lambda>(name, set_field). leaves cfg_secrets set_field)"
  obtain pre post where b: "bindEnv L = pre @ ?key # ?token # post" "?leaves pre" "?leaves post"
  proof
    show "bindEnv L = take 31 (bindEnv L) @ ?key # ?token # drop 33 (bindEnv L)" by (simp add: bindEnv_def)
    show "?leaves (take 31 (bindEnv L))" "?leaves (drop 33 (bindEnv L))" by (simp_all add: bindEnv_def leaves_bind)
  qed
  obtain c1 where 1: "read_env env pre setDefaults = Inr c1" "read_env env (?key # ?token # post) c1 = Inr cfg"
    using assms by (cases "read_env env pre setDefaults") (simp_all add: Load_def b(1) read_env_append)
  have pre: "cfg_secrets c1 = cfg_secrets setDefaults" by (rule read_env_keeps [OF b(2) 1(1)])
  have post: "read_env env post c = Inr cfg \<Longrightarrow> cfg_secrets cfg = cfg_secrets c" for c
    by (rule read_env_keeps [OF b(3)])
  show "sec_encryption_key (cfg_secrets cfg) = (case env ''ENCRYPTION_KEY'' of None \<Rightarrow> [] | Some v \<Rightarrow> v)"
    "sec_admin_token (cfg_secrets cfg) = (case env ''STEWARD_ADMIN_TOKEN'' of None \<Rightarrow> [] | Some v \<Rightarrow> v)"
    using 1(2) pre by (auto simp: bind_def setDefaults_def split: option.splits if_splits dest!: post)
qed

end
