(* ===== verification/Go_Time.thy ===== *)
theory Go_Time
  imports Prelude Go_Json
begin

text \<open>
  The formats of package time that the program writes, for an instant in UTC given as nanoseconds
  since the epoch.
\<close>

definition pad :: "nat \<Rightarrow> nat \<Rightarrow> string" where
  "pad w n = (let d = nat_digits n in replicate (w - length d) CHR ''0'' @ d)"

text \<open>Year, month and day of a day number since the epoch (Gregorian calendar, eras of 400 years that
  start in March).\<close>

definition civil_from_days :: "int \<Rightarrow> int \<times> int \<times> int" where
  "civil_from_days day =
     (let z = day + 719468; era = z div 146097; doe = z mod 146097;
          yoe = (doe - doe div 1460 + doe div 36524 - doe div 146096) div 365;
          doy = doe - (365 * yoe + yoe div 4 - yoe div 100);
          mp = (5 * doy + 2) div 153;
          d = doy - (153 * mp + 2) div 5 + 1;
          m = (if mp < 10 then mp + 3 else mp - 9);
          y = yoe + era * 400 + (if m \<le> 2 then 1 else 0)
      in (y, m, d))"

definition second_ns :: int where "second_ns = 1000000000"
definition day_ns :: int where "day_ns = 86400 * second_ns"

definition fmt_date :: "time \<Rightarrow> string" where
  "fmt_date t = (case civil_from_days (t div day_ns) of
     (y, m, d) \<Rightarrow> pad 4 (nat y) @ ''-'' @ pad 2 (nat m) @ ''-'' @ pad 2 (nat d))"

definition fmt_clock :: "time \<Rightarrow> string" where
  "fmt_clock t = (let s = t mod day_ns div second_ns in
     pad 2 (nat (s div 3600)) @ '':'' @ pad 2 (nat (s div 60 mod 60)) @ '':'' @ pad 2 (nat (s mod 60)))"

definition fmt_rfc3339 :: "time \<Rightarrow> string" where
  "fmt_rfc3339 t = fmt_date t @ ''T'' @ fmt_clock t @ ''Z''"

text \<open>The fraction of RFC3339Nano drops trailing zeros.\<close>

definition fmt_fraction :: "time \<Rightarrow> string" where
  "fmt_fraction t = (let f = nat (t mod second_ns) in
     if f = 0 then [] else CHR ''.'' # rev (dropWhile (\<lambda>c. c = CHR ''0'') (rev (pad 9 f))))"

definition fmt_rfc3339nano :: "time \<Rightarrow> string" where
  "fmt_rfc3339nano t = fmt_date t @ ''T'' @ fmt_clock t @ fmt_fraction t @ ''Z''"

end
