(* ===== verification/Proxy_Handler.thy ===== *)
theory Proxy_Handler
  imports Proxy_Http Cloud_Storage Claude_Code Translator Pricing Experiment_Store Config Go_Time
begin

text \<open>
  The proxy handler (internal/proxy/handler.go): a request is authenticated, its provider detected, a
  policy applied, a proxy key exchanged, the model rewritten, the request sent upstream and the answer
  relayed; a background task then writes the log. Every stage is a function of the handler's state.
  It answers the client (Reply), panics (Crash) or goes on (Go). What it does to the outside is
  recorded in order in the trace: the requests sent upstream and the background tasks started.

  The handler's parts that are nil or not in the source are options and booleans of the record
  handler, and the transport, the compressor, the policy, the number format of JSON floats and the texts
  of identifiers are functions in it. A clock reading is numbered by its place in the code.
\<close>

section \<open>Types\<close>

datatype reply_body = ErrorMessage string | UnknownPath string string | Payload string

record http_reply =
  rp_status :: int
  rp_header :: header
  rp_body :: reply_body

datatype 'a stage = Reply http_reply | Crash string | Go 'a

record PolicyViolation =
  pv_http_status :: int
  pv_message :: string

record PolicyContext =
  pcx_request_id :: uuid
  pcx_api_key_id :: uuid
  pcx_user_id :: "uuid option"
  pcx_org_id :: "uuid option"
  pcx_provider :: string
  pcx_request_body :: string
  pcx_custom_headers :: "(string \<times> string) list"

record EnrichmentEvent =
  een_request_id :: uuid
  een_api_key_id :: uuid
  een_user_id :: "uuid option"
  een_org_id :: "uuid option"
  een_provider :: string
  een_request_body :: string
  een_response_body :: string
  een_custom_headers :: "(string \<times> string) list"
  een_status_code :: int

record BodyUpload =
  bu_key :: string
  bu_request_id :: uuid
  bu_timestamp :: time
  bu_request_method :: string
  bu_request_path :: string
  bu_request_headers :: "(string \<times> string) list"
  bu_request_body :: string
  bu_response_status :: int
  bu_response_headers :: "(string \<times> string) list"
  bu_response_body :: string

text \<open>The arguments of the background task that writes the log.\<close>

record log_task =
  lt_request_id :: uuid
  lt_info :: APIKeyInfo
  lt_provider_key :: ProviderKeyInfo
  lt_proxy_key_id :: "uuid option"
  lt_session_id :: "uuid option"
  lt_session_name :: "string option"
  lt_is_claude :: bool
  lt_provider :: ProviderInfo
  lt_request :: http_request
  lt_body :: string
  lt_response :: UpstreamResponse
  lt_requested_at :: time
  lt_responded_at :: time
  lt_headers :: "(string \<times> string) list"
  lt_assignment :: "ExperimentAssignment option"
  lt_redirected :: bool
  lt_original_model :: string

datatype event = Sent UpstreamRequest | TouchKey uuid | TouchProxyKey uuid | Logging log_task

record ('c, 'p, 'd) handler =
  h_key_lru :: "'c key_cache"
  h_proxy_resolver :: "('p proxy_cache \<times> 'd prov_cache \<times> (string \<Rightarrow> err + string)) option"
  h_secret_store :: "(string \<Rightarrow> err + string) option"
  h_cloud_store :: bool
  h_user_storage :: bool
  h_session_mgr :: bool
  h_config :: Config
  h_deprecated :: "(string \<rightharpoonup> string) option"
  h_pricing :: PricingService
  h_router :: bool
  h_enforcer :: "(PolicyContext \<Rightarrow> PolicyViolation option) option"
  h_enricher :: bool
  h_send :: "UpstreamRequest \<Rightarrow> err + UpstreamAnswer"
  h_send_stream :: "UpstreamRequest \<Rightarrow> err + UpstreamAnswer"
  h_gzip :: "string \<Rightarrow> err + string"
  h_fmt_float :: "real \<Rightarrow> string"
  h_parse_uuid :: "string \<Rightarrow> uuid option"
  h_fmt_uuid :: "uuid \<Rightarrow> string"

text \<open>What one call brings: its identifier, the clock, the random draws of the router, and which chunks
  of a stream the client takes.\<close>

record call =
  ca_id :: uuid
  ca_clock :: "nat \<Rightarrow> time"
  ca_draw :: "int \<Rightarrow> int"
  ca_takes :: "nat \<Rightarrow> bool"

record ('c, 'p, 'd) proxy_state =
  px_keys :: KeyDB
  px_key_cache :: 'c
  px_proxy_cache :: "'p \<times> 'd"
  px_experiments :: ExperimentDB
  px_router_cache :: router_cache
  px_trace :: "event list"

type_synonym ('s, 'a) handler_op = "'s \<Rightarrow> 'a stage \<times> 's"

definition hbind :: "('s, 'a) handler_op \<Rightarrow> ('a \<Rightarrow> ('s, 'b) handler_op) \<Rightarrow> ('s, 'b) handler_op" where
  "hbind m f st = (case m st of
     (Go v, st') \<Rightarrow> f v st' | (Reply r, st') \<Rightarrow> (Reply r, st') | (Crash c, st') \<Rightarrow> (Crash c, st'))"

definition hpure :: "'a stage \<Rightarrow> ('s, 'a) handler_op" where
  "hpure v st = (v, st)"

definition json_error :: "header \<Rightarrow> int \<Rightarrow> reply_body \<Rightarrow> http_reply" where
  "json_error h code body = \<lparr>rp_status = code, rp_header = hset ''Content-Type'' ''application/json'' h, rp_body = body\<rparr>"

section \<open>Admission\<close>

text \<open>The Majordomo key. A valid entry of the cache without information would be a nil pointer.\<close>

definition authenticate :: "('c, 'p, 'd) handler \<Rightarrow> call \<Rightarrow> http_request \<Rightarrow> (('c, 'p, 'd) proxy_state, APIKeyInfo) handler_op" where
  "authenticate H C r st =
     (let res = ResolveAPIKey (h_key_lru H) GetAPIKeyByHash (ca_clock C 1) (ca_clock C 2)
                  (hget ''X-Majordomo-Key'' (hr_header r)) (px_key_cache st) (px_keys st);
          st' = st\<lparr>px_key_cache := res_cache res, px_keys := res_store res,
                   px_trace := px_trace st @ (case res_touch res of Some i \<Rightarrow> [TouchKey i] | None \<Rightarrow> [])\<rparr>
      in (case res_result res of
            Inl e \<Rightarrow> Reply (json_error [] 401 (ErrorMessage ''unauthorized''))
          | Inr None \<Rightarrow> Crash ''nil pointer dereference''
          | Inr (Some info) \<Rightarrow> Go info, st'))"

record opened =
  op_provider_key :: ProviderKeyInfo
  op_body :: string
  op_headers :: "(string \<times> string) list"
  op_request :: http_request
  op_provider :: ProviderInfo

definition bedrock_region_message :: string where
  "bedrock_region_message = ''Bedrock requests require either an X-Majordomo-Bedrock-Region header or a Host header of the form bedrock-runtime.<region>.amazonaws.com''"

definition bedrock_base_url :: "provider \<Rightarrow> string \<Rightarrow> string" where
  "bedrock_base_url p region =
     (if p = ProviderBedrockMantle then ''https://bedrock-mantle.'' @ region @ ''.api.aws/anthropic''
      else ''https://bedrock-runtime.'' @ region @ ''.amazonaws.com'')"

text \<open>The body is read, the path normalised, the provider detected and the region of Bedrock resolved.\<close>

definition open_request :: "http_request \<Rightarrow> opened stage" where
  "open_request r =
     (case hr_body r of
        Inl e \<Rightarrow> Reply (json_error [] 400 (ErrorMessage ''failed to read request body''))
      | Inr body \<Rightarrow>
          let headers = extractHeaders (hr_header r);
              r' = r\<lparr>hr_path := NormalizeOpenAIPath (hr_path r)\<rparr>;
              info = Detect (hr_path r') (map_of headers);
              opened = (\<lambda>i. \<lparr>op_provider_key = extractProviderKeyInfo (hr_header r), op_body = body,
                            op_headers = headers, op_request = r', op_provider = i\<rparr>)
          in if pi_provider info = ProviderUnknown then
               Reply (json_error [] 400 (UnknownPath (hr_path r') (hr_host r)))
             else if pi_provider info = ProviderBedrock \<or> pi_provider info = ProviderBedrockMantle then
               (case resolveBedrockRegion r' of
                  Ret (Some region) \<Rightarrow> Go (opened (info\<lparr>pi_base_url := bedrock_base_url (pi_provider info) region\<rparr>))
                | Ret None \<Rightarrow> Reply (json_error [] 400 (ErrorMessage bedrock_region_message))
                | Fail e \<Rightarrow> Crash ''unreachable''
                | Panic msg \<Rightarrow> Crash msg)
             else Go (opened info))"

definition enforce :: "('c, 'p, 'd) handler \<Rightarrow> call \<Rightarrow> APIKeyInfo \<Rightarrow> opened \<Rightarrow> unit stage" where
  "enforce H C info op =
     (case h_enforcer H of
        None \<Rightarrow> Go ()
      | Some policy \<Rightarrow>
          (case policy \<lparr>pcx_request_id = ca_id C, pcx_api_key_id = aki_id info, pcx_user_id = aki_user_id info,
                        pcx_org_id = aki_org_id info, pcx_provider = provider_name (pi_provider (op_provider op)),
                        pcx_request_body = op_body op, pcx_custom_headers = op_headers op\<rparr> of
             None \<Rightarrow> Go ()
           | Some v \<Rightarrow> Reply (json_error [] (pv_http_status v) (ErrorMessage (pv_message v)))))"

text \<open>A proxy key in the Authorization header is exchanged for the provider key. An empty provider key
  is taken for no key.\<close>

definition exchange_proxy_key :: "('c, 'p, 'd) handler \<Rightarrow> call \<Rightarrow> APIKeyInfo \<Rightarrow> opened
    \<Rightarrow> (('c, 'p, 'd) proxy_state, http_request \<times> uuid option) handler_op" where
  "exchange_proxy_key H C info op st =
     (case h_proxy_resolver H of
        None \<Rightarrow> (Go (op_request op, None), st)
      | Some (K, P, decrypt) \<Rightarrow>
          let r = op_request op;
              authKey = trim_prefix (hget ''Authorization'' (hr_header r)) ''Bearer '';
              res = ResolveProxyKey K P GetProxyKeyByHash GetProviderMapping decrypt (ca_clock C 3) (ca_clock C 4)
                      authKey (provider_name (pi_provider (op_provider op))) (aki_id info)
                      (px_proxy_cache st) (px_keys st);
              st' = st\<lparr>px_proxy_cache := res_cache res, px_keys := res_store res,
                       px_trace := px_trace st @ (case res_touch res of Some i \<Rightarrow> [TouchProxyKey i] | None \<Rightarrow> [])\<rparr>
          in (case res_result res of
                Inl e \<Rightarrow> Reply (json_error [] 401 (ErrorMessage ''invalid or expired proxy key''))
              | Inr None \<Rightarrow> Go (r, None)
              | Inr (Some (providerKey, pkID)) \<Rightarrow>
                  if providerKey \<noteq> []
                  then Go (r\<lparr>hr_header := hset ''Authorization'' (''Bearer '' @ providerKey) (hr_header r)\<rparr>, Some pkID)
                  else Go (r, None), st'))"

definition handler_providers :: "Config \<Rightarrow> provider \<Rightarrow> string" where
  "handler_providers cfg p = (case p of
     ProviderOpenAI \<Rightarrow> pv_openai (cfg_providers cfg)
   | ProviderAnthropic \<Rightarrow> pv_anthropic (cfg_providers cfg)
   | ProviderGemini \<Rightarrow> pv_gemini (cfg_providers cfg)
   | ProviderFireworks \<Rightarrow> pv_fireworks (cfg_providers cfg)
   | ProviderTogether \<Rightarrow> pv_together (cfg_providers cfg)
   | _ \<Rightarrow> [])"

definition base_url :: "('c, 'p, 'd) handler \<Rightarrow> ProviderInfo \<Rightarrow> string" where
  "base_url H info = (let u = handler_providers (h_config H) (pi_provider info) in
     if u = [] then pi_base_url info else u)"

section \<open>Rewriting the model\<close>

record rewrite =
  rw_body :: string
  rw_redirected :: bool
  rw_original_model :: string
  rw_header :: header

definition requested_model :: "provider \<Rightarrow> string \<Rightarrow> string \<Rightarrow> string" where
  "requested_model p path body = (if p = ProviderBedrock then ExtractBedrockModelFromPath path
     else ExtractModel (GetParser p) body)"

text \<open>A deprecated model is replaced when the key says so; the warning goes to the reply's header.\<close>

definition deprecated_stage :: "('c, 'p, 'd) handler \<Rightarrow> APIKeyInfo \<Rightarrow> opened \<Rightarrow> rewrite stage" where
  "deprecated_stage H info op =
     (let unchanged = \<lparr>rw_body = op_body op, rw_redirected = False, rw_original_model = [], rw_header = []\<rparr>;
          model = requested_model (pi_provider (op_provider op)) (hr_path (op_request op)) (op_body op);
          behavior = aki_deprecated_behavior info
      in case h_deprecated H of
           None \<Rightarrow> Go unchanged
         | Some models \<Rightarrow>
             (case deprecated_Lookup models model of
                None \<Rightarrow> Go unchanged
              | Some repl \<Rightarrow>
                  if behavior = DeprecatedModelBehaviorRedirect \<or> behavior = DeprecatedModelBehaviorWarn then
                    (case OverrideModel (op_body op) repl of
                       Fail e \<Rightarrow> Go unchanged
                     | Panic msg \<Rightarrow> Crash msg
                     | Ret overridden \<Rightarrow> Go \<lparr>rw_body = overridden, rw_redirected = True, rw_original_model = model,
                         rw_header = (if behavior = DeprecatedModelBehaviorWarn
                           then hset ''X-Majordomo-Deprecated-Replacement'' repl
                                  (hset ''X-Majordomo-Deprecated-Model'' model [])
                           else [])\<rparr>)
                  else Go unchanged))"

definition route_stage :: "('c, 'p, 'd) handler \<Rightarrow> call \<Rightarrow> APIKeyInfo \<Rightarrow> opened
    \<Rightarrow> (('c, 'p, 'd) proxy_state, ExperimentAssignment option) handler_op" where
  "route_stage H C info op st =
     (if h_router H then
        (case aki_org_id info of
           None \<Rightarrow> (Go None, st)
         | Some org \<Rightarrow>
             (case Route (ListActiveExperiments (px_experiments st)) org (Some (aki_id info))
                     (map_of (extractCustomMetadata (op_headers op))) [] (ca_clock C 5) (ca_clock C 6) (ca_clock C 7)
                     (ca_draw C) (px_router_cache st) of
                (Ret a, cache) \<Rightarrow> (Go a, st\<lparr>px_router_cache := cache\<rparr>)
              | (Fail e, cache) \<Rightarrow> (Crash ''unreachable'', st\<lparr>px_router_cache := cache\<rparr>)
              | (Panic msg, cache) \<Rightarrow> (Crash msg, st\<lparr>px_router_cache := cache\<rparr>)))
      else (Go None, st))"

text \<open>The assignment is applied to the client's body; it is dropped when that fails.\<close>

definition assign_stage :: "opened \<Rightarrow> rewrite \<Rightarrow> ExperimentAssignment option
    \<Rightarrow> (string \<times> ExperimentAssignment option) stage" where
  "assign_stage op rw asg =
     (case asg of
        None \<Rightarrow> Go (rw_body rw, None)
      | Some a \<Rightarrow>
          (case OverrideModel (op_body op) (ea_assigned_model a) of
             Fail e \<Rightarrow> Go (rw_body rw, None)
           | Panic msg \<Rightarrow> Crash msg
           | Ret overridden \<Rightarrow> Go (overridden, Some a)))"

text \<open>The translation to the Anthropic format starts from the client's body.\<close>

definition translate_stage :: "('c, 'p, 'd) handler \<Rightarrow> provider \<Rightarrow> string \<Rightarrow> http_request \<Rightarrow> string
    \<Rightarrow> http_request \<times> string" where
  "translate_stage H p body r upstreamBody =
     (if \<not> IsTranslationRequired p then (r, upstreamBody)
      else let (r1, b1) = (case TranslateOpenAIToAnthropic (h_fmt_float H) body of
                  Inl e \<Rightarrow> (r, upstreamBody)
                | Inr (translated, newPath) \<Rightarrow> (r\<lparr>hr_path := newPath\<rparr>, translated));
               authHeader = hget ''Authorization'' (hr_header r1)
           in if authHeader \<noteq> [] then
                (r1\<lparr>hr_header := hset ''Anthropic-Version'' ''2023-06-01''
                     (hdel ''Authorization'' (hset ''X-Api-Key'' (trim_prefix authHeader ''Bearer '') (hr_header r1)))\<rparr>, b1)
              else (r1, b1))"

section \<open>Sending and answering\<close>

text \<open>Everything the stages before the upstream call have settled.\<close>

record outgoing =
  og_info :: APIKeyInfo
  og_opened :: opened
  og_request :: http_request
  og_proxy_key_id :: "uuid option"
  og_assignment :: "ExperimentAssignment option"
  og_rewrite :: rewrite
  og_body :: string

definition prepare :: "('c, 'p, 'd) handler \<Rightarrow> call \<Rightarrow> http_request \<Rightarrow> (('c, 'p, 'd) proxy_state, outgoing) handler_op" where
  "prepare H C r =
     hbind (authenticate H C r) (\<lambda>info.
     hbind (hpure (open_request r)) (\<lambda>op.
     hbind (hpure (enforce H C info op)) (\<lambda>_.
     hbind (exchange_proxy_key H C info op) (\<lambda>(r1, pkID).
     hbind (hpure (deprecated_stage H info op)) (\<lambda>rw.
     hbind (route_stage H C info op) (\<lambda>asg.
     hbind (hpure (assign_stage op rw asg)) (\<lambda>(b, asg').
     hpure (case translate_stage H (pi_provider (op_provider op)) (op_body op) r1 b of
       (r2, b2) \<Rightarrow> Go \<lparr>og_info = info, og_opened = op, og_request = r2, og_proxy_key_id = pkID,
         og_assignment = asg', og_rewrite = rw, og_body = b2\<rparr>))))))))"

text \<open>logAndFinish: the Claude Code session comes from the headers of the request.\<close>

definition logAndFinish :: "('c, 'p, 'd) handler \<Rightarrow> call \<Rightarrow> outgoing \<Rightarrow> UpstreamResponse \<Rightarrow> log_task" where
  "logAndFinish H C og resp =
     (let h = hr_header (og_request og);
          sid = hget ''X-Majordomo-ClaudeCode-Session-Id'' h;
          sessionID = (if sid \<noteq> [] then h_parse_uuid H sid else None);
          sn = hget ''X-Majordomo-ClaudeCode-Session-Name'' h
      in \<lparr>lt_request_id = ca_id C, lt_info = og_info og, lt_provider_key = op_provider_key (og_opened og),
          lt_proxy_key_id = og_proxy_key_id og, lt_session_id = sessionID,
          lt_session_name = (if sn \<noteq> [] then Some sn else None),
          lt_is_claude = (hget ''X-Majordomo-Client'' h = ''claude-code'' \<or> sessionID \<noteq> None),
          lt_provider = op_provider (og_opened og), lt_request = og_request og,
          lt_body = op_body (og_opened og), lt_response = resp,
          lt_requested_at = ca_clock C 0, lt_responded_at = ca_clock C 10,
          lt_headers = op_headers (og_opened og), lt_assignment = og_assignment og,
          lt_redirected = rw_redirected (og_rewrite og), lt_original_model = rw_original_model (og_rewrite og)\<rparr>)"

definition upstream_failed :: "outgoing \<Rightarrow> http_reply" where
  "upstream_failed og = json_error (rw_header (og_rewrite og)) 502 (ErrorMessage ''upstream request failed'')"

text \<open>The reply to a buffered answer, compressed when the client and the content allow it.\<close>

definition buffered_reply :: "('c, 'p, 'd) handler \<Rightarrow> outgoing \<Rightarrow> UpstreamResponse \<Rightarrow> http_reply" where
  "buffered_reply H og resp =
     (let h = copyResponseHeaders (us_header resp) (rw_header (og_rewrite og));
          contentType = hget ''Content-Type'' (us_header resp);
          plain = \<lparr>rp_status = us_status resp, rp_header = h, rp_body = Payload (us_body resp)\<rparr>
      in if \<not> contains_str contentType ''text/event-stream''
            \<and> ShouldCompress (hget ''Accept-Encoding'' (hr_header (og_request og))) contentType (length (us_body resp))
         then (case h_gzip H (us_body resp) of
                 Inl e \<Rightarrow> plain
               | Inr z \<Rightarrow> \<lparr>rp_status = us_status resp,
                   rp_header = hset ''Vary'' ''Accept-Encoding'' (hset ''Content-Encoding'' ''gzip'' h),
                   rp_body = Payload z\<rparr>)
         else plain)"

text \<open>The outcome of the upstream exchange: a failure, an answer that was relayed as a stream, with what
  was captured of it, or a buffered answer.\<close>

datatype exchange = Unreachable | Relayed http_reply UpstreamResponse | Buffered UpstreamResponse

definition is_stream_type :: "string \<Rightarrow> bool" where
  "is_stream_type contentType =
     (contains_str contentType ''text/event-stream'' \<or> contains_str contentType ''vnd.amazon.eventstream'')"

definition stream_exchange :: "('c, 'p, 'd) handler \<Rightarrow> call \<Rightarrow> outgoing \<Rightarrow> UpstreamRequest \<Rightarrow> exchange" where
  "stream_exchange H C og req =
     (case h_send_stream H req of
        Inl e \<Rightarrow> Unreachable
      | Inr a \<Rightarrow>
          let resp = (\<lambda>b. \<lparr>us_status = ua_status a, us_header = ua_header a, us_body = b,
                           us_response_time = ca_clock C 9 - ca_clock C 8\<rparr>)
          in if is_stream_type (hget ''Content-Type'' (ua_header a)) then
               (case relay (ca_takes C) 0 (ua_chunks a) of
                  (buf, out) \<Rightarrow> Relayed \<lparr>rp_status = ua_status a,
                      rp_header = copyResponseHeaders (ua_header a) (rw_header (og_rewrite og)),
                      rp_body = Payload (concat out)\<rparr> (resp buf))
             else (case read_all a of Inl e \<Rightarrow> Unreachable | Inr b \<Rightarrow> Buffered (resp b)))"

definition buffered_exchange :: "('c, 'p, 'd) handler \<Rightarrow> call \<Rightarrow> UpstreamRequest \<Rightarrow> exchange" where
  "buffered_exchange H C req =
     (case Forward (h_send H) (ca_clock C 8) (ca_clock C 9) req of
        Inl e \<Rightarrow> Unreachable
      | Inr resp \<Rightarrow>
          if us_status resp < 400 then
            (case TranslateAnthropicToOpenAI (us_body resp) [] of
               Inl e \<Rightarrow> Buffered resp
             | Inr translated \<Rightarrow> Buffered (resp\<lparr>us_body := translated\<rparr>))
          else Buffered resp)"

definition og_upstream :: "('c, 'p, 'd) handler \<Rightarrow> outgoing \<Rightarrow> UpstreamRequest" where
  "og_upstream H og = upstream_request (base_url H (op_provider (og_opened og))) (og_request og) (og_body og)"

definition og_exchange :: "('c, 'p, 'd) handler \<Rightarrow> call \<Rightarrow> outgoing \<Rightarrow> exchange" where
  "og_exchange H C og = (if IsTranslationRequired (pi_provider (op_provider (og_opened og)))
     then buffered_exchange H C (og_upstream H og) else stream_exchange H C og (og_upstream H og))"

definition trace :: "event list \<Rightarrow> ('c, 'p, 'd) proxy_state \<Rightarrow> ('c, 'p, 'd) proxy_state" where
  "trace evs st = st\<lparr>px_trace := px_trace st @ evs\<rparr>"

definition finish :: "('c, 'p, 'd) handler \<Rightarrow> call \<Rightarrow> outgoing \<Rightarrow> (('c, 'p, 'd) proxy_state, http_reply) handler_op" where
  "finish H C og st =
     (case og_exchange H C og of
        Unreachable \<Rightarrow> (Reply (upstream_failed og), trace [Sent (og_upstream H og)] st)
      | Relayed reply resp \<Rightarrow>
          (Go reply, trace [Sent (og_upstream H og), Logging (logAndFinish H C og resp)] st)
      | Buffered resp \<Rightarrow>
          (Go (buffered_reply H og resp), trace [Sent (og_upstream H og), Logging (logAndFinish H C og resp)] st))"

definition ServeHTTP :: "('c, 'p, 'd) handler \<Rightarrow> call \<Rightarrow> http_request \<Rightarrow> (('c, 'p, 'd) proxy_state, http_reply) handler_op" where
  "ServeHTTP H C r = hbind (prepare H C r) (finish H C)"

section \<open>The log\<close>

text \<open>The usage of an answer that could not be parsed names the provider and the requested model.\<close>

definition log_metrics :: "log_task \<Rightarrow> UsageMetrics outcome" where
  "log_metrics t =
     (let p = pi_provider (lt_provider t); parser = GetParser p;
          named = (\<lambda>m. let m1 = (if um_model m = [] then m\<lparr>um_model := ExtractModel parser (lt_body t)\<rparr> else m);
                           m2 = (if um_model m1 = [] \<and> p = ProviderBedrock
                                 then m1\<lparr>um_model := ExtractBedrockModelFromPath (hr_path (lt_request t))\<rparr> else m1)
                       in m2\<lparr>um_response_time := us_response_time (lt_response t)\<rparr>)
      in case ParseResponse parser (us_body (lt_response t)) of
           Ret m \<Rightarrow> Ret (named m)
         | Fail e \<Rightarrow> Ret (named (zero_metrics\<lparr>um_provider := provider_name p,
                                     um_model := ExtractModel parser (lt_body t)\<rparr>))
         | Panic msg \<Rightarrow> Panic msg)"

text \<open>Milliseconds truncates towards zero.\<close>

definition milliseconds :: "duration \<Rightarrow> int" where
  "milliseconds d = (if 0 \<le> d then d div 1000000 else - ((- d) div 1000000))"

definition base_log :: "PricingService \<Rightarrow> log_task \<Rightarrow> UsageMetrics \<Rightarrow> RequestLog" where
  "base_log pricing t m =
     (let info = lt_info t; resp = lt_response t; cost = Calculate pricing m in \<lparr>
       rl_id = lt_request_id t, rl_majordomo_api_key_id = Some (aki_id info), rl_user_id = aki_user_id info,
       rl_org_id = aki_org_id info, rl_proxy_key_id = lt_proxy_key_id t,
       rl_provider_api_key_hash = pki_hash (lt_provider_key t),
       rl_provider_api_key_alias = pki_alias (lt_provider_key t),
       rl_provider = um_provider m, rl_model = um_model m, rl_request_path = hr_path (lt_request t),
       rl_request_method = hr_method (lt_request t), rl_requested_at = lt_requested_at t,
       rl_responded_at = lt_responded_at t, rl_response_time_ms = milliseconds (us_response_time resp),
       rl_input_tokens = um_input_tokens m, rl_output_tokens = um_output_tokens m,
       rl_cached_tokens = um_cached_tokens m, rl_cache_creation_tokens = um_cache_creation_tokens m,
       rl_input_cost = cost_input cost, rl_output_cost = cost_output cost, rl_total_cost = cost_total cost,
       rl_status_code = us_status resp,
       rl_error_message = (if us_status resp \<ge> 400 then Some (take 500 (us_body resp)) else None),
       rl_raw_metadata = extractCustomMetadata (lt_headers t), rl_indexed_metadata = [],
       rl_request_body = None, rl_response_body = None, rl_body_s3_key = None,
       rl_model_alias_found = cost_model_alias_found cost, rl_created_at = 0, rl_experiment_id = None,
       rl_experiment_arm_id = None, rl_original_model = None, rl_deprecated_model_redirected = False,
       rl_claude_metadata = None\<rparr>)"

definition attach_redirect :: "log_task \<Rightarrow> RequestLog \<Rightarrow> RequestLog" where
  "attach_redirect t row = (if lt_redirected t
     then row\<lparr>rl_deprecated_model_redirected := True, rl_original_model := Some (lt_original_model t)\<rparr> else row)"

definition attach_assignment :: "log_task \<Rightarrow> RequestLog \<Rightarrow> RequestLog" where
  "attach_assignment t row = (case lt_assignment t of
     None \<Rightarrow> row
   | Some a \<Rightarrow> row\<lparr>rl_experiment_id := Some (ea_experiment_id a), rl_experiment_arm_id := Some (ea_arm_id a),
       rl_original_model := Some (ExtractModel (GetParser (pi_provider (lt_provider t))) (lt_body t))\<rparr>)"

definition GenerateS3Key :: "(uuid \<Rightarrow> string) \<Rightarrow> uuid \<Rightarrow> uuid \<Rightarrow> time \<Rightarrow> string" where
  "GenerateS3Key fmt apiKeyID requestID timestamp =
     fmt apiKeyID @ ''/'' @ fmt_date timestamp @ ''/'' @ fmt requestID @ ''.json.gz''"

definition buildBodyUpload :: "string \<Rightarrow> log_task \<Rightarrow> BodyUpload" where
  "buildBodyUpload key t =
     \<lparr>bu_key = key, bu_request_id = lt_request_id t, bu_timestamp = lt_requested_at t,
      bu_request_method = hr_method (lt_request t), bu_request_path = hr_path (lt_request t),
      bu_request_headers = lt_headers t, bu_request_body = lt_body t,
      bu_response_status = us_status (lt_response t),
      bu_response_headers = ExtractResponseHeaders (us_header (lt_response t)),
      bu_response_body = us_body (lt_response t)\<rparr>"

text \<open>What the task does to the outside.\<close>

datatype log_effect = Upload uuid UserCloudStorageConfig BodyUpload | Write RequestLog | Enrich EnrichmentEvent

definition cloud_target :: "('c, 'p, 'd) handler \<Rightarrow> (nat \<Rightarrow> time) \<Rightarrow> APIKeyInfo \<Rightarrow> cloud_state
    \<Rightarrow> (uuid \<times> UserCloudStorageConfig) option \<times> cloud_state" where
  "cloud_target H clock info st =
     (let (user, st1) = (case aki_user_id info of
            None \<Rightarrow> (None, st)
          | Some u \<Rightarrow> (case getUserCloudStorageConfig (h_secret_store H) (h_cloud_store H) (clock 11) (clock 12) u st of
                (cfg, st') \<Rightarrow> (map_option (\<lambda>c. (u, c)) cfg, st')))
      in case (user, aki_org_id info) of
           (None, Some g) \<Rightarrow> (case getOrgCloudStorageConfig (h_secret_store H) (h_cloud_store H) (clock 13) (clock 14) g st1 of
               (cfg, st') \<Rightarrow> (map_option (\<lambda>c. (g, c)) cfg, st'))
         | _ \<Rightarrow> (user, st1))"

definition storeBodyToUserOrOrgCloud :: "('c, 'p, 'd) handler \<Rightarrow> (nat \<Rightarrow> time) \<Rightarrow> log_task \<Rightarrow> RequestLog \<Rightarrow> cloud_state
    \<Rightarrow> (RequestLog \<times> log_effect option) \<times> cloud_state" where
  "storeBodyToUserOrOrgCloud H clock t row st =
     (if \<not> h_user_storage H then ((row, None), st)
      else case cloud_target H clock (lt_info t) st of
        (None, st') \<Rightarrow> ((row, None), st')
      | (Some (owner, cfg), st') \<Rightarrow>
          let key = GenerateS3Key (h_fmt_uuid H) (aki_id (lt_info t)) (lt_request_id t) (lt_requested_at t)
          in ((row\<lparr>rl_body_s3_key := Some key\<rparr>, Some (Upload owner cfg (buildBodyUpload key t))), st'))"

definition truncateBody :: "string \<Rightarrow> int \<Rightarrow> string" where
  "truncateBody body maxSize = (if int (length body) \<le> maxSize then body else take (nat maxSize) body)"

definition storeBodyToGlobalStorage :: "LoggingConfig \<Rightarrow> log_task \<Rightarrow> RequestLog \<Rightarrow> RequestLog" where
  "storeBodyToGlobalStorage lg t row =
     (if lg_body_storage lg = ''postgres'' then
        let row1 = (if lg_store_request_body lg
              then row\<lparr>rl_request_body := Some (truncateBody (lt_body t) (EffectiveMaxRequestBodySize lg))\<rparr> else row)
        in (if lg_store_response_body lg
            then row1\<lparr>rl_response_body := Some (truncateBody (us_body (lt_response t)) (EffectiveMaxResponseBodySize lg))\<rparr>
            else row1)
      else row)"

definition attach_claude :: "('c, 'p, 'd) handler \<Rightarrow> log_task \<Rightarrow> RequestLog \<Rightarrow> RequestLog" where
  "attach_claude H t row =
     (if lt_is_claude t \<and> pi_provider (lt_provider t) = ProviderAnthropic
         \<and> hr_path (lt_request t) = ''/v1/messages'' \<and> us_status (lt_response t) < 400 \<and> h_session_mgr H
      then (case ParseRequestResponse (lt_body t) (us_body (lt_response t)) of
              Inl e \<Rightarrow> row
            | Inr meta \<Rightarrow> row\<lparr>rl_claude_metadata := Some
                \<lparr>cm_session_id = lt_session_id t, cm_message_count = rm_message_count meta,
                 cm_user_message_count = rm_user_message_count meta,
                 cm_assistant_message_count = rm_assistant_message_count meta,
                 cm_tool_names = rm_tool_names meta, cm_tool_use_count = rm_tool_use_count meta,
                 cm_has_thinking = rm_has_thinking meta, cm_is_plan_mode = rm_is_plan_mode meta,
                 cm_stop_reason = rm_stop_reason meta,
                 cm_system_prompt_hash = rm_system_prompt_hash meta\<rparr>\<rparr>)
      else row)"

definition enrichment :: "log_task \<Rightarrow> EnrichmentEvent" where
  "enrichment t = \<lparr>een_request_id = lt_request_id t, een_api_key_id = aki_id (lt_info t),
     een_user_id = aki_user_id (lt_info t), een_org_id = aki_org_id (lt_info t),
     een_provider = provider_name (pi_provider (lt_provider t)), een_request_body = lt_body t,
     een_response_body = us_body (lt_response t), een_custom_headers = lt_headers t,
     een_status_code = us_status (lt_response t)\<rparr>"

definition logRequest :: "('c, 'p, 'd) handler \<Rightarrow> (nat \<Rightarrow> time) \<Rightarrow> log_task \<Rightarrow> cloud_state
    \<Rightarrow> log_effect list outcome \<times> cloud_state" where
  "logRequest H clock t st =
     (case log_metrics t of
        Panic msg \<Rightarrow> (Panic msg, st)
      | Fail e \<Rightarrow> (Fail e, st)
      | Ret m \<Rightarrow>
          let row = attach_assignment t (attach_redirect t (base_log (h_pricing H) t m))
          in (case storeBodyToUserOrOrgCloud H clock t row st of
                ((row1, upload), st') \<Rightarrow>
                  let row2 = (if upload = None \<and> \<not> lt_is_claude t
                        then storeBodyToGlobalStorage (cfg_logging (h_config H)) t row1 else row1);
                      row3 = attach_claude H t row2
                  in (Ret ((case upload of Some u \<Rightarrow> [u] | None \<Rightarrow> []) @ [Write row3]
                        @ (if h_enricher H then [Enrich (enrichment t)] else [])), st')))"

end
