(* ===== verification/Proxy_Safety.thy ===== *)
theory Proxy_Safety
  imports Proxy_Handler
begin

text \<open>
  What the proxy handler sends and answers: no internal header leaves, nothing is sent before a request
  is admitted, every answer is logged once, and what becomes of the model in the body.
\<close>


section \<open>Headers that are sent\<close>

lemma of_char_lower: "(of_char (lower_byte c) :: nat) = (if 65 \<le> (of_char c :: nat) \<and> (of_char c :: nat) \<le> 90
    then of_char c + 32 else of_char c)"
  by (auto simp: lower_byte_def)

lemma of_char_upper: "(of_char (upper_byte c) :: nat) = (if 97 \<le> (of_char c :: nat) \<and> (of_char c :: nat) \<le> 122
    then of_char c - 32 else of_char c)"
  by (auto simp: upper_byte_def)

lemma char_eq_nat: "(c :: char) = d \<longleftrightarrow> (of_char c :: nat) = of_char d"
  by simp

lemma lower_lower [simp]: "lower_byte (lower_byte c) = lower_byte c"
  unfolding char_eq_nat [of "lower_byte (lower_byte c)"] of_char_lower by auto

lemma lower_upper [simp]: "lower_byte (upper_byte c) = lower_byte c"
  unfolding char_eq_nat [of "lower_byte (upper_byte c)"] of_char_lower of_char_upper by auto

lemma lower_ascii: "is_ascii s \<Longrightarrow> to_lower s = map lower_byte s"
  by (induction s rule: to_lower.induct) (auto simp: is_ascii_def)

lemma canon_lower: "map lower_byte (canon_from up k) = map lower_byte k"
  by (induction k arbitrary: up) simp_all

lemma token_ascii: "list_all (\<lambda>c. c \<in> set token_bytes) k \<Longrightarrow> is_ascii k"
  unfolding is_ascii_def by (induction k) (auto simp: token_bytes_def)

lemma canon_ascii: "is_ascii k \<Longrightarrow> is_ascii (canon_from up k)"
  unfolding is_ascii_def by (induction k arbitrary: up) (auto simp: of_char_lower of_char_upper)

lemma canonical_key_lower [simp]: "to_lower (canonical_key k) = to_lower k"
  by (simp add: canonical_key_def lower_ascii token_ascii canon_ascii canon_lower)

lemma skipped_canonical [simp]: "skipped_request_header (canonical_key k) = skipped_request_header k"
  by (simp add: skipped_request_header_def)

lemma add_all_keys: "fst ` set (add_all k vs dst) \<subseteq> insert (canonical_key k) (fst ` set dst)"
proof (induction vs arbitrary: dst)
  case (Cons v vs)
  have "fst ` set (hadd k v dst) = insert (canonical_key k) (fst ` set dst)"
    by (simp add: hadd_def dom_map_of_conv_image_fst [symmetric] AList.update_conv')
  then show ?case using Cons.IH [of "hadd k v dst"] by (simp add: add_all_def)
qed (auto simp: add_all_def)

lemma copyHeaders_keys:
  "\<forall>k \<in> fst ` set dst. \<not> skipped_request_header k \<Longrightarrow>
   \<forall>k \<in> fst ` set (copyHeaders src dst). \<not> skipped_request_header k"
proof (induction src arbitrary: dst)
  case (Cons kv src)
  obtain k vs where kv: "kv = (k, vs)" by fastforce
  show ?case
  proof (cases "skipped_request_header k")
    case True
    then show ?thesis using Cons by (simp add: copyHeaders_def kv)
  next
    case False
    have "\<forall>k \<in> fst ` set (add_all k vs dst). \<not> skipped_request_header k"
      using add_all_keys [of k vs dst] Cons.prems False by fastforce
    from Cons.IH [OF this] show ?thesis using False by (simp add: copyHeaders_def kv)
  qed
qed (simp add: copyHeaders_def)

section \<open>What the stages do to the trace\<close>

fun is_touch :: "event \<Rightarrow> bool" where
  "is_touch (TouchKey i) = True"
| "is_touch (TouchProxyKey i) = True"
| "is_touch _ = False"

definition only_touches :: "(('c, 'p, 'd) proxy_state, 'a) handler_op \<Rightarrow> bool" where
  "only_touches m = (\<forall>st. \<exists>ts. px_trace (snd (m st)) = px_trace st @ ts \<and> list_all is_touch ts)"

lemma only_touches_pure [simp]: "only_touches (hpure v)"
  by (simp add: only_touches_def hpure_def)

lemma hbind_cases:
  assumes "hbind m f st = (v, st')"
  obtains (reply) r where "m st = (Reply r, st')" "v = Reply r"
    | (crash) c where "m st = (Crash c, st')" "v = Crash c"
    | (go) a st1 where "m st = (Go a, st1)" "f a st1 = (v, st')"
  using assms by (auto simp: hbind_def split: prod.splits stage.splits)

lemma only_touches_bind:
  assumes "only_touches m" "\<And>a. only_touches (f a)"
  shows "only_touches (hbind m f)"
  unfolding only_touches_def
proof
  fix st
  obtain v st1 where m: "m st = (v, st1)" by fastforce
  obtain ts where ts: "px_trace st1 = px_trace st @ ts" "list_all is_touch ts"
    using assms(1) m unfolding only_touches_def by (metis snd_conv)
  show "\<exists>ts. px_trace (snd (hbind m f st)) = px_trace st @ ts \<and> list_all is_touch ts"
  proof (cases v)
    case (Go a)
    obtain us where "px_trace (snd (f a st1)) = px_trace st1 @ us" "list_all is_touch us"
      using assms(2) [of a] unfolding only_touches_def by blast
    then show ?thesis using ts m Go by (intro exI [of _ "ts @ us"]) (simp add: hbind_def)
  qed (use ts m in \<open>auto simp: hbind_def\<close>)
qed

lemma only_touches_authenticate [simp]: "only_touches (authenticate H C r)"
  by (auto simp: only_touches_def authenticate_def Let_def split: option.splits)

lemma only_touches_exchange [simp]: "only_touches (exchange_proxy_key H C info op)"
  by (auto simp: only_touches_def exchange_proxy_key_def Let_def split: option.splits)

lemma only_touches_route [simp]: "only_touches (route_stage H C info op)"
  by (auto simp: only_touches_def route_stage_def split: option.splits prod.splits outcome.splits)

lemma only_touches_prepare: "only_touches (prepare H C r)"
  unfolding prepare_def by (intro only_touches_bind) (auto intro!: only_touches_bind)

text \<open>The stages one by one, for a request that is prepared.\<close>

lemma prepare_steps:
  assumes "prepare H C r st = (Go og, st')"
  obtains info op st1 r1 pkID st2 rw asg b asg' where
    "authenticate H C r st = (Go info, st1)" "open_request r = Go op" "enforce H C info op = Go ()"
    "exchange_proxy_key H C info op st1 = (Go (r1, pkID), st2)" "deprecated_stage H info op = Go rw"
    "route_stage H C info op st2 = (Go asg, st')" "assign_stage op rw asg = Go (b, asg')"
    "og = (case translate_stage H (pi_provider (op_provider op)) (op_body op) r1 b of
       (r2, b2) \<Rightarrow> \<lparr>og_info = info, og_opened = op, og_request = r2, og_proxy_key_id = pkID,
         og_assignment = asg', og_rewrite = rw, og_body = b2\<rparr>)"
  using assms unfolding prepare_def
  by (auto elim!: hbind_cases simp: hpure_def split: prod.splits)

lemma logAndFinish_response [simp]: "lt_response (logAndFinish H C og resp) = resp"
  by (simp add: logAndFinish_def Let_def)

lemma upstream_failed_status [simp]: "rp_status (upstream_failed og) = 502"
  by (simp add: upstream_failed_def json_error_def)

lemma buffered_reply_status [simp]: "rp_status (buffered_reply H og resp) = us_status resp"
  by (simp add: buffered_reply_def Let_def split: sum.split)

lemma buffered_exchange_kind: "buffered_exchange H C req \<noteq> Relayed reply resp"
  by (simp add: buffered_exchange_def split: sum.split)

lemma stream_exchange_status: "stream_exchange H C og req = Relayed reply resp \<Longrightarrow> rp_status reply = us_status resp"
  by (auto simp: stream_exchange_def Let_def split: sum.splits if_splits prod.splits)

lemma finish_cases:
  assumes "finish H C og st = (res, st')"
  obtains (failed) "og_exchange H C og = Unreachable" "res = Reply (upstream_failed og)"
      "px_trace st' = px_trace st @ [Sent (og_upstream H og)]"
    | (relayed) reply resp where "og_exchange H C og = Relayed reply resp" "res = Go reply"
      "rp_status reply = us_status resp"
      "px_trace st' = px_trace st @ [Sent (og_upstream H og), Logging (logAndFinish H C og resp)]"
    | (buffered) resp where "og_exchange H C og = Buffered resp" "res = Go (buffered_reply H og resp)"
      "px_trace st' = px_trace st @ [Sent (og_upstream H og), Logging (logAndFinish H C og resp)]"
proof (cases "og_exchange H C og")
  case (Relayed reply resp)
  then have "rp_status reply = us_status resp"
    by (auto simp: og_exchange_def buffered_exchange_kind dest: stream_exchange_status split: if_splits)
  then show thesis using relayed [OF Relayed] Relayed assms by (auto simp: finish_def trace_def)
qed (use assms failed buffered in \<open>auto simp: finish_def trace_def\<close>)

text \<open>C8: Every request is sent upstream at most once and every answer is logged exactly once. The handler
  adds to its trace the updates of the keys it resolved and then: for a relayed answer, one upstream
  request and one log task whose response has the status that the client got; for a request it refuses
  itself nothing, or one upstream request when that is what failed, answered by 502; for a panic
  nothing.\<close>

theorem sent_and_logged_once:
  assumes "ServeHTTP H C r st = (res, st')"
  shows "\<exists>touches sent. px_trace st' = px_trace st @ touches @ sent \<and> list_all is_touch touches
    \<and> (case res of
         Go reply \<Rightarrow> \<exists>u t. sent = [Sent u, Logging t] \<and> rp_status reply = us_status (lt_response t)
       | Reply reply \<Rightarrow> sent = [] \<or> (\<exists>u. sent = [Sent u] \<and> rp_status reply = 502)
       | Crash msg \<Rightarrow> sent = [])"
proof -
  obtain p st1 where p: "prepare H C r st = (p, st1)" by fastforce
  obtain ts where ts: "px_trace st1 = px_trace st @ ts" "list_all is_touch ts"
    using only_touches_prepare p unfolding only_touches_def by (metis snd_conv)
  show ?thesis
  proof (cases p)
    case (Go og)
    then have f: "finish H C og st1 = (res, st')" using assms p by (simp add: ServeHTTP_def hbind_def)
    from f show ?thesis
    proof (cases rule: finish_cases)
      case failed
      then show ?thesis using ts by (intro exI [of _ ts] exI [of _ "[Sent (og_upstream H og)]"]) simp
    next
      case (relayed reply resp)
      then show ?thesis using ts
        by (intro exI [of _ ts] exI [of _ "[Sent (og_upstream H og), Logging (logAndFinish H C og resp)]"]) simp
    next
      case (buffered resp)
      then show ?thesis using ts
        by (intro exI [of _ ts] exI [of _ "[Sent (og_upstream H og), Logging (logAndFinish H C og resp)]"]) simp
    qed
  next
    case (Reply reply)
    then have "res = Reply reply \<and> st' = st1" using assms p by (auto simp: ServeHTTP_def hbind_def)
    then show ?thesis using ts by (intro exI [of _ ts] exI [of _ "[]"]) simp
  next
    case (Crash msg)
    then have "res = Crash msg \<and> st' = st1" using assms p by (auto simp: ServeHTTP_def hbind_def)
    then show ?thesis using ts by (intro exI [of _ ts] exI [of _ "[]"]) simp
  qed
qed

section \<open>What is sent\<close>

lemma open_request_method: "open_request r = Go op \<Longrightarrow> hr_method (op_request op) = hr_method r
    \<and> hr_body r = Inr (op_body op)"
  by (auto simp: open_request_def Let_def split: sum.splits if_splits outcome.splits option.splits)

lemma exchange_method: "exchange_proxy_key H C info op st = (Go (r, pkID), st') \<Longrightarrow> hr_method r = hr_method (op_request op)"
  by (auto simp: exchange_proxy_key_def Let_def split: option.splits sum.splits if_splits)

lemma translate_method: "translate_stage H p body r b = (r', b') \<Longrightarrow> hr_method r' = hr_method r"
  by (auto simp: translate_stage_def Let_def split: if_splits sum.splits)

lemma sent_upstream:
  assumes "ServeHTTP H C r st = (res, st')" "px_trace st' = px_trace st @ evs" "Sent u \<in> set evs"
  obtains og st1 where "prepare H C r st = (Go og, st1)" "u = og_upstream H og"
proof -
  obtain p st1 where p: "prepare H C r st = (p, st1)" by fastforce
  obtain ts where ts: "px_trace st1 = px_trace st @ ts" "list_all is_touch ts"
    using only_touches_prepare p unfolding only_touches_def by (metis snd_conv)
  have nts: "Sent u \<notin> set ts" using ts(2) by (auto simp: list_all_iff)
  show thesis
  proof (cases p)
    case (Go og)
    then have f: "finish H C og st1 = (res, st')" using assms p by (simp add: ServeHTTP_def hbind_def)
    then have "u = og_upstream H og"
      using assms(2,3) ts nts by (cases rule: finish_cases) auto
    then show thesis using that p Go by blast
  qed (use assms p ts nts in \<open>auto simp: ServeHTTP_def hbind_def\<close>)
qed

text \<open>C2: Nothing is sent upstream before the request is admitted, and no internal header leaves. For every
  upstream request the Majordomo key of the client resolved to a key, the policy, if there is one,
  raised no violation on the request as received, the method is the client's, and no header is a
  Majordomo header or one of the hop-by-hop headers, whatever the case of its name.\<close>

theorem sent_only_if_admitted:
  assumes "ServeHTTP H C r st = (res, st')" "px_trace st' = px_trace st @ evs" "Sent u \<in> set evs"
  shows "\<exists>info op.
    res_result (ResolveAPIKey (h_key_lru H) GetAPIKeyByHash (ca_clock C 1) (ca_clock C 2)
      (hget ''X-Majordomo-Key'' (hr_header r)) (px_key_cache st) (px_keys st)) = Inr (Some info)
    \<and> open_request r = Go op \<and> enforce H C info op = Go () \<and> ur_method u = hr_method r
    \<and> (\<forall>k \<in> fst ` set (ur_header u). \<not> has_prefix (to_lower k) ''x-majordomo'' \<and> to_lower k \<notin> set hopByHopHeaders)"
proof -
  obtain og st1 where p: "prepare H C r st = (Go og, st1)" and u: "u = og_upstream H og"
    using sent_upstream [OF assms] .
  from p obtain info op st2 r1 pkID st3 rw asg b asg' where steps:
    "authenticate H C r st = (Go info, st2)" "open_request r = Go op" "enforce H C info op = Go ()"
    "exchange_proxy_key H C info op st2 = (Go (r1, pkID), st3)"
    "og = (case translate_stage H (pi_provider (op_provider op)) (op_body op) r1 b of
       (r2, b2) \<Rightarrow> \<lparr>og_info = info, og_opened = op, og_request = r2, og_proxy_key_id = pkID,
         og_assignment = asg', og_rewrite = rw, og_body = b2\<rparr>)"
    by (rule prepare_steps) blast
  have "ur_method u = hr_method r"
    using open_request_method [OF steps(2)] exchange_method [OF steps(4)] steps(5)
    by (auto simp: u og_upstream_def upstream_request_def dest: translate_method split: prod.splits)
  moreover have "\<forall>k \<in> fst ` set (ur_header u). \<not> skipped_request_header k"
    using copyHeaders_keys [of "[]" "hr_header (og_request og)"] by (simp add: u og_upstream_def upstream_request_def)
  ultimately show ?thesis using steps(1,2,3)
    by (auto simp: authenticate_def Let_def skipped_request_header_def split: sum.splits option.splits)
qed

text \<open>C9: What happens to the model. When the translation to the Anthropic format succeeds, the body sent
  upstream is the translation of the client's own body, and neither an experiment assignment nor a
  deprecation redirect has any effect on it, although both are logged. Otherwise an assignment that
  is logged is the one applied to the client's body; without one a redirect that is logged is the
  table's replacement of the logged original model applied to the client's body; and with neither the
  client's body is sent as it is.\<close>

theorem model_rewritten:
  assumes "prepare H C r st = (Go og, st')"
  defines "body \<equiv> op_body (og_opened og)" and "rw \<equiv> og_rewrite og"
  shows "ur_body (og_upstream H og) = og_body og
    \<and> (case (if IsTranslationRequired (pi_provider (op_provider (og_opened og)))
             then TranslateOpenAIToAnthropic (h_fmt_float H) body else Inl ErrJSON) of
         Inr (translated, path) \<Rightarrow> og_body og = translated \<and> hr_path (og_request og) = path
       | Inl e \<Rightarrow>
          (case og_assignment og of
             Some a \<Rightarrow> OverrideModel body (ea_assigned_model a) = Ret (og_body og)
           | None \<Rightarrow>
               if rw_redirected rw
               then \<exists>models repl. h_deprecated H = Some models \<and> models (rw_original_model rw) = Some repl
                      \<and> OverrideModel body repl = Ret (og_body og)
               else og_body og = body))"
proof -
  from assms(1) obtain info op st2 r1 pkID st3 rw' asg b asg' where steps:
    "deprecated_stage H info op = Go rw'" "assign_stage op rw' asg = Go (b, asg')"
    "og = (case translate_stage H (pi_provider (op_provider op)) (op_body op) r1 b of
       (r2, b2) \<Rightarrow> \<lparr>og_info = info, og_opened = op, og_request = r2, og_proxy_key_id = pkID,
         og_assignment = asg', og_rewrite = rw', og_body = b2\<rparr>)"
    by (rule prepare_steps) blast
  have rw: "if rw_redirected rw'
      then \<exists>models repl. h_deprecated H = Some models \<and> models (rw_original_model rw') = Some repl
             \<and> OverrideModel (op_body op) repl = Ret (rw_body rw')
      else rw_body rw' = op_body op"
    using steps(1) by (auto simp: deprecated_stage_def Let_def deprecated_Lookup_def
        split: option.splits outcome.splits if_splits)
  have asg: "case asg' of Some a \<Rightarrow> OverrideModel (op_body op) (ea_assigned_model a) = Ret b | None \<Rightarrow> b = rw_body rw'"
    using steps(2) by (auto simp: assign_stage_def split: option.splits outcome.splits)
  have og: "og_opened og = op" "og_assignment og = asg'" "og_rewrite og = rw'"
    using steps(3) by (simp_all split: prod.splits)
  have tr: "case (if IsTranslationRequired (pi_provider (op_provider op))
             then TranslateOpenAIToAnthropic (h_fmt_float H) (op_body op) else Inl ErrJSON) of
         Inr (translated, path) \<Rightarrow> og_body og = translated \<and> hr_path (og_request og) = path
       | Inl e \<Rightarrow> og_body og = b"
    unfolding steps(3) by (auto simp: translate_stage_def Let_def split: sum.splits prod.splits if_splits)
  show ?thesis using rw asg tr unfolding body_def rw_def og
    by (simp add: og_upstream_def upstream_request_def split: sum.splits prod.splits option.splits if_splits)
qed

section \<open>A sample request\<close>

text \<open>A key in the cache of the resolver, and a chat completion for the Anthropic API in the OpenAI
  format, which an experiment applies to; the upstream cannot be reached.\<close>

definition sample_key_info :: APIKeyInfo where
  "sample_key_info = \<lparr>aki_id = 1, aki_hash = HashAPIKey ''mdm_sk_x'', aki_alias = None, aki_user_id = None,
     aki_org_id = Some 7, aki_deprecated_behavior = ''redirect''\<rparr>"

definition sample_handler :: "((string \<times> cachedKey) list, unit, unit) handler" where
  "sample_handler = \<lparr>h_key_lru = list_lru 8, h_proxy_resolver = None, h_secret_store = None, h_cloud_store = False,
     h_user_storage = False, h_session_mgr = True, h_config = setDefaults, h_deprecated = None,
     h_pricing = example_service, h_router = True, h_enforcer = None, h_enricher = False,
     h_send = (\<lambda>u. Inl ErrDB), h_send_stream = (\<lambda>u. Inl ErrDB), h_gzip = Inr, h_fmt_float = (\<lambda>x. ''0''),
     h_parse_uuid = (\<lambda>s. None), h_fmt_uuid = (\<lambda>u. itoa (uint u))\<rparr>"

definition sample_call :: call where
  "sample_call = \<lparr>ca_id = 5, ca_clock = (\<lambda>n. 15), ca_draw = (\<lambda>n. 3), ca_takes = (\<lambda>n. True)\<rparr>"

definition sample_http :: http_request where
  "sample_http = \<lparr>hr_method = ''POST'', hr_path = ''/v1/chat/completions'', hr_query = [], hr_host = [],
     hr_header = [(''X-Majordomo-Key'', [''mdm_sk_x'']), (''X-Majordomo-Provider'', [''anthropic-openai'']),
       (''X-Majordomo-Env'', [''prod''])],
     hr_body = Inr Translator.example_body\<rparr>"

definition sample_state :: "((string \<times> cachedKey) list, unit, unit) proxy_state" where
  "sample_state = \<lparr>px_keys = empty_key_db [],
     px_key_cache = [(HashAPIKey ''mdm_sk_x'', \<lparr>ck_info = Some sample_key_info, ck_expires_at = 20, ck_is_valid = True\<rparr>)],
     px_proxy_cache = ((), ()), px_experiments = example_db, px_router_cache = Map.empty, px_trace = []\<rparr>"

lemma sample_authenticated: "authenticate sample_handler sample_call sample_http sample_state = (Go sample_key_info, sample_state)"
proof -
  have "hget ''X-Majordomo-Key'' (hr_header sample_http) = ''mdm_sk_x''" by code_simp
  then show ?thesis
    by (simp add: authenticate_def sample_handler_def sample_call_def sample_state_def ResolveAPIKey_def
        getFromCache_def list_lru_def Let_def)
qed

definition sample_opened :: opened where
  "sample_opened = \<lparr>op_provider_key = \<lparr>pki_hash = None, pki_alias = None\<rparr>, op_body = Translator.example_body,
     op_headers = [(''x-majordomo-key'', ''mdm_sk_x''), (''x-majordomo-provider'', ''anthropic-openai''),
       (''x-majordomo-env'', ''prod'')],
     op_request = sample_http,
     op_provider = \<lparr>pi_provider = ProviderAnthropicOpenAI, pi_base_url = ''https://api.anthropic.com''\<rparr>\<rparr>"

lemma sample_opens: "open_request sample_http = Go sample_opened"
  by code_simp

lemma sample_assigned:
  "\<exists>st'. route_stage sample_handler sample_call sample_key_info sample_opened sample_state
     = (Go (Some \<lparr>ea_experiment_id = 9, ea_arm_id = 3, ea_assigned_model = ''m3'', ea_original_model = []\<rparr>), st')
   \<and> px_trace st' = []"
proof -
  have m: "map_of (extractCustomMetadata (op_headers sample_opened)) = [''env'' \<mapsto> ''prod'']"
  proof -
    have "extractCustomMetadata (op_headers sample_opened) = [(''env'', ''prod'')]" by code_simp
    then show ?thesis by simp
  qed
  have l: "ListActiveExperiments example_db 7 15 = Inr [example_experiment\<lparr>exp_arms := example_arms\<rparr>]"
    by (simp add: ListActiveExperiments_def example_db_def example_experiment_def
        fetchArmsByExperimentIDs_def example_arms_def arm_order_def insort_key_def)
  have s: "selectArm example_arms None [''env'' \<mapsto> ''prod''] (\<lambda>_. 3) = Ret (Some (example_arms ! 2))"
    by (simp add: selectArm_def total_weight_def example_arms_def wrap64_def pick_arm_def)
  have a: "applies (Some 1) [''env'' \<mapsto> ''prod''] (example_experiment\<lparr>exp_arms := example_arms\<rparr>)"
    by (simp add: applies_def example_experiment_def matchesFilters_def lookup_default_def example_arms_def)
  show ?thesis
    using a s by (simp add: route_stage_def sample_handler_def sample_key_info_def sample_state_def sample_call_def m
        Route_def getExperiments_def l) (simp add: example_experiment_def example_arms_def)
qed

lemma sample_prepared:
  "\<exists>og st'. prepare sample_handler sample_call sample_http sample_state = (Go og, st') \<and> px_trace st' = []
     \<and> og_assignment og \<noteq> None \<and> op_provider (og_opened og) = op_provider sample_opened
     \<and> op_body (og_opened og) = Translator.example_body"
proof -
  obtain st' where r: "route_stage sample_handler sample_call sample_key_info sample_opened sample_state
     = (Go (Some \<lparr>ea_experiment_id = 9, ea_arm_id = 3, ea_assigned_model = ''m3'', ea_original_model = []\<rparr>), st')"
     "px_trace st' = []" using sample_assigned by blast
  obtain out where o: "OverrideModel Translator.example_body ''m3'' = Ret out"
  proof -
    have "case OverrideModel Translator.example_body ''m3'' of Ret out \<Rightarrow> True | _ \<Rightarrow> False" by code_simp
    then show thesis using that by (auto split: outcome.splits)
  qed
  have e: "enforce sample_handler sample_call sample_key_info sample_opened = Go ()"
    "exchange_proxy_key sample_handler sample_call sample_key_info sample_opened sample_state
      = (Go (sample_http, None), sample_state)"
    by (simp_all add: enforce_def exchange_proxy_key_def sample_handler_def sample_opened_def)
  obtain rw where d: "deprecated_stage sample_handler sample_key_info sample_opened = Go rw"
    by (simp add: deprecated_stage_def sample_handler_def)
  obtain r2 b2 where t: "translate_stage sample_handler (pi_provider (op_provider sample_opened))
      (op_body sample_opened) sample_http out = (r2, b2)" by fastforce
  have ob: "op_body sample_opened = Translator.example_body" by (simp add: sample_opened_def)
  show ?thesis
    by (simp add: prepare_def hbind_def hpure_def sample_authenticated sample_opens e d r assign_stage_def ob o
        t [unfolded ob])
qed

lemma sample_served:
  "\<exists>og st'. ServeHTTP sample_handler sample_call sample_http sample_state = (Reply (upstream_failed og), st')
     \<and> px_trace st' = [Sent (og_upstream sample_handler og)]"
proof -
  obtain og st1 where p: "prepare sample_handler sample_call sample_http sample_state = (Go og, st1)" "px_trace st1 = []"
    "op_provider (og_opened og) = op_provider sample_opened"
    using sample_prepared by blast
  have "og_exchange sample_handler sample_call og = Unreachable"
    using p(3) by (simp add: og_exchange_def sample_opened_def IsTranslationRequired_def buffered_exchange_def
        Forward_def sample_handler_def)
  then show ?thesis using p(1,2)
    by (intro exI [of _ og] exI [of _ "trace [Sent (og_upstream sample_handler og)] st1"])
       (simp add: ServeHTTP_def hbind_def finish_def trace_def)
qed

theorem sent_and_logged_once_witness:
  "\<exists>reply st' u. ServeHTTP sample_handler sample_call sample_http sample_state = (Reply reply, st')
     \<and> px_trace st' = [Sent u] \<and> rp_status reply = 502"
proof -
  obtain reply st' u0 where s: "ServeHTTP sample_handler sample_call sample_http sample_state = (Reply reply, st')"
    "px_trace st' = [Sent u0]" using sample_served by blast
  from sent_and_logged_once [OF s(1)] obtain touches sent where t: "px_trace st' = touches @ sent"
    "list_all is_touch touches" "sent = [] \<or> (\<exists>u. sent = [Sent u] \<and> rp_status reply = 502)"
    by (auto simp: sample_state_def)
  then have "sent \<noteq> []" using s(2) by (cases touches) auto
  then show ?thesis using s t(3) by blast
qed

theorem sent_only_if_admitted_witness:
  "\<exists>og info. res_result (ResolveAPIKey (list_lru 8) GetAPIKeyByHash 15 15 ''mdm_sk_x''
       (px_key_cache sample_state) (empty_key_db [])) = Inr (Some info)
     \<and> ''X-Majordomo-Key'' \<notin> fst ` set (ur_header (og_upstream sample_handler og))"
proof -
  obtain og st' where s: "ServeHTTP sample_handler sample_call sample_http sample_state = (Reply (upstream_failed og), st')"
    "px_trace st' = [Sent (og_upstream sample_handler og)]" using sample_served by blast
  have k: "hget ''X-Majordomo-Key'' (hr_header sample_http) = ''mdm_sk_x''" by code_simp
  have l: "has_prefix (to_lower ''X-Majordomo-Key'') ''x-majordomo''" by code_simp
  from sent_only_if_admitted [OF s(1), of "[Sent (og_upstream sample_handler og)]" "og_upstream sample_handler og"] s(2)
  obtain info where "res_result (ResolveAPIKey (list_lru 8) GetAPIKeyByHash 15 15 ''mdm_sk_x''
       (px_key_cache sample_state) (empty_key_db [])) = Inr (Some info)"
    "\<forall>k \<in> fst ` set (ur_header (og_upstream sample_handler og)). \<not> has_prefix (to_lower k) ''x-majordomo''"
    unfolding k by (auto simp: sample_state_def sample_handler_def sample_call_def)
  then show ?thesis using l by blast
qed

theorem model_rewritten_witness:
  "\<exists>og st' path. prepare sample_handler sample_call sample_http sample_state = (Go og, st')
     \<and> og_assignment og \<noteq> None
     \<and> TranslateOpenAIToAnthropic (\<lambda>x. ''0'') Translator.example_body = Inr (ur_body (og_upstream sample_handler og), path)"
proof -
  obtain og st1 where p: "prepare sample_handler sample_call sample_http sample_state = (Go og, st1)"
    "og_assignment og \<noteq> None" "op_provider (og_opened og) = op_provider sample_opened"
    "op_body (og_opened og) = Translator.example_body"
    using sample_prepared by blast
  obtain translated path where t: "TranslateOpenAIToAnthropic (\<lambda>x. ''0'') Translator.example_body = Inr (translated, path)"
    by (simp add: TranslateOpenAIToAnthropic_def example_body_decodes)
  have f: "h_fmt_float sample_handler = (\<lambda>x. ''0'')" by (simp add: sample_handler_def)
  have "IsTranslationRequired (pi_provider (op_provider (og_opened og)))"
    using p(3) by (simp add: sample_opened_def IsTranslationRequired_def)
  then show ?thesis using model_rewritten [OF p(1)] p t by (auto simp: f)
qed

end
