(* ===== verification/Proxy_Log.thy ===== *)
theory Proxy_Log
  imports Proxy_Handler "HOL-Library.Sublist"
begin

text \<open>
  What the proxy handler relays and what its background task writes: the streaming relay, the Bedrock
  region, the row of the log and the places where bodies are stored.
\<close>

section \<open>The log\<close>

fun is_write :: "log_effect \<Rightarrow> bool" where
  "is_write (Write row) = True"
| "is_write _ = False"

text \<open>No parser panics, so the background task, whose panic would end the process, never does.\<close>

lemma ParseResponse_no_panic: "ParseResponse p body \<noteq> Panic msg"
  by (cases p) (auto simp: bedrock_no_panic split: sum.splits)

lemma log_metrics_total: "\<exists>m. log_metrics t = Ret m"
  using ParseResponse_no_panic by (auto simp: log_metrics_def Let_def split: outcome.splits)

definition same_but_body :: "RequestLog \<Rightarrow> RequestLog \<Rightarrow> bool" where
  "same_but_body a b = (b = a\<lparr>rl_request_body := rl_request_body b, rl_response_body := rl_response_body b,
     rl_body_s3_key := rl_body_s3_key b, rl_claude_metadata := rl_claude_metadata b\<rparr>)"

lemma store_cloud_row: "storeBodyToUserOrOrgCloud H clock t row st = ((row', up), st') \<Longrightarrow>
    same_but_body row row' \<and> rl_request_body row' = rl_request_body row \<and> rl_response_body row' = rl_response_body row"
  by (auto simp: storeBodyToUserOrOrgCloud_def same_but_body_def Let_def split: if_splits prod.splits option.splits)

lemma store_global_row: "same_but_body row (storeBodyToGlobalStorage lg t row)"
  by (auto simp: storeBodyToGlobalStorage_def same_but_body_def Let_def)

lemma attach_claude_row: "same_but_body row (attach_claude H t row)
    \<and> rl_request_body (attach_claude H t row) = rl_request_body row
    \<and> rl_response_body (attach_claude H t row) = rl_response_body row"
  by (auto simp: attach_claude_def same_but_body_def split: sum.split)

lemma attach_claude_bodies [simp]:
  "rl_request_body (attach_claude H t row) = rl_request_body row"
  "rl_response_body (attach_claude H t row) = rl_response_body row"
  using attach_claude_row by blast+

lemma same_but_body_trans: "same_but_body a b \<Longrightarrow> same_but_body b c \<Longrightarrow> same_but_body a c"
  by (cases a; cases b; cases c) (simp add: same_but_body_def)

lemma same_but_body_fields:
  assumes "same_but_body a b"
  shows "rl_id b = rl_id a"
    "rl_majordomo_api_key_id b = rl_majordomo_api_key_id a"
    "rl_user_id b = rl_user_id a"
    "rl_org_id b = rl_org_id a"
    "rl_proxy_key_id b = rl_proxy_key_id a"
    "rl_input_tokens b = rl_input_tokens a"
    "rl_output_tokens b = rl_output_tokens a"
    "rl_cached_tokens b = rl_cached_tokens a"
    "rl_input_cost b = rl_input_cost a"
    "rl_output_cost b = rl_output_cost a"
    "rl_total_cost b = rl_total_cost a"
    "rl_model_alias_found b = rl_model_alias_found a"
    "rl_status_code b = rl_status_code a"
    "rl_error_message b = rl_error_message a"
    "rl_experiment_id b = rl_experiment_id a"
    "rl_experiment_arm_id b = rl_experiment_arm_id a"
    "rl_deprecated_model_redirected b = rl_deprecated_model_redirected a"
    "rl_original_model b = rl_original_model a"
  using assms unfolding same_but_body_def by (cases a; cases b; simp)+

text \<open>The row that is written: the base row with its tags, stored by one of the two ways.\<close>

definition tagged_log :: "('c, 'p, 'd) handler \<Rightarrow> log_task \<Rightarrow> UsageMetrics \<Rightarrow> RequestLog" where
  "tagged_log H t m = attach_assignment t (attach_redirect t (base_log (h_pricing H) t m))"

lemma logRequest_writes:
  obtains m effs row row1 up st' where "log_metrics t = Ret m" "fst (logRequest H clock t st) = Ret effs"
    "filter is_write effs = [Write row]"
    "storeBodyToUserOrOrgCloud H clock t (tagged_log H t m) st = ((row1, up), st')"
    "row = attach_claude H t (if up = None \<and> \<not> lt_is_claude t
       then storeBodyToGlobalStorage (cfg_logging (h_config H)) t row1 else row1)"
    "\<forall>e \<in> set effs. (\<exists>o' c u. e = Upload o' c u) \<longrightarrow> up = Some e"
proof -
  obtain m where m: "log_metrics t = Ret m" using log_metrics_total by blast
  obtain row1 up st' where s: "storeBodyToUserOrOrgCloud H clock t (tagged_log H t m) st = ((row1, up), st')"
    by (metis surj_pair)
  have up: "\<not> is_write e" if "up = Some e" for e
    using s that by (auto simp: storeBodyToUserOrOrgCloud_def Let_def split: if_splits prod.splits option.splits)
  show thesis
    by (rule that [OF m _ _ s refl])
       (use m s up in \<open>auto simp: logRequest_def tagged_log_def [symmetric] split: option.split\<close>)
qed
text \<open>C34: The background task never panics and writes exactly one row, with the identifiers of the request
  and of the key it was made with, the usage the parser found, the costs that the price table gives
  for that usage, the status, an error message of at most 500 bytes for a status of 400 or more and
  none below, and the experiment and the redirect exactly when the task carries them.\<close>

theorem log_row:
  "\<exists>effs row m. fst (logRequest H clock t st) = Ret effs \<and> filter is_write effs = [Write row]
    \<and> log_metrics t = Ret m
    \<and> rl_id row = lt_request_id t \<and> rl_majordomo_api_key_id row = Some (aki_id (lt_info t))
    \<and> rl_user_id row = aki_user_id (lt_info t) \<and> rl_org_id row = aki_org_id (lt_info t)
    \<and> rl_proxy_key_id row = lt_proxy_key_id t
    \<and> rl_input_tokens row = um_input_tokens m \<and> rl_output_tokens row = um_output_tokens m
    \<and> rl_cached_tokens row = um_cached_tokens m
    \<and> \<lparr>cost_input = rl_input_cost row, cost_output = rl_output_cost row, cost_total = rl_total_cost row,
        cost_model_alias_found = rl_model_alias_found row\<rparr> = Calculate (h_pricing H) m
    \<and> rl_status_code row = us_status (lt_response t)
    \<and> (case rl_error_message row of None \<Rightarrow> us_status (lt_response t) < 400
       | Some e \<Rightarrow> 400 \<le> us_status (lt_response t) \<and> length e \<le> 500 \<and> prefix e (us_body (lt_response t)))
    \<and> rl_experiment_id row = map_option ea_experiment_id (lt_assignment t)
    \<and> rl_experiment_arm_id row = map_option ea_arm_id (lt_assignment t)
    \<and> rl_deprecated_model_redirected row = lt_redirected t"
proof -
  obtain m effs row row1 up st' where l: "log_metrics t = Ret m" "fst (logRequest H clock t st) = Ret effs"
    "filter is_write effs = [Write row]"
    "storeBodyToUserOrOrgCloud H clock t (tagged_log H t m) st = ((row1, up), st')"
    "row = attach_claude H t (if up = None \<and> \<not> lt_is_claude t
       then storeBodyToGlobalStorage (cfg_logging (h_config H)) t row1 else row1)"
    by (rule logRequest_writes)
  define row2 where "row2 = (if up = None \<and> \<not> lt_is_claude t
       then storeBodyToGlobalStorage (cfg_logging (h_config H)) t row1 else row1)"
  have "same_but_body row1 row2"
    by (simp add: row2_def store_global_row) (simp add: same_but_body_def)
  then have "same_but_body (tagged_log H t m) row2"
    using store_cloud_row [OF l(4)] same_but_body_trans by blast
  then have "same_but_body (tagged_log H t m) row"
    using attach_claude_row [of row2 H t] same_but_body_trans unfolding l(5) row2_def [symmetric] by blast
  note row = same_but_body_fields [OF this]
  have tagged: "rl_id (tagged_log H t m) = lt_request_id t"
    "rl_majordomo_api_key_id (tagged_log H t m) = Some (aki_id (lt_info t))"
    "rl_user_id (tagged_log H t m) = aki_user_id (lt_info t)" "rl_org_id (tagged_log H t m) = aki_org_id (lt_info t)"
    "rl_proxy_key_id (tagged_log H t m) = lt_proxy_key_id t"
    "rl_input_tokens (tagged_log H t m) = um_input_tokens m" "rl_output_tokens (tagged_log H t m) = um_output_tokens m"
    "rl_cached_tokens (tagged_log H t m) = um_cached_tokens m"
    "rl_input_cost (tagged_log H t m) = cost_input (Calculate (h_pricing H) m)"
    "rl_output_cost (tagged_log H t m) = cost_output (Calculate (h_pricing H) m)"
    "rl_total_cost (tagged_log H t m) = cost_total (Calculate (h_pricing H) m)"
    "rl_model_alias_found (tagged_log H t m) = cost_model_alias_found (Calculate (h_pricing H) m)"
    "rl_status_code (tagged_log H t m) = us_status (lt_response t)"
    "rl_error_message (tagged_log H t m) =
      (if us_status (lt_response t) \<ge> 400 then Some (take 500 (us_body (lt_response t))) else None)"
    "rl_experiment_id (tagged_log H t m) = map_option ea_experiment_id (lt_assignment t)"
    "rl_experiment_arm_id (tagged_log H t m) = map_option ea_arm_id (lt_assignment t)"
    "rl_deprecated_model_redirected (tagged_log H t m) = lt_redirected t"
    by (simp_all add: tagged_log_def base_log_def attach_redirect_def attach_assignment_def Let_def split: option.splits)
  show ?thesis
    by (intro exI [of _ effs] exI [of _ row] exI [of _ m]) (simp add: l(1-3) row tagged take_is_prefix)
qed

section \<open>Where bodies go\<close>


text \<open>A Claude Code request under a configuration that stores all bodies, and its answer.\<close>

definition storing_handler :: "(unit, unit, unit) handler" where
  "storing_handler = \<lparr>h_key_lru = \<lparr>lru_get = (\<lambda>k c. (None, c)), lru_add = (\<lambda>k v c. c), lru_remove = (\<lambda>k c. c)\<rparr>,
     h_proxy_resolver = None, h_secret_store = None, h_cloud_store = False, h_user_storage = False,
     h_session_mgr = False, h_config = setDefaults\<lparr>cfg_logging := (cfg_logging setDefaults)
       \<lparr>lg_body_storage := ''postgres'', lg_store_request_body := True, lg_store_response_body := True\<rparr>\<rparr>,
     h_deprecated = None, h_pricing = example_service, h_router = False, h_enforcer = None, h_enricher = False,
     h_send = (\<lambda>u. Inl ErrDB),
     h_send_stream = (\<lambda>u. Inr \<lparr>ua_status = 200, ua_header = [(''Content-Type'', [''text/event-stream''])],
       ua_chunks = [''data: a'', ''data: b''], ua_read_error = None\<rparr>),
     h_gzip = Inr, h_fmt_float = (\<lambda>x. ''0''), h_parse_uuid = (\<lambda>s. None), h_fmt_uuid = (\<lambda>u. [])\<rparr>"

definition sample_task :: "bool \<Rightarrow> log_task" where
  "sample_task claude = \<lparr>lt_request_id = 5, lt_info = \<lparr>aki_id = 1, aki_hash = [], aki_alias = None, aki_user_id = None,
       aki_org_id = None, aki_deprecated_behavior = []\<rparr>,
     lt_provider_key = \<lparr>pki_hash = None, pki_alias = None\<rparr>, lt_proxy_key_id = None, lt_session_id = None,
     lt_session_name = None, lt_is_claude = claude, lt_provider = anthropic_info,
     lt_request = \<lparr>hr_method = ''POST'', hr_path = ''/v1/messages'', hr_query = [], hr_host = [], hr_header = [],
       hr_body = Inr ''secret''\<rparr>,
     lt_body = ''secret'', lt_response = \<lparr>us_status = 200, us_header = [], us_body = ''{}'', us_response_time = 0\<rparr>,
     lt_requested_at = 0, lt_responded_at = 0, lt_headers = [], lt_assignment = None, lt_redirected = False,
     lt_original_model = []\<rparr>"


section \<open>The relay\<close>

lemma relay_prefix:
  "relay takes n cs = (buf, out) \<Longrightarrow> prefix (concat out) buf \<and> prefix buf (concat cs)
     \<and> ((\<forall>i. takes i) \<longrightarrow> buf = concat cs \<and> out = cs)"
  by (induction cs arbitrary: n buf out) (auto split: if_splits prod.splits)

text \<open>C33: What a streaming client gets is what is logged. For an answer relayed as a stream, the payload
  delivered in full chunks is a beginning of the captured body, the captured body a beginning of the
  upstream body, and all three are equal when the client takes every chunk; the status is the
  upstream's.\<close>

theorem stream_relayed:
  assumes "h_send_stream H req = Inr a" "stream_exchange H C og req = Relayed reply resp"
  shows "\<exists>delivered. rp_body reply = Payload delivered \<and> prefix delivered (us_body resp)
    \<and> prefix (us_body resp) (concat (ua_chunks a)) \<and> rp_status reply = ua_status a
    \<and> ((\<forall>i. ca_takes C i) \<longrightarrow> delivered = concat (ua_chunks a) \<and> us_body resp = concat (ua_chunks a))"
proof -
  obtain buf out where r: "relay (ca_takes C) 0 (ua_chunks a) = (buf, out)" by fastforce
  have "rp_body reply = Payload (concat out) \<and> us_body resp = buf \<and> rp_status reply = ua_status a"
    using assms r by (auto simp: stream_exchange_def Let_def split: if_splits sum.splits)
  then show ?thesis using relay_prefix [OF r] by auto
qed

theorem stream_relayed_witness:
  "\<exists>og reply resp. stream_exchange storing_handler \<lparr>ca_id = 5, ca_clock = (\<lambda>n. 0), ca_draw = (\<lambda>n. 0), ca_takes = (\<lambda>n. True)\<rparr>
     og \<lparr>ur_method = [], ur_url = [], ur_header = [], ur_body = []\<rparr> = Relayed reply resp
   \<and> rp_body reply = Payload ''data: adata: b''"
proof -
  let ?C = "\<lparr>ca_id = 5, ca_clock = (\<lambda>n. 0), ca_draw = (\<lambda>n. 0), ca_takes = (\<lambda>n. True)\<rparr>"
  let ?u = "\<lparr>ur_method = [], ur_url = [], ur_header = [], ur_body = []\<rparr>"
  fix og :: outgoing
  have h: "is_stream_type (hget ''Content-Type'' [(''Content-Type'', [''text/event-stream''])])" by code_simp
  obtain a where a: "h_send_stream storing_handler ?u = Inr a" "ua_chunks a = [''data: a'', ''data: b'']"
    "ua_header a = [(''Content-Type'', [''text/event-stream''])]"
    by (simp add: storing_handler_def)
  obtain reply resp where r: "stream_exchange storing_handler ?C og ?u = Relayed reply resp"
    using a h by (simp add: stream_exchange_def Let_def)
  from stream_relayed [OF a(1) r] show ?thesis using r a(2) by auto
qed

section \<open>The region of a Bedrock request\<close>

lemma index_byte: "index_str s [c] = (if c \<in> set s then Some (length (takeWhile (\<lambda>x. x \<noteq> c) s)) else None)"
  by (induction s) auto

lemma host_part: "(case index_str s [c] of Some i \<Rightarrow> take i s | None \<Rightarrow> s) = takeWhile (\<lambda>x. x \<noteq> c) s"
proof (cases "c \<in> set s")
  case True
  then show ?thesis by (simp add: index_byte takeWhile_eq_take [of "\<lambda>x. x \<noteq> c" s, symmetric])
next
  case False
  then have "takeWhile (\<lambda>x. x \<noteq> c) s = s" unfolding takeWhile_eq_all_conv by blast
  then show ?thesis unfolding index_byte if_not_P [OF False] option.case by (rule sym)
qed

text \<open>Prefix and suffix overlap in one host only, by the dot.\<close>

lemma short_host:
  assumes "has_prefix h bedrock_host_prefix" "has_suffix h bedrock_host_suffix" "length h < 30"
  shows "h = ''bedrock-runtime.amazonaws.com''"
proof -
  obtain r where r: "h = bedrock_host_prefix @ r" using assms(1) by (auto simp: has_prefix_iff)
  obtain l where l: "h = l @ bedrock_host_suffix" using assms(2) by (auto simp: has_suffix_iff)
  have len: "length h = 16 + length r" "length h = length l + 14"
    using arg_cong [OF r, of length] arg_cong [OF l, of length]
    by (simp_all add: bedrock_host_prefix_def bedrock_host_suffix_def)
  have "length r \<le> 13" using assms(3) len by simp
  have rv: "r = drop (14 - length r) bedrock_host_suffix"
  proof -
    have "r = drop (length h - length r) h" using r by simp
    also have "\<dots> = drop (length h - length r) (l @ bedrock_host_suffix)" using l by simp
    also have "\<dots> = drop (14 - length r) bedrock_host_suffix" using len \<open>length r \<le> 13\<close> by simp
    finally show ?thesis .
  qed
  have "take 14 (drop (length l) h) = bedrock_host_suffix" using l by (simp add: bedrock_host_suffix_def)
  moreover have "length l = length r + 2" using len by simp
  ultimately have ov: "take 14 (drop (length r + 2) (bedrock_host_prefix @ drop (14 - length r) bedrock_host_suffix))
      = bedrock_host_suffix" using r rv by metis
  have "length r \<in> set [0..<14]" using \<open>length r \<le> 13\<close> by simp
  moreover have "\<forall>n \<in> set [0..<14]. take 14 (drop (n + 2) (bedrock_host_prefix @ drop (14 - n) bedrock_host_suffix))
      = bedrock_host_suffix \<longrightarrow> n = 13" by code_simp
  ultimately have "length r = 13" using ov by blast
  then show ?thesis using r rv by (simp add: bedrock_host_prefix_def bedrock_host_suffix_def)
qed

text \<open>The region that is read from the host. It is the part between bedrock-runtime. and
  .amazonaws.com of the host without its port, when that is a valid region; on every other host there
  is none, except on bedrock-runtime.amazonaws.com, where prefix and suffix share the dot and slicing
  panics.\<close>

theorem bedrock_region:
  "parseBedrockRegionFromHost hostport =
     (let host = takeWhile (\<lambda>c. c \<noteq> CHR '':'') hostport in
      if host = ''bedrock-runtime.amazonaws.com'' then Panic ''slice bounds out of range''
      else if \<exists>region. host = ''bedrock-runtime.'' @ region @ ''.amazonaws.com'' \<and> isValidAWSRegion region
      then Ret (Some (drop 16 (take (length host - 14) host))) else Ret None)"
proof -
  define host where "host = takeWhile (\<lambda>c. c \<noteq> CHR '':'') hostport"
  have lens: "length bedrock_host_prefix = 16" "length bedrock_host_suffix = 14"
    by (simp_all add: bedrock_host_prefix_def bedrock_host_suffix_def)
  have unfold: "parseBedrockRegionFromHost hostport =
     (if \<not> has_prefix host bedrock_host_prefix \<or> \<not> has_suffix host bedrock_host_suffix then Ret None
      else if int (length host) - 14 < 16 then Panic ''slice bounds out of range''
      else let region = drop 16 (take (length host - 14) host)
           in if \<not> isValidAWSRegion region then Ret None else Ret (Some region))"
    unfolding parseBedrockRegionFromHost_def host_part host_def [symmetric] lens Let_def
    by (simp add: nat_diff_distrib')
  consider (short) "host = ''bedrock-runtime.amazonaws.com''"
    | (no) "host \<noteq> ''bedrock-runtime.amazonaws.com''" "\<not> (\<exists>region. host = bedrock_host_prefix @ region @ bedrock_host_suffix)"
    | (yes) region where "host = bedrock_host_prefix @ region @ bedrock_host_suffix"
    by blast
  then show ?thesis
  proof cases
    case short
    have "has_prefix ''bedrock-runtime.amazonaws.com'' bedrock_host_prefix
        \<and> has_suffix ''bedrock-runtime.amazonaws.com'' bedrock_host_suffix" by code_simp
    then have "has_prefix host bedrock_host_prefix \<and> has_suffix host bedrock_host_suffix" using short by argo
    then show ?thesis using short by (simp add: unfold host_def [symmetric])
  next
    case no
    have "\<not> (has_prefix host bedrock_host_prefix \<and> has_suffix host bedrock_host_suffix)"
    proof
      assume a: "has_prefix host bedrock_host_prefix \<and> has_suffix host bedrock_host_suffix"
      then have long: "30 \<le> length host" using short_host no(1) by fastforce
      obtain r where r: "host = bedrock_host_prefix @ r" using a by (auto simp: has_prefix_iff)
      obtain l where l: "host = l @ bedrock_host_suffix" using a by (auto simp: has_suffix_iff)
      have "length r \<ge> 14" using r long lens by simp
      moreover have "drop (length l - 16) r = bedrock_host_suffix"
      proof -
        have "16 \<le> length l" using arg_cong [OF l, of length] long lens by simp
        then have "drop (length l) host = drop (length l - 16) r" using r lens by simp
        then show ?thesis using l by simp
      qed
      ultimately have "host = bedrock_host_prefix @ take (length l - 16) r @ bedrock_host_suffix"
        using r by (metis append_take_drop_id)
      then show False using no(2) by blast
    qed
    then show ?thesis using no
      by (simp add: unfold host_def [symmetric] Let_def bedrock_host_prefix_def bedrock_host_suffix_def)
  next
    case yes
    have ne: "host \<noteq> ''bedrock-runtime.amazonaws.com''"
      using yes lens by (auto dest: arg_cong [of _ _ length])
    have "has_prefix host bedrock_host_prefix" "has_suffix host bedrock_host_suffix"
      using yes by (auto simp: has_prefix_iff has_suffix_iff)
    moreover have "drop 16 (take (length host - 14) host) = region" using yes lens by simp
    moreover have "(\<exists>reg. host = ''bedrock-runtime.'' @ reg @ ''.amazonaws.com'' \<and> isValidAWSRegion reg) = isValidAWSRegion region"
      using yes by (auto simp: bedrock_host_prefix_def bedrock_host_suffix_def)
    moreover have "\<not> int (length host) - 14 < 16" using yes lens by simp
    ultimately show ?thesis using ne by (simp add: unfold host_def [symmetric] Let_def)
  qed
qed

end
