(* ===== verification/Claude_Sessions.thy ===== *)
theory Claude_Sessions
  imports Repo_Db Models Proxy_Key_Api
begin

text \<open>
  The tables of the request log, and on them the Claude Code sessions: the repository
  (internal/repositories/claude_sessions.go), the session manager (internal/claudecode/session.go) and
  the REST handler (internal/api/claude_session_handler.go).

  The repository has no DDL of the two claude tables, so that their statements have no constraints
  here; what a database refuses is among the faults.
\<close>

section \<open>Tables\<close>

text \<open>A row of llm_requests. The columns of the log; the flag of the reporter.\<close>

record LLMRequestRow =
  lq_log :: RequestLog
  lq_synced :: bool

record MetadataKeyRow = MetadataKey +
  mkr_hll_state :: "bytes option"
  mkr_hll_updated_at :: "time option"

record log_tables =
  ldb_requests :: "LLMRequestRow list"
  ldb_metadata_keys :: "MetadataKeyRow list"
  ldb_sessions :: "ClaudeSession list"
  ldb_details :: "ClaudeRequestDetail list"
  ldb_api_keys :: "APIKey list"
  ldb_proxy_keys :: "ProxyKey list"

section \<open>The repository\<close>

text \<open>The columns of the inserted row that are given, the others with their defaults; the organization
  is not a column of the query.\<close>

definition CreateClaudeSession :: "time \<Rightarrow> ClaudeSession \<Rightarrow> (log_tables, ClaudeSession) repo" where
  "CreateClaudeSession now session = rwrap ''create claude session'' (rexec (\<lambda>t.
     let row = \<lparr>cs_id = cs_id session, cs_majordomo_api_key_id = cs_majordomo_api_key_id session,
                cs_org_id = cs_org_id session, cs_session_name = cs_session_name session,
                cs_started_at = cs_started_at session, cs_ended_at = None, cs_total_requests = 0,
                cs_total_input_tokens = 0, cs_total_output_tokens = 0, cs_total_cost = 0, cs_created_at = now\<rparr>
     in Inr (row, t\<lparr>ldb_sessions := ldb_sessions t @ [row]\<rparr>)))"

text \<open>An UPDATE that has to change a row.\<close>

definition must_affect :: "err \<Rightarrow> ('t, nat) repo \<Rightarrow> ('t, unit) repo" where
  "must_affect e m = rbind m (\<lambda>n. rreturn (if n = 0 then Inl e else Inr ()))"

definition EndClaudeSession :: "time \<Rightarrow> uuid \<Rightarrow> (log_tables, unit) repo" where
  "EndClaudeSession now sessionID = must_affect ErrClaudeSessionNotFound
     (rwrap ''end claude session'' (rexec (\<lambda>t.
        let (rows, n) = update_where (\<lambda>s. cs_id s = sessionID \<and> cs_ended_at s = None)
              (\<lambda>s. s\<lparr>cs_ended_at := Some now\<rparr>) (ldb_sessions t)
        in Inr (n, t\<lparr>ldb_sessions := rows\<rparr>))))"

definition GetClaudeSession :: "uuid \<Rightarrow> (log_tables, ClaudeSession) repo" where
  "GetClaudeSession sessionID = rfound ErrClaudeSessionNotFound
     (rwrap ''get claude session'' (rquery (\<lambda>t. find_row (\<lambda>s. cs_id s = sessionID) (ldb_sessions t))))"

text \<open>LIMIT and OFFSET.\<close>

definition sql_page :: "int \<Rightarrow> int \<Rightarrow> 'r list \<Rightarrow> 'r list" where
  "sql_page lmt off rows = take (nat lmt) (drop (nat off) rows)"

text \<open>A negative LIMIT or OFFSET is an error of the statement.\<close>

definition rpage :: "int \<Rightarrow> int \<Rightarrow> ('t \<Rightarrow> 'r list) \<Rightarrow> ('t, 'r list) repo" where
  "rpage lmt off rows = rexec (\<lambda>t. if lmt < 0 \<or> off < 0 then Inl ErrDB else Inr (sql_page lmt off (rows t), t))"

definition ListClaudeSessions :: "uuid \<Rightarrow> int \<Rightarrow> int \<Rightarrow> (log_tables, ClaudeSession list \<times> nat) repo" where
  "ListClaudeSessions apiKeyID lmt off =
     rbind (rwrap ''count claude sessions''
              (rquery (\<lambda>t. length (filter (\<lambda>s. cs_majordomo_api_key_id s = apiKeyID) (ldb_sessions t)))))
       (\<lambda>total. rbind (rwrap ''list claude sessions'' (rpage lmt off
            (\<lambda>t. sort_key (\<lambda>s. - cs_started_at s) (filter (\<lambda>s. cs_majordomo_api_key_id s = apiKeyID) (ldb_sessions t)))))
          (\<lambda>sessions. rreturn (Inr (sessions, total))))"

definition UpdateClaudeSessionStats :: "uuid \<Rightarrow> int \<Rightarrow> int \<Rightarrow> real \<Rightarrow> (log_tables, unit) repo" where
  "UpdateClaudeSessionStats sessionID inputTokens outputTokens cost = rwrap ''update claude session stats''
     (rexec (\<lambda>t. Inr ((), t\<lparr>ldb_sessions := fst (update_where (\<lambda>s. cs_id s = sessionID)
        (\<lambda>s. s\<lparr>cs_total_requests := cs_total_requests s + 1,
              cs_total_input_tokens := cs_total_input_tokens s + inputTokens,
              cs_total_output_tokens := cs_total_output_tokens s + outputTokens,
              cs_total_cost := cs_total_cost s + cost\<rparr>) (ldb_sessions t))\<rparr>)))"

definition CreateClaudeRequestDetail :: "time \<Rightarrow> ClaudeRequestDetail \<Rightarrow> (log_tables, unit) repo" where
  "CreateClaudeRequestDetail now detail = rwrap ''create claude request detail''
     (rexec (\<lambda>t. Inr ((), t\<lparr>ldb_details := ldb_details t @ [detail\<lparr>crd_created_at := now\<rparr>]\<rparr>)))"

definition ListClaudeSessionRequests :: "uuid \<Rightarrow> int \<Rightarrow> int \<Rightarrow> (log_tables, ClaudeRequestDetail list \<times> nat) repo" where
  "ListClaudeSessionRequests sessionID lmt off =
     rbind (rwrap ''count claude session requests''
              (rquery (\<lambda>t. length (filter (\<lambda>d. crd_session_id d = Some sessionID) (ldb_details t)))))
       (\<lambda>total. rbind (rwrap ''list claude session requests'' (rpage lmt off
            (\<lambda>t. sort_key (\<lambda>d. - crd_created_at d) (filter (\<lambda>d. crd_session_id d = Some sessionID) (ldb_details t)))))
          (\<lambda>details. rreturn (Inr (details, total))))"

section \<open>The session manager\<close>

definition StartSession :: "uuid \<Rightarrow> time \<Rightarrow> time \<Rightarrow> uuid \<Rightarrow> string option \<Rightarrow> (log_tables, ClaudeSession) repo" where
  "StartSession newid now db_now apiKeyID sessionName = CreateClaudeSession db_now
     \<lparr>cs_id = newid, cs_majordomo_api_key_id = apiKeyID, cs_org_id = None, cs_session_name = sessionName,
      cs_started_at = now, cs_ended_at = None, cs_total_requests = 0, cs_total_input_tokens = 0,
      cs_total_output_tokens = 0, cs_total_cost = 0, cs_created_at = 0\<rparr>"

definition EndSession :: "time \<Rightarrow> uuid \<Rightarrow> (log_tables, ClaudeSession) repo" where
  "EndSession db_now sessionID = rbind (EndClaudeSession db_now sessionID) (\<lambda>_. GetClaudeSession sessionID)"

section \<open>The REST handler\<close>

text \<open>The texts of identifiers, times and floats are parameters, as is the parsed query string.\<close>

record session_env =
  se_newid :: uuid
  se_now :: time
  se_db_now :: time
  se_codec :: codec
  se_fmt_float :: "real \<Rightarrow> string"

text \<open>strconv.Atoi: an optional sign and digits, in the range of int.\<close>

definition atoi :: "string \<Rightarrow> int option" where
  "atoi s = (let (neg, ds) = (case s of CHR ''-'' # r \<Rightarrow> (True, r) | CHR ''+'' # r \<Rightarrow> (False, r) | _ \<Rightarrow> (False, s));
       n = foldl (\<lambda>a c. 10 * a + (of_char c - 48)) 0 ds; v = (if neg then - n else n)
     in if ds \<noteq> [] \<and> list_all (\<lambda>c. 48 \<le> (of_char c :: int) \<and> (of_char c :: int) \<le> 57) ds \<and> in_int64 v then Some v else None)"

definition parsePagination :: "string \<Rightarrow> string \<Rightarrow> int \<times> int" where
  "parsePagination limitText offsetText =
     (let lmt = (case atoi limitText of Some n \<Rightarrow> if 0 < n then n else 50 | None \<Rightarrow> 50);
          off = (case atoi offsetText of Some n \<Rightarrow> if 0 \<le> n then n else 0 | None \<Rightarrow> 0)
      in (if 200 < lmt then 200 else lmt, off))"

definition session_members :: "session_env \<Rightarrow> ClaudeSession \<Rightarrow> json" where
  "session_members E s = (let C = se_codec E in JObj (
     [(''id'', enc_string (fmt_uuid C (cs_id s))),
      (''majordomoApiKeyId'', enc_string (fmt_uuid C (cs_majordomo_api_key_id s)))]
     @ omit_ptr (enc_string \<circ> fmt_uuid C) ''orgId'' (cs_org_id s)
     @ omit_ptr enc_string ''sessionName'' (cs_session_name s)
     @ [(''startedAt'', enc_string (fmt_time C (cs_started_at s)))]
     @ omit_ptr (enc_string \<circ> fmt_time C) ''endedAt'' (cs_ended_at s)
     @ [(''totalRequests'', enc_int (cs_total_requests s)), (''totalInputTokens'', enc_int (cs_total_input_tokens s)),
        (''totalOutputTokens'', enc_int (cs_total_output_tokens s)),
        (''totalCost'', JNum (se_fmt_float E (cs_total_cost s))),
        (''createdAt'', enc_string (fmt_time C (cs_created_at s)))]))"

definition detail_members :: "session_env \<Rightarrow> ClaudeRequestDetail \<Rightarrow> json" where
  "detail_members E d = (let C = se_codec E in JObj (
     [(''id'', enc_string (fmt_uuid C (crd_id d))), (''llmRequestId'', enc_string (fmt_uuid C (crd_llm_request_id d)))]
     @ omit_ptr (enc_string \<circ> fmt_uuid C) ''sessionId'' (crd_session_id d)
     @ [(''messageCount'', enc_int (crd_message_count d)), (''userMessageCount'', enc_int (crd_user_message_count d)),
        (''assistantMessageCount'', enc_int (crd_assistant_message_count d)),
        (''toolNames'', enc_slice enc_string (crd_tool_names d)), (''toolUseCount'', enc_int (crd_tool_use_count d)),
        (''hasThinking'', JBool (crd_has_thinking d)), (''isPlanMode'', JBool (crd_is_plan_mode d))]
     @ omit_ptr enc_string ''stopReason'' (crd_stop_reason d)
     @ omit_ptr enc_string ''systemPromptHash'' (crd_system_prompt_hash d)
     @ [(''createdAt'', enc_string (fmt_time C (crd_created_at d)))]))"

type_synonym session_handler = "APIKeyInfo option \<Rightarrow> log_tables repo_db \<Rightarrow> reply \<times> log_tables repo_db"

definition session_auth :: "(APIKeyInfo \<Rightarrow> log_tables repo_db \<Rightarrow> reply \<times> log_tables repo_db) \<Rightarrow> session_handler" where
  "session_auth f info db = (case info of
     None \<Rightarrow> (WriteJSONError 401 ''unauthorized'', db) | Some i \<Rightarrow> f i db)"

definition respond :: "(err \<Rightarrow> reply) \<Rightarrow> ('a \<Rightarrow> reply) \<Rightarrow> (err + 'a) \<times> log_tables repo_db \<Rightarrow> reply \<times> log_tables repo_db" where
  "respond bad good r = apfst (case_sum bad good) r"

definition internal_error :: "err \<Rightarrow> reply" where
  "internal_error e = WriteJSONError 500 ''internal error''"

text \<open>The name is optional; a body that does not decode or without a length is no name.\<close>

definition h_StartSession :: "session_env \<Rightarrow> int \<Rightarrow> string \<Rightarrow> session_handler" where
  "h_StartSession E contentLength body = session_auth (\<lambda>info db.
     let sessionName = (if 0 < contentLength then
           (case decode_stream (dec_struct [(''name'', dec_string)]) body [] of
              Inr nm \<Rightarrow> if nm \<noteq> [] then Some nm else None | Inl _ \<Rightarrow> None) else None)
     in respond internal_error (\<lambda>s. WriteJSON 201 (session_members E s))
          (StartSession (se_newid E) (se_now E) (se_db_now E) (aki_id info) sessionName db))"

text \<open>The lookup and the check of the owner that the endpoints of one session begin with.\<close>

definition with_session :: "session_env \<Rightarrow> string \<Rightarrow> (ClaudeSession \<Rightarrow> log_tables repo_db \<Rightarrow> reply \<times> log_tables repo_db)
    \<Rightarrow> session_handler" where
  "with_session E idText f = session_auth (\<lambda>info db.
     case parse_uuid (se_codec E) idText of
       None \<Rightarrow> (WriteJSONError 400 ''invalid session ID'', db)
     | Some sid \<Rightarrow>
         (case GetClaudeSession sid db of
            (Inl e, db1) \<Rightarrow> (if e = ErrClaudeSessionNotFound then WriteJSONError 404 ''session not found''
                            else internal_error e, db1)
          | (Inr s, db1) \<Rightarrow> if cs_majordomo_api_key_id s \<noteq> aki_id info
                            then (WriteJSONError 404 ''session not found'', db1) else f s db1))"

definition h_EndSession :: "session_env \<Rightarrow> string \<Rightarrow> session_handler" where
  "h_EndSession E idText = with_session E idText (\<lambda>s db.
     respond (\<lambda>e. if e = ErrClaudeSessionNotFound then WriteJSONError 404 ''session not found or already ended''
                 else internal_error e)
       (\<lambda>s. WriteJSON 200 (session_members E s)) (EndSession (se_db_now E) (cs_id s) db))"

definition h_GetSession :: "session_env \<Rightarrow> string \<Rightarrow> session_handler" where
  "h_GetSession E idText = with_session E idText (\<lambda>s db. (WriteJSON 200 (session_members E s), db))"

definition h_ListSessions :: "session_env \<Rightarrow> string \<Rightarrow> string \<Rightarrow> session_handler" where
  "h_ListSessions E limitText offsetText = session_auth (\<lambda>info db.
     let (lmt, off) = parsePagination limitText offsetText in
     respond internal_error
       (\<lambda>(sessions, total). WriteJSON 200 (JObj [(''numRecords'', enc_int (int total)),
          (''sessions'', enc_slice (session_members E) sessions)]))
       (ListClaudeSessions (aki_id info) lmt off db))"

definition h_ListSessionRequests :: "session_env \<Rightarrow> string \<Rightarrow> string \<Rightarrow> string \<Rightarrow> session_handler" where
  "h_ListSessionRequests E idText limitText offsetText = with_session E idText (\<lambda>s db.
     let (lmt, off) = parsePagination limitText offsetText in
     respond internal_error
       (\<lambda>(details, total). WriteJSON 200 (JObj [(''numRecords'', enc_int (int total)),
          (''requests'', enc_slice (detail_members E) details)]))
       (ListClaudeSessionRequests (cs_id s) lmt off db))"

datatype session_request =
    StartSessionReq int string
  | EndSessionReq string
  | GetSessionReq string
  | ListSessionsReq string string
  | SessionRequestsReq string string string

fun handle_session :: "session_env \<Rightarrow> session_request \<Rightarrow> session_handler" where
  "handle_session E (StartSessionReq len body) = h_StartSession E len body"
| "handle_session E (EndSessionReq sid) = h_EndSession E sid"
| "handle_session E (GetSessionReq sid) = h_GetSession E sid"
| "handle_session E (ListSessionsReq lmt off) = h_ListSessions E lmt off"
| "handle_session E (SessionRequestsReq sid lmt off) = h_ListSessionRequests E sid lmt off"

section \<open>Tenants\<close>

text \<open>What belongs to an API key: its sessions and the requests of its sessions.\<close>

definition own_sessions :: "uuid \<Rightarrow> log_tables \<Rightarrow> ClaudeSession list" where
  "own_sessions A t = filter (\<lambda>s. cs_majordomo_api_key_id s = A) (ldb_sessions t)"

definition own_details :: "uuid \<Rightarrow> log_tables \<Rightarrow> ClaudeRequestDetail list" where
  "own_details A t = filter (\<lambda>d. \<exists>s \<in> set (own_sessions A t). crd_session_id d = Some (cs_id s)) (ldb_details t)"

definition sessions_unique :: "log_tables \<Rightarrow> bool" where
  "sessions_unique t = distinct (map cs_id (ldb_sessions t))"

text \<open>Two databases the API key cannot tell apart.\<close>

definition session_view :: "uuid \<Rightarrow> log_tables repo_db \<Rightarrow> log_tables repo_db \<Rightarrow> bool" where
  "session_view A db db' = (rdb_faults db = rdb_faults db'
     \<and> own_sessions A (rdb_tables db) = own_sessions A (rdb_tables db')
     \<and> own_details A (rdb_tables db) = own_details A (rdb_tables db'))"

lemma rquery_view:
  "rdb_faults db = rdb_faults db' \<Longrightarrow> f (rdb_tables db) = f (rdb_tables db') \<Longrightarrow>
   fst (rquery f db) = fst (rquery f db') \<and> rdb_faults (snd (rquery f db)) = rdb_faults (snd (rquery f db'))"
  by (auto simp: rquery_def next_fault_def split: list.splits option.splits)

lemma GetClaudeSession_eq:
  "GetClaudeSession sid db = (case next_fault db of
     (Some e, db1) \<Rightarrow> (Inl (ErrWrap ''get claude session'' e), db1)
   | (None, db1) \<Rightarrow> (case find_row (\<lambda>s. cs_id s = sid) (ldb_sessions (rdb_tables db)) of
        None \<Rightarrow> (Inl ErrClaudeSessionNotFound, db1) | Some s \<Rightarrow> (Inr s, db1)))"
  by (auto simp: GetClaudeSession_def repo_defs split: prod.splits option.splits dest: next_fault_eq)

lemma GetClaudeSession_Inr:
  "GetClaudeSession sid db = (Inr s, db1) \<Longrightarrow>
   s \<in> set (ldb_sessions (rdb_tables db)) \<and> cs_id s = sid \<and> rdb_tables db1 = rdb_tables db"
  by (auto simp: GetClaudeSession_eq split: prod.splits option.splits dest: find_row_Some next_fault_eq)

lemma GetClaudeSession_tables [simp]: "rdb_tables (snd (GetClaudeSession sid db)) = rdb_tables db"
  by (simp add: GetClaudeSession_def)

text \<open>A session is found among the own ones or it is as good as missing.\<close>

lemma find_own:
  assumes "sessions_unique t"
  shows "find_row (\<lambda>s. cs_id s = sid) (own_sessions A t)
    = (case find_row (\<lambda>s. cs_id s = sid) (ldb_sessions t) of
         Some s \<Rightarrow> if cs_majordomo_api_key_id s = A then Some s else None | None \<Rightarrow> None)"
proof (cases "find_row (\<lambda>s. cs_id s = sid) (own_sessions A t)")
  case None
  show ?thesis
  proof (cases "find_row (\<lambda>s. cs_id s = sid) (ldb_sessions t)")
    case (Some s)
    then have "s \<in> set (ldb_sessions t)" "cs_id s = sid" using find_row_Some by fastforce+
    then have "cs_majordomo_api_key_id s \<noteq> A" using None by (auto simp: find_row_None own_sessions_def)
    then show ?thesis using None Some by simp
  qed (simp add: None)
next
  case (Some s)
  then have s: "s \<in> set (ldb_sessions t)" "cs_majordomo_api_key_id s = A" "cs_id s = sid"
    using find_row_Some [OF Some] by (auto simp: own_sessions_def)
  then obtain s' where s': "find_row (\<lambda>s. cs_id s = sid) (ldb_sessions t) = Some s'"
    by (cases "find_row (\<lambda>s. cs_id s = sid) (ldb_sessions t)") (auto simp: find_row_None)
  then have "s' \<in> set (ldb_sessions t)" "cs_id s' = sid" using find_row_Some by fastforce+
  then have "s' = s" using s assms by (metis sessions_unique_def distinct_map inj_onD)
  then show ?thesis using Some s s' by simp
qed

lemma with_session_reply:
  assumes "sessions_unique (rdb_tables db)"
  shows "fst (with_session E idText f (Some i) db) = (case parse_uuid (se_codec E) idText of
      None \<Rightarrow> WriteJSONError 400 ''invalid session ID''
    | Some sid \<Rightarrow> (case fst (next_fault db) of
         Some e \<Rightarrow> internal_error e
       | None \<Rightarrow> (case find_row (\<lambda>s. cs_id s = sid) (own_sessions (aki_id i) (rdb_tables db)) of
            None \<Rightarrow> WriteJSONError 404 ''session not found''
          | Some s \<Rightarrow> fst (f s (snd (next_fault db))))))"
proof -
  obtain flt db1 where n: "next_fault db = (flt, db1)" by fastforce
  show ?thesis
    unfolding find_own [OF assms]
    by (simp add: n with_session_def session_auth_def GetClaudeSession_eq internal_error_def split: option.split)
qed

lemma faults_only:
  "rdb_faults d = rdb_faults d' \<Longrightarrow> fst (next_fault d) = fst (next_fault d')
    \<and> rdb_faults (snd (next_fault d)) = rdb_faults (snd (next_fault d'))"
  by (simp add: next_fault_def split: list.split)

lemma with_session_view:
  assumes "sessions_unique (rdb_tables db)" "sessions_unique (rdb_tables db')" "session_view (aki_id i) db db'"
    and f: "\<And>s d d'. s \<in> set (own_sessions (aki_id i) (rdb_tables db)) \<Longrightarrow> rdb_tables d = rdb_tables db \<Longrightarrow>
      rdb_tables d' = rdb_tables db' \<Longrightarrow> rdb_faults d = rdb_faults d' \<Longrightarrow> fst (f s d) = fst (f s d')"
  shows "fst (with_session E idText f (Some i) db) = fst (with_session E idText f (Some i) db')"
proof -
  have v: "rdb_faults db = rdb_faults db'"
    "own_sessions (aki_id i) (rdb_tables db') = own_sessions (aki_id i) (rdb_tables db)"
    using assms(3) by (simp_all add: session_view_def)
  show ?thesis
  proof (cases "parse_uuid (se_codec E) idText")
    case (Some sid)
    show ?thesis
    proof (cases "find_row (\<lambda>s. cs_id s = sid) (own_sessions (aki_id i) (rdb_tables db))")
      case None
      then show ?thesis using Some faults_only [OF v(1)]
        by (simp add: with_session_reply [OF assms(1)] with_session_reply [OF assms(2)] v(2) split: option.split)
    next
      case (Some s)
      then have "s \<in> set (own_sessions (aki_id i) (rdb_tables db))" using find_row_Some by fastforce
      from f [OF this] have "fst (f s (snd (next_fault db))) = fst (f s (snd (next_fault db')))"
        using faults_only [OF v(1)] by simp
      then show ?thesis using Some \<open>parse_uuid (se_codec E) idText = Some sid\<close> faults_only [OF v(1)]
        by (simp add: with_session_reply [OF assms(1)] with_session_reply [OF assms(2)] v(2) split: option.split)
    qed
  qed (simp add: with_session_def session_auth_def)
qed

text \<open>The operations on an owned session.\<close>

lemma one_session:
  assumes "sessions_unique t" "s \<in> set (ldb_sessions t)"
  shows "length (filter (\<lambda>x. cs_id x = cs_id s \<and> cs_ended_at x = None) (ldb_sessions t))
      = (if cs_ended_at s = None then 1 else 0)"
    and "find_row (\<lambda>x. cs_id x = cs_id s)
        (map (\<lambda>x. if cs_id x = cs_id s \<and> cs_ended_at x = None then x\<lparr>cs_ended_at := Some now\<rparr> else x) (ldb_sessions t))
      = Some (if cs_ended_at s = None then s\<lparr>cs_ended_at := Some now\<rparr> else s)"
proof -
  obtain as bs where t: "ldb_sessions t = as @ s # bs" using assms(2) by (meson split_list)
  then have "cs_id s \<notin> cs_id ` set as \<union> cs_id ` set bs" using assms(1) by (simp add: sessions_unique_def)
  then have other: "x \<in> set as \<union> set bs \<Longrightarrow> cs_id x \<noteq> cs_id s" for x by (metis Un_iff imageI)
  then have "filter (\<lambda>x. cs_id x = cs_id s \<and> cs_ended_at x = None) as = []"
    "filter (\<lambda>x. cs_id x = cs_id s \<and> cs_ended_at x = None) bs = []"
    by (auto simp: filter_empty_conv)
  then show "length (filter (\<lambda>x. cs_id x = cs_id s \<and> cs_ended_at x = None) (ldb_sessions t))
      = (if cs_ended_at s = None then 1 else 0)" by (simp add: t)
  have "find (\<lambda>x. cs_id x = cs_id s)
      (map (\<lambda>x. if cs_id x = cs_id s \<and> cs_ended_at x = None then x\<lparr>cs_ended_at := Some now\<rparr> else x) (xs @ s # bs))
      = Some (if cs_ended_at s = None then s\<lparr>cs_ended_at := Some now\<rparr> else s)"
    if "\<forall>x \<in> set xs. cs_id x \<noteq> cs_id s" for xs
    using that by (induction xs) auto
  then show "find_row (\<lambda>x. cs_id x = cs_id s)
        (map (\<lambda>x. if cs_id x = cs_id s \<and> cs_ended_at x = None then x\<lparr>cs_ended_at := Some now\<rparr> else x) (ldb_sessions t))
      = Some (if cs_ended_at s = None then s\<lparr>cs_ended_at := Some now\<rparr> else s)"
    using other by (simp add: t find_row_def)
qed

lemma EndSession_result:
  assumes "sessions_unique (rdb_tables db)" "s \<in> set (ldb_sessions (rdb_tables db))"
  shows "fst (EndSession now (cs_id s) db) = (case fst (next_fault db) of
      Some e \<Rightarrow> Inl (ErrWrap ''end claude session'' e)
    | None \<Rightarrow> if cs_ended_at s \<noteq> None then Inl ErrClaudeSessionNotFound
        else (case fst (next_fault (snd (next_fault db))) of Some e \<Rightarrow> Inl (ErrWrap ''get claude session'' e)
              | None \<Rightarrow> Inr (s\<lparr>cs_ended_at := Some now\<rparr>)))"
proof -
  obtain flt db1 where n: "next_fault db = (flt, db1)" by fastforce
  then have t: "rdb_tables db1 = rdb_tables db" by (rule next_fault_eq)
  have nf: "next_fault (db1\<lparr>rdb_tables := x\<rparr>) = (fst (next_fault db1), snd (next_fault db1)\<lparr>rdb_tables := x\<rparr>)" for x
    by (simp add: next_fault_def split: list.split)
  show ?thesis
  proof (cases flt)
    case (Some e)
    then show ?thesis using n by (simp add: EndSession_def EndClaudeSession_def must_affect_def repo_defs)
  next
    case None
    then show ?thesis
      using n t one_session(1) [OF assms] one_session(2) [OF assms, of now]
      by (auto simp: EndSession_def EndClaudeSession_def must_affect_def repo_defs update_where_def
          GetClaudeSession_eq nf split: option.split)
  qed
qed

lemma EndSession_view:
  assumes "sessions_unique (rdb_tables d)" "sessions_unique (rdb_tables d')" "rdb_faults d = rdb_faults d'"
    "s \<in> set (ldb_sessions (rdb_tables d))" "s \<in> set (ldb_sessions (rdb_tables d'))"
  shows "fst (EndSession now (cs_id s) d) = fst (EndSession now (cs_id s) d')"
  using faults_only [OF assms(3)] faults_only [of "snd (next_fault d)" "snd (next_fault d')"]
  by (simp add: EndSession_result [OF assms(1,4)] EndSession_result [OF assms(2,5)] split: option.split)

lemma rpage_view:
  "rdb_faults d = rdb_faults d' \<Longrightarrow> f (rdb_tables d) = f (rdb_tables d') \<Longrightarrow>
   fst (rpage lmt off f d) = fst (rpage lmt off f d')"
  using faults_only [of d d'] next_fault_tables [of d] next_fault_tables [of d']
  by (auto simp: rpage_def rexec_def case_prod_beta split: option.split)

lemma counted_page_view:
  assumes "rdb_faults d = rdb_faults d'" "f (rdb_tables d) = f (rdb_tables d')" "g (rdb_tables d) = g (rdb_tables d')"
  shows "fst (rbind (rwrap m (rquery f)) (\<lambda>n. rbind (rwrap m' (rpage lmt off g)) (\<lambda>xs. rreturn (Inr (xs, n)))) d)
       = fst (rbind (rwrap m (rquery f)) (\<lambda>n. rbind (rwrap m' (rpage lmt off g)) (\<lambda>xs. rreturn (Inr (xs, n)))) d')"
proof -
  obtain r d1 where q: "rquery f d = (r, d1)" by fastforce
  obtain r' d1' where q': "rquery f d' = (r', d1')" by fastforce
  have same: "r = r'" "rdb_faults d1 = rdb_faults d1'" using rquery_view [OF assms(1,2)] q q' by simp_all
  have "rdb_tables d1 = rdb_tables d" "rdb_tables d1' = rdb_tables d'"
    using rquery_tables [of f d] rquery_tables [of f d'] q q' by simp_all
  then have "fst (rpage lmt off g d1) = fst (rpage lmt off g d1')"
    using rpage_view [OF same(2), of g] assms(3) by simp
  then show ?thesis using q q' same
    by (auto simp: rbind_def rwrap_def rreturn_def split: prod.splits sum.splits)
qed

lemma respond_fst: "fst (respond bad good r) = case_sum bad good (fst r)"
  by (cases r) (simp add: respond_def)

lemma own_requests:
  assumes "s \<in> set (own_sessions A t)"
  shows "filter (\<lambda>d. crd_session_id d = Some (cs_id s)) (ldb_details t)
    = filter (\<lambda>d. crd_session_id d = Some (cs_id s)) (own_details A t)"
  using assms by (auto simp: own_details_def intro!: filter_cong)

lemmas session_handlers = h_StartSession_def h_EndSession_def h_GetSession_def h_ListSessions_def h_ListSessionRequests_def

lemma handle_session_view:
  assumes "sessions_unique (rdb_tables db)" "sessions_unique (rdb_tables db')" "session_view (aki_id i) db db'"
  shows "fst (handle_session E req (Some i) db) = fst (handle_session E req (Some i) db')"
proof -
  let ?A = "aki_id i"
  have v: "rdb_faults db = rdb_faults db'" "own_sessions ?A (rdb_tables db) = own_sessions ?A (rdb_tables db')"
    "own_details ?A (rdb_tables db) = own_details ?A (rdb_tables db')"
    using assms(3) by (simp_all add: session_view_def)
  have mem: "s \<in> set (own_sessions ?A t) \<Longrightarrow> s \<in> set (ldb_sessions t)" for s t by (simp add: own_sessions_def)
  show ?thesis
  proof (cases req)
    case (StartSessionReq len body)
    then show ?thesis using faults_only [OF v(1)]
      by (simp add: h_StartSession_def session_auth_def respond_fst StartSession_def CreateClaudeSession_def repo_defs Let_def
          case_prod_beta split: option.split)
  next
    case (EndSessionReq idText)
    have "fst (EndSession now (cs_id s) d) = fst (EndSession now (cs_id s) d')"
      if "s \<in> set (own_sessions ?A (rdb_tables db))" "rdb_tables d = rdb_tables db" "rdb_tables d' = rdb_tables db'"
        "rdb_faults d = rdb_faults d'" for s d d' now
      using EndSession_view [of d d' s] that assms(1,2) mem v(2) by metis
    then show ?thesis using EndSessionReq with_session_view [OF assms]
      by (simp add: h_EndSession_def respond_fst)
  next
    case (GetSessionReq idText)
    then show ?thesis using with_session_view [OF assms] by (simp add: h_GetSession_def)
  next
    case (ListSessionsReq lt ot)
    then show ?thesis
      using counted_page_view [OF v(1), of "\<lambda>t. length (own_sessions ?A t)" "\<lambda>t. sort_key (\<lambda>s. - cs_started_at s) (own_sessions ?A t)"] v(2)
      by (simp add: h_ListSessions_def session_auth_def respond_fst ListClaudeSessions_def own_sessions_def [symmetric] split: prod.split)
  next
    case (SessionRequestsReq idText lt ot)
    have "fst (ListClaudeSessionRequests (cs_id s) l f d) = fst (ListClaudeSessionRequests (cs_id s) l f d')"
      if "s \<in> set (own_sessions ?A (rdb_tables db))" "rdb_tables d = rdb_tables db" "rdb_tables d' = rdb_tables db'"
        "rdb_faults d = rdb_faults d'" for s d d' l f
      unfolding ListClaudeSessionRequests_def
      using own_requests [of s ?A] that v(2,3) by (intro counted_page_view) simp_all
    then show ?thesis using SessionRequestsReq with_session_view [OF assms]
      by (simp add: h_ListSessionRequests_def respond_fst split: prod.split)
  qed
qed

text \<open>The sessions of another API key are out of reach.\<close>

lemma must_affect_tables [simp]: "rdb_tables (snd (must_affect e m db)) = rdb_tables (snd (m db))"
  by (auto simp: must_affect_def rbind_def rreturn_def split: prod.splits sum.splits)

lemma rexec_tables:
  "rdb_tables (snd (rexec f db)) \<in> {rdb_tables db} \<union> {t. \<exists>v. f (rdb_tables db) = Inr (v, t)}"
  using rexec_cases [of f db] by auto

lemma EndSession_tables:
  "rdb_tables (snd (EndSession now sid db)) \<in> {rdb_tables db, (rdb_tables db)\<lparr>ldb_sessions :=
     map (\<lambda>x. if cs_id x = sid \<and> cs_ended_at x = None then x\<lparr>cs_ended_at := Some now\<rparr> else x)
       (ldb_sessions (rdb_tables db))\<rparr>}"
proof -
  have "rdb_tables (snd (EndSession now sid db)) = rdb_tables (snd (EndClaudeSession now sid db))"
    by (cases "EndClaudeSession now sid db") (auto simp: EndSession_def rbind_def split: sum.splits)
  moreover have "rdb_tables (snd (EndClaudeSession now sid db)) \<in> {rdb_tables db, (rdb_tables db)\<lparr>ldb_sessions :=
     map (\<lambda>x. if cs_id x = sid \<and> cs_ended_at x = None then x\<lparr>cs_ended_at := Some now\<rparr> else x)
       (ldb_sessions (rdb_tables db))\<rparr>}"
    using rexec_tables [of "\<lambda>t. let (rows, n) = update_where (\<lambda>s. cs_id s = sid \<and> cs_ended_at s = None)
              (\<lambda>s. s\<lparr>cs_ended_at := Some now\<rparr>) (ldb_sessions t)
        in Inr (n, t\<lparr>ldb_sessions := rows\<rparr>)" db]
    by (auto simp: EndClaudeSession_def update_where_def)
  ultimately show ?thesis by simp
qed

lemma page_tables: "rdb_tables (snd (rpage lmt off f db)) = rdb_tables db"
  using rexec_cases [of "\<lambda>t. if lmt < 0 \<or> off < 0 then Inl ErrDB else Inr (sql_page lmt off (f t), t)" db]
  by (auto simp: rpage_def split: if_splits)

lemma counted_page_tables:
  "rdb_tables (snd (rbind (rwrap m (rquery f)) (\<lambda>n. rbind (rwrap m' (rpage lmt off g)) (\<lambda>xs. rreturn (Inr (xs, n)))) db))
    = rdb_tables db"
proof -
  obtain r d1 where q: "rwrap m (rquery f) db = (r, d1)" by fastforce
  then have 1: "rdb_tables d1 = rdb_tables db" using rwrap_tables [of m "rquery f" db] by simp
  obtain r2 d2 where p: "rwrap m' (rpage lmt off g) d1 = (r2, d2)" by fastforce
  then have "rdb_tables d2 = rdb_tables db" using rwrap_tables [of m' "rpage lmt off g" d1] page_tables 1 by (metis snd_conv)
  then show ?thesis using q 1 p by (auto simp: rbind_def rreturn_def split: sum.splits)
qed

lemma respond_snd [simp]: "snd (respond bad good r) = snd r"
  by (cases r) (simp add: respond_def)

lemma with_session_tables:
  assumes "\<And>s d. s \<in> set (own_sessions (aki_id i) (rdb_tables db)) \<Longrightarrow> rdb_tables d = rdb_tables db \<Longrightarrow> P (rdb_tables (snd (f s d)))"
    and "P (rdb_tables db)"
  shows "P (rdb_tables (snd (with_session E idText f (Some i) db)))"
proof (cases "parse_uuid (se_codec E) idText")
  case (Some sid)
  obtain r d where g: "GetClaudeSession sid db = (r, d)" by fastforce
  then have t: "rdb_tables d = rdb_tables db" using GetClaudeSession_tables [of sid db] by simp
  show ?thesis
  proof (cases r)
    case (Inl e)
    then show ?thesis using Some g t assms(2) by (simp add: with_session_def session_auth_def)
  next
    case (Inr s)
    then have "s \<in> set (ldb_sessions (rdb_tables db))" using GetClaudeSession_Inr g by blast
    then have "cs_majordomo_api_key_id s = aki_id i \<Longrightarrow> P (rdb_tables (snd (f s d)))"
      using assms(1) [OF _ t] by (simp add: own_sessions_def)
    then show ?thesis using Inr Some g t assms(2) by (simp add: with_session_def session_auth_def)
  qed
qed (use assms(2) in \<open>simp add: with_session_def session_auth_def\<close>)

definition session_tenant :: "uuid \<Rightarrow> log_tables \<Rightarrow> ClaudeSession list \<times> ClaudeRequestDetail list" where
  "session_tenant A t = (own_sessions A t, own_details A t)"

lemma session_tenant_I:
  "own_sessions B t' = own_sessions B t \<Longrightarrow> ldb_details t' = ldb_details t \<Longrightarrow> session_tenant B t' = session_tenant B t"
  by (simp add: session_tenant_def own_details_def)

lemma handle_session_tenant:
  assumes "sessions_unique (rdb_tables db)" "aki_id i \<noteq> B"
  shows "session_tenant B (rdb_tables (snd (handle_session E req (Some i) db))) = session_tenant B (rdb_tables db)"
proof (cases req)
  case (StartSessionReq len body)
  define start where "start nm = (\<lambda>t. let row = \<lparr>cs_id = se_newid E, cs_majordomo_api_key_id = aki_id i, cs_org_id = None,
      cs_session_name = nm, cs_started_at = se_now E, cs_ended_at = None, cs_total_requests = 0, cs_total_input_tokens = 0,
      cs_total_output_tokens = 0, cs_total_cost = 0, cs_created_at = se_db_now E\<rparr>
      in Inr (row, t\<lparr>ldb_sessions := ldb_sessions t @ [row]\<rparr>) :: err + ClaudeSession \<times> log_tables)" for nm
  have "session_tenant B (rdb_tables (snd (rexec (start nm) db))) = session_tenant B (rdb_tables db)" for nm
    using rexec_cases [of "start nm" db] assms(2)
    by (auto simp: start_def Let_def own_sessions_def intro!: session_tenant_I)
  then show ?thesis
    by (simp add: StartSessionReq h_StartSession_def session_auth_def StartSession_def CreateClaudeSession_def Let_def start_def)
next
  case (EndSessionReq idText)
  have keep: "own_sessions B (t\<lparr>ldb_sessions := map (\<lambda>x. if cs_id x = cs_id s \<and> cs_ended_at x = None
        then x\<lparr>cs_ended_at := Some now\<rparr> else x) (ldb_sessions t)\<rparr>) = own_sessions B t"
    if "s \<in> set (own_sessions (aki_id i) t)" "sessions_unique t" for s now t
  proof -
    have "x = s" if "x \<in> set (ldb_sessions t)" "cs_id x = cs_id s" for x
      using that \<open>sessions_unique t\<close> \<open>s \<in> set (own_sessions (aki_id i) t)\<close>
      unfolding sessions_unique_def own_sessions_def distinct_map by (auto dest: inj_onD)
    moreover have "cs_majordomo_api_key_id s \<noteq> B" using that(1) assms(2) by (auto simp: own_sessions_def)
    ultimately have "\<forall>x \<in> set (ldb_sessions t). cs_id x = cs_id s \<longrightarrow> cs_majordomo_api_key_id x \<noteq> B" by blast
    moreover have "filter (\<lambda>x. cs_majordomo_api_key_id x = B) (map (\<lambda>x. if cs_id x = cs_id s \<and> cs_ended_at x = None
        then x\<lparr>cs_ended_at := Some now\<rparr> else x) rows) = filter (\<lambda>x. cs_majordomo_api_key_id x = B) rows"
      if "\<forall>x \<in> set rows. cs_id x = cs_id s \<longrightarrow> cs_majordomo_api_key_id x \<noteq> B" for rows
      using that by (induction rows) auto
    ultimately show ?thesis by (simp add: own_sessions_def)
  qed
  show ?thesis
    unfolding EndSessionReq handle_session.simps h_EndSession_def
  proof (rule with_session_tables)
    fix s and d :: "log_tables repo_db"
    assume s: "s \<in> set (own_sessions (aki_id i) (rdb_tables db))" and d: "rdb_tables d = rdb_tables db"
    show "session_tenant B (rdb_tables (snd (respond bad good (EndSession (se_db_now E) (cs_id s) d)))) = session_tenant B (rdb_tables db)"
      for bad good
      using EndSession_tables [of "se_db_now E" "cs_id s" d] keep [OF s assms(1)] d
      by (auto intro!: session_tenant_I)
  qed simp
next
  case (GetSessionReq idText)
  show ?thesis unfolding GetSessionReq handle_session.simps h_GetSession_def by (rule with_session_tables) simp_all
next
  case (ListSessionsReq lt ot)
  then show ?thesis
    by (simp add: h_ListSessions_def session_auth_def ListClaudeSessions_def counted_page_tables split: prod.split)
next
  case (SessionRequestsReq idText lt ot)
  show ?thesis unfolding SessionRequestsReq handle_session.simps h_ListSessionRequests_def
    by (rule with_session_tables) (simp_all add: ListClaudeSessionRequests_def counted_page_tables split: prod.split)
qed

text \<open>C15: Isolation of the session API. Whatever a request does in the name of one API key, the sessions of
  every other API key and their requests stay as they are; without authentication nothing happens; and the
  reply is the same on any two databases that agree on the sessions of the calling key, so that the session of
  another key is answered exactly as a missing one.\<close>

theorem session_isolation:
  assumes "sessions_unique (rdb_tables db)" "sessions_unique (rdb_tables db')" "aki_id i \<noteq> B"
  shows "session_tenant B (rdb_tables (snd (handle_session E req (Some i) db))) = session_tenant B (rdb_tables db)
    \<and> handle_session E req None db = (WriteJSONError 401 ''unauthorized'', db)
    \<and> (session_view (aki_id i) db db' \<longrightarrow>
         fst (handle_session E req (Some i) db) = fst (handle_session E req (Some i) db'))"
proof -
  have "handle_session E req None db = (WriteJSONError 401 ''unauthorized'', db)"
    by (cases req) (simp_all add: session_handlers with_session_def session_auth_def)
  then show ?thesis using handle_session_tenant [OF assms(1,3)] handle_session_view [OF assms(1,2)] by blast
qed

definition sample_session :: "uuid \<Rightarrow> uuid \<Rightarrow> ClaudeSession" where
  "sample_session sid key = \<lparr>cs_id = sid, cs_majordomo_api_key_id = key, cs_org_id = None, cs_session_name = None,
     cs_started_at = 1, cs_ended_at = None, cs_total_requests = 0, cs_total_input_tokens = 0,
     cs_total_output_tokens = 0, cs_total_cost = 0, cs_created_at = 1\<rparr>"

definition session_db :: "ClaudeSession list \<Rightarrow> log_tables repo_db" where
  "session_db ss = \<lparr>rdb_tables = \<lparr>ldb_requests = [], ldb_metadata_keys = [], ldb_sessions = ss, ldb_details = [],
     ldb_api_keys = [], ldb_proxy_keys = []\<rparr>, rdb_faults = []\<rparr>"

definition sample_session_env :: session_env where
  "sample_session_env = \<lparr>se_newid = 9, se_now = 50, se_db_now = 51, se_codec = sample_codec, se_fmt_float = (\<lambda>x. ''0'')\<rparr>"

lemma session_isolation_witness:
  "session_tenant 1 (rdb_tables (snd (handle_session sample_session_env (EndSessionReq ''3'') (Some (sample_info 2))
       (session_db [sample_session 3 1])))) = ([sample_session 3 1], [])
   \<and> fst (handle_session sample_session_env (EndSessionReq ''3'') (Some (sample_info 2)) (session_db [sample_session 3 1]))
     = fst (handle_session sample_session_env (EndSessionReq ''3'') (Some (sample_info 2)) (session_db []))"
proof -
  have u: "sessions_unique (rdb_tables (session_db [sample_session 3 1]))" "sessions_unique (rdb_tables (session_db []))"
    by (simp_all add: sessions_unique_def session_db_def)
  have B: "aki_id (sample_info 2) \<noteq> 1" by (simp add: sample_info_def)
  have v: "session_view (aki_id (sample_info 2)) (session_db [sample_session 3 1]) (session_db [])"
    by (simp add: session_view_def own_sessions_def own_details_def session_db_def sample_session_def sample_info_def)
  have t: "session_tenant 1 (rdb_tables (session_db [sample_session 3 1])) = ([sample_session 3 1], [])"
    by (simp add: session_tenant_def own_sessions_def own_details_def session_db_def sample_session_def)
  show ?thesis
    using session_isolation [OF u B, of sample_session_env "EndSessionReq ''3''"] v t by simp
qed

end
