(* ===== verification/Metadata_Keys.thy ===== *)
theory Metadata_Keys
  imports Claude_Sessions "HOL-Library.AList"
begin

text \<open>
  Metadata keys: the cache of the active keys (internal/repositories/active_keys_cache.go), the
  sketches that estimate their cardinality (hll_manager.go) and the repository (metadata_keys.go) with its
  two batch jobs. The sketch library is a parameter. A Go map is an association list whose order stands for
  the order of an iteration.
\<close>

section \<open>The cache of active keys\<close>

record activeKeysEntry =
  ake_keys :: "string list"
  ake_expires_at :: time

type_synonym active_cache = "uuid \<rightharpoonup> activeKeysEntry"

definition owns_key :: "uuid \<Rightarrow> string \<Rightarrow> MetadataKeyRow \<Rightarrow> bool" where
  "owns_key apiKeyID keyName k = (mk_api_key_id k = apiKeyID \<and> mk_key_name k = keyName)"

definition active_names :: "uuid \<Rightarrow> log_tables \<Rightarrow> string list" where
  "active_names apiKeyID t =
     map mk_key_name (filter (\<lambda>k. mk_api_key_id k = apiKeyID \<and> mk_is_active k) (ldb_metadata_keys t))"

text \<open>A query that fails is no active key; an error while the rows are read is reported.\<close>

definition fetchActiveKeys :: "uuid \<Rightarrow> (log_tables, string list) repo" where
  "fetchActiveKeys apiKeyID db = (case rquery (active_names apiKeyID) db of
     (Inl e, db1) \<Rightarrow> (Inr [], db1)
   | (Inr names, db1) \<Rightarrow> (case rquery (\<lambda>_. ()) db1 of
        (Inl e, db2) \<Rightarrow> (Inl e, db2) | (Inr _, db2) \<Rightarrow> (Inr names, db2)))"

definition GetActiveKeys :: "duration \<Rightarrow> time \<Rightarrow> time \<Rightarrow> uuid \<Rightarrow> active_cache \<Rightarrow> log_tables repo_db
    \<Rightarrow> (err + string list) \<times> active_cache \<times> log_tables repo_db" where
  "GetActiveKeys ttl now later apiKeyID cache db =
     (let miss = (case fetchActiveKeys apiKeyID db of
            (Inl e, db') \<Rightarrow> (Inl e, cache, db')
          | (Inr keys, db') \<Rightarrow>
              (Inr keys, cache(apiKeyID \<mapsto> \<lparr>ake_keys = keys, ake_expires_at = later + ttl\<rparr>), db'))
      in case cache apiKeyID of
           Some entry \<Rightarrow> if now < ake_expires_at entry then (Inr (ake_keys entry), cache, db) else miss
         | None \<Rightarrow> miss)"

definition InvalidateAPIKey :: "uuid \<Rightarrow> active_cache \<Rightarrow> active_cache" where
  "InvalidateAPIKey apiKeyID cache = cache(apiKeyID := None)"

definition InvalidateAll :: "active_cache \<Rightarrow> active_cache" where
  "InvalidateAll cache = Map.empty"

section \<open>Sketches\<close>

record 's sketch_lib =
  sk_new :: 's
  sk_insert :: "string \<Rightarrow> 's \<Rightarrow> 's"
  sk_marshal :: "'s \<Rightarrow> err + bytes"
  sk_unmarshal :: "bytes \<Rightarrow> err + 's"
  sk_estimate :: "'s \<Rightarrow> int"

record 's hllEntry =
  he_hll :: 's
  he_dirty :: bool
  he_count :: int

type_synonym 's hlls = "((uuid \<times> string) \<times> 's hllEntry) list"

text \<open>A state that does not unmarshal is left out.\<close>

fun load_rows :: "'s sketch_lib \<Rightarrow> MetadataKeyRow list \<Rightarrow> 's hlls \<Rightarrow> 's hlls" where
  "load_rows S [] m = m"
| "load_rows S (k # ks) m = load_rows S ks (case mkr_hll_state k of
     None \<Rightarrow> m
   | Some bytes \<Rightarrow> (case sk_unmarshal S bytes of
        Inl e \<Rightarrow> m
      | Inr h \<Rightarrow> AList.update (mk_api_key_id k, mk_key_name k) \<lparr>he_hll = h, he_dirty = False, he_count = 0\<rparr> m))"

definition hll_LoadFromDB :: "'s sketch_lib \<Rightarrow> 's hlls \<Rightarrow> log_tables repo_db \<Rightarrow> (err + unit) \<times> 's hlls \<times> log_tables repo_db" where
  "hll_LoadFromDB S m db = (case rquery ldb_metadata_keys db of
     (Inl e, db1) \<Rightarrow> (Inl e, m, db1)
   | (Inr rows, db1) \<Rightarrow> (case rquery (\<lambda>_. ()) db1 of (r, db2) \<Rightarrow> (r, load_rows S rows m, db2)))"

definition AddValue :: "'s sketch_lib \<Rightarrow> uuid \<Rightarrow> string \<Rightarrow> string \<Rightarrow> 's hlls \<Rightarrow> 's hlls" where
  "AddValue S apiKeyID keyName val m =
     (let entry = (case map_of m (apiKeyID, keyName) of
            Some e \<Rightarrow> e | None \<Rightarrow> \<lparr>he_hll = sk_new S, he_dirty = True, he_count = 0\<rparr>)
      in AList.update (apiKeyID, keyName) \<lparr>he_hll = sk_insert S val (he_hll entry), he_dirty = True,
           he_count = wrap64 (he_count entry + 1)\<rparr> m)"

text \<open>The UPDATE of one key: the cardinality is an INT, the counter a BIGINT.\<close>

definition flush_row :: "time \<Rightarrow> bytes \<Rightarrow> int \<Rightarrow> int \<Rightarrow> uuid \<times> string \<Rightarrow> (log_tables, nat) repo" where
  "flush_row now state cardinality count key = rexec (\<lambda>t.
     let mine = owns_key (fst key) (snd key);
         (rows, n) = update_where mine (\<lambda>k. k\<lparr>mkr_hll_state := Some state, mk_approx_cardinality := cardinality,
           mk_request_count := mk_request_count k + count, mk_last_seen_at := Some now, mkr_hll_updated_at := Some now\<rparr>)
           (ldb_metadata_keys t)
     in if list_ex (\<lambda>k. mine k \<and> (\<not> in_int64 (mk_request_count k + count) \<or> cardinality < - (2 ^ 31) \<or> 2 ^ 31 \<le> cardinality))
             (ldb_metadata_keys t)
        then Inl ErrDB else Inr (n, t\<lparr>ldb_metadata_keys := rows\<rparr>))"

fun flush_entries :: "'s sketch_lib \<Rightarrow> time \<Rightarrow> 's hlls \<Rightarrow> log_tables repo_db \<Rightarrow> log_tables repo_db" where
  "flush_entries S now [] db = db"
| "flush_entries S now ((key, e) # es) db = flush_entries S now es (case sk_marshal S (he_hll e) of
     Inl _ \<Rightarrow> db
   | Inr state \<Rightarrow> snd (flush_row now state (sk_estimate S (he_hll e)) (he_count e) key db))"

text \<open>Flush takes the dirty entries and resets them first, whatever becomes of the statements.\<close>

definition hll_Flush :: "'s sketch_lib \<Rightarrow> time \<Rightarrow> 's hlls \<Rightarrow> log_tables repo_db \<Rightarrow> 's hlls \<times> log_tables repo_db" where
  "hll_Flush S now m db =
     (map (\<lambda>(key, e). (key, if he_dirty e then e\<lparr>he_dirty := False, he_count := 0\<rparr> else e)) m,
      flush_entries S now (filter (\<lambda>(key, e). he_dirty e) m) db)"

section \<open>The repository\<close>

text \<open>ORDER BY request_count DESC of the keys of a user's API keys.\<close>

definition ListMetadataKeys :: "uuid \<Rightarrow> (log_tables, MetadataKeyRow list) repo" where
  "ListMetadataKeys userID = rwrap ''list metadata keys'' (rquery (\<lambda>t.
     sort_key (\<lambda>k. - mk_request_count k)
       (filter (\<lambda>k. list_ex (\<lambda>a. ak_id a = mk_api_key_id k \<and> ak_user_id a = Some userID) (ldb_api_keys t))
          (ldb_metadata_keys t))))"

definition ListActiveMetadataKeysByAPIKey :: "uuid \<Rightarrow> (log_tables, string list) repo" where
  "ListActiveMetadataKeysByAPIKey apiKeyID = rwrap ''list active metadata keys'' (rquery (active_names apiKeyID))"

definition ListAllActiveMetadataKeys :: "(log_tables, (uuid \<times> string) list) repo" where
  "ListAllActiveMetadataKeys = rwrap ''list all active metadata keys'' (rquery (\<lambda>t.
     map (\<lambda>k. (mk_api_key_id k, mk_key_name k)) (filter mk_is_active (ldb_metadata_keys t))))"

text \<open>One key is updated; when the key exists and the cache is given, its entry is invalidated.\<close>

definition update_key :: "string \<Rightarrow> (MetadataKeyRow \<Rightarrow> MetadataKeyRow) \<Rightarrow> uuid \<Rightarrow> string \<Rightarrow> (log_tables, unit) repo" where
  "update_key msg f apiKeyID keyName = must_affect ErrMetadataKeyNotFound (rwrap msg (rexec (\<lambda>t.
     let (rows, n) = update_where (owns_key apiKeyID keyName) f (ldb_metadata_keys t)
     in Inr (n, t\<lparr>ldb_metadata_keys := rows\<rparr>))))"

definition invalidating :: "uuid \<Rightarrow> (log_tables, unit) repo \<Rightarrow> active_cache \<times> log_tables repo_db
    \<Rightarrow> (err + unit) \<times> active_cache \<times> log_tables repo_db" where
  "invalidating apiKeyID m st = (case m (snd st) of
     (Inl e, db) \<Rightarrow> (Inl e, fst st, db)
   | (Inr _, db) \<Rightarrow> (Inr (), InvalidateAPIKey apiKeyID (fst st), db))"

definition ActivateMetadataKey :: "time \<Rightarrow> uuid \<Rightarrow> string \<Rightarrow> active_cache \<times> log_tables repo_db
    \<Rightarrow> (err + unit) \<times> active_cache \<times> log_tables repo_db" where
  "ActivateMetadataKey now apiKeyID keyName = invalidating apiKeyID
     (update_key ''activate metadata key'' (\<lambda>k. k\<lparr>mk_is_active := True, mk_activated_at := Some now\<rparr>) apiKeyID keyName)"

definition DeactivateMetadataKey :: "uuid \<Rightarrow> string \<Rightarrow> active_cache \<times> log_tables repo_db
    \<Rightarrow> (err + unit) \<times> active_cache \<times> log_tables repo_db" where
  "DeactivateMetadataKey apiKeyID keyName = invalidating apiKeyID
     (update_key ''deactivate metadata key'' (\<lambda>k. k\<lparr>mk_is_active := False\<rparr>) apiKeyID keyName)"

definition UpdateMetadataKeyDisplayName :: "uuid \<Rightarrow> string \<Rightarrow> string option \<Rightarrow> (log_tables, unit) repo" where
  "UpdateMetadataKeyDisplayName apiKeyID keyName displayName =
     update_key ''update metadata key display name'' (\<lambda>k. k\<lparr>mk_display_name := displayName\<rparr>) apiKeyID keyName"

section \<open>The batch jobs\<close>

text \<open>UPDATE of the rows whose identifier is among the first n that satisfy the condition.\<close>

definition update_batch :: "(LLMRequestRow \<Rightarrow> bool) \<Rightarrow> (LLMRequestRow \<Rightarrow> LLMRequestRow) \<Rightarrow> int \<Rightarrow> (log_tables, nat) repo" where
  "update_batch P f n = rexec (\<lambda>t.
     if n < 0 then Inl ErrDB
     else let ids = map (rl_id \<circ> lq_log) (take (nat n) (filter P (ldb_requests t)));
              (rows, count) = update_where (\<lambda>r. rl_id (lq_log r) \<in> set ids) f (ldb_requests t)
          in Inr (count, t\<lparr>ldb_requests := rows\<rparr>))"

text \<open>Batches until one is not full. The loop need not end, which is the result None; the number of
  updated rows is returned with an error too.\<close>

partial_function (option) batch_loop :: "string \<Rightarrow> (log_tables, nat) repo \<Rightarrow> int \<Rightarrow> int \<Rightarrow> log_tables repo_db
    \<Rightarrow> ((int \<times> err option) \<times> log_tables repo_db) option" where
  "batch_loop msg batch bsize tot db = (case batch db of
     (Inl e, db') \<Rightarrow> Some ((tot, Some (ErrWrap msg e)), db')
   | (Inr n, db') \<Rightarrow>
       if int n < bsize then Some ((tot + int n, None), db')
       else batch_loop msg batch bsize (tot + int n) db')"

definition needs_index :: "uuid \<Rightarrow> string \<Rightarrow> LLMRequestRow \<Rightarrow> bool" where
  "needs_index apiKeyID keyName r = (rl_majordomo_api_key_id (lq_log r) = Some apiKeyID
     \<and> map_of (rl_raw_metadata (lq_log r)) keyName \<noteq> None \<and> map_of (rl_indexed_metadata (lq_log r)) keyName = None)"

definition index_key :: "string \<Rightarrow> LLMRequestRow \<Rightarrow> LLMRequestRow" where
  "index_key keyName r = r\<lparr>lq_log := (lq_log r)\<lparr>rl_indexed_metadata := rl_indexed_metadata (lq_log r)
     @ (case map_of (rl_raw_metadata (lq_log r)) keyName of Some v \<Rightarrow> [(keyName, v)] | None \<Rightarrow> [])\<rparr>\<rparr>"

definition BackfillIndexedMetadata :: "uuid \<Rightarrow> string \<Rightarrow> int \<Rightarrow> log_tables repo_db
    \<Rightarrow> ((int \<times> err option) \<times> log_tables repo_db) option" where
  "BackfillIndexedMetadata apiKeyID keyName batchSize db = batch_loop ''backfill batch for key''
     (update_batch (needs_index apiKeyID keyName) (index_key keyName) batchSize) batchSize 0 db"

definition indexed_with :: "uuid \<Rightarrow> string \<Rightarrow> LLMRequestRow \<Rightarrow> bool" where
  "indexed_with apiKeyID keyName r = (rl_majordomo_api_key_id (lq_log r) = Some apiKeyID
     \<and> map_of (rl_indexed_metadata (lq_log r)) keyName \<noteq> None)"

definition unindex_key :: "string \<Rightarrow> LLMRequestRow \<Rightarrow> LLMRequestRow" where
  "unindex_key keyName r = r\<lparr>lq_log := (lq_log r)\<lparr>rl_indexed_metadata :=
     filter (\<lambda>(k, v). k \<noteq> keyName) (rl_indexed_metadata (lq_log r))\<rparr>\<rparr>"

definition CleanupIndexedMetadata :: "uuid \<Rightarrow> string \<Rightarrow> int \<Rightarrow> log_tables repo_db
    \<Rightarrow> ((int \<times> err option) \<times> log_tables repo_db) option" where
  "CleanupIndexedMetadata apiKeyID keyName batchSize db = batch_loop ''cleanup batch for key''
     (update_batch (indexed_with apiKeyID keyName) (unindex_key keyName) batchSize) batchSize 0 db"

section \<open>The jobs end\<close>

text \<open>A job whose update makes its condition false, on rows with distinct identifiers.\<close>

definition job_rows :: "(LLMRequestRow \<Rightarrow> bool) \<Rightarrow> (LLMRequestRow \<Rightarrow> LLMRequestRow) \<Rightarrow> nat \<Rightarrow> LLMRequestRow list \<Rightarrow> LLMRequestRow list" where
  "job_rows P f n rows = (let ids = (rl_id \<circ> lq_log) ` set (take n (filter P rows))
     in map (\<lambda>r. if rl_id (lq_log r) \<in> ids then f r else r) rows)"

lemma same_row:
  assumes "distinct (map (rl_id \<circ> lq_log) rows)" "x \<in> set rows" "y \<in> set rows" "rl_id (lq_log x) = rl_id (lq_log y)"
  shows "x = y"
  using assms inj_onD [of "rl_id \<circ> lq_log" "set rows" x y] by (simp add: distinct_map)

lemma id_mem:
  assumes "distinct (map (rl_id \<circ> lq_log) rows)" "set sel \<subseteq> set rows" "r \<in> set rows"
  shows "rl_id (lq_log r) \<in> (rl_id \<circ> lq_log) ` set sel \<longleftrightarrow> r \<in> set sel"
  using same_row [OF assms(1,3)] assms(2) by force

lemma update_batch_ok:
  assumes "rdb_faults db = []" "0 \<le> n" "distinct (map (rl_id \<circ> lq_log) (ldb_requests (rdb_tables db)))"
  shows "update_batch P f n db = (Inr (length (take (nat n) (filter P (ldb_requests (rdb_tables db))))),
    db\<lparr>rdb_tables := (rdb_tables db)\<lparr>ldb_requests := job_rows P f (nat n) (ldb_requests (rdb_tables db))\<rparr>\<rparr>)"
proof -
  define rows where "rows = ldb_requests (rdb_tables db)"
  define sel where "sel = take (nat n) (filter P rows)"
  have dist: "distinct (map (rl_id \<circ> lq_log) rows)" using assms(3) by (simp add: rows_def)
  have sub: "set sel \<subseteq> set rows" unfolding sel_def using set_take_subset [of "nat n" "filter P rows"] by auto
  have "distinct rows" using dist by (simp add: distinct_map)
  then have "distinct sel" by (simp add: sel_def)
  have "{r \<in> set rows. rl_id (lq_log r) \<in> (rl_id \<circ> lq_log) ` set sel} = set sel"
    using id_mem [OF dist sub] sub by blast
  then have "set (filter (\<lambda>r. rl_id (lq_log r) \<in> (rl_id \<circ> lq_log) ` set sel) rows) = set sel" by simp
  then have "length (filter (\<lambda>r. rl_id (lq_log r) \<in> (rl_id \<circ> lq_log) ` set sel) rows) = length sel"
    using \<open>distinct rows\<close> \<open>distinct sel\<close> by (metis distinct_card distinct_filter)
  then show ?thesis
    using assms(1,2)
    by (simp add: update_batch_def rexec_def next_fault_def update_where_def Let_def rows_def [symmetric]
        sel_def [symmetric] job_rows_def del: comp_apply)
qed

lemma job_rows_eq:
  assumes "distinct (map (rl_id \<circ> lq_log) rows)"
  shows "job_rows P f n rows = map (\<lambda>r. if r \<in> set (take n (filter P rows)) then f r else r) rows"
proof -
  have "set (take n (filter P rows)) \<subseteq> set rows" using set_take_subset [of n "filter P rows"] by auto
  then have "rl_id (lq_log r) \<in> (rl_id \<circ> lq_log) ` set (take n (filter P rows)) \<longleftrightarrow> r \<in> set (take n (filter P rows))"
    if "r \<in> set rows" for r
    using id_mem [OF assms _ that] by blast
  then show ?thesis by (auto simp: job_rows_def Let_def)
qed

lemma job_rows_left:
  assumes "distinct (map (rl_id \<circ> lq_log) rows)" "\<And>r. P r \<Longrightarrow> \<not> P (f r)" "\<And>r. rl_id (lq_log (f r)) = rl_id (lq_log r)"
  shows "filter P (job_rows P f n rows) = drop n (filter P rows)"
    and "map (\<lambda>r. if P r then f r else r) (job_rows P f n rows) = map (\<lambda>r. if P r then f r else r) rows"
    and "distinct (map (rl_id \<circ> lq_log) (job_rows P f n rows))"
proof -
  let ?fp = "filter P rows" and ?sel = "set (take n (filter P rows))"
  have sel: "r \<in> ?sel \<Longrightarrow> P r" for r using set_take_subset [of n ?fp] by auto
  have gone: "filter P (map (\<lambda>r. if r \<in> S then f r else r) xs) = filter (\<lambda>r. r \<notin> S) (filter P xs)"
    if "\<forall>r \<in> S. P r" for S xs
  proof (induction xs)
    case (Cons r xs)
    show ?case
    proof (cases "r \<in> S")
      case True
      then have "P r" using that by blast
      then show ?thesis using True assms(2) [of r] Cons by simp
    qed (use Cons in simp)
  qed simp
  have "distinct (take n ?fp @ drop n ?fp)" using assms(1) by (simp add: distinct_map)
  then have "filter (\<lambda>r. r \<notin> ?sel) (drop n ?fp) = drop n ?fp"
    unfolding distinct_append filter_id_conv by blast
  moreover have "filter (\<lambda>r. r \<notin> ?sel) (take n ?fp) = []" by (simp add: filter_empty_conv)
  ultimately have "filter (\<lambda>r. r \<notin> ?sel) ?fp = drop n ?fp"
    by (metis append_Nil append_take_drop_id filter_append)
  then show "filter P (job_rows P f n rows) = drop n ?fp"
    using gone [of ?sel rows] sel unfolding job_rows_eq [OF assms(1)] by metis
  show "map (\<lambda>r. if P r then f r else r) (job_rows P f n rows) = map (\<lambda>r. if P r then f r else r) rows"
  proof -
    have "(if P (if r \<in> S then f r else r) then f (if r \<in> S then f r else r) else (if r \<in> S then f r else r))
        = (if P r then f r else r)" if "r \<in> S \<Longrightarrow> P r" for S r
      using that assms(2) [of r] by (cases "r \<in> S") simp_all
    then show ?thesis unfolding job_rows_eq [OF assms(1)] map_map comp_def using sel by (intro map_cong refl) blast
  qed
  have "map (rl_id \<circ> lq_log) (job_rows P f n rows) = map (rl_id \<circ> lq_log) rows"
    using assms(3) by (simp add: job_rows_def Let_def)
  then show "distinct (map (rl_id \<circ> lq_log) (job_rows P f n rows))" using assms(1) by simp
qed

lemma batch_loop_complete:
  assumes "0 < bsize" and f: "\<And>r. P r \<Longrightarrow> \<not> P (f r)" "\<And>r. rl_id (lq_log (f r)) = rl_id (lq_log r)"
  shows "rdb_faults db = [] \<Longrightarrow> distinct (map (rl_id \<circ> lq_log) (ldb_requests (rdb_tables db))) \<Longrightarrow>
    batch_loop msg (update_batch P f bsize) bsize tot db =
      Some ((tot + int (length (filter P (ldb_requests (rdb_tables db)))), None),
        db\<lparr>rdb_tables := (rdb_tables db)\<lparr>ldb_requests :=
          map (\<lambda>r. if P r then f r else r) (ldb_requests (rdb_tables db))\<rparr>\<rparr>)"
proof (induction "length (filter P (ldb_requests (rdb_tables db)))" arbitrary: db tot rule: less_induct)
  case less
  let ?rows = "ldb_requests (rdb_tables db)"
  let ?db = "db\<lparr>rdb_tables := (rdb_tables db)\<lparr>ldb_requests := job_rows P f (nat bsize) ?rows\<rparr>\<rparr>"
  have batch: "update_batch P f bsize db = (Inr (length (take (nat bsize) (filter P ?rows))), ?db)"
    using update_batch_ok [OF less.prems(1) _ less.prems(2)] assms(1) by simp
  note left = job_rows_left [where P = P and f = f and n = "nat bsize", OF less.prems(2) f]
  show ?case
  proof (cases "length (filter P ?rows) < nat bsize")
    case True
    then have "filter P (job_rows P f (nat bsize) ?rows) = []" using left(1) by simp
    then have "map (\<lambda>r. if P r then f r else r) (job_rows P f (nat bsize) ?rows) = job_rows P f (nat bsize) ?rows"
      by (simp add: filter_empty_conv map_idI)
    then show ?thesis using True batch left(2) assms(1) by (subst batch_loop.simps) auto
  next
    case False
    have "length (filter P (ldb_requests (rdb_tables ?db))) < length (filter P ?rows)"
      using False left(1) assms(1) by simp
    from less.hyps [OF this, of "tot + bsize"] show ?thesis
      using False batch left less.prems(1) assms(1) by (subst batch_loop.simps) (simp add: min_def of_nat_diff)
  qed
qed

text \<open>C39: The batch jobs end and do their work. With a batch size above zero and a working database, the
  backfill of a metadata key returns, after it every request of the API key that carries the key is indexed by
  it, the returned number is that of the rows that were not, and nothing else has changed; the
  cleanup returns likewise and leaves no row of the API key indexed.\<close>

theorem metadata_jobs_complete:
  assumes "0 < batchSize" "rdb_faults db = []" "distinct (map (rl_id \<circ> lq_log) (ldb_requests (rdb_tables db)))"
    and rows: "rows = ldb_requests (rdb_tables db)"
  shows "BackfillIndexedMetadata a key batchSize db
      = Some ((int (length (filter (needs_index a key) rows)), None), db\<lparr>rdb_tables := (rdb_tables db)
          \<lparr>ldb_requests := map (\<lambda>r. if needs_index a key r then index_key key r else r) rows\<rparr>\<rparr>)
    \<and> (\<forall>r \<in> set (map (\<lambda>r. if needs_index a key r then index_key key r else r) rows).
         rl_majordomo_api_key_id (lq_log r) = Some a \<longrightarrow> map_of (rl_raw_metadata (lq_log r)) key \<noteq> None \<longrightarrow>
         map_of (rl_indexed_metadata (lq_log r)) key \<noteq> None)
    \<and> CleanupIndexedMetadata a key batchSize db
      = Some ((int (length (filter (indexed_with a key) rows)), None), db\<lparr>rdb_tables := (rdb_tables db)
          \<lparr>ldb_requests := map (\<lambda>r. if indexed_with a key r then unindex_key key r else r) rows\<rparr>\<rparr>)
    \<and> (\<forall>r \<in> set (map (\<lambda>r. if indexed_with a key r then unindex_key key r else r) rows). \<not> indexed_with a key r)"
proof -
  have index: "needs_index a key r \<Longrightarrow> \<not> needs_index a key (index_key key r)" for r
    by (auto simp: needs_index_def index_key_def)
  have unindex: "\<not> indexed_with a key (unindex_key key r)" for r
    by (auto simp: indexed_with_def unindex_key_def map_of_eq_None_iff)
  have ids: "rl_id (lq_log (index_key key r)) = rl_id (lq_log r)" "rl_id (lq_log (unindex_key key r)) = rl_id (lq_log r)" for r
    by (simp_all add: index_key_def unindex_key_def)
  have same: "rl_majordomo_api_key_id (lq_log (index_key key r)) = rl_majordomo_api_key_id (lq_log r)"
    "rl_raw_metadata (lq_log (index_key key r)) = rl_raw_metadata (lq_log r)" for r
    by (simp_all add: index_key_def)
  have indexed: "rl_majordomo_api_key_id (lq_log r) = Some a \<Longrightarrow> map_of (rl_raw_metadata (lq_log r)) key \<noteq> None \<Longrightarrow>
      map_of (rl_indexed_metadata (lq_log (if needs_index a key r then index_key key r else r))) key \<noteq> None" for r
    using index [of r] by (auto simp: needs_index_def same)
  have "BackfillIndexedMetadata a key batchSize db
      = Some ((int (length (filter (needs_index a key) rows)), None), db\<lparr>rdb_tables := (rdb_tables db)
          \<lparr>ldb_requests := map (\<lambda>r. if needs_index a key r then index_key key r else r) rows\<rparr>\<rparr>)"
    unfolding BackfillIndexedMetadata_def rows
    by (subst batch_loop_complete [where P = "needs_index a key" and f = "index_key key", OF assms(1) index ids(1) assms(2,3)]) simp_all
  moreover have "CleanupIndexedMetadata a key batchSize db
      = Some ((int (length (filter (indexed_with a key) rows)), None), db\<lparr>rdb_tables := (rdb_tables db)
          \<lparr>ldb_requests := map (\<lambda>r. if indexed_with a key r then unindex_key key r else r) rows\<rparr>\<rparr>)"
    unfolding CleanupIndexedMetadata_def rows
    by (subst batch_loop_complete [where P = "indexed_with a key" and f = "unindex_key key", OF assms(1) unindex ids(2) assms(2,3)]) simp_all
  moreover have "\<forall>r \<in> set (map (\<lambda>r. if needs_index a key r then index_key key r else r) rows).
         rl_majordomo_api_key_id (lq_log r) = Some a \<longrightarrow> map_of (rl_raw_metadata (lq_log r)) key \<noteq> None \<longrightarrow>
         map_of (rl_indexed_metadata (lq_log r)) key \<noteq> None"
  proof -
    have "map_of (rl_indexed_metadata (lq_log (if needs_index a key r then index_key key r else r))) key \<noteq> None"
      if "rl_majordomo_api_key_id (lq_log (if needs_index a key r then index_key key r else r)) = Some a"
        "map_of (rl_raw_metadata (lq_log (if needs_index a key r then index_key key r else r))) key \<noteq> None" for r
      using indexed [of r] that by (cases "needs_index a key r") (simp_all add: same)
    then show ?thesis unfolding set_map by (intro ballI impI) (erule imageE, simp only:)
  qed
  moreover have "\<forall>r \<in> set (map (\<lambda>r. if indexed_with a key r then unindex_key key r else r) rows). \<not> indexed_with a key r"
    using unindex by auto
  ultimately show ?thesis by blast
qed

text \<open>One request of the API key 1 with the metadata user=u, not indexed.\<close>

definition sample_log :: RequestLog where
  "sample_log = \<lparr>rl_id = 5, rl_majordomo_api_key_id = Some 1, rl_user_id = None, rl_org_id = Some 7,
     rl_proxy_key_id = None, rl_provider_api_key_hash = None, rl_provider_api_key_alias = None,
     rl_provider = ''openai'', rl_model = ''m'', rl_request_path = ''/'', rl_request_method = ''POST'',
     rl_requested_at = 0, rl_responded_at = 1, rl_response_time_ms = 1, rl_input_tokens = 2, rl_output_tokens = 3,
     rl_cached_tokens = 0, rl_cache_creation_tokens = 0, rl_input_cost = 0, rl_output_cost = 0, rl_total_cost = 0,
     rl_status_code = 200, rl_error_message = None, rl_raw_metadata = [(''user'', ''u'')], rl_indexed_metadata = [],
     rl_request_body = None, rl_response_body = None, rl_body_s3_key = None, rl_model_alias_found = True,
     rl_created_at = 0, rl_experiment_id = None, rl_experiment_arm_id = None, rl_original_model = None,
     rl_deprecated_model_redirected = False, rl_claude_metadata = None\<rparr>"

definition sample_log_db :: "LLMRequestRow list \<Rightarrow> MetadataKeyRow list \<Rightarrow> log_tables repo_db" where
  "sample_log_db rows keys = (session_db [])\<lparr>rdb_tables := (rdb_tables (session_db []))
     \<lparr>ldb_requests := rows, ldb_metadata_keys := keys\<rparr>\<rparr>"

lemma metadata_jobs_complete_witness:
  "\<exists>db'. BackfillIndexedMetadata 1 ''user'' 10 (sample_log_db [\<lparr>lq_log = sample_log, lq_synced = False\<rparr>] [])
     = Some ((1, None), db')"
proof -
  let ?db = "sample_log_db [\<lparr>lq_log = sample_log, lq_synced = False\<rparr>] []"
  have "rdb_faults ?db = []" "distinct (map (rl_id \<circ> lq_log) (ldb_requests (rdb_tables ?db)))"
    by (simp_all add: sample_log_db_def session_db_def)
  from metadata_jobs_complete [OF _ this refl, of 10 1 "''user''"] show ?thesis
    by (simp add: sample_log_db_def session_db_def needs_index_def sample_log_def)
qed

end
