(* ===== verification/Request_Log.thy ===== *)
theory Request_Log
  imports Metadata_Keys "HOL-Library.Sublist"
begin

text \<open>
  The writer of the request log (internal/requestlog/writer.go): the queue the handler puts its logs
  into, the loop that takes them out, and the write of one log with its indexed metadata, metadata keys,
  sketches and Claude Code details. What the columns of the database keep of a log (times in microseconds,
  costs with eight decimals) is a parameter.
\<close>

section \<open>Writing one log\<close>

record 's write_env =
  we_sketch :: "'s sketch_lib"
  we_col :: "RequestLog \<Rightarrow> RequestLog"
  we_ttl :: duration
  we_now :: time
  we_later :: time
  we_db_now :: time
  we_newid :: uuid

record 's log_writer =
  wr_db :: "log_tables repo_db"
  wr_cache :: active_cache
  wr_hlls :: "'s hlls"

text \<open>The metadata under active keys; a lookup that fails is no active key.\<close>

definition indexed_metadata :: "'s write_env \<Rightarrow> RequestLog \<Rightarrow> 's log_writer \<Rightarrow> (string \<times> string) list \<times> 's log_writer" where
  "indexed_metadata E lg w = (case rl_majordomo_api_key_id lg of
     None \<Rightarrow> ([], w)
   | Some a \<Rightarrow> (case GetActiveKeys (we_ttl E) (we_now E) (we_later E) a (wr_cache w) (wr_db w) of
        (r, cache, db) \<Rightarrow>
          (filter (\<lambda>(k, v). k \<in> set (case r of Inr keys \<Rightarrow> keys | Inl _ \<Rightarrow> [])) (rl_raw_metadata lg),
           w\<lparr>wr_cache := cache, wr_db := db\<rparr>)))"

text \<open>The row of the INSERT: the creation time, the redirect flag and the reporter's flag are defaults.\<close>

definition request_row :: "'s write_env \<Rightarrow> (string \<times> string) list \<Rightarrow> RequestLog \<Rightarrow> LLMRequestRow" where
  "request_row E idx lg = \<lparr>lq_log = we_col E (lg\<lparr>rl_indexed_metadata := idx, rl_created_at := we_db_now E,
     rl_deprecated_model_redirected := False, rl_claude_metadata := None\<rparr>), lq_synced = False\<rparr>"

text \<open>The constraints of llm_requests: the primary key and the references to the keys.\<close>

definition row_allowed :: "RequestLog \<Rightarrow> log_tables \<Rightarrow> bool" where
  "row_allowed lg t = (\<not> list_ex (\<lambda>r. rl_id (lq_log r) = rl_id lg) (ldb_requests t)
     \<and> (case rl_majordomo_api_key_id lg of None \<Rightarrow> True | Some a \<Rightarrow> list_ex (\<lambda>k. ak_id k = a) (ldb_api_keys t))
     \<and> (case rl_proxy_key_id lg of None \<Rightarrow> True | Some p \<Rightarrow> list_ex (\<lambda>k. pk_id k = p) (ldb_proxy_keys t)))"

definition insert_request :: "RequestLog \<Rightarrow> LLMRequestRow \<Rightarrow> (log_tables, unit) repo" where
  "insert_request lg row = rexec (\<lambda>t.
     if row_allowed lg t then Inr ((), t\<lparr>ldb_requests := ldb_requests t @ [row]\<rparr>) else Inl ErrDB)"

definition new_metadata_key :: "time \<Rightarrow> uuid \<Rightarrow> string \<Rightarrow> MetadataKeyRow" where
  "new_metadata_key now apiKeyID keyName = \<lparr>mk_api_key_id = apiKeyID, mk_key_name = keyName, mk_display_name = None,
     mk_key_type = ''string'', mk_is_required = False, mk_is_active = False, mk_activated_at = None,
     mk_request_count = 0, mk_last_seen_at = None, mk_approx_cardinality = 0, mk_created_at = now,
     mkr_hll_state = None, mkr_hll_updated_at = None\<rparr>"

text \<open>ON CONFLICT DO NOTHING; a key that cannot be registered is skipped.\<close>

fun registerMetadataKeys :: "time \<Rightarrow> uuid \<Rightarrow> (string \<times> string) list \<Rightarrow> log_tables repo_db \<Rightarrow> log_tables repo_db" where
  "registerMetadataKeys now apiKeyID [] db = db"
| "registerMetadataKeys now apiKeyID ((keyName, v) # metadata) db = registerMetadataKeys now apiKeyID metadata
     (snd (rexec (\<lambda>t.
        if \<not> list_ex (\<lambda>k. ak_id k = apiKeyID) (ldb_api_keys t) then Inl ErrDB
        else Inr ((), if list_ex (owns_key apiKeyID keyName) (ldb_metadata_keys t) then t
          else t\<lparr>ldb_metadata_keys := ldb_metadata_keys t @ [new_metadata_key now apiKeyID keyName]\<rparr>)) db))"

definition add_values :: "'s write_env \<Rightarrow> RequestLog \<Rightarrow> 's log_writer \<Rightarrow> 's log_writer" where
  "add_values E lg w = (case rl_majordomo_api_key_id lg of
     None \<Rightarrow> w
   | Some a \<Rightarrow> w\<lparr>wr_hlls := fold (\<lambda>(k, v). AddValue (we_sketch E) a k v) (rl_raw_metadata lg) (wr_hlls w),
                wr_db := registerMetadataKeys (we_db_now E) a (rl_raw_metadata lg) (wr_db w)\<rparr>)"

definition claude_detail :: "uuid \<Rightarrow> RequestLog \<Rightarrow> ClaudeRequestMetadata \<Rightarrow> ClaudeRequestDetail" where
  "claude_detail newid lg m = \<lparr>crd_id = newid, crd_llm_request_id = rl_id lg, crd_session_id = cm_session_id m,
     crd_message_count = cm_message_count m, crd_user_message_count = cm_user_message_count m,
     crd_assistant_message_count = cm_assistant_message_count m, crd_tool_names = cm_tool_names m,
     crd_tool_use_count = cm_tool_use_count m, crd_has_thinking = cm_has_thinking m,
     crd_is_plan_mode = cm_is_plan_mode m,
     crd_stop_reason = (if cm_stop_reason m \<noteq> [] then Some (cm_stop_reason m) else None),
     crd_system_prompt_hash = (if cm_system_prompt_hash m \<noteq> [] then Some (cm_system_prompt_hash m) else None),
     crd_created_at = 0\<rparr>"

text \<open>Errors of the two statements are logged only.\<close>

definition add_claude :: "'s write_env \<Rightarrow> RequestLog \<Rightarrow> log_tables repo_db \<Rightarrow> log_tables repo_db" where
  "add_claude E lg db = (case rl_claude_metadata lg of
     None \<Rightarrow> db
   | Some m \<Rightarrow>
       let db1 = snd (CreateClaudeRequestDetail (we_db_now E) (claude_detail (we_newid E) lg m) db)
       in (case cm_session_id m of
             None \<Rightarrow> db1
           | Some sid \<Rightarrow> snd (UpdateClaudeSessionStats sid (rl_input_tokens lg) (rl_output_tokens lg) (rl_total_cost lg) db1)))"

definition writeLog :: "'s write_env \<Rightarrow> RequestLog \<Rightarrow> 's log_writer \<Rightarrow> 's log_writer" where
  "writeLog E lg w = (case indexed_metadata E lg w of (idx, w1) \<Rightarrow>
     (case insert_request lg (request_row E idx lg) (wr_db w1) of
        (Inl e, db) \<Rightarrow> w1\<lparr>wr_db := db\<rparr>
      | (Inr _, db) \<Rightarrow> (let w2 = add_values E lg (w1\<lparr>wr_db := db\<rparr>)
                       in w2\<lparr>wr_db := add_claude E lg (wr_db w2)\<rparr>)))"

section \<open>The queue and the loop\<close>

definition log_chan_capacity :: nat where "log_chan_capacity = 1000"

text \<open>WriteRequestLog does not block: with a full queue the log is dropped.\<close>

definition WriteRequestLog :: "RequestLog \<Rightarrow> RequestLog list \<Rightarrow> RequestLog list \<times> bool" where
  "WriteRequestLog lg q = (if length q < log_chan_capacity then (q @ [lg], True) else (q, False))"

text \<open>The queue, whether Close was called and whether the loop has returned; and as history the logs that
  were queued, the logs that were dropped and the logs that were written.\<close>

record 's writer_state =
  ws_queue :: "RequestLog list"
  ws_closed :: bool
  ws_stopped :: bool
  ws_writer :: "'s log_writer"
  ws_accepted :: "RequestLog list"
  ws_dropped :: "RequestLog list"
  ws_handled :: "RequestLog list"

definition request_ids :: "log_tables \<Rightarrow> uuid list" where
  "request_ids t = map (rl_id \<circ> lq_log) (ldb_requests t)"

text \<open>The steps: a caller queues a log at any time, the loop takes the next one, Close is called, the loop
  returns when it is closed and the queue is empty, and the other parts of the program change the
  database, but add and remove no request.\<close>

inductive writer_step :: "('s write_env \<Rightarrow> bool) \<Rightarrow> 's writer_state \<Rightarrow> 's writer_state \<Rightarrow> bool" for ok where
  enqueue: "WriteRequestLog lg (ws_queue st) = (q, True) \<Longrightarrow>
    writer_step ok st (st\<lparr>ws_queue := q, ws_accepted := ws_accepted st @ [lg]\<rparr>)"
| dropped: "WriteRequestLog lg (ws_queue st) = (q, False) \<Longrightarrow>
    writer_step ok st (st\<lparr>ws_queue := q, ws_dropped := ws_dropped st @ [lg]\<rparr>)"
| written: "ok E \<Longrightarrow> \<not> ws_stopped st \<Longrightarrow> ws_queue st = lg # q \<Longrightarrow>
    writer_step ok st (st\<lparr>ws_queue := q, ws_writer := writeLog E lg (ws_writer st), ws_handled := ws_handled st @ [lg]\<rparr>)"
| closing: "writer_step ok st (st\<lparr>ws_closed := True\<rparr>)"
| stopping: "ws_closed st \<Longrightarrow> ws_queue st = [] \<Longrightarrow> writer_step ok st (st\<lparr>ws_stopped := True\<rparr>)"
| other: "request_ids (rdb_tables (wr_db w)) = request_ids (rdb_tables (wr_db (ws_writer st))) \<Longrightarrow>
    writer_step ok st (st\<lparr>ws_writer := w\<rparr>)"

section \<open>What a write leaves\<close>

text \<open>The columns keep the identifier and the metadata.\<close>

definition col_ok :: "(RequestLog \<Rightarrow> RequestLog) \<Rightarrow> bool" where
  "col_ok col = (\<forall>l. rl_id (col l) = rl_id l \<and> rl_majordomo_api_key_id (col l) = rl_majordomo_api_key_id l
     \<and> rl_org_id (col l) = rl_org_id l \<and> rl_raw_metadata (col l) = rl_raw_metadata l
     \<and> rl_indexed_metadata (col l) = rl_indexed_metadata l)"

lemma fetchActiveKeys_tables [simp]: "rdb_tables (snd (fetchActiveKeys a db)) = rdb_tables db"
proof -
  obtain r db1 where q: "rquery (active_names a) db = (r, db1)" by fastforce
  then have t: "rdb_tables db1 = rdb_tables db" using rquery_tables [of "active_names a" db] by simp
  obtain r2 db2 where q2: "rquery (\<lambda>_. ()) db1 = (r2, db2)" by fastforce
  then have "rdb_tables db2 = rdb_tables db1" using rquery_tables [of "\<lambda>_. ()" db1] by simp
  then show ?thesis using q q2 t by (simp add: fetchActiveKeys_def split: sum.split)
qed

lemma GetActiveKeys_tables [simp]: "rdb_tables (snd (snd (GetActiveKeys ttl now later a cache db))) = rdb_tables db"
  using fetchActiveKeys_tables [of a db]
  by (cases "fetchActiveKeys a db") (auto simp: GetActiveKeys_def Let_def split: option.split sum.split)

lemma indexed_metadata_tables [simp]:
  "rdb_tables (wr_db (snd (indexed_metadata E lg w))) = rdb_tables (wr_db w)"
proof (cases "rl_majordomo_api_key_id lg")
  case (Some a)
  then show ?thesis
    using GetActiveKeys_tables [of "we_ttl E" "we_now E" "we_later E" a "wr_cache w" "wr_db w"]
    by (cases "GetActiveKeys (we_ttl E) (we_now E) (we_later E) a (wr_cache w) (wr_db w)")
      (simp add: indexed_metadata_def)
qed (simp add: indexed_metadata_def)

lemma registerMetadataKeys_requests [simp]:
  "ldb_requests (rdb_tables (registerMetadataKeys now a ms db)) = ldb_requests (rdb_tables db)"
proof (induction ms arbitrary: db)
  case (Cons m ms)
  obtain k v where m: "m = (k, v)" by fastforce
  have "ldb_requests (rdb_tables (snd (rexec (\<lambda>t.
        if \<not> list_ex (\<lambda>k. ak_id k = a) (ldb_api_keys t) then Inl ErrDB
        else Inr ((), if list_ex (owns_key a k) (ldb_metadata_keys t) then t
          else t\<lparr>ldb_metadata_keys := ldb_metadata_keys t @ [new_metadata_key now a k]\<rparr>)) db)))
      = ldb_requests (rdb_tables db)"
    by (rule rexec_keeps) (auto split: if_splits)
  then show ?case by (simp add: m Cons)
qed simp

lemma add_values_requests [simp]:
  "ldb_requests (rdb_tables (wr_db (add_values E lg w))) = ldb_requests (rdb_tables (wr_db w))"
  by (simp add: add_values_def split: option.split)

lemma add_claude_requests [simp]:
  "ldb_requests (rdb_tables (add_claude E lg db)) = ldb_requests (rdb_tables db)"
proof -
  have u: "ldb_requests (rdb_tables (snd (UpdateClaudeSessionStats sid i ou c db))) = ldb_requests (rdb_tables db)" for sid i ou c db
    unfolding UpdateClaudeSessionStats_def rwrap_tables by (rule rexec_keeps) auto
  have "ldb_requests (rdb_tables (snd (CreateClaudeRequestDetail now d db))) = ldb_requests (rdb_tables db)" for now d db
    unfolding CreateClaudeRequestDetail_def rwrap_tables by (rule rexec_keeps) auto
  then show ?thesis by (simp add: add_claude_def Let_def u split: option.split)
qed

text \<open>A write adds its row or nothing.\<close>

lemma writeLog_requests:
  "ldb_requests (rdb_tables (wr_db (writeLog E lg w))) \<in> {ldb_requests (rdb_tables (wr_db w)),
     ldb_requests (rdb_tables (wr_db w)) @ [request_row E (fst (indexed_metadata E lg w)) lg]}"
proof -
  obtain idx w1 where i: "indexed_metadata E lg w = (idx, w1)" by fastforce
  then have t: "rdb_tables (wr_db w1) = rdb_tables (wr_db w)" using indexed_metadata_tables [of E lg w] by simp
  obtain r db where n: "insert_request lg (request_row E idx lg) (wr_db w1) = (r, db)" by fastforce
  have "ldb_requests (rdb_tables (snd (insert_request lg (request_row E idx lg) (wr_db w1))))
      \<in> {ldb_requests (rdb_tables (wr_db w1)), ldb_requests (rdb_tables (wr_db w1)) @ [request_row E idx lg]}"
    unfolding insert_request_def by (rule rexec_keeps) (auto split: if_splits)
  then show ?thesis using i n t by (auto simp: writeLog_def Let_def split: sum.split)
qed

lemma writeLog_ids:
  assumes "col_ok (we_col E)"
  shows "request_ids (rdb_tables (wr_db (writeLog E lg w))) \<in>
    {request_ids (rdb_tables (wr_db w)), request_ids (rdb_tables (wr_db w)) @ [rl_id lg]}"
  using writeLog_requests [of E lg w] assms by (auto simp: request_ids_def request_row_def col_ok_def)

definition no_history :: "'s log_writer \<Rightarrow> 's writer_state" where
  "no_history w = \<lparr>ws_queue = [], ws_closed = False, ws_stopped = False, ws_writer = w, ws_accepted = [],
     ws_dropped = [], ws_handled = []\<rparr>"

text \<open>C27: The queue of the request log is first in first out and loses nothing silently. In every reachable
  state the queued logs are those that have been taken out, in the same order, followed by those still in
  the queue, which never holds more than 1000; the requests added to the table are among the logs taken out,
  in that order and each at most once; and the loop has only returned after Close.\<close>

theorem request_queue:
  assumes "(writer_step (\<lambda>E. col_ok (we_col E)))\<^sup>*\<^sup>* (no_history w) st"
  shows "ws_accepted st = ws_handled st @ ws_queue st \<and> length (ws_queue st) \<le> 1000
    \<and> (\<exists>ids. request_ids (rdb_tables (wr_db (ws_writer st))) = request_ids (rdb_tables (wr_db w)) @ ids
          \<and> subseq ids (map rl_id (ws_handled st)))
    \<and> (ws_stopped st \<longrightarrow> ws_closed st)"
  using assms
proof (induction rule: rtranclp_induct)
  case base
  then show ?case by (simp add: no_history_def)
next
  case (step st st')
  then obtain ids where ids: "request_ids (rdb_tables (wr_db (ws_writer st))) = request_ids (rdb_tables (wr_db w)) @ ids"
    "subseq ids (map rl_id (ws_handled st))" by blast
  from step.hyps(2) show ?case
  proof (cases rule: writer_step.cases)
    case (written E lg q)
    have "\<exists>ids. request_ids (rdb_tables (wr_db (writeLog E lg (ws_writer st)))) = request_ids (rdb_tables (wr_db w)) @ ids
        \<and> subseq ids (map rl_id (ws_handled st @ [lg]))"
      using writeLog_ids [OF written(2), of lg "ws_writer st"]
    proof
      assume "request_ids (rdb_tables (wr_db (writeLog E lg (ws_writer st)))) \<in> {request_ids (rdb_tables (wr_db (ws_writer st))) @ [rl_id lg]}"
      then show ?thesis using ids by (intro exI [of _ "ids @ [rl_id lg]"]) simp
    next
      assume "request_ids (rdb_tables (wr_db (writeLog E lg (ws_writer st)))) = request_ids (rdb_tables (wr_db (ws_writer st)))"
      then show ?thesis using ids by (intro exI [of _ ids]) (simp add: subseq_rev_drop_many)
    qed
    then show ?thesis using step.IH written by simp
  qed (use step.IH ids in \<open>auto simp: WriteRequestLog_def log_chan_capacity_def split: if_splits\<close>)
qed

section \<open>Active keys\<close>

lemma update_key_ok:
  assumes "update_key msg f a key db = (Inr (), db')"
  shows "rdb_tables db' = (rdb_tables db)\<lparr>ldb_metadata_keys :=
      map (\<lambda>k. if owns_key a key k then f k else k) (ldb_metadata_keys (rdb_tables db))\<rparr>"
    and "\<exists>k \<in> set (ldb_metadata_keys (rdb_tables db)). owns_key a key k"
proof -
  let ?g = "\<lambda>t. let (rows, n) = update_where (owns_key a key) f (ldb_metadata_keys t)
     in Inr (n, t\<lparr>ldb_metadata_keys := rows\<rparr>) :: err + nat \<times> log_tables"
  obtain r db1 where x: "rexec ?g db = (r, db1)" by fastforce
  then obtain n where n: "r = Inr n" "n \<noteq> 0" "db' = db1"
    using assms by (cases r) (auto simp: update_key_def must_affect_def rbind_def rwrap_def rreturn_def split: if_splits)
  then have ok: "rdb_tables db1 = (rdb_tables db)\<lparr>ldb_metadata_keys :=
      map (\<lambda>k. if owns_key a key k then f k else k) (ldb_metadata_keys (rdb_tables db))\<rparr>"
    "n = length (filter (owns_key a key) (ldb_metadata_keys (rdb_tables db)))"
    using rexec_cases [of ?g db] x by (auto simp: update_where_def)
  then show "rdb_tables db' = (rdb_tables db)\<lparr>ldb_metadata_keys :=
      map (\<lambda>k. if owns_key a key k then f k else k) (ldb_metadata_keys (rdb_tables db))\<rparr>" using n by simp
  have "filter (owns_key a key) (ldb_metadata_keys (rdb_tables db)) \<noteq> []" using ok(2) n(2) by auto
  then show "\<exists>k \<in> set (ldb_metadata_keys (rdb_tables db)). owns_key a key k" by (auto simp: filter_empty_conv)
qed

text \<open>The toggle of a key, and what is active after it.\<close>

definition SetMetadataKeyActive :: "bool \<Rightarrow> time \<Rightarrow> uuid \<Rightarrow> string \<Rightarrow> active_cache \<times> log_tables repo_db
    \<Rightarrow> (err + unit) \<times> active_cache \<times> log_tables repo_db" where
  "SetMetadataKeyActive on now a key =
     (if on then ActivateMetadataKey now a key else DeactivateMetadataKey a key)"

lemma toggle_ok:
  assumes "SetMetadataKeyActive on now a key (cache, db) = (Inr (), cache', db')"
  shows "cache' a = None \<and> (key \<in> set (active_names a (rdb_tables db')) \<longleftrightarrow> on)"
proof -
  define f where "f = (if on then (\<lambda>k :: MetadataKeyRow. k\<lparr>mk_is_active := True, mk_activated_at := Some now\<rparr>)
    else (\<lambda>k. k\<lparr>mk_is_active := False\<rparr>))"
  define msg where "msg = (if on then ''activate metadata key'' else ''deactivate metadata key'')"
  have u: "update_key msg f a key db = (Inr (), db')" "cache' = cache(a := None)"
    using assms by (auto simp: SetMetadataKeyActive_def ActivateMetadataKey_def DeactivateMetadataKey_def invalidating_def
        InvalidateAPIKey_def f_def msg_def split: if_splits prod.splits sum.splits)
  have f: "mk_is_active (f k) = on" "mk_api_key_id (f k) = mk_api_key_id k" "mk_key_name (f k) = mk_key_name k" for k
    by (simp_all add: f_def)
  have "key \<in> set (active_names a (rdb_tables db')) \<longleftrightarrow>
      (\<exists>k \<in> set (ldb_metadata_keys (rdb_tables db)). owns_key a key k \<and> mk_is_active (f k))"
  proof -
    have names: "active_names a t = map mk_key_name (filter (\<lambda>k. mk_api_key_id k = a \<and> mk_is_active k) (ldb_metadata_keys t))" for t
      by (simp add: active_names_def)
    have "key \<in> set (active_names a t) \<longleftrightarrow> (\<exists>k \<in> set (ldb_metadata_keys t). owns_key a key k \<and> mk_is_active k)" for t
      by (auto simp: names owns_key_def)
    moreover have "(\<exists>k \<in> set (map (\<lambda>k. if owns_key a key k then f k else k) ks). owns_key a key k \<and> mk_is_active k)
        \<longleftrightarrow> (\<exists>k \<in> set ks. owns_key a key k \<and> mk_is_active (f k))" for ks
      by (induction ks) (auto simp: owns_key_def f(2,3))
    ultimately show ?thesis by (simp add: update_key_ok(1) [OF u(1)])
  qed
  then show ?thesis using update_key_ok(2) [OF u(1)] u(2) f(1) by auto
qed

lemma indexed_fresh:
  assumes "wr_cache w a = None" "rdb_faults (wr_db w) = []" "rl_majordomo_api_key_id lg = Some a"
  shows "indexed_metadata E lg w = (filter (\<lambda>(k, v). k \<in> set (active_names a (rdb_tables (wr_db w)))) (rl_raw_metadata lg),
     w\<lparr>wr_cache := (wr_cache w)(a \<mapsto> \<lparr>ake_keys = active_names a (rdb_tables (wr_db w)),
                                    ake_expires_at = we_later E + we_ttl E\<rparr>)\<rparr>)"
  using assms by (simp add: indexed_metadata_def GetActiveKeys_def fetchActiveKeys_def rquery_def next_fault_def)

lemma writeLog_ok:
  assumes "indexed_metadata E lg w = (idx, w\<lparr>wr_cache := cache\<rparr>)" "rdb_faults (wr_db w) = []" "row_allowed lg (rdb_tables (wr_db w))"
  shows "ldb_requests (rdb_tables (wr_db (writeLog E lg w))) = ldb_requests (rdb_tables (wr_db w)) @ [request_row E idx lg]"
  using assms by (simp add: writeLog_def insert_request_def rexec_def next_fault_def Let_def)

lemma map_of_filter_keys: "map_of (filter (\<lambda>(k, v). P k) xs) key = (if P key then map_of xs key else None)"
  by (induction xs) auto

text \<open>Activating a metadata key takes effect at once. When the activation or deactivation of a key has
  succeeded, the next log of that API key is stored with the key indexed, or not indexed, accordingly, whatever
  was in the cache; its raw metadata is stored in full and nothing is indexed that is not in it.\<close>

theorem activation_takes_effect:
  assumes "SetMetadataKeyActive on now a key (wr_cache w, wr_db w) = (Inr (), cache, db)"
    and "rdb_faults db = []" "row_allowed lg (rdb_tables db)"
    and "rl_majordomo_api_key_id lg = Some a" "col_ok (we_col E)"
  shows "\<exists>r. ldb_requests (rdb_tables (wr_db (writeLog E lg (w\<lparr>wr_cache := cache, wr_db := db\<rparr>)))) = ldb_requests (rdb_tables db) @ [r]
    \<and> rl_id (lq_log r) = rl_id lg \<and> rl_raw_metadata (lq_log r) = rl_raw_metadata lg \<and> \<not> lq_synced r
    \<and> map_of (rl_indexed_metadata (lq_log r)) key = (if on then map_of (rl_raw_metadata lg) key else None)
    \<and> set (rl_indexed_metadata (lq_log r)) \<subseteq> set (rl_raw_metadata lg)"
proof -
  let ?w = "w\<lparr>wr_cache := cache, wr_db := db\<rparr>"
  let ?idx = "filter (\<lambda>(k, v). k \<in> set (active_names a (rdb_tables db))) (rl_raw_metadata lg)"
  have t: "cache a = None" "key \<in> set (active_names a (rdb_tables db)) \<longleftrightarrow> on" using toggle_ok [OF assms(1)] by simp_all
  have "indexed_metadata E lg ?w = (?idx, ?w\<lparr>wr_cache := cache(a \<mapsto> \<lparr>ake_keys = active_names a (rdb_tables db),
      ake_expires_at = we_later E + we_ttl E\<rparr>)\<rparr>)"
    using indexed_fresh [of ?w a lg E] t(1) assms(2,4) by simp
  then have "ldb_requests (rdb_tables (wr_db (writeLog E lg ?w))) = ldb_requests (rdb_tables db) @ [request_row E ?idx lg]"
    using writeLog_ok [of E lg ?w ?idx] assms(2,3) by simp
  moreover have "map_of ?idx key = (if on then map_of (rl_raw_metadata lg) key else None)"
    using t(2) by (simp add: map_of_filter_keys)
  ultimately show ?thesis using assms(5) by (auto simp: request_row_def col_ok_def)
qed

section \<open>Counting\<close>

text \<open>The requests counted for a metadata key: in its row and in memory.\<close>

definition row_count :: "uuid \<Rightarrow> string \<Rightarrow> log_tables \<Rightarrow> int" where
  "row_count a key t = (case find_row (owns_key a key) (ldb_metadata_keys t) of Some k \<Rightarrow> mk_request_count k | None \<Rightarrow> 0)"

definition pending_count :: "uuid \<Rightarrow> string \<Rightarrow> 's hlls \<Rightarrow> int" where
  "pending_count a key m = (case map_of m (a, key) of Some e \<Rightarrow> he_count e | None \<Rightarrow> 0)"

lemma AddValue_count:
  "in_int64 (pending_count a key m + 1) \<Longrightarrow>
   pending_count b k (AddValue S a key v m) = (if (b, k) = (a, key) then pending_count a key m + 1 else pending_count b k m)"
  by (auto simp: AddValue_def pending_count_def update_conv' Let_def split: option.splits)

definition key_of_row :: "MetadataKeyRow \<Rightarrow> uuid \<times> string" where
  "key_of_row k = (mk_api_key_id k, mk_key_name k)"

text \<open>An entry that can be stored: it marshals, its row exists and the columns hold its numbers.\<close>

definition storable :: "'s sketch_lib \<Rightarrow> log_tables \<Rightarrow> (uuid \<times> string) \<times> 's hllEntry \<Rightarrow> bool" where
  "storable S t x = (case x of ((a, key), e) \<Rightarrow> \<not> is_Inl (sk_marshal S (he_hll e))
     \<and> - (2 ^ 31) \<le> sk_estimate S (he_hll e) \<and> sk_estimate S (he_hll e) < 2 ^ 31
     \<and> find_row (owns_key a key) (ldb_metadata_keys t) \<noteq> None \<and> in_int64 (row_count a key t + he_count e))"

lemma owns_key_iff: "owns_key a key k \<longleftrightarrow> key_of_row k = (a, key)"
  by (auto simp: owns_key_def key_of_row_def)

lemma find_update:
  "find_row (owns_key b k) (map (\<lambda>r. if owns_key a key r then f r else r) rows)
    = (if (b, k) = (a, key) then map_option f (find_row (owns_key b k) rows) else find_row (owns_key b k) rows)"
  if "\<And>r. key_of_row (f r) = key_of_row r"
proof -
  have owns: "owns_key b k = (\<lambda>r. key_of_row r = (b, k))" for b k by (rule ext) (rule owns_key_iff)
  show ?thesis unfolding find_row_def owns by (induction rows) (auto simp: that)
qed

lemma flush_row_ok:
  fixes state :: bytes and now :: time
  assumes "rdb_faults db = []" "storable S (rdb_tables db) ((a, key), e)"
    "distinct (map key_of_row (ldb_metadata_keys (rdb_tables db)))"
  defines "t' \<equiv> rdb_tables (snd (flush_row now state (sk_estimate S (he_hll e)) (he_count e) (a, key) db))"
  shows "row_count b k t' = row_count b k (rdb_tables db) + (if (b, k) = (a, key) then he_count e else 0)"
    and "(find_row (owns_key b k) (ldb_metadata_keys t') = None) = (find_row (owns_key b k) (ldb_metadata_keys (rdb_tables db)) = None)"
    and "map key_of_row (ldb_metadata_keys t') = map key_of_row (ldb_metadata_keys (rdb_tables db))"
    and "rdb_faults (snd (flush_row now state (sk_estimate S (he_hll e)) (he_count e) (a, key) db)) = []"
proof -
  let ?rows = "ldb_metadata_keys (rdb_tables db)"
  let ?f = "\<lambda>r. r\<lparr>mkr_hll_state := Some state, mk_approx_cardinality := sk_estimate S (he_hll e),
    mk_request_count := mk_request_count r + he_count e, mk_last_seen_at := Some now, mkr_hll_updated_at := Some now\<rparr>"
  obtain r where r: "find_row (owns_key a key) ?rows = Some r" "in_int64 (mk_request_count r + he_count e)"
    using assms(2) by (auto simp: storable_def row_count_def split: option.splits)
  have only: "x = r" if "x \<in> set ?rows" "owns_key a key x" for x
    using that find_row_Some [OF r(1)] assms(3) by (metis distinct_map inj_onD owns_key_iff)
  have "\<not> list_ex (\<lambda>k. owns_key a key k \<and> (\<not> in_int64 (mk_request_count k + he_count e)
      \<or> sk_estimate S (he_hll e) < - (2 ^ 31) \<or> 2 ^ 31 \<le> sk_estimate S (he_hll e))) ?rows"
    using only r(2) assms(2) by (auto simp: list_ex_iff storable_def)
  then have run: "flush_row now state (sk_estimate S (he_hll e)) (he_count e) (a, key) db
      = (Inr (length (filter (owns_key a key) ?rows)), db\<lparr>rdb_tables := (rdb_tables db)
          \<lparr>ldb_metadata_keys := map (\<lambda>x. if owns_key a key x then ?f x else x) ?rows\<rparr>\<rparr>)"
    using assms(1) by (simp add: flush_row_def rexec_def next_fault_def update_where_def Let_def)
  have keep: "key_of_row (?f x) = key_of_row x" for x by (simp add: key_of_row_def)
  have t': "ldb_metadata_keys t' = map (\<lambda>x. if owns_key a key x then ?f x else x) ?rows" by (simp add: t'_def run)
  show "row_count b k t' = row_count b k (rdb_tables db) + (if (b, k) = (a, key) then he_count e else 0)"
    using r(1) by (auto simp: row_count_def t' find_update keep split: option.split)
  show "(find_row (owns_key b k) (ldb_metadata_keys t') = None) = (find_row (owns_key b k) ?rows = None)"
    by (simp add: t' find_update keep)
  show "map key_of_row (ldb_metadata_keys t') = map key_of_row ?rows" by (simp add: t' keep)
  show "rdb_faults (snd (flush_row now state (sk_estimate S (he_hll e)) (he_count e) (a, key) db)) = []"
    by (simp add: run assms(1))
qed

lemma flush_entries_count:
  assumes "distinct (map fst es)"
  shows "rdb_faults db = [] \<Longrightarrow> \<forall>x \<in> set es. storable S (rdb_tables db) x \<Longrightarrow>
    distinct (map key_of_row (ldb_metadata_keys (rdb_tables db))) \<Longrightarrow>
    row_count b k (rdb_tables (flush_entries S now es db)) = row_count b k (rdb_tables db) + pending_count b k es"
  using assms
proof (induction es arbitrary: db)
  case (Cons x es)
  obtain a key e where x: "x = ((a, key), e)" by (metis prod.exhaust)
  obtain state where m: "sk_marshal S (he_hll e) = Inr state"
    using Cons.prems(2) x by (cases "sk_marshal S (he_hll e)") (auto simp: storable_def)
  let ?db = "snd (flush_row now state (sk_estimate S (he_hll e)) (he_count e) (a, key) db)"
  have st: "storable S (rdb_tables db) ((a, key), e)" using Cons.prems(2) x by simp
  note ok = flush_row_ok [where now = now and state = state, OF Cons.prems(1) st Cons.prems(3)]
  have "storable S (rdb_tables ?db) y" if "y \<in> set es" for y
  proof -
    obtain c l e' where y: "y = ((c, l), e')" by (metis prod.exhaust)
    have "(c, l) \<noteq> (a, key)" using Cons.prems(4) that x y by force
    moreover have "storable S (rdb_tables db) y" using Cons.prems(2) that by simp
    ultimately show ?thesis using ok(1,2) [where b = c and k = l] y by (auto simp: storable_def)
  qed
  then have "row_count b k (rdb_tables (flush_entries S now es ?db)) = row_count b k (rdb_tables ?db) + pending_count b k es"
    using Cons.IH [of ?db] Cons.prems(3,4) ok(3,4) by simp
  moreover have "pending_count b k ((x # es)) = (if (b, k) = (a, key) then he_count e else pending_count b k es)"
    by (simp add: pending_count_def x)
  moreover have "pending_count a key es = 0"
  proof -
    have "map_of es (a, key) = None" using Cons.prems(4) x by (simp add: map_of_eq_None_iff)
    then show ?thesis by (simp add: pending_count_def)
  qed
  ultimately show ?case using m ok(1) [where b = b and k = k] by (auto simp: x)
qed (simp add: pending_count_def)

text \<open>What the manager keeps between calls: one entry per key, and an entry that is not dirty counts
  nothing.\<close>

definition hlls_ok :: "'s hlls \<Rightarrow> bool" where
  "hlls_ok m = (distinct (map fst m) \<and> (\<forall>x \<in> set m. \<not> he_dirty (snd x) \<longrightarrow> he_count (snd x) = 0))"

lemma set_alist_update: "set (AList.update k v xs) \<subseteq> insert (k, v) (set xs)"
  by (induction xs) auto

lemma AddValue_ok:
  assumes "hlls_ok m"
  shows "hlls_ok (AddValue S a key v m)"
proof -
  obtain e where e: "AddValue S a key v m = AList.update (a, key) e m" "he_dirty e"
    by (simp add: AddValue_def Let_def)
  have "distinct (map fst (AList.update (a, key) e m))" using assms by (simp add: hlls_ok_def distinct_update)
  then show ?thesis using assms e set_alist_update [of "(a, key)" e m] by (force simp: hlls_ok_def)
qed

text \<open>Counting loses nothing as long as the database works. One more value adds one to the requests
  counted for its key, in its row and in memory together; a flush moves what is in memory into the rows: the
  sum stays the same and nothing is left in memory, provided that every counted key can be stored.\<close>

theorem counts_conserved:
  assumes "hlls_ok m" "rdb_faults db = []" "distinct (map key_of_row (ldb_metadata_keys (rdb_tables db)))"
    and "\<forall>x \<in> set m. he_dirty (snd x) \<longrightarrow> storable S (rdb_tables db) x"
    and flush: "hll_Flush S now m db = (m', db')"
  shows "row_count a key (rdb_tables db') + pending_count a key m' = row_count a key (rdb_tables db) + pending_count a key m
    \<and> pending_count a key m' = 0 \<and> hlls_ok m'
    \<and> (in_int64 (pending_count a key m + 1) \<longrightarrow>
         pending_count a key (AddValue S a key v m) = pending_count a key m + 1 \<and> hlls_ok (AddValue S a key v m))"
proof -
  let ?reset = "\<lambda>e. if he_dirty e then e\<lparr>he_dirty := False, he_count := 0\<rparr> else e"
  have m': "m' = map (\<lambda>(k, e). (k, ?reset e)) m" and db': "db' = flush_entries S now (filter (\<lambda>(k, e). he_dirty e) m) db"
    using flush by (simp_all add: hll_Flush_def)
  have zero: "he_count (?reset e) = 0" if "(k, e) \<in> set m" for k e
    using assms(1) that by (auto simp: hlls_ok_def)
  have "map_of m' (a, key) = map_option ?reset (map_of m (a, key))" by (simp add: m' map_of_map)
  then have p': "pending_count a key m' = 0"
  proof (cases "map_of m (a, key)")
    case (Some e)
    from zero [OF map_of_SomeD [OF this]] show ?thesis using Some \<open>map_of m' (a, key) = _\<close> by (simp add: pending_count_def)
  qed (simp add: pending_count_def)
  have "pending_count a key (filter (\<lambda>(k, e). he_dirty e) m) = pending_count a key m"
  proof (cases "map_of m (a, key)")
    case None
    then have "map_of (filter (\<lambda>(k, e). he_dirty e) m) (a, key) = None" by (auto simp: map_of_eq_None_iff)
    then show ?thesis using None by (simp add: pending_count_def)
  next
    case (Some e)
    then have e: "((a, key), e) \<in> set m" by (rule map_of_SomeD)
    have dist: "distinct (map fst (filter (\<lambda>(k, e). he_dirty e) m))" using assms(1) by (simp add: hlls_ok_def distinct_map_filter)
    show ?thesis
    proof (cases "he_dirty e")
      case True
      then have "map_of (filter (\<lambda>(k, e). he_dirty e) m) (a, key) = Some e" using e dist by simp
      then show ?thesis using Some by (simp add: pending_count_def)
    next
      case False
      have "e' = e" if "((a, key), e') \<in> set m" for e'
        by (rule eq_key_imp_eq_value [OF _ that e]) (use assms(1) in \<open>simp add: hlls_ok_def\<close>)
      then have "map_of (filter (\<lambda>(k, e). he_dirty e) m) (a, key) = None"
        using False unfolding map_of_eq_None_iff by auto
      moreover have "he_count e = 0" using assms(1) e False by (auto simp: hlls_ok_def)
      ultimately show ?thesis using Some by (simp add: pending_count_def)
    qed
  qed
  moreover have "row_count a key (rdb_tables db') = row_count a key (rdb_tables db) + pending_count a key (filter (\<lambda>(k, e). he_dirty e) m)"
    unfolding db' using assms by (intro flush_entries_count) (auto simp: hlls_ok_def distinct_map_filter)
  moreover have "hlls_ok m'" using assms(1) zero by (auto simp: hlls_ok_def m' comp_def case_prod_beta)
  ultimately show ?thesis using p' AddValue_count [of a key m a key S v] AddValue_ok [OF assms(1)] by simp
qed

section \<open>A concrete writer\<close>

text \<open>Sketches as the list of the values seen; columns that keep everything.\<close>

definition list_sketch :: "string list sketch_lib" where
  "list_sketch = \<lparr>sk_new = [], sk_insert = (#), sk_marshal = (\<lambda>s. Inr (concat s)), sk_unmarshal = (\<lambda>b. Inr [b]),
     sk_estimate = (\<lambda>s. int (length (remdups s)))\<rparr>"

definition sample_write_env :: "string list write_env" where
  "sample_write_env = \<lparr>we_sketch = list_sketch, we_col = (\<lambda>l. l), we_ttl = 60, we_now = 10, we_later = 11,
     we_db_now = 12, we_newid = 77\<rparr>"

definition sample_key_db :: "log_tables repo_db" where
  "sample_key_db = (sample_log_db [] [new_metadata_key 0 1 ''user''])\<lparr>rdb_tables :=
     (rdb_tables (sample_log_db [] [new_metadata_key 0 1 ''user'']))\<lparr>ldb_api_keys := kdb_api_keys (sample_db True)\<rparr>\<rparr>"

definition sample_writer :: "string list log_writer" where
  "sample_writer = \<lparr>wr_db = sample_key_db, wr_cache = [1 \<mapsto> \<lparr>ake_keys = [], ake_expires_at = 100\<rparr>], wr_hlls = []\<rparr>"

lemma sample_col: "col_ok (we_col sample_write_env)"
  by (simp add: col_ok_def sample_write_env_def)

lemma request_queue_witness:
  "\<exists>st. (writer_step (\<lambda>E. col_ok (we_col E)))\<^sup>*\<^sup>* (no_history sample_writer) st
     \<and> ws_accepted st = [sample_log] \<and> ws_accepted st = ws_handled st @ ws_queue st \<and> length (ws_queue st) \<le> 1000"
proof -
  let ?st = "(no_history sample_writer)\<lparr>ws_queue := [sample_log], ws_accepted := [sample_log]\<rparr>"
  have "writer_step (\<lambda>E. col_ok (we_col E)) (no_history sample_writer) ?st"
    using writer_step.enqueue [of sample_log "no_history sample_writer" "[sample_log]" "\<lambda>E. col_ok (we_col E)"]
    by (simp add: WriteRequestLog_def log_chan_capacity_def no_history_def)
  then have run: "(writer_step (\<lambda>E. col_ok (we_col E)))\<^sup>*\<^sup>* (no_history sample_writer) ?st" by (rule r_into_rtranclp)
  from request_queue [OF run] show ?thesis using run by (intro exI [of _ ?st]) simp
qed

lemma activation_takes_effect_witness:
  "\<exists>cache db r. ActivateMetadataKey 9 1 ''user'' (wr_cache sample_writer, wr_db sample_writer) = (Inr (), cache, db)
     \<and> ldb_requests (rdb_tables (wr_db (writeLog sample_write_env sample_log (sample_writer\<lparr>wr_cache := cache, wr_db := db\<rparr>))))
         = [r] \<and> map_of (rl_indexed_metadata (lq_log r)) ''user'' = Some ''u''"
proof -
  obtain r cache db where act: "ActivateMetadataKey 9 1 ''user'' (wr_cache sample_writer, wr_db sample_writer) = (r, cache, db)"
    by (metis prod.exhaust)
  have run: "r = Inr ()" "rdb_faults db = []" "ldb_requests (rdb_tables db) = []"
      "ldb_api_keys (rdb_tables db) = kdb_api_keys (sample_db True)"
    using act by (auto simp: ActivateMetadataKey_def invalidating_def update_key_def must_affect_def repo_defs next_fault_def
        update_where_def sample_writer_def sample_key_db_def sample_log_db_def session_db_def owns_key_def new_metadata_key_def)
  have "SetMetadataKeyActive True 9 1 ''user'' (wr_cache sample_writer, wr_db sample_writer) = (Inr (), cache, db)"
    using act run(1) by (simp add: SetMetadataKeyActive_def)
  moreover have "row_allowed sample_log (rdb_tables db)"
    using run(3,4) by (simp add: row_allowed_def sample_log_def sample_db_def)
  moreover have "rl_majordomo_api_key_id sample_log = Some 1" by (simp add: sample_log_def)
  ultimately obtain row where
    "ldb_requests (rdb_tables (wr_db (writeLog sample_write_env sample_log (sample_writer\<lparr>wr_cache := cache, wr_db := db\<rparr>))))
      = ldb_requests (rdb_tables db) @ [row]"
    "map_of (rl_indexed_metadata (lq_log row)) ''user'' = map_of (rl_raw_metadata sample_log) ''user''"
    using activation_takes_effect [of True 9 1 "''user''" sample_writer cache db sample_log sample_write_env, OF _ run(2) _ _ sample_col]
    by auto
  then show ?thesis using act run(1,3) by (auto simp: sample_log_def)
qed

lemma counts_conserved_witness:
  "row_count 1 ''user'' (rdb_tables (snd (hll_Flush list_sketch 20 (AddValue list_sketch 1 ''user'' ''u'' []) sample_key_db))) = 1"
proof -
  let ?m = "AddValue list_sketch 1 ''user'' ''u'' []"
  obtain m' db' where flush: "hll_Flush list_sketch 20 ?m sample_key_db = (m', db')" by fastforce
  have "hlls_ok ?m" by (rule AddValue_ok) (simp add: hlls_ok_def)
  moreover have "rdb_faults sample_key_db = []" "distinct (map key_of_row (ldb_metadata_keys (rdb_tables sample_key_db)))"
    by (simp_all add: sample_key_db_def sample_log_db_def session_db_def)
  moreover have "\<forall>x \<in> set ?m. he_dirty (snd x) \<longrightarrow> storable list_sketch (rdb_tables sample_key_db) x"
    by (simp add: AddValue_def list_sketch_def storable_def sample_key_db_def sample_log_db_def session_db_def
        new_metadata_key_def owns_key_def find_row_def row_count_def in_int64_def wrap64_def)
  ultimately have "row_count 1 ''user'' (rdb_tables db') + pending_count 1 ''user'' m'
      = row_count 1 ''user'' (rdb_tables sample_key_db) + pending_count 1 ''user'' ?m \<and> pending_count 1 ''user'' m' = 0"
    using counts_conserved [OF _ _ _ _ flush] by blast
  then show ?thesis
    using flush by (simp add: row_count_def pending_count_def AddValue_def sample_key_db_def sample_log_db_def session_db_def
        new_metadata_key_def owns_key_def find_row_def wrap64_def)
qed

end
