(* ===== verification/Key_Sync.thy ===== *)
theory Key_Sync
  imports Auth Experiment_Store Secrets Go_Time Config
begin

text \<open>
  The syncers that fill the local tables from Butler: API keys (internal/stewardclient/keysync.go,
  stored by UpsertAPIKeys of internal/repositories/steward.go), experiments (experimentsync.go) and
  provider keys (providerkeysync.go). Butler is a parameter: it answers the i-th request of a call,
  given by its URL and its Authorization header.
\<close>

section \<open>Requests to Butler\<close>

text \<open>What becomes of a GET: the request cannot be built, the client has no response, or there is one
  with a status and a body that decodes or not.\<close>

datatype 'a butler_answer = NoRequest err | NoResponse err | Answer int "err + 'a"

type_synonym 'a butler = "nat \<Rightarrow> string \<Rightarrow> string \<Rightarrow> 'a butler_answer"

definition butler_get :: "string \<Rightarrow> 'a butler_answer \<Rightarrow> err + 'a" where
  "butler_get msg answer = (case answer of
     NoRequest e \<Rightarrow> Inl (ErrWrap ''build request'' e)
   | NoResponse e \<Rightarrow> Inl (ErrWrap msg e)
   | Answer status body \<Rightarrow>
       if status \<noteq> 200 then Inl (ErrMsg (''butler returned '' @ itoa status))
       else (case body of Inl e \<Rightarrow> Inl (ErrWrap ''decode response'' e) | Inr v \<Rightarrow> Inr v))"

definition bearer :: "StewardConfig \<Rightarrow> string" where
  "bearer cfg = ''Bearer '' @ sc_steward_token cfg"

text \<open>The pages of records changed after a cursor: requested until one is not full. The cursor moves
  to the latest change seen. The loop need not end, which is the result None.\<close>

definition sync_limit :: nat where "sync_limit = 200"

definition page_url :: "StewardConfig \<Rightarrow> string \<Rightarrow> time \<Rightarrow> string" where
  "page_url cfg path cursor = sc_butler_base_url cfg @ path @ ''?updated_after='' @ fmt_rfc3339nano cursor
     @ ''&limit='' @ nat_digits sync_limit"

definition advance :: "('a \<Rightarrow> time) \<Rightarrow> 'a list \<Rightarrow> time \<Rightarrow> time" where
  "advance upd page cursor = foldl (\<lambda>c k. if c < upd k then upd k else c) cursor page"

partial_function (option) fetch_pages ::
  "'a list butler \<Rightarrow> (time \<Rightarrow> string) \<Rightarrow> string \<Rightarrow> string \<Rightarrow> ('a \<Rightarrow> time) \<Rightarrow> nat \<Rightarrow> 'a list \<Rightarrow> time
    \<Rightarrow> (err + 'a list \<times> time) option" where
  "fetch_pages butler url auth msg upd i got cursor =
     (case butler_get msg (butler i (url cursor) auth) of
        Inl e \<Rightarrow> Some (Inl e)
      | Inr page \<Rightarrow>
          if length page < sync_limit then Some (Inr (got @ page, advance upd page cursor))
          else fetch_pages butler url auth msg upd (Suc i) (got @ page) (advance upd page cursor))"

text \<open>One Sync: fetch, store, and only then move the cursor.\<close>

definition sync_round :: "string \<Rightarrow> (err + 'a list \<times> time) option \<Rightarrow> ('a list \<Rightarrow> 's \<Rightarrow> (err + unit) \<times> 's)
    \<Rightarrow> time \<times> 's \<Rightarrow> ((err + unit) \<times> time \<times> 's) option" where
  "sync_round what fetched store st = (case st of (cursor, s) \<Rightarrow>
     (case fetched of
        None \<Rightarrow> None
      | Some (Inl e) \<Rightarrow> Some (Inl (ErrWrap ''fetch'' e), cursor, s)
      | Some (Inr (records, newCursor)) \<Rightarrow>
          if records = [] then Some (Inr (), cursor, s)
          else (case store records s of
                  (Inl e, s') \<Rightarrow> Some (Inl (ErrWrap (''upsert '' @ nat_digits (length records) @ what) e), cursor, s')
                | (Inr _, s') \<Rightarrow> Some (Inr (), newCursor, s'))))"

section \<open>API keys (keysync.go, steward.go)\<close>

record APIKeyRecord =
  akr_id :: uuid
  akr_key_hash :: string
  akr_name :: string
  akr_description :: "string option"
  akr_is_active :: bool
  akr_user_id :: "uuid option"
  akr_org_id :: "uuid option"
  akr_created_at :: time
  akr_revoked_at :: "time option"
  akr_updated_at :: time
  akr_deprecated_model_behavior :: string

definition key_row :: "APIKeyRecord \<Rightarrow> APIKey" where
  "key_row k = \<lparr>ak_id = akr_id k, ak_key_hash = akr_key_hash k, ak_name = akr_name k,
     ak_description = akr_description k, ak_user_id = akr_user_id k, ak_org_id = akr_org_id k,
     ak_is_active = akr_is_active k, ak_created_at = akr_created_at k, ak_revoked_at = akr_revoked_at k,
     ak_last_used_at = None, ak_request_count = 0,
     ak_deprecated_behavior = (if akr_deprecated_model_behavior k = [] then ''passthrough''
                               else akr_deprecated_model_behavior k)\<rparr>"

text \<open>ON CONFLICT (id): the row keeps its creation time and its usage.\<close>

definition merge_key :: "APIKey \<Rightarrow> APIKey \<Rightarrow> APIKey" where
  "merge_key old new = new\<lparr>ak_id := ak_id old, ak_created_at := ak_created_at old,
     ak_last_used_at := ak_last_used_at old, ak_request_count := ak_request_count old\<rparr>"

text \<open>One statement; the hash is UNIQUE.\<close>

definition put_api_key :: "APIKeyRecord \<Rightarrow> unit db_op" where
  "put_api_key k = sql ''upsert api key'' (\<lambda>db.
     if list_ex (\<lambda>r. ak_key_hash r = akr_key_hash k \<and> ak_id r \<noteq> akr_id k) (kdb_api_keys db) then (Inl ErrDB, db)
     else (Inr (), db\<lparr>kdb_api_keys := upsert ak_id merge_key (key_row k) (kdb_api_keys db)\<rparr>))"

text \<open>The statements run one by one, outside a transaction.\<close>

fun UpsertAPIKeys :: "APIKeyRecord list \<Rightarrow> unit db_op" where
  "UpsertAPIKeys [] db = (Inr (), db)"
| "UpsertAPIKeys (k # ks) db = (case put_api_key k db of
     (Inl e, db') \<Rightarrow> (Inl e, db')
   | (Inr _, db') \<Rightarrow> UpsertAPIKeys ks db')"

definition key_fetch :: "StewardConfig \<Rightarrow> APIKeyRecord list butler \<Rightarrow> time
    \<Rightarrow> (err + APIKeyRecord list \<times> time) option" where
  "key_fetch cfg butler cursor = fetch_pages butler (page_url cfg ''/api/v1/steward/api-keys'') (bearer cfg)
     ''get keys'' akr_updated_at 0 [] cursor"

definition key_Sync :: "StewardConfig \<Rightarrow> APIKeyRecord list butler \<Rightarrow> time \<times> KeyDB
    \<Rightarrow> ((err + unit) \<times> time \<times> KeyDB) option" where
  "key_Sync cfg butler st = sync_round '' keys'' (key_fetch cfg butler (fst st)) UpsertAPIKeys st"

section \<open>Experiments (experimentsync.go)\<close>

definition experiment_fetch :: "StewardConfig \<Rightarrow> ExperimentRecord list butler \<Rightarrow> time
    \<Rightarrow> (err + ExperimentRecord list \<times> time) option" where
  "experiment_fetch cfg butler cursor = fetch_pages butler (page_url cfg ''/api/v1/steward/experiments'')
     (bearer cfg) ''get experiments'' er_updated_at 0 [] cursor"

definition store_experiments :: "ExperimentRecord list \<Rightarrow> ExperimentDB \<Rightarrow> (err + unit) \<times> ExperimentDB" where
  "store_experiments records db = (case UpsertExperiments records db of
     (Some e, db') \<Rightarrow> (Inl e, db') | (None, db') \<Rightarrow> (Inr (), db'))"

definition experiment_Sync :: "StewardConfig \<Rightarrow> ExperimentRecord list butler \<Rightarrow> time \<times> ExperimentDB
    \<Rightarrow> ((err + unit) \<times> time \<times> ExperimentDB) option" where
  "experiment_Sync cfg butler st = sync_round '' experiments'' (experiment_fetch cfg butler (fst st)) store_experiments st"

section \<open>Provider keys (providerkeysync.go)\<close>

record providerKeyPayload =
  pkp_id :: uuid
  pkp_user_id :: "uuid option"
  pkp_org_id :: "uuid option"
  pkp_provider :: string
  pkp_key :: string
  pkp_created_at :: time
  pkp_updated_at :: time

definition provider_record :: "providerKeyPayload \<Rightarrow> string \<Rightarrow> ProviderAPIKey" where
  "provider_record p enc = \<lparr>pak_id = pkp_id p, pak_user_id = pkp_user_id p, pak_org_id = pkp_org_id p,
     pak_provider = pkp_provider p, pak_encrypted_key = enc, pak_created_at = pkp_created_at p,
     pak_updated_at = pkp_updated_at p\<rparr>"

text \<open>A payload without a key is skipped. The random bytes of the i-th encryption are rnds i.\<close>

fun encrypt_provider_keys :: "('r \<Rightarrow> string \<Rightarrow> err + string) \<Rightarrow> (nat \<Rightarrow> 'r) \<Rightarrow> nat \<Rightarrow> providerKeyPayload list
    \<Rightarrow> err + ProviderAPIKey list" where
  "encrypt_provider_keys enc rnds i [] = Inr []"
| "encrypt_provider_keys enc rnds i (p # ps) =
     (if pkp_key p = [] then encrypt_provider_keys enc rnds i ps
      else case enc (rnds i) (pkp_key p) of
        Inl e \<Rightarrow> Inl (ErrWrap ''encrypt provider key'' e)
      | Inr c \<Rightarrow> (case encrypt_provider_keys enc rnds (Suc i) ps of
            Inl e \<Rightarrow> Inl e
          | Inr rs \<Rightarrow> Inr (provider_record p c # rs)))"

definition provider_fetch :: "StewardConfig \<Rightarrow> providerKeyPayload list butler \<Rightarrow> err + providerKeyPayload list" where
  "provider_fetch cfg butler = butler_get ''get provider keys''
     (butler 0 (sc_butler_base_url cfg @ ''/api/v1/steward/provider-keys'') (bearer cfg))"

text \<open>ids are the identifiers the database generates for new rows.\<close>

definition provider_Sync :: "('r \<Rightarrow> string \<Rightarrow> err + string) \<Rightarrow> (nat \<Rightarrow> 'r) \<Rightarrow> (nat \<Rightarrow> uuid) \<Rightarrow> time \<Rightarrow> StewardConfig
    \<Rightarrow> providerKeyPayload list butler \<Rightarrow> unit db_op" where
  "provider_Sync enc rnds ids now cfg butler db =
     (case provider_fetch cfg butler of
        Inl e \<Rightarrow> (Inl (ErrWrap ''fetch'' e), db)
      | Inr payloads \<Rightarrow>
          (case encrypt_provider_keys enc rnds 0 payloads of
             Inl e \<Rightarrow> (Inl (ErrWrap ''encrypt'' e), db)
           | Inr records \<Rightarrow>
               if records = [] then (Inr (), db)
               else (case UpsertBatch now (zip (map ids [0..<length records]) records) db of
                       (Inl e, db') \<Rightarrow> (Inl (ErrWrap (''upsert '' @ nat_digits (length records) @ '' keys'') e), db')
                     | (Inr _, db') \<Rightarrow> (Inr (), db'))))"

section \<open>The pages\<close>

text \<open>The records of a Butler database changed after a cursor, oldest change first.\<close>

definition pending :: "('a \<Rightarrow> time) \<Rightarrow> 'a list \<Rightarrow> time \<Rightarrow> 'a list" where
  "pending upd recs c = filter (\<lambda>r. c < upd r) (sort_key upd recs)"

text \<open>What the two endpoints promise: as long as the records do not change, a request for a cursor is
  answered with the first page of what is pending.\<close>

definition serves :: "'a list butler \<Rightarrow> (time \<Rightarrow> string) \<Rightarrow> string \<Rightarrow> ('a \<Rightarrow> time) \<Rightarrow> 'a list \<Rightarrow> time \<Rightarrow> bool" where
  "serves butler url auth upd recs c0 = (\<forall>i. \<forall>c \<in> insert c0 (upd ` set recs).
     butler i (url c) auth = Answer 200 (Inr (take sync_limit (pending upd recs c))))"

lemma advance_Nil [simp]: "advance upd [] c = c"
  and advance_Cons: "advance upd (k # ks) c = advance upd ks (max c (upd k))"
  by (auto simp: advance_def max_def)

lemma advance_append: "advance upd (xs @ ys) c = advance upd ys (advance upd xs c)"
  by (simp add: advance_def)

lemma advance_Max: "advance upd ks c = Max (insert c (upd ` set ks))"
proof (induction ks arbitrary: c)
  case (Cons k ks)
  have "insert c (upd ` set (k # ks)) = insert c (insert (upd k) (upd ` set ks))" by simp
  moreover have "Max (insert (max c (upd k)) (upd ` set ks)) = Max (insert c (insert (upd k) (upd ` set ks)))"
    by (cases "set ks = {}") (simp_all add: max.assoc)
  ultimately show ?case using Cons by (simp add: advance_Cons)
qed simp

lemma advance_ge: "c \<le> advance upd ks c" "k \<in> set ks \<Longrightarrow> upd k \<le> advance upd ks c"
  by (simp_all add: advance_Max)

lemma advance_mem: "advance upd ks c \<in> insert c (upd ` set ks)"
  unfolding advance_Max by (rule Max_in) auto

lemma pending_mem: "r \<in> set (pending upd recs c) \<longleftrightarrow> r \<in> set recs \<and> c < upd r"
  by (auto simp: pending_def)

lemma pending_sorted: "sorted (map upd (pending upd recs c))"
  by (simp add: pending_def sorted_filter)

lemma pending_later: "c \<le> c' \<Longrightarrow> pending upd recs c' = filter (\<lambda>r. c' < upd r) (pending upd recs c)"
  by (auto simp: pending_def intro!: filter_cong)

lemma pending_distinct: "distinct (map upd recs) \<Longrightarrow> distinct (map upd (pending upd recs c))"
  by (auto simp: pending_def distinct_map inj_on_def)

text \<open>What is pending after a first part of it has been seen.\<close>

lemma pending_advance:
  assumes "pending upd recs c = page @ rest"
  shows "pending upd recs (advance upd page c) = filter (\<lambda>r. advance upd page c < upd r) rest"
proof -
  have "filter (\<lambda>r. advance upd page c < upd r) page = []"
    using advance_ge(2) [of _ page upd c] by (auto simp: filter_empty_conv not_less)
  then show ?thesis using pending_later [of c "advance upd page c" upd recs, OF advance_ge(1)] assms by simp
qed

lemma rest_later:
  assumes "pending upd recs c = page @ rest" "r \<in> set rest"
  shows "advance upd page c \<le> upd r"
proof -
  have "sorted (map upd page @ map upd rest)" using pending_sorted [of upd recs c] assms(1) by simp
  then have "\<forall>k \<in> set page. upd k \<le> upd r" using assms(2) by (auto simp: sorted_append)
  moreover have "r \<in> set (pending upd recs c)" using assms by simp
  then have "c \<le> upd r" by (simp add: pending_mem)
  ultimately show ?thesis by (simp add: advance_Max)
qed

lemma rest_all:
  assumes "pending upd recs c = page @ rest" "distinct (map upd recs)" "page \<noteq> []"
  shows "pending upd recs (advance upd page c) = rest"
proof -
  have "advance upd page c < upd r" if "r \<in> set rest" for r
  proof -
    have "distinct (map upd page @ map upd rest)" using pending_distinct [OF assms(2), of c] assms(1) by simp
    then have no: "upd r \<notin> upd ` set page" using that by auto
    have "r \<in> set (pending upd recs c)" using assms(1) that by simp
    then have "c < upd r" by (simp add: pending_mem)
    then show ?thesis using advance_mem [of upd page c] no rest_later [OF assms(1) that] by (metis insertE order_less_le)
  qed
  then show ?thesis by (simp add: pending_advance [OF assms(1)] filter_id_conv)
qed

text \<open>The loop ends. It has every pending change, except that of changes at the same instant it may have
  seen only some; when the instants are distinct it has them all, in order.\<close>

definition fetched_ok :: "('a \<Rightarrow> time) \<Rightarrow> 'a list \<Rightarrow> time \<Rightarrow> 'a list \<Rightarrow> bool" where
  "fetched_ok upd recs c ks = (set ks \<subseteq> set (pending upd recs c)
     \<and> upd ` set ks = upd ` set (pending upd recs c)
     \<and> (distinct (map upd recs) \<longrightarrow> ks = pending upd recs c))"

lemma fetch_pages_serves:
  assumes "serves butler url auth upd recs c0"
  shows "c \<in> insert c0 (upd ` set recs) \<Longrightarrow>
    \<exists>ks. fetch_pages butler url auth msg upd i got c = Some (Inr (got @ ks, advance upd ks c))
       \<and> fetched_ok upd recs c ks"
proof (induction "length (pending upd recs c)" arbitrary: c i got rule: less_induct)
  case less
  define page where "page = take sync_limit (pending upd recs c)"
  define rest where "rest = drop sync_limit (pending upd recs c)"
  have split: "pending upd recs c = page @ rest" by (simp add: page_def rest_def)
  have answer: "butler_get msg (butler i (url c) auth) = Inr page"
    using assms [unfolded serves_def, rule_format, OF less.prems, of i] by (simp add: butler_get_def page_def)
  show ?case
  proof (cases "length page < sync_limit")
    case True
    then have "rest = []" by (simp add: page_def rest_def)
    then have "fetched_ok upd recs c page" using split by (simp add: fetched_ok_def)
    then show ?thesis using True answer by (subst fetch_pages.simps) auto
  next
    case False
    let ?c = "advance upd page c"
    have "page \<noteq> []" using False by (auto simp: sync_limit_def)
    have sub: "length (pending upd recs ?c) < length (pending upd recs c)"
      using \<open>page \<noteq> []\<close> pending_advance [OF split] split
      by (auto simp: le_less_trans [OF length_filter_le] intro: le_less_trans [OF length_filter_le])
    have "set page \<subseteq> set recs" using split pending_mem [of _ upd recs c] by (auto dest: equalityD2)
    then have mem: "?c \<in> insert c0 (upd ` set recs)" using advance_mem [of upd page c] less.prems by auto
    from less.hyps [OF sub mem, of "Suc i" "got @ page"] obtain ks where
      ks: "fetch_pages butler url auth msg upd (Suc i) (got @ page) ?c
             = Some (Inr ((got @ page) @ ks, advance upd ks ?c))" "fetched_ok upd recs ?c ks"
      by blast
    have "upd ` set (pending upd recs c) = upd ` set (page @ ks)"
    proof
      show "upd ` set (pending upd recs c) \<subseteq> upd ` set (page @ ks)"
      proof
        fix t assume "t \<in> upd ` set (pending upd recs c)"
        then obtain r where r: "t = upd r" "r \<in> set page \<or> r \<in> set rest" unfolding split by auto
        show "t \<in> upd ` set (page @ ks)"
        proof (cases "r \<in> set rest \<and> ?c < upd r")
          case True
          then have "r \<in> set (pending upd recs ?c)" by (simp add: pending_advance [OF split])
          then show ?thesis using ks(2) r(1) by (auto simp: fetched_ok_def)
        next
          case no: False
          have "upd r \<in> upd ` set page"
          proof (cases "r \<in> set page")
            case False
            then have "r \<in> set rest" "upd r = ?c" using no r(2) rest_later [OF split, of r] by auto
            moreover have "c < ?c"
              using \<open>page \<noteq> []\<close> advance_ge(2) [of "hd page" page upd c] split pending_mem [of "hd page" upd recs c] by auto
            ultimately show ?thesis using advance_mem [of upd page c] by auto
          qed auto
          then show ?thesis using r(1) by auto
        qed
      qed
      show "upd ` set (page @ ks) \<subseteq> upd ` set (pending upd recs c)"
        using ks(2) split pending_advance [OF split] by (auto simp: fetched_ok_def)
    qed
    moreover have "set (page @ ks) \<subseteq> set (pending upd recs c)"
      using ks(2) split pending_advance [OF split] by (auto simp: fetched_ok_def)
    moreover have "page @ ks = pending upd recs c" if "distinct (map upd recs)"
      using that ks(2) rest_all [OF split that \<open>page \<noteq> []\<close>] split by (simp add: fetched_ok_def)
    ultimately have "fetched_ok upd recs c (page @ ks)" by (simp add: fetched_ok_def)
    then show ?thesis using False answer ks(1)
      by (intro exI [of _ "page @ ks"]) (subst fetch_pages.simps, simp add: advance_append)
  qed
qed


text \<open>A Butler with one record, changed at the instant 5.\<close>

definition sample_steward :: StewardConfig where
  "sample_steward = \<lparr>sc_butler_base_url = ''https://b'', sc_steward_token = ''t'', sc_org_id = 7,
     sc_batch_interval = 1, sc_batch_max_size = 2, sc_work_tick_interval = 1, sc_work_tick_limit = 10\<rparr>"

definition one_record :: "string \<Rightarrow> 'a \<Rightarrow> 'a list butler" where
  "one_record path rec i url auth = Answer 200 (Inr (if url = page_url sample_steward path 0 then [rec] else []))"

definition sample_key_record :: APIKeyRecord where
  "sample_key_record = \<lparr>akr_id = 1, akr_key_hash = HashAPIKey ''k'', akr_name = ''n'', akr_description = None,
     akr_is_active = False, akr_user_id = None, akr_org_id = Some 7, akr_created_at = 0, akr_revoked_at = Some 5,
     akr_updated_at = 5, akr_deprecated_model_behavior = []\<rparr>"

lemma page_url_0_5: "page_url sample_steward path 5 \<noteq> page_url sample_steward path 0"
proof -
  have "fmt_rfc3339nano 5 \<noteq> fmt_rfc3339nano 0" by code_simp
  then show ?thesis by (simp add: page_url_def)
qed

lemma one_record_serves:
  "upd rec = 5 \<Longrightarrow> serves (one_record path rec) (page_url sample_steward path) auth upd [rec] 0"
  using page_url_0_5 [of path] by (auto simp: serves_def one_record_def pending_def sync_limit_def)


section \<open>Keys in the local table\<close>

lemma merge_key_id [simp]: "ak_id (merge_key r n) = ak_id r" "ak_id (key_row k) = akr_id k"
  by (simp_all add: merge_key_def key_row_def)

definition put_key_row :: "APIKeyRecord \<Rightarrow> APIKey list \<Rightarrow> APIKey list" where
  "put_key_row k rows = upsert ak_id merge_key (key_row k) rows"

lemma put_api_key_ok:
  assumes "put_api_key k db = (Inr (), db')"
  shows "kdb_api_keys db' = put_key_row k (kdb_api_keys db)"
    and "\<forall>r \<in> set (kdb_api_keys db). ak_key_hash r = akr_key_hash k \<longrightarrow> ak_id r = akr_id k"
  using assms by (auto simp: put_api_key_def sql_def stmt_def put_key_row_def list_ex_iff
      split: list.splits option.splits prod.splits sum.splits if_splits)

text \<open>The fields a synced row takes from Butler.\<close>

definition synced :: "APIKeyRecord \<Rightarrow> APIKey \<Rightarrow> bool" where
  "synced k r = (ak_id r = akr_id k \<and> ak_key_hash r = akr_key_hash k \<and> ak_is_active r = akr_is_active k
     \<and> ak_revoked_at r = akr_revoked_at k \<and> ak_user_id r = akr_user_id k \<and> ak_org_id r = akr_org_id k
     \<and> ak_deprecated_behavior r = ak_deprecated_behavior (key_row k))"

lemma put_key_row_same: "\<exists>r. find (\<lambda>r. ak_id r = akr_id k) (put_key_row k rows) = Some r \<and> synced k r"
proof -
  have eq: "find (\<lambda>r. ak_id r = akr_id k) (put_key_row k rows)
      = Some (case find (\<lambda>r. ak_id r = akr_id k) rows of None \<Rightarrow> key_row k | Some r \<Rightarrow> merge_key r (key_row k))"
    using upsert_find_same [of ak_id merge_key "key_row k" rows] by (simp only: put_key_row_def merge_key_id)
  show ?thesis
  proof (cases "find (\<lambda>r. ak_id r = akr_id k) rows")
    case None
    have "synced k (key_row k)" by (simp add: synced_def key_row_def)
    then show ?thesis unfolding eq None by simp
  next
    case (Some r)
    then have "ak_id r = akr_id k" by (auto simp: find_Some_iff)
    then have "synced k (merge_key r (key_row k))" by (simp add: synced_def merge_key_def key_row_def)
    then show ?thesis unfolding eq Some by simp
  qed
qed

lemma put_key_row_other:
  "j \<noteq> akr_id k \<Longrightarrow> find (\<lambda>r. ak_id r = j) (put_key_row k rows) = find (\<lambda>r. ak_id r = j) rows"
  by (simp add: put_key_row_def upsert_find_other)

definition keys_unique :: "APIKey list \<Rightarrow> bool" where
  "keys_unique rows = (distinct (map ak_id rows) \<and> distinct (map ak_key_hash rows))"

lemma put_key_row_unique:
  assumes "\<forall>r \<in> set rows. ak_key_hash r = akr_key_hash k \<longrightarrow> ak_id r = akr_id k" "keys_unique rows"
  shows "keys_unique (put_key_row k rows)"
proof -
  have hash: "ak_key_hash (merge_key r (key_row k)) = akr_key_hash k" "ak_key_hash (key_row k) = akr_key_hash k" for r
    by (simp_all add: merge_key_def key_row_def)
  have "distinct (map ak_key_hash rows) \<Longrightarrow> distinct (map ak_id rows) \<Longrightarrow>
      \<forall>r \<in> set rows. ak_key_hash r = akr_key_hash k \<longrightarrow> ak_id r = akr_id k \<Longrightarrow>
      distinct (map ak_key_hash (put_key_row k rows))"
  proof (induction rows)
    case (Cons r rows)
    show ?case
    proof (cases "ak_id r = akr_id k")
      case True
      then have "\<forall>x \<in> set rows. ak_key_hash x \<noteq> akr_key_hash k" using Cons.prems by (auto simp: image_iff)
      then show ?thesis using True Cons.prems(1) by (auto simp: put_key_row_def hash)
    next
      case False
      then have "ak_key_hash r \<noteq> akr_key_hash k" using Cons.prems(3) by auto
      moreover have "ak_key_hash ` set (put_key_row k rows) \<subseteq> insert (akr_key_hash k) (ak_key_hash ` set rows)"
        unfolding put_key_row_def using hash by (force dest: upsert_set)
      moreover have "ak_key_hash r \<notin> ak_key_hash ` set rows" using Cons.prems(1) by simp
      ultimately have "ak_key_hash r \<notin> ak_key_hash ` set (put_key_row k rows)" by blast
      then show ?thesis using False Cons by (simp add: put_key_row_def)
    qed
  qed (simp add: put_key_row_def)
  then show ?thesis using assms upsert_distinct [of ak_id merge_key rows "key_row k"]
    by (simp add: keys_unique_def put_key_row_def)
qed

lemma UpsertAPIKeys_ok:
  assumes "UpsertAPIKeys ks db = (Inr (), db')" "keys_unique (kdb_api_keys db)"
  shows "kdb_api_keys db' = fold put_key_row ks (kdb_api_keys db) \<and> keys_unique (kdb_api_keys db')"
  using assms
proof (induction ks arbitrary: db)
  case (Cons k ks)
  then obtain db1 where db1: "put_api_key k db = (Inr (), db1)" "UpsertAPIKeys ks db1 = (Inr (), db')"
    by (auto split: prod.splits sum.splits)
  have "keys_unique (kdb_api_keys db1)"
    using put_key_row_unique [OF put_api_key_ok(2) [OF db1(1)]] put_api_key_ok(1) [OF db1(1)] Cons.prems(2) by simp
  then show ?case using Cons.IH [OF db1(2)] put_api_key_ok(1) [OF db1(1)] by auto
qed simp

lemma fold_put_other:
  "j \<notin> akr_id ` set ks \<Longrightarrow> find (\<lambda>r. ak_id r = j) (fold put_key_row ks rows) = find (\<lambda>r. ak_id r = j) rows"
  by (induction ks arbitrary: rows) (auto simp: put_key_row_other)

lemma fold_put_synced:
  assumes "k \<in> set ks" "distinct (map akr_id ks)"
  shows "\<exists>r. find (\<lambda>r. ak_id r = akr_id k) (fold put_key_row ks rows) = Some r \<and> synced k r"
proof -
  obtain as bs where split: "ks = as @ k # bs" using assms(1) by (meson split_list)
  then have "akr_id k \<notin> akr_id ` set bs" using assms(2) by auto
  then show ?thesis using put_key_row_same by (simp add: split fold_put_other)
qed

text \<open>What a successful Sync has done.\<close>

lemma key_Sync_ok:
  assumes "key_Sync cfg butler (c, db) = Some (Inr (), c', db')" "key_fetch cfg butler c = Some (Inr (ks, c1))"
    "keys_unique (kdb_api_keys db)"
  shows "kdb_api_keys db' = fold put_key_row ks (kdb_api_keys db) \<and> keys_unique (kdb_api_keys db')
    \<and> c' = (if ks = [] then c else c1)"
  using assms UpsertAPIKeys_ok [of ks db db']
  by (auto simp: key_Sync_def sync_round_def split: if_splits prod.splits sum.splits)

text \<open>A successful sync makes the local table agree with Butler: every key that was fetched has a
  row with its hash, state, owners and behaviour, and no other row has changed. A sync that fails leaves the
  cursor where it was, so that the next one asks for the same changes again.\<close>

theorem key_sync_mirrors:
  assumes "key_Sync cfg butler (c, db) = Some (r, c', db')" "keys_unique (kdb_api_keys db)"
    "key_fetch cfg butler c = Some (Inr (ks, c1))" "distinct (map akr_id ks)"
  shows "case r of
      Inl e \<Rightarrow> c' = c
    | Inr _ \<Rightarrow> (\<forall>k \<in> set ks. \<exists>row. find_row (\<lambda>row. ak_id row = akr_id k) (kdb_api_keys db') = Some row \<and> synced k row)
        \<and> (\<forall>j. j \<notin> akr_id ` set ks \<longrightarrow> find_row (\<lambda>row. ak_id row = j) (kdb_api_keys db')
                                        = find_row (\<lambda>row. ak_id row = j) (kdb_api_keys db))"
proof (cases r)
  case (Inl e)
  then show ?thesis using assms(1)
    by (auto simp: key_Sync_def sync_round_def split: if_splits prod.splits sum.splits option.splits)
next
  case (Inr u)
  then have "kdb_api_keys db' = fold put_key_row ks (kdb_api_keys db)"
    using key_Sync_ok [of cfg butler c db c' db' ks c1] assms by simp
  then show ?thesis using Inr fold_put_synced [OF _ assms(4)] fold_put_other by (auto simp: find_row_def)
qed

text \<open>C7: A revocation at Butler reaches the proxy. Once a sync has succeeded that fetched an inactive
  key, and as long as no active row carries its hash again, the key is refused by every resolution more
  than five minutes later, whatever the cache held.\<close>

theorem butler_revocation:
  assumes "key_Sync cfg butler (c, db) = Some (Inr (), c', as_store st)" "keys_unique (kdb_api_keys db)"
    and "key_fetch cfg butler c = Some (Inr (ks, c1))" "distinct (map akr_id ks)"
    and k: "k \<in> set ks" "\<not> akr_is_active k" "akr_key_hash k = HashAPIKey apiKey"
    and L: "lru_spec L" "\<forall>h. lru_view L c0 h = None"
    and before: "(auth_step L GetAPIKeyByHash (\<lambda>_. True))\<^sup>*\<^sup>* \<lparr>as_now = t0, as_cache = c0, as_store = db0\<rparr> st"
    and after: "(auth_step L GetAPIKeyByHash (\<lambda>db. \<forall>k \<in> set (kdb_api_keys db).
        ak_key_hash k = HashAPIKey apiKey \<longrightarrow> \<not> ak_is_active k))\<^sup>*\<^sup>* st st'" "as_now st + cacheTTL < as_now st'"
  shows "\<exists>e. res_result (ResolveAPIKey L GetAPIKeyByHash (as_now st') later apiKey
               (as_cache st') (as_store st')) = Inl e"
proof -
  let ?rows = "kdb_api_keys (as_store st)"
  have rows: "?rows = fold put_key_row ks (kdb_api_keys db)" "keys_unique ?rows"
    using key_Sync_ok [OF assms(1,3,2)] by blast+
  then obtain r where "find (\<lambda>r. ak_id r = akr_id k) ?rows = Some r" "synced k r"
    using fold_put_synced [OF k(1) assms(4), of "kdb_api_keys db"] by auto
  then have r: "r \<in> set ?rows" "ak_key_hash r = HashAPIKey apiKey" "\<not> ak_is_active r"
    using k by (auto simp: synced_def find_Some_iff)
  have one: "x = r" if "x \<in> set ?rows" "ak_key_hash x = HashAPIKey apiKey" for x
    using that r(1,2) rows(2) unfolding keys_unique_def distinct_map by (metis inj_onD)
  have off: "\<forall>x \<in> set ?rows. ak_key_hash x = HashAPIKey apiKey \<longrightarrow> \<not> ak_is_active x"
    using one r(3) by blast
  have "key_cache_ok L t0 c0" using L(2) by (simp add: key_cache_ok_def)
  then have "key_cache_ok L (as_now st) (as_cache st)"
    using ak.run_key_cache_ok [OF L(1) before] by simp
  from ak.run_refused [OF L(1) this after(1) _ off after(2), of apiKey] show ?thesis by blast
qed

text \<open>A revoked key comes in.\<close>

lemma sample_fetch:
  "key_fetch sample_steward (one_record ''/api/v1/steward/api-keys'' sample_key_record) 0
    = Some (Inr ([sample_key_record], 5))"
  unfolding key_fetch_def
  by (subst fetch_pages.simps)
    (simp add: one_record_def butler_get_def sync_limit_def advance_def sample_key_record_def)

definition sample_synced_db :: KeyDB where
  "sample_synced_db = sample_db True\<lparr>kdb_api_keys := [(hd (kdb_api_keys (sample_db True)))
     \<lparr>ak_is_active := False, ak_revoked_at := Some 5, ak_deprecated_behavior := ''passthrough''\<rparr>]\<rparr>"

lemma sample_upsert: "UpsertAPIKeys [sample_key_record] (sample_db True) = (Inr (), sample_synced_db)"
  by (simp add: put_api_key_def sql_def stmt_def sample_db_def sample_synced_db_def
      empty_key_db_def sample_key_record_def key_row_def merge_key_def)

lemma sample_sync:
  "key_Sync sample_steward (one_record ''/api/v1/steward/api-keys'' sample_key_record) (0, sample_db True)
    = Some (Inr (), 5, sample_synced_db)"
  by (simp add: key_Sync_def sync_round_def sample_fetch sample_upsert del: UpsertAPIKeys.simps)

lemma sample_db_unique: "keys_unique (kdb_api_keys (sample_db True))"
  by (simp add: sample_db_def keys_unique_def)

lemma key_sync_mirrors_witness:
  "\<exists>row. find_row (\<lambda>row. ak_id row = akr_id sample_key_record) (kdb_api_keys sample_synced_db) = Some row
     \<and> synced sample_key_record row"
  using key_sync_mirrors [OF sample_sync sample_db_unique sample_fetch] by simp

lemma butler_revocation_witness:
  "\<exists>e. res_result (ResolveAPIKey (list_lru 4096) GetAPIKeyByHash 300000000011 300000000011 ''k'' [] sample_synced_db) = Inl e"
proof -
  let ?st = "\<lparr>as_now = 10, as_cache = [] :: (string \<times> cachedKey) list, as_store = sample_synced_db\<rparr>"
  have spec: "lru_spec (list_lru 4096 :: (string, cachedKey, _) lru)"
    using list_lru_spec [of 4095] by simp
  have run: "(auth_step (list_lru 4096) GetAPIKeyByHash ok)\<^sup>*\<^sup>* ?st (?st\<lparr>as_now := 300000000011\<rparr>)" for ok
    by (rule r_into_rtranclp, rule auth_step.tick) simp
  have sync: "key_Sync sample_steward (one_record ''/api/v1/steward/api-keys'' sample_key_record) (0, sample_db True)
      = Some (Inr (), 5, as_store ?st)"
    by (simp add: sample_sync)
  have "\<not> akr_is_active sample_key_record" "akr_key_hash sample_key_record = HashAPIKey ''k''"
    by (simp_all add: sample_key_record_def)
  from butler_revocation [OF sync sample_db_unique sample_fetch _ _ this spec _ rtranclp.rtrancl_refl run, of 300000000011]
  show ?thesis by (simp add: list_lru_empty cacheTTL_def)
qed

end
