(* ===== verification/Reporting.thy ===== *)
theory Reporting
  imports Request_Log Key_Sync Cloud_Storage
begin

text \<open>
  Reporting the request log to Butler: the queries of internal/repositories/steward.go on the
  request log and on the registered organizations, and the reporter that sends unsynced requests in batches
  (internal/stewardclient/reporter.go). What the reporter needs of its store is an interface of the Go code,
  and a locale here.
\<close>

section \<open>The repository\<close>

record MetadataRecord =
  mr_id :: uuid
  mr_user_id :: "uuid option"
  mr_majordomo_api_key_id :: "uuid option"
  mr_proxy_key_id :: "uuid option"
  mr_provider_api_key_hash :: string
  mr_provider_api_key_alias :: string
  mr_provider :: string
  mr_model :: string
  mr_request_path :: string
  mr_request_method :: string
  mr_requested_at :: time
  mr_responded_at :: time
  mr_response_time_ms :: int
  mr_input_tokens :: int
  mr_output_tokens :: int
  mr_cached_tokens :: int
  mr_cache_creation_tokens :: int
  mr_input_cost :: real
  mr_output_cost :: real
  mr_total_cost :: real
  mr_status_code :: int
  mr_error_message :: "string option"
  mr_raw_metadata :: "(string \<times> string) list"
  mr_indexed_metadata :: "(string \<times> string) list"
  mr_body_s3_key :: "string option"
  mr_model_alias_found :: bool
  mr_org_id :: "uuid option"
  mr_experiment_id :: "uuid option"
  mr_experiment_arm_id :: "uuid option"
  mr_original_model :: "string option"

text \<open>The scan of a row: a missing hash or alias is the empty string.\<close>

definition metadata_record :: "RequestLog \<Rightarrow> MetadataRecord" where
  "metadata_record l = \<lparr>mr_id = rl_id l, mr_user_id = rl_user_id l, mr_majordomo_api_key_id = rl_majordomo_api_key_id l,
     mr_proxy_key_id = rl_proxy_key_id l, mr_provider_api_key_hash = or_default [] (rl_provider_api_key_hash l),
     mr_provider_api_key_alias = or_default [] (rl_provider_api_key_alias l), mr_provider = rl_provider l,
     mr_model = rl_model l, mr_request_path = rl_request_path l, mr_request_method = rl_request_method l,
     mr_requested_at = rl_requested_at l, mr_responded_at = rl_responded_at l,
     mr_response_time_ms = rl_response_time_ms l, mr_input_tokens = rl_input_tokens l,
     mr_output_tokens = rl_output_tokens l, mr_cached_tokens = rl_cached_tokens l,
     mr_cache_creation_tokens = rl_cache_creation_tokens l, mr_input_cost = rl_input_cost l,
     mr_output_cost = rl_output_cost l, mr_total_cost = rl_total_cost l, mr_status_code = rl_status_code l,
     mr_error_message = rl_error_message l, mr_raw_metadata = rl_raw_metadata l,
     mr_indexed_metadata = rl_indexed_metadata l, mr_body_s3_key = rl_body_s3_key l,
     mr_model_alias_found = rl_model_alias_found l, mr_org_id = rl_org_id l,
     mr_experiment_id = rl_experiment_id l, mr_experiment_arm_id = rl_experiment_arm_id l,
     mr_original_model = rl_original_model l\<rparr>"

definition unsynced_row :: "uuid \<Rightarrow> LLMRequestRow \<Rightarrow> bool" where
  "unsynced_row orgID r = (\<not> lq_synced r \<and> rl_org_id (lq_log r) = Some orgID)"

definition unsynced_rows :: "uuid \<Rightarrow> log_tables \<Rightarrow> LLMRequestRow list" where
  "unsynced_rows orgID t = sort_key (\<lambda>r. rl_created_at (lq_log r)) (filter (unsynced_row orgID) (ldb_requests t))"

text \<open>A negative LIMIT is refused by the database; the rows are read after the query has started.\<close>

definition FetchUnsyncedRecords :: "uuid \<Rightarrow> int \<Rightarrow> (log_tables, MetadataRecord list) repo" where
  "FetchUnsyncedRecords orgID lmt =
     rbind (rwrap ''fetch unsynced records'' (rexec (\<lambda>t. if lmt < 0 then Inl ErrDB
              else Inr (map (metadata_record \<circ> lq_log) (take (nat lmt) (unsynced_rows orgID t)), t))))
       (\<lambda>records. rbind (rquery (\<lambda>_. ())) (\<lambda>_. rreturn (Inr records)))"

definition CountUnsyncedRecords :: "uuid \<Rightarrow> (log_tables, nat) repo" where
  "CountUnsyncedRecords orgID = rwrap ''count unsynced records''
     (rquery (\<lambda>t. length (filter (unsynced_row orgID) (ldb_requests t))))"

definition MarkSynced :: "uuid list \<Rightarrow> (log_tables, unit) repo" where
  "MarkSynced ids = (if ids = [] then rreturn (Inr ())
     else rwrap ''mark synced'' (rexec (\<lambda>t. Inr ((), t\<lparr>ldb_requests :=
       fst (update_where (\<lambda>r. rl_id (lq_log r) \<in> set ids) (\<lambda>r. r\<lparr>lq_synced := True\<rparr>) (ldb_requests t))\<rparr>))))"

section \<open>Registered organizations\<close>

record RegisteredOrg =
  ro_org_id :: uuid
  ro_name :: string
  ro_butler_url :: string
  ro_token_encrypted :: string
  ro_created_at :: time

definition RegisterOrg :: "time \<Rightarrow> uuid \<Rightarrow> string \<Rightarrow> string \<Rightarrow> string \<Rightarrow> (RegisteredOrg list, unit) repo" where
  "RegisterOrg now orgID nm butlerURL tokenEncrypted = rwrap ''register org'' (rexec (\<lambda>rows.
     Inr ((), upsert ro_org_id (\<lambda>old new. new\<lparr>ro_created_at := ro_created_at old\<rparr>)
       \<lparr>ro_org_id = orgID, ro_name = nm, ro_butler_url = butlerURL, ro_token_encrypted = tokenEncrypted, ro_created_at = now\<rparr> rows)))"

definition ListRegisteredOrgs :: "(RegisteredOrg list, RegisteredOrg list) repo" where
  "ListRegisteredOrgs = rbind (rwrap ''list registered orgs'' (rquery (sort_key ro_created_at)))
     (\<lambda>orgs. rbind (rquery (\<lambda>_. ())) (\<lambda>_. rreturn (Inr orgs)))"

definition RemoveRegisteredOrg :: "uuid \<Rightarrow> (RegisteredOrg list, unit) repo" where
  "RemoveRegisteredOrg orgID = rwrap ''remove registered org'' (rexec (\<lambda>rows.
     Inr ((), fst (delete_where (\<lambda>r. ro_org_id r = orgID) rows))))"

section \<open>The reporter\<close>

text \<open>The answer to the i-th POST of a flush: no request or response, or a status.\<close>

datatype post_answer = PostFailed err | PostStatus int

type_synonym 'r poster = "nat \<Rightarrow> string \<Rightarrow> string \<Rightarrow> 'r list \<Rightarrow> post_answer"

definition send :: "StewardConfig \<Rightarrow> 'r poster \<Rightarrow> nat \<Rightarrow> 'r list \<Rightarrow> err + unit" where
  "send cfg post i records = (case post i (sc_butler_base_url cfg @ ''/api/v1/steward/ingest/metadata'') (bearer cfg) records of
     PostFailed e \<Rightarrow> Inl (ErrWrap ''post batch'' e)
   | PostStatus status \<Rightarrow> if status \<noteq> 200 then Inl (ErrMsg (''butler returned '' @ itoa status)) else Inr ())"

text \<open>The loop of a flush, over the two operations of the store. Its result is the batches Butler has
  acknowledged and the store; the loop need not end, which is the result None.\<close>

partial_function (option) flush_loop ::
  "(int \<Rightarrow> 's \<Rightarrow> (err + 'r list) \<times> 's) \<Rightarrow> (uuid list \<Rightarrow> 's \<Rightarrow> (err + unit) \<times> 's) \<Rightarrow> ('r \<Rightarrow> uuid) \<Rightarrow>
   (nat \<Rightarrow> 'r list \<Rightarrow> err + unit) \<Rightarrow> int \<Rightarrow> nat \<Rightarrow> 'r list list \<Rightarrow> 's \<Rightarrow> ('r list list \<times> 's) option" where
  "flush_loop fetch mark rid post maxSize i sent s =
     (case fetch maxSize s of
        (Inl e, s1) \<Rightarrow> Some (sent, s1)
      | (Inr records, s1) \<Rightarrow>
          if records = [] then Some (sent, s1)
          else (case post i records of
            Inl e \<Rightarrow> Some (sent, s1)
          | Inr _ \<Rightarrow> (case mark (map rid records) s1 of
                (Inl e, s2) \<Rightarrow> Some (sent @ [records], s2)
              | (Inr _, s2) \<Rightarrow>
                  if int (length records) < maxSize then Some (sent @ [records], s2)
                  else flush_loop fetch mark rid post maxSize (Suc i) (sent @ [records]) s2)))"

definition flush :: "StewardConfig \<Rightarrow> MetadataRecord poster \<Rightarrow> log_tables repo_db
    \<Rightarrow> (MetadataRecord list list \<times> log_tables repo_db) option" where
  "flush cfg post db = flush_loop (FetchUnsyncedRecords (sc_org_id cfg)) MarkSynced mr_id (send cfg post)
     (sc_batch_max_size cfg) 0 [] db"

section \<open>The store interface\<close>

text \<open>A fetch returns the first records that are pending, in their order, and changes nothing; a mark that
  succeeds takes the records with the given identifiers out of the pending ones, and one that fails none.\<close>

locale reporter_store =
  fixes fetch :: "int \<Rightarrow> 's \<Rightarrow> (err + 'r list) \<times> 's"
    and mark :: "uuid list \<Rightarrow> 's \<Rightarrow> (err + unit) \<times> 's"
    and rid :: "'r \<Rightarrow> uuid"
    and waiting :: "'s \<Rightarrow> 'r list"
  assumes fetch_page: "fetch n s = (Inr records, s') \<Longrightarrow> records = take (nat n) (waiting s)"
    and fetch_keeps: "fetch n s = (r, s') \<Longrightarrow> waiting s' = waiting s"
    and mark_ok: "mark ids s = (Inr (), s') \<Longrightarrow> waiting s' = filter (\<lambda>r. rid r \<notin> set ids) (waiting s)"
    and mark_error: "mark ids s = (Inl e, s') \<Longrightarrow> waiting s' = waiting s"
begin

text \<open>Whatever fails, the loop ends: what is no longer waiting has been acknowledged, and what has been
  acknowledged was waiting.\<close>

lemma flush_ends:
  "\<exists>batches s'. flush_loop fetch mark rid post n i sent s = Some (sent @ batches, s')
    \<and> set (concat batches) \<subseteq> set (waiting s)
    \<and> set (waiting s') \<subseteq> set (waiting s)
    \<and> rid ` (set (waiting s) - set (waiting s')) \<subseteq> rid ` set (concat batches)"
proof (induction "length (waiting s)" arbitrary: s i sent rule: less_induct)
  case less
  obtain r s1 where f: "fetch n s = (r, s1)" by fastforce
  then have w1: "waiting s1 = waiting s" by (rule fetch_keeps)
  show ?case
  proof (cases "\<exists>records. r = Inr records \<and> records \<noteq> [] \<and> post i records = Inr ()")
    case False
    then have "flush_loop fetch mark rid post n i sent s = Some (sent, s1)"
      using f by (subst flush_loop.simps) (auto split: sum.split)
    then show ?thesis using w1 by (intro exI [of _ "[]"] exI [of _ s1]) simp
  next
    case True
    then obtain records where r: "r = Inr records" "records \<noteq> []" "post i records = Inr ()" by blast
    then have page: "records = take (nat n) (waiting s)" using fetch_page f by blast
    then have sub: "set records \<subseteq> set (waiting s)" using set_take_subset by fastforce
    obtain m s2 where m: "mark (map rid records) s1 = (m, s2)" by fastforce
    have stop: ?thesis if "flush_loop fetch mark rid post n i sent s = Some (sent @ [records], s2)"
        "set (waiting s2) \<subseteq> set (waiting s)" "rid ` (set (waiting s) - set (waiting s2)) \<subseteq> rid ` set records"
      using that sub by (intro exI [of _ "[records]"] exI [of _ s2]) simp
    show ?thesis
    proof (cases m)
      case (Inl e)
      then have "waiting s2 = waiting s" using mark_error m w1 by simp
      moreover have "flush_loop fetch mark rid post n i sent s = Some (sent @ [records], s2)"
        using f r m Inl by (subst flush_loop.simps) simp
      ultimately show ?thesis using stop by simp
    next
      case (Inr u)
      then have w2: "waiting s2 = filter (\<lambda>x. rid x \<notin> rid ` set records) (waiting s)"
        using mark_ok [of "map rid records" s1 s2] m w1 by simp
      have gone: "rid ` (set (waiting s) - set (waiting s2)) \<subseteq> rid ` set records" by (auto simp: w2)
      show ?thesis
      proof (cases "int (length records) < n")
        case True
        then have "flush_loop fetch mark rid post n i sent s = Some (sent @ [records], s2)"
          using f r m Inr by (subst flush_loop.simps) simp
        then show ?thesis using stop gone by (simp add: w2)
      next
        case False
        obtain x where "x \<in> set records" using r(2) by (cases records) auto
        then have "x \<in> set (waiting s)" "\<not> rid x \<notin> rid ` set records" using sub by auto
        then have "length (waiting s2) < length (waiting s)" unfolding w2 by (rule length_filter_less)
        from less.hyps [OF this, of "Suc i" "sent @ [records]"] obtain batches s' where
          b: "flush_loop fetch mark rid post n (Suc i) (sent @ [records]) s2 = Some ((sent @ [records]) @ batches, s')"
            "set (concat batches) \<subseteq> set (waiting s2)" "set (waiting s') \<subseteq> set (waiting s2)"
            "rid ` (set (waiting s2) - set (waiting s')) \<subseteq> rid ` set (concat batches)" by blast
        have "flush_loop fetch mark rid post n i sent s = Some (sent @ records # batches, s')"
          using f r m Inr False b(1) by (subst flush_loop.simps) simp
        moreover have w2s: "set (waiting s2) \<subseteq> set (waiting s)" by (simp add: w2)
        moreover have "set (concat (records # batches)) \<subseteq> set (waiting s)" using b(2) sub w2s by auto
        moreover have "rid ` (set (waiting s) - set (waiting s')) \<subseteq> rid ` set (concat (records # batches))"
        proof -
          have "set (waiting s) - set (waiting s') \<subseteq> (set (waiting s) - set (waiting s2)) \<union> (set (waiting s2) - set (waiting s'))"
            by blast
          then have "rid ` (set (waiting s) - set (waiting s'))
              \<subseteq> rid ` (set (waiting s) - set (waiting s2)) \<union> rid ` (set (waiting s2) - set (waiting s'))" by blast
          also have "\<dots> \<subseteq> rid ` set records \<union> rid ` set (concat batches)" using gone b(4) by blast
          finally show ?thesis by (simp add: image_Un)
        qed
        ultimately show ?thesis using b(3)
          by (intro exI [of _ "records # batches"] exI [of _ s'] conjI) (assumption, assumption, blast, assumption)
      qed
    qed
  qed
qed

text \<open>When nothing fails, everything that was waiting is acknowledged exactly once and in order.\<close>

lemma flush_delivers:
  assumes works: "\<And>s. up s \<Longrightarrow> \<exists>s'. fetch n s = (Inr (take (nat n) (waiting s)), s') \<and> up s'"
      "\<And>ids s. up s \<Longrightarrow> \<exists>s'. mark ids s = (Inr (), s') \<and> up s'"
      "\<And>i records. post i records = Inr ()"
    and "0 < n"
  shows "up s \<Longrightarrow> distinct (map rid (waiting s)) \<Longrightarrow>
    \<exists>batches s'. flush_loop fetch mark rid post n i sent s = Some (sent @ batches, s')
      \<and> concat batches = waiting s \<and> waiting s' = []"
proof (induction "length (waiting s)" arbitrary: s i sent rule: less_induct)
  case less
  define records where "records = take (nat n) (waiting s)"
  obtain s1 where f: "fetch n s = (Inr records, s1)" "up s1" using works(1) [OF less.prems(1)] by (auto simp: records_def)
  then have w1: "waiting s1 = waiting s" using fetch_keeps by blast
  obtain s2 where m: "mark (map rid records) s1 = (Inr (), s2)" "up s2" using works(2) [OF f(2)] by blast
  define rest where "rest = drop (nat n) (waiting s)"
  have split: "records @ rest = waiting s" by (simp add: records_def rest_def)
  have "distinct (map rid (records @ rest))" using less.prems(2) unfolding split .
  then have "filter (\<lambda>r. rid r \<notin> rid ` set records) rest = rest"
    unfolding map_append distinct_append filter_id_conv by auto
  then have "filter (\<lambda>r. rid r \<notin> rid ` set records) (records @ rest) = rest" by (simp add: filter_empty_conv)
  then have w2: "waiting s2 = rest" using mark_ok [OF m(1)] w1 unfolding split by simp
  show ?case
  proof (cases "records = []")
    case True
    then have "waiting s = []" using assms(4) by (simp add: records_def)
    then show ?thesis using True f w1 by (subst flush_loop.simps) auto
  next
    case ne: False
    show ?thesis
    proof (cases "int (length records) < n")
      case True
      then have "rest = []" using assms(4) by (auto simp: records_def rest_def)
      then have "waiting s2 = []" "waiting s = records" using w2 split by simp_all
      then show ?thesis using ne True f m works(3) by (subst flush_loop.simps) auto
    next
      case False
      have "length (waiting s2) < length (waiting s)" using ne unfolding w2 split [symmetric] by simp
      moreover have "distinct (map rid (waiting s2))" using \<open>distinct (map rid (records @ rest))\<close> w2 by simp
      ultimately obtain batches s' where
        "flush_loop fetch mark rid post n (Suc i) (sent @ [records]) s2 = Some ((sent @ [records]) @ batches, s')"
        "concat batches = waiting s2" "waiting s' = []"
        using less.hyps [of s2 "Suc i" "sent @ [records]"] m(2) by blast
      then show ?thesis using ne False f m works(3) split w2
        by (intro exI [of _ "records # batches"] exI [of _ s']) (subst flush_loop.simps, simp)
    qed
  qed
qed

end

section \<open>The repository is such a store\<close>

definition waiting_records :: "uuid \<Rightarrow> log_tables repo_db \<Rightarrow> MetadataRecord list" where
  "waiting_records orgID db = map (metadata_record \<circ> lq_log) (unsynced_rows orgID (rdb_tables db))"

lemma FetchUnsyncedRecords_run:
  "FetchUnsyncedRecords orgID n db = (r, db') \<Longrightarrow> rdb_tables db' = rdb_tables db
    \<and> (\<forall>records. r = Inr records \<longrightarrow> records = take (nat n) (waiting_records orgID db))"
proof -
  let ?f = "\<lambda>t. if n < 0 then Inl ErrDB
    else Inr (map (metadata_record \<circ> lq_log) (take (nat n) (unsynced_rows orgID t)), t)"
  assume run: "FetchUnsyncedRecords orgID n db = (r, db')"
  obtain r1 db1 where 1: "rexec ?f db = (r1, db1)" by fastforce
  have t1: "rdb_tables db1 = rdb_tables db"
    "r1 = Inr v \<Longrightarrow> v = map (metadata_record \<circ> lq_log) (take (nat n) (unsynced_rows orgID (rdb_tables db)))" for v
    using rexec_cases [of ?f db] 1 by (auto split: if_splits)
  obtain r2 db2 where 2: "rquery (\<lambda>_. ()) db1 = (r2, db2)" by fastforce
  have t2: "rdb_tables db2 = rdb_tables db1" using rquery_tables [of "\<lambda>_. ()" db1] 2 by simp
  show ?thesis
  proof (cases r1)
    case (Inl e)
    then show ?thesis using run 1 t1(1) by (auto simp: FetchUnsyncedRecords_def rbind_def rwrap_def)
  next
    case (Inr v)
    then show ?thesis using run 1 2 t1 t2
      by (cases r2) (auto simp: FetchUnsyncedRecords_def rbind_def rwrap_def rreturn_def waiting_records_def take_map)
  qed
qed

definition mark_rows :: "uuid list \<Rightarrow> LLMRequestRow list \<Rightarrow> LLMRequestRow list" where
  "mark_rows ids rows = map (\<lambda>r. if rl_id (lq_log r) \<in> set ids then r\<lparr>lq_synced := True\<rparr> else r) rows"

lemma MarkSynced_run:
  "MarkSynced ids db = (r, db') \<Longrightarrow> rdb_tables db' = (case r of
     Inl e \<Rightarrow> rdb_tables db
   | Inr _ \<Rightarrow> (rdb_tables db)\<lparr>ldb_requests := mark_rows ids (ldb_requests (rdb_tables db))\<rparr>)"
  using rexec_cases [of "\<lambda>t. Inr ((), t\<lparr>ldb_requests := mark_rows ids (ldb_requests t)\<rparr>)" db]
  by (cases "rexec (\<lambda>t. Inr ((), t\<lparr>ldb_requests := mark_rows ids (ldb_requests t)\<rparr>)) db")
    (auto simp: MarkSynced_def rreturn_def rwrap_def mark_rows_def split: if_splits sum.splits)

lemma unsynced_marked:
  "unsynced_rows orgID (t\<lparr>ldb_requests := mark_rows ids (ldb_requests t)\<rparr>)
    = filter (\<lambda>r. rl_id (lq_log r) \<notin> set ids) (unsynced_rows orgID t)"
proof -
  have "filter (unsynced_row orgID) (mark_rows ids rows)
      = filter (\<lambda>r. rl_id (lq_log r) \<notin> set ids) (filter (unsynced_row orgID) rows)" for rows
    by (induction rows) (auto simp: mark_rows_def unsynced_row_def)
  then show ?thesis by (simp add: unsynced_rows_def filter_sort)
qed

interpretation rs: reporter_store "FetchUnsyncedRecords orgID" MarkSynced mr_id "waiting_records orgID" for orgID
proof
  fix n ids and s s' :: "log_tables repo_db" and records r e
  show "FetchUnsyncedRecords orgID n s = (Inr records, s') \<Longrightarrow> records = take (nat n) (waiting_records orgID s)"
    using FetchUnsyncedRecords_run by blast
  show "FetchUnsyncedRecords orgID n s = (r, s') \<Longrightarrow> waiting_records orgID s' = waiting_records orgID s"
    using FetchUnsyncedRecords_run unfolding waiting_records_def by metis
  show "MarkSynced ids s = (Inr (), s') \<Longrightarrow>
      waiting_records orgID s' = filter (\<lambda>r. mr_id r \<notin> set ids) (waiting_records orgID s)"
    by (drule MarkSynced_run) (simp add: waiting_records_def unsynced_marked filter_map comp_def metadata_record_def)
  show "MarkSynced ids s = (Inl e, s') \<Longrightarrow> waiting_records orgID s' = waiting_records orgID s"
    by (drule MarkSynced_run) (simp add: waiting_records_def)
qed



end
