(* ===== verification/Job_Runs.thy ===== *)
theory Job_Runs
  imports Reporting Float64
begin

text \<open>
  The tables of replays and evaluations (models/replay.go, models/eval.go) and their repositories
  (repositories/replay.go, repositories/eval.go). What the two kinds of runs and of results have in common is
  one record that each of them extends, and the statements the two repositories share are written once over it.
\<close>

section \<open>Rows\<close>

record job_run =
  jr_id :: uuid
  jr_user_id :: uuid
  jr_org_id :: "uuid option"
  jr_status :: string
  jr_error_message :: "string option"
  jr_original_total_cost :: "real option"
  jr_replay_total_cost :: "real option"
  jr_original_avg_latency_ms :: "int option"
  jr_replay_avg_latency_ms :: "int option"
  jr_started_at :: "time option"
  jr_completed_at :: "time option"
  jr_created_at :: time
  jr_updated_at :: time
  jr_synced_at :: "time option"

text \<open>The parsed fields are filled when a row is read.\<close>

record ReplayRun = job_run +
  rr_source_api_key_id :: "uuid option"
  rr_source_provider :: "string option"
  rr_source_model :: "string option"
  rr_source_start :: "time option"
  rr_source_end :: "time option"
  rr_source_metadata :: "string option"
  rr_source_limit :: int
  rr_target_provider :: string
  rr_target_model :: string
  rr_judge_enabled :: bool
  rr_judge_provider :: "string option"
  rr_judge_model :: "string option"
  rr_total_requests :: "int option"
  rr_exact_matches :: "int option"
  rr_judge_equivalent :: "int option"
  rr_divergent :: "int option"
  rr_source_metadata_parsed :: "(string \<times> string) list"

record EvalRun = job_run +
  ev_eval_set_id :: uuid
  ev_target_provider :: string
  ev_target_model :: string
  ev_evaluators :: string
  ev_evaluator_summary :: "string option"
  ev_total_requests :: "int option"
  ev_successful_requests :: "int option"
  ev_failed_requests :: "int option"
  ev_judge_total_cost :: "real option"
  ev_evaluators_parsed :: "json list"
  ev_evaluator_summary_parsed :: "json list"

record job_result =
  js_id :: uuid
  js_run_id :: uuid
  js_source_request_id :: uuid
  js_original_provider :: string
  js_original_model :: string
  js_original_cost :: real
  js_original_latency_ms :: int
  js_original_input_tokens :: int
  js_original_output_tokens :: int
  js_replay_response :: "string option"
  js_replay_cost :: "real option"
  js_replay_latency_ms :: "int option"
  js_replay_input_tokens :: "int option"
  js_replay_output_tokens :: "int option"
  js_error_message :: "string option"
  js_created_at :: time
  js_synced_at :: "time option"

record ReplayResult = job_result +
  rs_exact_match :: "bool option"
  rs_judge_equivalent :: "bool option"
  rs_judge_reason :: "string option"

type_synonym EvalResult = job_result

record EvalResultScore =
  es_id :: uuid
  es_eval_result_id :: uuid
  es_evaluator_name :: string
  es_score :: real
  es_reason :: "string option"
  es_created_at :: time
  es_synced_at :: "time option"

record EvalSet =
  et_id :: uuid
  et_user_id :: uuid
  et_org_id :: "uuid option"
  et_name :: string
  et_description :: "string option"
  et_item_count :: int
  et_created_at :: time
  et_updated_at :: time

record EvalSetItem =
  ei_id :: uuid
  ei_eval_set_id :: uuid
  ei_request_id :: uuid
  ei_created_at :: time

text \<open>The tables of migration 000008, and the identifiers of the logged requests they refer to.\<close>

record job_tables =
  jt_requests :: "uuid list"
  jt_replay_runs :: "ReplayRun list"
  jt_replay_results :: "ReplayResult list"
  jt_eval_sets :: "EvalSet list"
  jt_eval_items :: "EvalSetItem list"
  jt_eval_runs :: "EvalRun list"
  jt_eval_results :: "EvalResult list"
  jt_eval_scores :: "EvalResultScore list"

text \<open>What the column types NUMERIC(12,8), NUMERIC(10,4) and JSONB make of a value that is written and
  read back, and what the driver makes of an argument that is a slice of identifiers.\<close>

record columns =
  col_cost :: "real \<Rightarrow> real"
  col_score :: "real \<Rightarrow> real"
  col_jsonb :: "string \<Rightarrow> string"
  col_ids :: "uuid list \<Rightarrow> err + uuid list"

section \<open>Statements on either kind of run\<close>

text \<open>COALESCE of a time that is not zero with now(); the zero time is the start of the year 1.\<close>

definition zero_time :: time where "zero_time = - 62135596800 * 1000000000"

definition time_or :: "time \<Rightarrow> time \<Rightarrow> time" where
  "time_or now t = (if t = zero_time then now else t)"

definition StatusPending :: string where "StatusPending = ''pending''"
definition StatusRunning :: string where "StatusRunning = ''running''"
definition StatusCompleted :: string where "StatusCompleted = ''completed''"
definition StatusFailed :: string where "StatusFailed = ''failed''"

text \<open>A status with the columns that go with it.\<close>

definition set_status :: "string \<Rightarrow> string option \<Rightarrow> time \<Rightarrow> ('a job_run_scheme) \<Rightarrow> 'a job_run_scheme" where
  "set_status status msg now r = (let r' = r\<lparr>jr_status := status, jr_updated_at := now\<rparr> in
     if status = StatusRunning then r'\<lparr>jr_started_at := Some now\<rparr>
     else if status = StatusCompleted then r'\<lparr>jr_completed_at := Some now\<rparr>
     else if status = StatusFailed then r'\<lparr>jr_completed_at := Some now, jr_error_message := msg\<rparr>
     else r')"

text \<open>One table of runs: its name in the messages, the error of a missing row, the scan of a row, which
  can fail, and its place.\<close>

record 'r run_table =
  rt_name :: string
  rt_not_found :: err
  rt_scan :: "'r \<Rightarrow> err + 'r"
  rt_rows :: "job_tables \<Rightarrow> 'r list"
  rt_set :: "'r list \<Rightarrow> job_tables \<Rightarrow> job_tables"

definition on_run :: "'a job_run_scheme run_table \<Rightarrow> string \<Rightarrow> uuid \<Rightarrow> ('a job_run_scheme \<Rightarrow> 'a job_run_scheme) \<Rightarrow> (job_tables, nat) repo" where
  "on_run T msg runID f = rwrap msg (rexec (\<lambda>t.
     let (rows, n) = update_where (\<lambda>r. jr_id r = runID) f (rt_rows T t) in Inr (n, rt_set T rows t)))"

text \<open>A query whose rows are scanned: the first row that cannot be is the error.\<close>

fun scan_all :: "('r \<Rightarrow> err + 'r) \<Rightarrow> 'r list \<Rightarrow> err + 'r list" where
  "scan_all scan [] = Inr []"
| "scan_all scan (r # rs) = (case scan r of Inl e \<Rightarrow> Inl e
     | Inr v \<Rightarrow> (case scan_all scan rs of Inl e \<Rightarrow> Inl e | Inr vs \<Rightarrow> Inr (v # vs)))"

definition rscan :: "('r \<Rightarrow> err + 'r) \<Rightarrow> ('t \<Rightarrow> 'r option) \<Rightarrow> ('t, 'r option) repo" where
  "rscan scan f = rbind (rquery f) (\<lambda>found. rreturn (case found of
     None \<Rightarrow> Inr None | Some r \<Rightarrow> (case scan r of Inl e \<Rightarrow> Inl e | Inr v \<Rightarrow> Inr (Some v))))"

definition get_run :: "'a job_run_scheme run_table \<Rightarrow> uuid \<Rightarrow> (job_tables, 'a job_run_scheme) repo" where
  "get_run T runID = rfound (rt_not_found T) (rwrap (''get '' @ rt_name T)
     (rscan (rt_scan T) (\<lambda>t. find_row (\<lambda>r. jr_id r = runID) (rt_rows T t))))"

text \<open>The oldest pending run that no other transaction has locked.\<close>

definition oldest_pending :: "(uuid \<Rightarrow> bool) \<Rightarrow> 'a job_run_scheme list \<Rightarrow> 'a job_run_scheme option" where
  "oldest_pending locked rows = (case sort_key jr_created_at
       (filter (\<lambda>r. jr_status r = StatusPending \<and> \<not> locked (jr_id r)) rows) of
     [] \<Rightarrow> None | r # _ \<Rightarrow> Some r)"

text \<open>The claim, in a transaction that is rolled back on every path that does not commit.\<close>

definition claim_run :: "'a job_run_scheme run_table \<Rightarrow> (uuid \<Rightarrow> bool) \<Rightarrow> time \<Rightarrow> (job_tables, 'a job_run_scheme option) repo" where
  "claim_run T locked now db = rollback (rdb_tables db)
     (rbind (rwrap ''begin tx'' (rquery (\<lambda>_. ()))) (\<lambda>_.
      rbind (rwrap (''select pending '' @ rt_name T) (rscan (rt_scan T) (\<lambda>t. oldest_pending locked (rt_rows T t)))) (\<lambda>found.
      case found of
        None \<Rightarrow> rreturn (Inr None)
      | Some run \<Rightarrow>
          rbind (on_run T (''claim '' @ rt_name T) (jr_id run) (set_status StatusRunning None now)) (\<lambda>_.
          rbind (rwrap (''commit claim '' @ rt_name T) (rquery (\<lambda>_. ()))) (\<lambda>_.
          rreturn (Inr (Some (run\<lparr>jr_status := StatusRunning\<rparr>))))))) db)"

definition update_run_status :: "'a job_run_scheme run_table \<Rightarrow> time \<Rightarrow> uuid \<Rightarrow> string \<Rightarrow> string option \<Rightarrow> (job_tables, unit) repo" where
  "update_run_status T now runID status msg = must_affect (rt_not_found T)
     (on_run T (''update '' @ rt_name T @ '' status'') runID (set_status status msg now))"

text \<open>SELECT ... LIMIT, which refuses a negative limit.\<close>

definition rselect :: "string \<Rightarrow> int \<Rightarrow> ('r \<Rightarrow> err + 'r) \<Rightarrow> ('t \<Rightarrow> 'r list) \<Rightarrow> ('t, 'r list) repo" where
  "rselect msg n scan f = rwrap msg (rexec (\<lambda>t. if n < 0 then Inl ErrDB
     else (case scan_all scan (take (nat n) (f t)) of Inl e \<Rightarrow> Inl e | Inr rows \<Rightarrow> Inr (rows, t))))"

text \<open>UPDATE ... WHERE id = ANY of the given identifiers, which is not executed for none of them.\<close>

definition rmark :: "columns \<Rightarrow> string \<Rightarrow> (uuid list \<Rightarrow> 't \<Rightarrow> 't) \<Rightarrow> uuid list \<Rightarrow> ('t, unit) repo" where
  "rmark C msg f ids = (if ids = [] then rreturn (Inr ())
     else rwrap msg (case col_ids C ids of
        Inl e \<Rightarrow> rreturn (Inl e) | Inr sent \<Rightarrow> rexec (\<lambda>t. Inr ((), f sent t))))"

definition run_unsynced :: "'a job_run_scheme \<Rightarrow> bool" where
  "run_unsynced r = (case jr_synced_at r of None \<Rightarrow> True | Some s \<Rightarrow> s < jr_updated_at r)"

definition unsynced_runs :: "'a job_run_scheme list \<Rightarrow> 'a job_run_scheme list" where
  "unsynced_runs rows = sort_key jr_updated_at (filter run_unsynced rows)"

definition fetch_unsynced_runs :: "'a job_run_scheme run_table \<Rightarrow> int \<Rightarrow> (job_tables, 'a job_run_scheme list) repo" where
  "fetch_unsynced_runs T n = rselect (''fetch unsynced '' @ rt_name T @ ''s'') n (rt_scan T) (\<lambda>t. unsynced_runs (rt_rows T t))"

definition mark_runs_synced :: "'a job_run_scheme run_table \<Rightarrow> columns \<Rightarrow> time \<Rightarrow> uuid list \<Rightarrow> (job_tables, unit) repo" where
  "mark_runs_synced T C now = rmark C (''mark '' @ rt_name T @ ''s synced'') (\<lambda>ids t. rt_set T
     (fst (update_where (\<lambda>r. jr_id r \<in> set ids) (\<lambda>r. r\<lparr>jr_synced_at := Some now\<rparr>) (rt_rows T t))) t)"

text \<open>Rows that are sent once: results and scores.\<close>

definition unsent :: "('r \<Rightarrow> time option) \<Rightarrow> ('r \<Rightarrow> time) \<Rightarrow> 'r list \<Rightarrow> 'r list" where
  "unsent synced_at created rows = sort_key created (filter (\<lambda>r. synced_at r = None) rows)"

definition stamp :: "('r \<Rightarrow> uuid) \<Rightarrow> ('r \<Rightarrow> 'r) \<Rightarrow> uuid list \<Rightarrow> 'r list \<Rightarrow> 'r list" where
  "stamp rid f ids rows = fst (update_where (\<lambda>r. rid r \<in> set ids) f rows)"

section \<open>Replays\<close>

definition parse_string_map :: "string \<Rightarrow> (string \<times> string) list" where
  "parse_string_map data = (case parse_json data of
     None \<Rightarrow> []
   | Some j \<Rightarrow> (case fst (dec_map [] dec_string j (Some [])) of Some m \<Rightarrow> m | None \<Rightarrow> []))"

definition parseReplayRunMetadata :: "ReplayRun \<Rightarrow> ReplayRun" where
  "parseReplayRunMetadata run = (case rr_source_metadata run of
     None \<Rightarrow> run | Some data \<Rightarrow> run\<lparr>rr_source_metadata_parsed := parse_string_map data\<rparr>)"

definition replay_runs :: "ReplayRun run_table" where
  "replay_runs = \<lparr>rt_name = ''replay run'', rt_not_found = ErrReplayRunNotFound,
     rt_scan = Inr \<circ> parseReplayRunMetadata, rt_rows = jt_replay_runs,
     rt_set = (\<lambda>rows t. t\<lparr>jt_replay_runs := rows\<rparr>)\<rparr>"

text \<open>The row of the INSERT; the columns that are not given have their defaults.\<close>

definition replay_run_row :: "columns \<Rightarrow> time \<Rightarrow> ReplayRun \<Rightarrow> ReplayRun" where
  "replay_run_row C now run = run\<lparr>
     jr_error_message := None, jr_original_total_cost := None, jr_replay_total_cost := None,
     jr_original_avg_latency_ms := None, jr_replay_avg_latency_ms := None,
     jr_started_at := None, jr_completed_at := None, jr_created_at := time_or now (jr_created_at run),
     jr_updated_at := now, jr_synced_at := None,
     rr_source_metadata := (case rr_source_metadata run of
        None \<Rightarrow> None | Some s \<Rightarrow> if s = [] then None else Some (col_jsonb C s)),
     rr_total_requests := None, rr_exact_matches := None, rr_judge_equivalent := None, rr_divergent := None,
     rr_source_metadata_parsed := []\<rparr>"

definition merge_replay_run :: "time \<Rightarrow> ReplayRun \<Rightarrow> ReplayRun \<Rightarrow> ReplayRun" where
  "merge_replay_run now old new = old\<lparr>
     rr_source_api_key_id := rr_source_api_key_id new, rr_source_provider := rr_source_provider new,
     rr_source_model := rr_source_model new, rr_source_start := rr_source_start new,
     rr_source_end := rr_source_end new, rr_source_metadata := rr_source_metadata new,
     rr_source_limit := rr_source_limit new, rr_target_provider := rr_target_provider new,
     rr_target_model := rr_target_model new, rr_judge_enabled := rr_judge_enabled new,
     rr_judge_provider := rr_judge_provider new, rr_judge_model := rr_judge_model new,
     jr_updated_at := now\<rparr>"

definition UpsertReplayRun :: "columns \<Rightarrow> time \<Rightarrow> ReplayRun \<Rightarrow> (job_tables, unit) repo" where
  "UpsertReplayRun C now run = rwrap ''upsert replay run'' (rexec (\<lambda>t. Inr ((), t\<lparr>jt_replay_runs :=
     upsert jr_id (merge_replay_run now) (replay_run_row C now run) (jt_replay_runs t)\<rparr>)))"

definition GetReplayRun :: "uuid \<Rightarrow> (job_tables, ReplayRun) repo" where
  "GetReplayRun = get_run replay_runs"

definition ClaimPendingReplayRun :: "(uuid \<Rightarrow> bool) \<Rightarrow> time \<Rightarrow> (job_tables, ReplayRun option) repo" where
  "ClaimPendingReplayRun = claim_run replay_runs"

definition UpdateReplayRunStatus :: "time \<Rightarrow> uuid \<Rightarrow> string \<Rightarrow> string option \<Rightarrow> (job_tables, unit) repo" where
  "UpdateReplayRunStatus = update_run_status replay_runs"

definition UpdateReplayRunSummary :: "columns \<Rightarrow> time \<Rightarrow> uuid \<Rightarrow> ReplayRun \<Rightarrow> (job_tables, unit) repo" where
  "UpdateReplayRunSummary C now runID summary = must_affect ErrReplayRunNotFound
     (on_run replay_runs ''update replay run summary'' runID (\<lambda>r. r\<lparr>
        rr_total_requests := rr_total_requests summary, rr_exact_matches := rr_exact_matches summary,
        rr_judge_equivalent := rr_judge_equivalent summary, rr_divergent := rr_divergent summary,
        jr_original_total_cost := map_option (col_cost C) (jr_original_total_cost summary),
        jr_replay_total_cost := map_option (col_cost C) (jr_replay_total_cost summary),
        jr_original_avg_latency_ms := jr_original_avg_latency_ms summary,
        jr_replay_avg_latency_ms := jr_replay_avg_latency_ms summary, jr_updated_at := now\<rparr>))"

definition stored_result :: "columns \<Rightarrow> time \<Rightarrow> uuid \<Rightarrow> 'a job_result_scheme \<Rightarrow> 'a job_result_scheme" where
  "stored_result C now newid r = r\<lparr>js_id := newid, js_original_cost := col_cost C (js_original_cost r),
     js_replay_cost := map_option (col_cost C) (js_replay_cost r), js_created_at := now, js_synced_at := None\<rparr>"

text \<open>The identifier is generated by the database; the run and the request must exist.\<close>

definition InsertReplayResult :: "columns \<Rightarrow> uuid \<Rightarrow> time \<Rightarrow> ReplayResult \<Rightarrow> (job_tables, unit) repo" where
  "InsertReplayResult C newid now res = rwrap ''insert replay result'' (rexec (\<lambda>t.
     if list_ex (\<lambda>r. js_id r = newid) (jt_replay_results t)
        \<or> \<not> list_ex (\<lambda>r. jr_id r = js_run_id res) (jt_replay_runs t)
        \<or> js_source_request_id res \<notin> set (jt_requests t) then Inl ErrDB
     else Inr ((), t\<lparr>jt_replay_results := jt_replay_results t @ [stored_result C now newid res]\<rparr>)))"

definition FetchUnsyncedReplayRuns :: "int \<Rightarrow> (job_tables, ReplayRun list) repo" where
  "FetchUnsyncedReplayRuns = fetch_unsynced_runs replay_runs"

definition MarkReplayRunsSynced :: "columns \<Rightarrow> time \<Rightarrow> uuid list \<Rightarrow> (job_tables, unit) repo" where
  "MarkReplayRunsSynced = mark_runs_synced replay_runs"

definition FetchUnsyncedReplayResults :: "int \<Rightarrow> (job_tables, ReplayResult list) repo" where
  "FetchUnsyncedReplayResults n = rselect ''fetch unsynced replay results'' n Inr
     (\<lambda>t. unsent js_synced_at js_created_at (jt_replay_results t))"

definition MarkReplayResultsSynced :: "columns \<Rightarrow> time \<Rightarrow> uuid list \<Rightarrow> (job_tables, unit) repo" where
  "MarkReplayResultsSynced C now = rmark C ''mark replay results synced'' (\<lambda>ids t.
     t\<lparr>jt_replay_results := stamp js_id (\<lambda>r. r\<lparr>js_synced_at := Some now\<rparr>) ids (jt_replay_results t)\<rparr>)"

section \<open>Evaluations\<close>

text \<open>An evaluation is received with its set and items.\<close>

definition UpsertEvalSet :: "time \<Rightarrow> EvalSet \<Rightarrow> (job_tables, unit) repo" where
  "UpsertEvalSet now s = rwrap ''upsert eval set'' (rexec (\<lambda>t. Inr ((), t\<lparr>jt_eval_sets :=
     upsert et_id (\<lambda>old new. old\<lparr>et_name := et_name new, et_description := et_description new, et_updated_at := now\<rparr>)
       (s\<lparr>et_created_at := time_or now (et_created_at s), et_updated_at := now\<rparr>) (jt_eval_sets t)\<rparr>)))"

text \<open>A duplicate of the set and request is ignored; the identifier must be new, the set and the
  request must exist.\<close>

definition UpsertEvalSetItem :: "time \<Rightarrow> EvalSetItem \<Rightarrow> (job_tables, unit) repo" where
  "UpsertEvalSetItem now item = rwrap ''upsert eval set item'' (rexec (\<lambda>t.
     if list_ex (\<lambda>i. ei_eval_set_id i = ei_eval_set_id item \<and> ei_request_id i = ei_request_id item) (jt_eval_items t)
     then Inr ((), t)
     else if list_ex (\<lambda>i. ei_id i = ei_id item) (jt_eval_items t)
        \<or> \<not> list_ex (\<lambda>s. et_id s = ei_eval_set_id item) (jt_eval_sets t)
        \<or> ei_request_id item \<notin> set (jt_requests t) then Inl ErrDB
     else Inr ((), t\<lparr>jt_eval_items := jt_eval_items t @ [item\<lparr>ei_created_at := time_or now (ei_created_at item)\<rparr>]\<rparr>)))"

text \<open>ParseJSONFields: what does not parse stays empty.\<close>

definition parse_array :: "string \<Rightarrow> json list" where
  "parse_array data = (case parse_json data of None \<Rightarrow> [] | Some j \<Rightarrow> fst (dec_list JNull dec_raw j []))"

definition ParseJSONFields :: "EvalRun \<Rightarrow> EvalRun" where
  "ParseJSONFields run = run\<lparr>ev_evaluators_parsed := parse_array (ev_evaluators run),
     ev_evaluator_summary_parsed := (case ev_evaluator_summary run of None \<Rightarrow> [] | Some s \<Rightarrow> parse_array s)\<rparr>"

text \<open>A NULL is not scanned into a json.RawMessage (database/sql), so a run without a summary cannot be
  read.\<close>

definition scan_eval_run :: "EvalRun \<Rightarrow> err + EvalRun" where
  "scan_eval_run run = (if ev_evaluator_summary run = None
     then Inl (ErrMsg ''unsupported Scan, storing driver.Value type <nil> into type *json.RawMessage'')
     else Inr (ParseJSONFields run))"

definition eval_runs :: "EvalRun run_table" where
  "eval_runs = \<lparr>rt_name = ''eval run'', rt_not_found = ErrEvalRunNotFound,
     rt_scan = scan_eval_run, rt_rows = jt_eval_runs,
     rt_set = (\<lambda>rows t. t\<lparr>jt_eval_runs := rows\<rparr>)\<rparr>"

definition eval_run_row :: "columns \<Rightarrow> time \<Rightarrow> EvalRun \<Rightarrow> EvalRun" where
  "eval_run_row C now run = run\<lparr>
     jr_error_message := None, jr_original_total_cost := None, jr_replay_total_cost := None,
     jr_original_avg_latency_ms := None, jr_replay_avg_latency_ms := None,
     jr_started_at := None, jr_completed_at := None, jr_created_at := time_or now (jr_created_at run),
     jr_updated_at := now, jr_synced_at := None,
     ev_evaluators := col_jsonb C (if ev_evaluators run = [] then ''[]'' else ev_evaluators run),
     ev_evaluator_summary := None, ev_total_requests := None, ev_successful_requests := None,
     ev_failed_requests := None, ev_judge_total_cost := None, ev_evaluators_parsed := [],
     ev_evaluator_summary_parsed := []\<rparr>"

definition merge_eval_run :: "time \<Rightarrow> EvalRun \<Rightarrow> EvalRun \<Rightarrow> EvalRun" where
  "merge_eval_run now old new = old\<lparr>ev_eval_set_id := ev_eval_set_id new, ev_target_provider := ev_target_provider new,
     ev_target_model := ev_target_model new, ev_evaluators := ev_evaluators new, jr_updated_at := now\<rparr>"

definition UpsertEvalRun :: "columns \<Rightarrow> time \<Rightarrow> EvalRun \<Rightarrow> (job_tables, unit) repo" where
  "UpsertEvalRun C now run = rwrap ''upsert eval run'' (rexec (\<lambda>t.
     if \<not> list_ex (\<lambda>s. et_id s = ev_eval_set_id run) (jt_eval_sets t) then Inl ErrDB
     else Inr ((), t\<lparr>jt_eval_runs := upsert jr_id (merge_eval_run now) (eval_run_row C now run) (jt_eval_runs t)\<rparr>)))"

definition GetEvalSet :: "uuid \<Rightarrow> (job_tables, EvalSet) repo" where
  "GetEvalSet setID = rfound ErrEvalSetNotFound (rwrap ''get eval set'' (rquery (\<lambda>t.
     map_option (\<lambda>s. s\<lparr>et_item_count := int (length (filter (\<lambda>i. ei_eval_set_id i = setID) (jt_eval_items t)))\<rparr>)
       (find_row (\<lambda>s. et_id s = setID) (jt_eval_sets t)))))"

definition GetEvalRun :: "uuid \<Rightarrow> (job_tables, EvalRun) repo" where
  "GetEvalRun = get_run eval_runs"

definition ListEvalSetItems :: "uuid \<Rightarrow> (job_tables, EvalSetItem list) repo" where
  "ListEvalSetItems setID = rwrap ''list eval set items'' (rquery (\<lambda>t.
     sort_key ei_created_at (filter (\<lambda>i. ei_eval_set_id i = setID) (jt_eval_items t))))"

definition ClaimPendingEvalRun :: "(uuid \<Rightarrow> bool) \<Rightarrow> time \<Rightarrow> (job_tables, EvalRun option) repo" where
  "ClaimPendingEvalRun = claim_run eval_runs"

definition UpdateEvalRunStatus :: "time \<Rightarrow> uuid \<Rightarrow> string \<Rightarrow> string option \<Rightarrow> (job_tables, unit) repo" where
  "UpdateEvalRunStatus = update_run_status eval_runs"

definition UpdateEvalRunSummary :: "columns \<Rightarrow> time \<Rightarrow> uuid \<Rightarrow> EvalRun \<Rightarrow> (job_tables, unit) repo" where
  "UpdateEvalRunSummary C now runID summary = must_affect ErrEvalRunNotFound
     (on_run eval_runs ''update eval run summary'' runID (\<lambda>r. r\<lparr>
        ev_total_requests := ev_total_requests summary, ev_successful_requests := ev_successful_requests summary,
        ev_failed_requests := ev_failed_requests summary,
        jr_original_total_cost := map_option (col_cost C) (jr_original_total_cost summary),
        jr_replay_total_cost := map_option (col_cost C) (jr_replay_total_cost summary),
        ev_judge_total_cost := map_option (col_cost C) (ev_judge_total_cost summary),
        jr_original_avg_latency_ms := jr_original_avg_latency_ms summary,
        jr_replay_avg_latency_ms := jr_replay_avg_latency_ms summary,
        ev_evaluator_summary := (case ev_evaluator_summary summary of
           None \<Rightarrow> None | Some s \<Rightarrow> if s = [] then None else Some (col_jsonb C s)),
        jr_updated_at := now\<rparr>))"

definition InsertEvalResult :: "columns \<Rightarrow> time \<Rightarrow> EvalResult \<Rightarrow> (job_tables, unit) repo" where
  "InsertEvalResult C now res = rwrap ''insert eval result'' (rexec (\<lambda>t.
     if list_ex (\<lambda>r. js_id r = js_id res) (jt_eval_results t)
        \<or> \<not> list_ex (\<lambda>r. jr_id r = js_run_id res) (jt_eval_runs t)
        \<or> js_source_request_id res \<notin> set (jt_requests t) then Inl ErrDB
     else Inr ((), t\<lparr>jt_eval_results := jt_eval_results t @ [stored_result C now (js_id res) res]\<rparr>)))"

definition score_key :: "EvalResultScore \<Rightarrow> uuid \<times> string" where
  "score_key s = (es_eval_result_id s, es_evaluator_name s)"

text \<open>A second score of an evaluator replaces the first, which is to be sent again.\<close>

definition InsertEvalResultScore :: "columns \<Rightarrow> time \<Rightarrow> EvalResultScore \<Rightarrow> (job_tables, unit) repo" where
  "InsertEvalResultScore C now s = rwrap ''insert eval result score'' (rexec (\<lambda>t.
     let row = s\<lparr>es_score := col_score C (es_score s), es_created_at := now, es_synced_at := None\<rparr> in
     if \<not> list_ex (\<lambda>o0. score_key o0 = score_key s) (jt_eval_scores t)
        \<and> (list_ex (\<lambda>o0. es_id o0 = es_id s) (jt_eval_scores t)
            \<or> \<not> list_ex (\<lambda>r. js_id r = es_eval_result_id s) (jt_eval_results t)) then Inl ErrDB
     else Inr ((), t\<lparr>jt_eval_scores := upsert score_key
       (\<lambda>old new. old\<lparr>es_score := es_score new, es_reason := es_reason new, es_synced_at := None\<rparr>)
       row (jt_eval_scores t)\<rparr>)))"

definition FetchUnsyncedEvalRuns :: "int \<Rightarrow> (job_tables, EvalRun list) repo" where
  "FetchUnsyncedEvalRuns = fetch_unsynced_runs eval_runs"

definition MarkEvalRunsSynced :: "columns \<Rightarrow> time \<Rightarrow> uuid list \<Rightarrow> (job_tables, unit) repo" where
  "MarkEvalRunsSynced = mark_runs_synced eval_runs"

definition FetchUnsyncedEvalResults :: "int \<Rightarrow> (job_tables, EvalResult list) repo" where
  "FetchUnsyncedEvalResults n = rselect ''fetch unsynced eval results'' n Inr
     (\<lambda>t. unsent js_synced_at js_created_at (jt_eval_results t))"

definition MarkEvalResultsSynced :: "columns \<Rightarrow> time \<Rightarrow> uuid list \<Rightarrow> (job_tables, unit) repo" where
  "MarkEvalResultsSynced C now = rmark C ''mark eval results synced'' (\<lambda>ids t.
     t\<lparr>jt_eval_results := stamp js_id (\<lambda>r. r\<lparr>js_synced_at := Some now\<rparr>) ids (jt_eval_results t)\<rparr>)"

definition FetchUnsyncedEvalResultScores :: "int \<Rightarrow> (job_tables, EvalResultScore list) repo" where
  "FetchUnsyncedEvalResultScores n = rselect ''fetch unsynced eval result scores'' n Inr
     (\<lambda>t. unsent es_synced_at es_created_at (jt_eval_scores t))"

definition MarkEvalResultScoresSynced :: "columns \<Rightarrow> time \<Rightarrow> uuid list \<Rightarrow> (job_tables, unit) repo" where
  "MarkEvalResultScoresSynced C now = rmark C ''mark eval result scores synced'' (\<lambda>ids t.
     t\<lparr>jt_eval_scores := stamp es_id (\<lambda>s. s\<lparr>es_synced_at := Some now\<rparr>) ids (jt_eval_scores t)\<rparr>)"

section \<open>Facts on the statements\<close>

lemma rbind_InrE:
  assumes "rbind m f db = (Inr v, db')"
  obtains x db1 where "m db = (Inr x, db1)" "f x db1 = (Inr v, db')"
  using assms by (cases "m db") (auto simp: rbind_def split: sum.splits)

lemma rwrap_InrE: "rwrap msg m db = (Inr v, db') \<Longrightarrow> m db = (Inr v, db')"
  by (auto simp: rwrap_def split: prod.splits sum.splits)

lemma rbind_wrap_InrE:
  assumes "rbind (rwrap msg m) f db = (Inr v, db')"
  obtains x db1 where "m db = (Inr x, db1)" "f x db1 = (Inr v, db')"
  using assms by (elim rbind_InrE) (auto dest: rwrap_InrE)

lemma rfound_InrE:
  assumes "rfound e m db = (Inr v, db')"
  obtains db1 where "m db = (Inr (Some v), db1)"
  using rfound_Inr [of e m db v] assms by (cases "m db") auto

lemma rquery_InrD: "rquery f db = (Inr v, db') \<Longrightarrow> v = f (rdb_tables db) \<and> rdb_tables db' = rdb_tables db"
  using rquery_val [of f db v] rquery_tables [of f db] by simp

lemma rscan_InrD:
  assumes "rscan scan f db = (Inr v, db')"
  shows "rdb_tables db' = rdb_tables db \<and> (case f (rdb_tables db) of
    None \<Rightarrow> v = None | Some r \<Rightarrow> \<exists>r'. scan r = Inr r' \<and> v = Some r')"
  using assms unfolding rscan_def
  by (elim rbind_InrE) (auto simp: rreturn_def dest!: rquery_InrD split: option.splits sum.splits)

lemma rexec_InrD: "rexec f db = (Inr v, db') \<Longrightarrow> f (rdb_tables db) = Inr (v, rdb_tables db')"
  using rexec_cases [of f db] by (auto simp: is_Inl_def split: sum.splits)

lemma rexec_InlD: "rexec f db = (Inl e, db') \<Longrightarrow> rdb_tables db' = rdb_tables db"
  using rexec_cases [of f db] by auto

lemma rwrap_InlE:
  assumes "rwrap msg m db = (Inl e, db')"
  obtains e' where "m db = (Inl e', db')"
  using assms by (auto simp: rwrap_def split: prod.splits sum.splits)

lemma rscan_tables: "rdb_tables (snd (rscan scan f db)) = rdb_tables db"
  using rquery_tables [of f db] by (cases "rquery f db") (auto simp: rscan_def rbind_def rreturn_def split: sum.splits)

lemma on_run_InrD:
  assumes "on_run T msg runID f db = (Inr n, db')"
  shows "rdb_tables db' = rt_set T (map (\<lambda>r. if jr_id r = runID then f r else r) (rt_rows T (rdb_tables db))) (rdb_tables db)
    \<and> n = length (filter (\<lambda>r. jr_id r = runID) (rt_rows T (rdb_tables db)))"
  using rexec_InrD [OF rwrap_InrE [OF assms [unfolded on_run_def]]] by (auto simp: update_where_def)

lemma on_run_InlD: "on_run T msg runID f db = (Inl e, db') \<Longrightarrow> rdb_tables db' = rdb_tables db"
  unfolding on_run_def by (erule rwrap_InlE) (erule rexec_InlD)

lemma rollback_Inr: "rollback t r = (Inr v, db) \<longleftrightarrow> r = (Inr v, db)"
  by (auto simp: rollback_def split: prod.splits sum.splits)

lemma rollback_Inl: "rollback t r = (Inl e, db) \<Longrightarrow> rdb_tables db = t"
  by (auto simp: rollback_def split: prod.splits sum.splits)

text \<open>The oldest pending run.\<close>

lemma oldest_pending_Some:
  assumes "oldest_pending locked rows = Some r"
  shows "r \<in> set rows \<and> jr_status r = StatusPending \<and> \<not> locked (jr_id r)
    \<and> (\<forall>r' \<in> set rows. jr_status r' = StatusPending \<and> \<not> locked (jr_id r') \<longrightarrow> jr_created_at r \<le> jr_created_at r')"
proof -
  let ?q = "filter (\<lambda>r. jr_status r = StatusPending \<and> \<not> locked (jr_id r)) rows"
  obtain rs where q: "sort_key jr_created_at ?q = r # rs"
    using assms by (auto simp: oldest_pending_def split: list.splits)
  have set: "set (r # rs) = set ?q" unfolding q [symmetric] by simp
  have "sorted (map jr_created_at (r # rs))" unfolding q [symmetric] by (rule sorted_sort_key)
  then have "\<forall>r' \<in> set (r # rs). jr_created_at r \<le> jr_created_at r'" by auto
  moreover have "r \<in> set ?q" unfolding set [symmetric] by simp
  ultimately show ?thesis unfolding set by simp
qed

lemma oldest_pending_None:
  "oldest_pending locked rows = None \<longleftrightarrow> (\<forall>r \<in> set rows. jr_status r = StatusPending \<longrightarrow> locked (jr_id r))"
proof -
  let ?q = "filter (\<lambda>r. jr_status r = StatusPending \<and> \<not> locked (jr_id r)) rows"
  have "oldest_pending locked rows = None \<longleftrightarrow> sort_key jr_created_at ?q = []"
    by (simp add: oldest_pending_def split: list.split)
  also have "\<dots> \<longleftrightarrow> ?q = []" by (simp only: set_empty [symmetric] set_sort)
  finally show ?thesis by (auto simp: filter_empty_conv)
qed

lemma set_status_simps [simp]:
  "jr_id (set_status status msg now r) = jr_id r" "jr_status (set_status status msg now r) = status"
  by (simp_all add: set_status_def Let_def)

section \<open>The queue of runs\<close>

text \<open>The steps on a table of runs, with the runs that were claimed as history: claims, changes of the
  status to anything but pending, runs that Butler sends, and everything that leaves the identifiers and
  the statuses alone.\<close>

inductive run_step :: "'a job_run_scheme run_table \<Rightarrow> (columns \<Rightarrow> time \<Rightarrow> 'a job_run_scheme \<Rightarrow> (job_tables, unit) repo)
    \<Rightarrow> job_tables repo_db \<times> uuid list \<Rightarrow> job_tables repo_db \<times> uuid list \<Rightarrow> bool" for T ups where
  claimed: "claim_run T locked now db = (Inr (Some run), db') \<Longrightarrow> run_step T ups (db, c) (db', c @ [jr_id run])"
| unclaimed: "claim_run T locked now db = (r, db') \<Longrightarrow> (\<And>run. r \<noteq> Inr (Some run)) \<Longrightarrow> run_step T ups (db, c) (db', c)"
| moved: "update_run_status T now runID status msg db = (r, db') \<Longrightarrow> status \<noteq> StatusPending \<Longrightarrow>
    run_step T ups (db, c) (db', c)"
| received: "ups C now run db = (r, db') \<Longrightarrow> run_step T ups (db, c) (db', c)"
| other: "map (\<lambda>r. (jr_id r, jr_status r)) (rt_rows T (rdb_tables db')) = map (\<lambda>r. (jr_id r, jr_status r)) (rt_rows T (rdb_tables db))
    \<Longrightarrow> run_step T ups (db, c) (db', c)"

definition run_ok :: "'a job_run_scheme list \<Rightarrow> uuid list \<Rightarrow> bool" where
  "run_ok rows c = (distinct (map jr_id rows) \<and> distinct c
     \<and> (\<forall>i \<in> set c. \<exists>r \<in> set rows. jr_id r = i \<and> jr_status r \<noteq> StatusPending))"

definition run_inv :: "'a job_run_scheme run_table \<Rightarrow> job_tables repo_db \<times> uuid list \<Rightarrow> bool" where
  "run_inv T st = run_ok (rt_rows T (rdb_tables (fst st))) (snd st)"

lemma run_inv_iff [simp]: "run_inv T (db, c) = run_ok (rt_rows T (rdb_tables db)) c"
  by (simp add: run_inv_def)

lemma run_ok_moved:
  assumes "status \<noteq> StatusPending" "run_ok rows c"
  shows "run_ok (map (\<lambda>q. if jr_id q = k then set_status status msg now q else q) rows) c"
proof -
  let ?f = "\<lambda>q. if jr_id q = k then set_status status msg now q else q"
  have f: "jr_id (?f q) = jr_id q" "jr_status q \<noteq> StatusPending \<Longrightarrow> jr_status (?f q) \<noteq> StatusPending" for q
    using assms(1) by simp_all
  have m: "map jr_id (map ?f rows) = map jr_id rows" by simp
  have e: "\<exists>q \<in> set (map ?f rows). jr_id q = i \<and> jr_status q \<noteq> StatusPending" if "i \<in> set c" for i
  proof -
    obtain r where "r \<in> set rows" "jr_id r = i" "jr_status r \<noteq> StatusPending"
      using assms(2) \<open>i \<in> set c\<close> unfolding run_ok_def by blast
    then show ?thesis using f [of r] by (intro bexI [of _ "?f r"]) auto
  qed
  show ?thesis unfolding run_ok_def m using e assms(2) [unfolded run_ok_def] by blast
qed

lemma run_ok_upsert:
  assumes "\<And>o0 n. jr_id (mrg o0 n) = jr_id o0" "\<And>o0 n. jr_status (mrg o0 n) = jr_status o0" "run_ok rows c"
  shows "run_ok (upsert jr_id mrg new rows) c"
proof -
  have "\<exists>q \<in> set (upsert jr_id mrg new rows). jr_id q = i \<and> jr_status q \<noteq> StatusPending"
    if "\<exists>r \<in> set rows. jr_id r = i \<and> jr_status r \<noteq> StatusPending" for i
    using that by (induction rows) (auto simp: assms(1,2))
  moreover have "distinct (map jr_id (upsert jr_id mrg new rows))"
    using assms(3) upsert_distinct [of jr_id mrg rows new, OF assms(1)] unfolding run_ok_def by simp
  ultimately show ?thesis using assms(3) unfolding run_ok_def by simp
qed

lemma run_ok_unique: "run_ok rows c \<Longrightarrow> r \<in> set rows \<Longrightarrow> r' \<in> set rows \<Longrightarrow> jr_id r = jr_id r' \<Longrightarrow> r = r'"
  unfolding run_ok_def by (metis distinct_map inj_on_def)

lemma not_pending_iff:
  "(\<forall>i \<in> C. \<exists>r \<in> set rows. jr_id r = i \<and> jr_status r \<noteq> StatusPending)
    \<longleftrightarrow> C \<subseteq> fst ` {p \<in> set (map (\<lambda>r. (jr_id r, jr_status r)) rows). snd p \<noteq> StatusPending}"
  by (fastforce simp: image_iff)

text \<open>What the two tables of runs have in common: rows that were set are read back, a scan keeps the columns, and
  an upsert merges without touching the status.\<close>

locale run_queue =
  fixes T :: "'a job_run_scheme run_table"
    and ups :: "columns \<Rightarrow> time \<Rightarrow> 'a job_run_scheme \<Rightarrow> (job_tables, unit) repo"
    and row :: "columns \<Rightarrow> time \<Rightarrow> 'a job_run_scheme \<Rightarrow> 'a job_run_scheme"
    and mrg :: "time \<Rightarrow> 'a job_run_scheme \<Rightarrow> 'a job_run_scheme \<Rightarrow> 'a job_run_scheme"
  assumes rows_set [simp]: "rt_rows T (rt_set T rows t) = rows"
    and scan_keeps: "rt_scan T r = Inr r' \<Longrightarrow> job_run.truncate r' = job_run.truncate r"
    and mrg_keeps: "jr_id (mrg now old new) = jr_id old" "jr_status (mrg now old new) = jr_status old"
    and row_id: "jr_id (row C now run) = jr_id run"
    and ups_ok: "ups C now run db = (Inr (), db') \<Longrightarrow>
      rt_rows T (rdb_tables db') = upsert jr_id (mrg now) (row C now run) (rt_rows T (rdb_tables db))"
    and ups_fails: "ups C now run db = (Inl e, db') \<Longrightarrow> rdb_tables db' = rdb_tables db"
begin

lemma scan_id: "rt_scan T r = Inr r' \<Longrightarrow> jr_id r' = jr_id r"
  by (drule scan_keeps) (simp add: job_run.truncate_def job_run.ext_inject)

lemma get_ok:
  assumes "get_run T i db = (Inr v, db')"
  shows "\<exists>r. find_row (\<lambda>r. jr_id r = i) (rt_rows T (rdb_tables db)) = Some r \<and> rt_scan T r = Inr v"
proof -
  obtain db1 where "rscan (rt_scan T) (\<lambda>t. find_row (\<lambda>r. jr_id r = i) (rt_rows T t)) db = (Inr (Some v), db1)"
    using assms unfolding get_run_def by (auto elim: rfound_InrE dest: rwrap_InrE)
  from rscan_InrD [OF this] show ?thesis by (auto split: option.splits)
qed

lemma claim_fails: "claim_run T locked now db = (Inl e, db') \<Longrightarrow> rdb_tables db' = rdb_tables db"
  unfolding claim_run_def by (erule rollback_Inl)

lemma claim_ok:
  assumes "claim_run T locked now db = (Inr found, db')"
  shows "(case found of
      None \<Rightarrow> oldest_pending locked (rt_rows T (rdb_tables db)) = None \<and> rdb_tables db' = rdb_tables db
    | Some run \<Rightarrow> \<exists>r r'. oldest_pending locked (rt_rows T (rdb_tables db)) = Some r
        \<and> rt_scan T r = Inr r' \<and> run = r'\<lparr>jr_status := StatusRunning\<rparr>
        \<and> rdb_tables db' = rt_set T (map (\<lambda>q. if jr_id q = jr_id r then set_status StatusRunning None now q else q)
             (rt_rows T (rdb_tables db))) (rdb_tables db))"
proof -
  obtain db1 x where 1: "rquery (\<lambda>_. ()) db = (Inr x, db1)"
    and rest: "rbind (rwrap (''select pending '' @ rt_name T) (rscan (rt_scan T) (\<lambda>t. oldest_pending locked (rt_rows T t)))) (\<lambda>found.
      case found of
        None \<Rightarrow> rreturn (Inr None)
      | Some run \<Rightarrow>
          rbind (on_run T (''claim '' @ rt_name T) (jr_id run) (set_status StatusRunning None now)) (\<lambda>_.
          rbind (rwrap (''commit claim '' @ rt_name T) (rquery (\<lambda>_. ()))) (\<lambda>_.
          rreturn (Inr (Some (run\<lparr>jr_status := StatusRunning\<rparr>)))))) db1 = (Inr found, db')"
    using assms unfolding claim_run_def rollback_Inr by (rule rbind_wrap_InrE)
  obtain sel db2 where 2: "rscan (rt_scan T) (\<lambda>t. oldest_pending locked (rt_rows T t)) db1 = (Inr sel, db2)"
    and rest2: "(case sel of
        None \<Rightarrow> rreturn (Inr None)
      | Some run \<Rightarrow>
          rbind (on_run T (''claim '' @ rt_name T) (jr_id run) (set_status StatusRunning None now)) (\<lambda>_.
          rbind (rwrap (''commit claim '' @ rt_name T) (rquery (\<lambda>_. ()))) (\<lambda>_.
          rreturn (Inr (Some (run\<lparr>jr_status := StatusRunning\<rparr>)))))) db2 = (Inr found, db')"
    using rest by (rule rbind_wrap_InrE)
  have t: "rdb_tables db1 = rdb_tables db" "rdb_tables db2 = rdb_tables db"
    using rquery_InrD [OF 1] rscan_InrD [OF 2] by simp_all
  show ?thesis
  proof (cases sel)
    case None
    then show ?thesis using rest2 rscan_InrD [OF 2] t by (auto simp: rreturn_def split: option.splits)
  next
    case (Some run)
    obtain r where r: "oldest_pending locked (rt_rows T (rdb_tables db)) = Some r" "rt_scan T r = Inr run"
      using rscan_InrD [OF 2] t Some by (auto split: option.splits)
    obtain n db3 where 3: "on_run T (''claim '' @ rt_name T) (jr_id run) (set_status StatusRunning None now) db2 = (Inr n, db3)"
      and rest3: "rbind (rwrap (''commit claim '' @ rt_name T) (rquery (\<lambda>_. ()))) (\<lambda>_.
          rreturn (Inr (Some (run\<lparr>jr_status := StatusRunning\<rparr>)))) db3 = (Inr found, db')"
      using rest2 unfolding Some option.case by (rule rbind_InrE)
    obtain x4 db4 where 4: "rquery (\<lambda>_. ()) db3 = (Inr x4, db4)"
      and rest4: "rreturn (Inr (Some (run\<lparr>jr_status := StatusRunning\<rparr>))) db4 = (Inr found, db')"
      using rest3 by (rule rbind_wrap_InrE)
    have "found = Some (run\<lparr>jr_status := StatusRunning\<rparr>)" "rdb_tables db' = rdb_tables db3"
      using rest4 rquery_InrD [OF 4] by (auto simp: rreturn_def)
    then show ?thesis using on_run_InrD [OF 3] r t scan_id [OF r(2)] by auto
  qed
qed

lemma moved_rows:
  assumes "update_run_status T now runID status msg db = (r, db')"
  shows "rt_rows T (rdb_tables db') = rt_rows T (rdb_tables db)
    \<or> rt_rows T (rdb_tables db') = map (\<lambda>q. if jr_id q = runID then set_status status msg now q else q) (rt_rows T (rdb_tables db))"
proof -
  obtain v db1 where o0: "on_run T (''update '' @ rt_name T @ '' status'') runID (set_status status msg now) db = (v, db1)"
    by fastforce
  have "db' = db1" using assms o0
    by (cases v) (auto simp: update_run_status_def must_affect_def rbind_def rreturn_def)
  show ?thesis
  proof (cases v)
    case (Inl e)
    then show ?thesis using on_run_InlD [OF o0 [unfolded Inl]] \<open>db' = db1\<close> by simp
  next
    case (Inr n)
    then show ?thesis using on_run_InrD [OF o0 [unfolded Inr]] \<open>db' = db1\<close> by simp
  qed
qed

lemma claim_new:
  assumes "claim_run T locked now db = (Inr (Some run), db')" "run_inv T (db, c)"
  shows "jr_id run \<notin> set c \<and> run_inv T (db', c @ [jr_id run])"
proof -
  let ?rows = "rt_rows T (rdb_tables db)"
  obtain r r' where r: "oldest_pending locked ?rows = Some r" "rt_scan T r = Inr r'" "run = r'\<lparr>jr_status := StatusRunning\<rparr>"
    and t: "rt_rows T (rdb_tables db') = map (\<lambda>q. if jr_id q = jr_id r then set_status StatusRunning None now q else q) ?rows"
    using claim_ok [OF assms(1)] by auto
  have i: "jr_id run = jr_id r" using r(3) scan_id [OF r(2)] by simp
  have inv: "run_ok ?rows c" using assms(2) by simp
  note r0 = oldest_pending_Some [OF r(1)]
  have new: "jr_id r \<notin> set c"
  proof
    assume "jr_id r \<in> set c"
    then obtain q where q: "q \<in> set ?rows" "jr_id q = jr_id r" "jr_status q \<noteq> StatusPending"
      using inv unfolding run_ok_def by blast
    then show False using run_ok_unique [OF inv q(1) conjunct1 [OF r0]] r0 by simp
  qed
  have np: "StatusRunning \<noteq> StatusPending" by (simp add: StatusRunning_def StatusPending_def)
  have "run_ok (rt_rows T (rdb_tables db')) c" unfolding t by (rule run_ok_moved [OF np inv])
  moreover have "set_status StatusRunning None now r \<in> set (rt_rows T (rdb_tables db'))"
    using r0 unfolding t by auto
  ultimately have "run_ok (rt_rows T (rdb_tables db')) (c @ [jr_id r])"
    using new np unfolding run_ok_def by (auto intro: bexI [of _ "set_status StatusRunning None now r"])
  then show ?thesis using new i by simp
qed

lemma received_inv:
  assumes "ups C now run db = (r, db')" "run_inv T (db, c)"
  shows "run_inv T (db', c)"
proof (cases r)
  case (Inl e)
  then show ?thesis using assms ups_fails [of C now run db e db'] by simp
next
  case (Inr u)
  then have "rt_rows T (rdb_tables db') = upsert jr_id (mrg now) (row C now run) (rt_rows T (rdb_tables db))"
    using assms(1) by (intro ups_ok) simp
  then show ?thesis using assms(2) run_ok_upsert [of "mrg now", OF mrg_keeps] by simp
qed

lemma step_keeps: "run_step T ups st st' \<Longrightarrow> run_inv T st \<Longrightarrow> run_inv T st'"
proof (induction rule: run_step.induct)
  case (claimed locked now db run db' c)
  then show ?case using claim_new by blast
next
  case (unclaimed locked now db r db' c)
  then have "rdb_tables db' = rdb_tables db"
    using claim_fails claim_ok by (cases r) (fastforce split: option.splits)+
  then show ?case using unclaimed.prems by simp
next
  case (moved now runID status msg db r db' c)
  then show ?case using moved_rows [OF moved(1)] run_ok_moved [OF moved(2), of "rt_rows T (rdb_tables db)" c runID msg now]
    by auto
next
  case (received C now run db r db' c)
  then show ?case using received_inv by blast
next
  case (other db' db c)
  have "map jr_id (rt_rows T (rdb_tables db')) = map jr_id (rt_rows T (rdb_tables db))"
    using arg_cong [OF other(1), of "map fst"] by (simp add: comp_def)
  then show ?case using other unfolding run_inv_iff run_ok_def not_pending_iff by simp
qed

lemma steps_keep: "(run_step T ups)\<^sup>*\<^sup>* st st' \<Longrightarrow> run_inv T st \<Longrightarrow> run_inv T st'"
  by (induction rule: rtranclp_induct) (auto intro: step_keeps)

end

lemma upsert_run_ok:
  assumes "rwrap msg (rexec (\<lambda>t. Inr ((), f t))) db = (Inr u, db')"
  shows "rdb_tables db' = f (rdb_tables db)"
  using rexec_InrD [OF rwrap_InrE [OF assms]] by simp

interpretation rq: run_queue replay_runs UpsertReplayRun replay_run_row merge_replay_run
proof
  fix r r' assume "rt_scan replay_runs r = Inr r'"
  then show "job_run.truncate r' = job_run.truncate r"
    by (auto simp: replay_runs_def parseReplayRunMetadata_def job_run.truncate_def split: option.splits)
next
  fix C now run db db' assume "UpsertReplayRun C now run db = (Inr (), db')"
  then show "rt_rows replay_runs (rdb_tables db') = upsert jr_id (merge_replay_run now) (replay_run_row C now run) (rt_rows replay_runs (rdb_tables db))"
    unfolding UpsertReplayRun_def by (simp add: upsert_run_ok replay_runs_def)
next
  fix C now run db e db' assume "UpsertReplayRun C now run db = (Inl e, db')"
  then show "rdb_tables db' = rdb_tables db" unfolding UpsertReplayRun_def by (elim rwrap_InlE) (erule rexec_InlD)
qed (simp_all add: replay_runs_def merge_replay_run_def replay_run_row_def)

interpretation er: run_queue eval_runs UpsertEvalRun eval_run_row merge_eval_run
proof
  fix r r' assume "rt_scan eval_runs r = Inr r'"
  then show "job_run.truncate r' = job_run.truncate r"
    by (auto simp: eval_runs_def scan_eval_run_def ParseJSONFields_def job_run.truncate_def split: if_splits)
next
  fix C now run db db' assume "UpsertEvalRun C now run db = (Inr (), db')"
  from rexec_InrD [OF rwrap_InrE [OF this [unfolded UpsertEvalRun_def]]]
  show "rt_rows eval_runs (rdb_tables db') = upsert jr_id (merge_eval_run now) (eval_run_row C now run) (rt_rows eval_runs (rdb_tables db))"
    by (auto simp: eval_runs_def split: if_splits dest: sym)
next
  fix C now run db e db' assume "UpsertEvalRun C now run db = (Inl e, db')"
  then show "rdb_tables db' = rdb_tables db" unfolding UpsertEvalRun_def by (elim rwrap_InlE) (erule rexec_InlD)
qed (simp_all add: eval_runs_def merge_eval_run_def eval_run_row_def)

section \<open>Properties\<close>


text \<open>An evaluation run that was received cannot be read. Its summary is NULL, which does not scan into the
  field of the struct, so that reading it fails, no claim ever returns it although it is pending, and the
  statuses of all other evaluation runs on its page are not reported either, until a summary is written.\<close>

theorem fresh_eval_run:
  assumes "UpsertEvalRun C now run db = (Inr (), db1)" "distinct (map jr_id (jt_eval_runs (rdb_tables db)))"
    "jr_id run \<notin> jr_id ` set (jt_eval_runs (rdb_tables db))"
  shows "\<exists>r \<in> set (jt_eval_runs (rdb_tables db1)). jr_id r = jr_id run \<and> jr_status r = jr_status run
    \<and> is_Inl (fst (GetEvalRun (jr_id run) db1))
    \<and> (\<forall>locked later found db2. ClaimPendingEvalRun locked later db1 = (Inr (Some found), db2) \<longrightarrow> jr_id found \<noteq> jr_id run)
    \<and> (\<forall>n. r \<in> set (take (nat n) (unsynced_runs (jt_eval_runs (rdb_tables db1)))) \<longrightarrow> is_Inl (fst (FetchUnsyncedEvalRuns n db1)))"
proof -
  let ?rows = "jt_eval_runs (rdb_tables db1)" and ?r = "eval_run_row C now run"
  have rows: "rt_rows eval_runs = jt_eval_runs" by (simp add: eval_runs_def)
  have t: "?rows = upsert jr_id (merge_eval_run now) ?r (jt_eval_runs (rdb_tables db))"
    using er.ups_ok [OF assms(1)] by (simp add: rows)
  have d: "distinct (map jr_id ?rows)"
    unfolding t by (rule upsert_distinct [OF _ assms(2)]) (simp add: merge_eval_run_def)
  have "find (\<lambda>r. jr_id r = jr_id ?r) (jt_eval_runs (rdb_tables db)) = None"
    using assms(3) by (auto simp: find_None_iff eval_run_row_def intro: rev_image_eqI)
  then have find: "find (\<lambda>r. jr_id r = jr_id ?r) ?rows = Some ?r"
    unfolding t by (subst upsert_find_same) (simp_all add: merge_eval_run_def)
  have r: "?r \<in> set ?rows" "jr_id ?r = jr_id run" "jr_status ?r = jr_status run"
    using find_row_Some [OF find [folded find_row_def]] by (simp_all add: eval_run_row_def)
  have scan: "is_Inl (scan_eval_run ?r)" by (simp add: scan_eval_run_def eval_run_row_def)
  have get: "is_Inl (fst (GetEvalRun (jr_id run) db1))"
  proof (rule ccontr)
    assume "\<not> is_Inl (fst (GetEvalRun (jr_id run) db1))"
    then obtain v db2 where "GetEvalRun (jr_id run) db1 = (Inr v, db2)"
      by (cases "GetEvalRun (jr_id run) db1") (auto simp: is_Inl_def split: sum.splits)
    then show False
      using er.get_ok [of "jr_id run" db1 v db2] find scan r(2)
      by (auto simp: GetEvalRun_def rows find_row_def eval_runs_def)
  qed
  have claim: "jr_id found \<noteq> jr_id run" if cl: "ClaimPendingEvalRun locked later db1 = (Inr (Some found), db2)" for locked later found db2
  proof
    assume same: "jr_id found = jr_id run"
    obtain q q' where q: "oldest_pending locked ?rows = Some q" "rt_scan eval_runs q = Inr q'" "found = q'\<lparr>jr_status := StatusRunning\<rparr>"
      using er.claim_ok [OF cl [unfolded ClaimPendingEvalRun_def]] by (auto simp: rows)
    have "jr_id q = jr_id ?r" using same q(3) er.scan_id [OF q(2)] r(2) by simp
    moreover have "run_ok ?rows []" using d by (simp add: run_ok_def)
    ultimately have "q = ?r" using run_ok_unique [of ?rows "[]"] r(1) oldest_pending_Some [OF q(1)] by blast
    then show False using q(2) scan by (simp add: eval_runs_def)
  qed
  have scan_all: "is_Inl (scan_all scan_eval_run rs)" if "?r \<in> set rs" for rs
    using that scan by (induction rs) (auto split: sum.split)
  have page: "is_Inl (fst (FetchUnsyncedEvalRuns n db1))" if "?r \<in> set (take (nat n) (unsynced_runs ?rows))" for n
  proof (rule ccontr)
    assume "\<not> is_Inl (fst (FetchUnsyncedEvalRuns n db1))"
    then obtain v db2 where "FetchUnsyncedEvalRuns n db1 = (Inr v, db2)"
      by (cases "FetchUnsyncedEvalRuns n db1") (auto simp: is_Inl_def split: sum.splits)
    from rexec_InrD [OF rwrap_InrE [OF this [unfolded FetchUnsyncedEvalRuns_def fetch_unsynced_runs_def rselect_def]]]
    show False using scan_all [OF that] by (auto simp: eval_runs_def split: if_splits sum.splits)
  qed
  show ?thesis using r get claim page by (intro bexI [of _ ?r]) blast+
qed

text \<open>Two pending replays, of which the older is claimed, and a fresh evaluation run.\<close>

definition sample_run :: "uuid \<Rightarrow> time \<Rightarrow> job_run" where
  "sample_run i created = \<lparr>jr_id = i, jr_user_id = 9, jr_org_id = Some 7, jr_status = StatusPending, jr_error_message = None,
     jr_original_total_cost = None, jr_replay_total_cost = None, jr_original_avg_latency_ms = None,
     jr_replay_avg_latency_ms = None, jr_started_at = None, jr_completed_at = None, jr_created_at = created,
     jr_updated_at = created, jr_synced_at = None\<rparr>"

definition sample_replay :: "uuid \<Rightarrow> time \<Rightarrow> ReplayRun" where
  "sample_replay i created = job_run.extend (sample_run i created) (ReplayRun.fields None None None None None None 50
     ''openai'' ''gpt-4o'' False None None None None None None [])"

definition sample_eval :: "uuid \<Rightarrow> time \<Rightarrow> EvalRun" where
  "sample_eval i created = job_run.extend (sample_run i created) (EvalRun.fields 3 ''openai'' ''gpt-4o'' ''[]'' None
     None None None None [] [])"

definition sample_jobs :: "ReplayRun list \<Rightarrow> job_tables" where
  "sample_jobs runs = \<lparr>jt_requests = [11, 12], jt_replay_runs = runs, jt_replay_results = [],
     jt_eval_sets = [\<lparr>et_id = 3, et_user_id = 9, et_org_id = None, et_name = ''s'', et_description = None, et_item_count = 0,
        et_created_at = 1, et_updated_at = 1\<rparr>],
     jt_eval_items = [], jt_eval_runs = [], jt_eval_results = [], jt_eval_scores = []\<rparr>"

definition sample_columns :: columns where
  "sample_columns = \<lparr>col_cost = (\<lambda>x. x), col_score = (\<lambda>x. x), col_jsonb = (\<lambda>s. s), col_ids = Inr\<rparr>"

definition no_faults :: "'t \<Rightarrow> 't repo_db" where
  "no_faults t = \<lparr>rdb_tables = t, rdb_faults = []\<rparr>"

lemma no_faults_run:
  "rquery f (no_faults t) = (Inr (f t), no_faults t)"
  "rexec g (no_faults t) = (case g t of Inl e \<Rightarrow> (Inl e, no_faults t) | Inr (v, t') \<Rightarrow> (Inr v, no_faults t'))"
  "rdb_tables (no_faults t) = t"
  by (simp_all add: no_faults_def rquery_def rexec_def next_fault_def split: sum.split)

lemma sample_claim:
  "\<exists>db run. ClaimPendingReplayRun (\<lambda>i. False) 8 (no_faults (sample_jobs [sample_replay 1 5, sample_replay 2 4])) = (Inr (Some run), db)
     \<and> jr_id run = 2"
  by (simp add: ClaimPendingReplayRun_def claim_run_def rbind_def rwrap_def rscan_def rreturn_def rollback_def on_run_def
      no_faults_run oldest_pending_def replay_runs_def sample_jobs_def sample_replay_def sample_run_def job_run.defs
      ReplayRun.defs parseReplayRunMetadata_def update_where_def)


lemma fresh_eval_run_witness:
  "\<exists>db1. UpsertEvalRun sample_columns 6 (sample_eval 4 5) (no_faults (sample_jobs [])) = (Inr (), db1)
     \<and> is_Inl (fst (GetEvalRun 4 db1)) \<and> (\<forall>found db2. ClaimPendingEvalRun (\<lambda>i. False) 7 db1 = (Inr (Some found), db2) \<longrightarrow> jr_id found \<noteq> 4)"
proof -
  obtain db1 where 1: "UpsertEvalRun sample_columns 6 (sample_eval 4 5) (no_faults (sample_jobs [])) = (Inr (), db1)"
    by (simp add: UpsertEvalRun_def rwrap_def no_faults_run sample_jobs_def sample_eval_def sample_run_def job_run.defs EvalRun.defs)
  from fresh_eval_run [OF this] show ?thesis
    using 1 by (simp add: no_faults_run sample_jobs_def sample_eval_def sample_run_def job_run.defs EvalRun.defs) blast
qed

end
