(* ===== verification/Job_Exec.thy ===== *)
theory Job_Exec
  imports Job_Runs
begin

text \<open>
  How a job of Butler gets into the tables: the clients that fetch the description of a run
  (stewardclient/replaysync.go, stewardclient/evalsync.go) and the executor that stores it
  (steward/steward.go). Butler is a parameter, as in Key_Sync; the texts of identifiers come from the uuid
  package. The instant now is read once for a job.
\<close>

section \<open>Fetching a run\<close>

text \<open>The answer of a GET, for which 404 is no run.\<close>

definition butler_fetch :: "string \<Rightarrow> string \<Rightarrow> 'a butler_answer \<Rightarrow> err + 'a option" where
  "butler_fetch get_msg decode_msg resp = (case resp of
     NoRequest e \<Rightarrow> Inl (ErrWrap ''build request'' e)
   | NoResponse e \<Rightarrow> Inl (ErrWrap get_msg e)
   | Answer status body \<Rightarrow>
       if status = 404 then Inr None
       else if status \<noteq> 200 then Inl (ErrMsg (''butler returned '' @ itoa status))
       else (case body of Inl e \<Rightarrow> Inl (ErrWrap decode_msg e) | Inr v \<Rightarrow> Inr (Some v)))"

record replayRunPayload =
  rrp_id :: uuid
  rrp_user_id :: uuid
  rrp_org_id :: "uuid option"
  rrp_status :: string
  rrp_error_message :: "string option"
  rrp_source_api_key_id :: "uuid option"
  rrp_source_provider :: "string option"
  rrp_source_model :: "string option"
  rrp_source_start :: "time option"
  rrp_source_end :: "time option"
  rrp_source_metadata :: "string option"
  rrp_source_limit :: int
  rrp_target_provider :: string
  rrp_target_model :: string
  rrp_judge_enabled :: bool
  rrp_judge_provider :: "string option"
  rrp_judge_model :: "string option"
  rrp_created_at :: time

definition payloadToReplayRun :: "replayRunPayload \<Rightarrow> ReplayRun" where
  "payloadToReplayRun p = \<lparr>jr_id = rrp_id p, jr_user_id = rrp_user_id p, jr_org_id = rrp_org_id p,
     jr_status = rrp_status p, jr_error_message = rrp_error_message p,
     jr_original_total_cost = None, jr_replay_total_cost = None, jr_original_avg_latency_ms = None,
     jr_replay_avg_latency_ms = None, jr_started_at = None, jr_completed_at = None,
     jr_created_at = rrp_created_at p, jr_updated_at = zero_time, jr_synced_at = None,
     rr_source_api_key_id = rrp_source_api_key_id p, rr_source_provider = rrp_source_provider p,
     rr_source_model = rrp_source_model p, rr_source_start = rrp_source_start p, rr_source_end = rrp_source_end p,
     rr_source_metadata = rrp_source_metadata p, rr_source_limit = rrp_source_limit p,
     rr_target_provider = rrp_target_provider p, rr_target_model = rrp_target_model p,
     rr_judge_enabled = rrp_judge_enabled p, rr_judge_provider = rrp_judge_provider p,
     rr_judge_model = rrp_judge_model p, rr_total_requests = None, rr_exact_matches = None,
     rr_judge_equivalent = None, rr_divergent = None, rr_source_metadata_parsed = []\<rparr>"

type_synonym 'a fetcher = "string \<Rightarrow> string \<Rightarrow> 'a butler_answer"

definition FetchReplayRun :: "StewardConfig \<Rightarrow> (uuid \<Rightarrow> string) \<Rightarrow> replayRunPayload fetcher \<Rightarrow> uuid \<Rightarrow> err + ReplayRun option" where
  "FetchReplayRun cfg fmt butler runID = (case butler_fetch ''fetch replay run'' ''decode replay run''
        (butler (sc_butler_base_url cfg @ ''/api/v1/steward/replay-runs/'' @ fmt runID) (bearer cfg)) of
     Inl e \<Rightarrow> Inl e | Inr found \<Rightarrow> Inr (map_option payloadToReplayRun found))"

record evalRunSpec =
  ers_id :: uuid
  ers_user_id :: uuid
  ers_org_id :: "uuid option"
  ers_eval_set_id :: uuid
  ers_status :: string
  ers_error_message :: "string option"
  ers_target_provider :: string
  ers_target_model :: string
  ers_evaluators :: string
  ers_created_at :: time

record evalSetSpec =
  ess_id :: uuid
  ess_user_id :: uuid
  ess_org_id :: "uuid option"
  ess_name :: string
  ess_description :: "string option"
  ess_created_at :: time

record evalSetItemSpec =
  eis_id :: uuid
  eis_eval_set_id :: uuid
  eis_request_id :: uuid
  eis_created_at :: time

record evalRunPayload =
  erp_run :: evalRunSpec
  erp_set :: evalSetSpec
  erp_items :: "evalSetItemSpec list"

record EvalRunBundle =
  eb_run :: EvalRun
  eb_set :: EvalSet
  eb_items :: "EvalSetItem list"

definition payloadToBundle :: "evalRunPayload \<Rightarrow> EvalRunBundle" where
  "payloadToBundle p = (let r = erp_run p; s = erp_set p in
     \<lparr>eb_run = \<lparr>jr_id = ers_id r, jr_user_id = ers_user_id r, jr_org_id = ers_org_id r, jr_status = ers_status r,
        jr_error_message = ers_error_message r, jr_original_total_cost = None, jr_replay_total_cost = None,
        jr_original_avg_latency_ms = None, jr_replay_avg_latency_ms = None, jr_started_at = None,
        jr_completed_at = None, jr_created_at = ers_created_at r, jr_updated_at = zero_time, jr_synced_at = None,
        ev_eval_set_id = ers_eval_set_id r, ev_target_provider = ers_target_provider r,
        ev_target_model = ers_target_model r, ev_evaluators = ers_evaluators r, ev_evaluator_summary = None,
        ev_total_requests = None, ev_successful_requests = None, ev_failed_requests = None,
        ev_judge_total_cost = None, ev_evaluators_parsed = [], ev_evaluator_summary_parsed = []\<rparr>,
      eb_set = \<lparr>et_id = ess_id s, et_user_id = ess_user_id s, et_org_id = ess_org_id s, et_name = ess_name s,
        et_description = ess_description s, et_item_count = 0, et_created_at = ess_created_at s,
        et_updated_at = zero_time\<rparr>,
      eb_items = map (\<lambda>it. \<lparr>ei_id = eis_id it, ei_eval_set_id = eis_eval_set_id it, ei_request_id = eis_request_id it,
        ei_created_at = eis_created_at it\<rparr>) (erp_items p)\<rparr>)"

definition FetchEvalRun :: "StewardConfig \<Rightarrow> (uuid \<Rightarrow> string) \<Rightarrow> evalRunPayload fetcher \<Rightarrow> uuid \<Rightarrow> err + EvalRunBundle option" where
  "FetchEvalRun cfg fmt butler runID = (case butler_fetch ''fetch eval run'' ''decode eval run''
        (butler (sc_butler_base_url cfg @ ''/api/v1/steward/eval-runs/'' @ fmt runID) (bearer cfg)) of
     Inl e \<Rightarrow> Inl e | Inr found \<Rightarrow> Inr (map_option payloadToBundle found))"

section \<open>The executor\<close>

definition ExecuteReplay :: "StewardConfig \<Rightarrow> (uuid \<Rightarrow> string) \<Rightarrow> replayRunPayload fetcher \<Rightarrow> columns \<Rightarrow> time \<Rightarrow> uuid
    \<Rightarrow> (job_tables, unit) repo" where
  "ExecuteReplay cfg fmt butler C now runID = (case FetchReplayRun cfg fmt butler runID of
     Inl e \<Rightarrow> rreturn (Inl (ErrWrap (''fetch replay run '' @ fmt runID) e))
   | Inr None \<Rightarrow> rreturn (Inl (ErrMsg (''replay run '' @ fmt runID @ '' not found on butler'')))
   | Inr (Some run) \<Rightarrow> rwrap (''upsert replay run '' @ fmt runID) (UpsertReplayRun C now run))"

text \<open>The set, its items in order, and the run at the end.\<close>

definition ExecuteEval :: "StewardConfig \<Rightarrow> (uuid \<Rightarrow> string) \<Rightarrow> evalRunPayload fetcher \<Rightarrow> columns \<Rightarrow> time \<Rightarrow> uuid
    \<Rightarrow> (job_tables, unit) repo" where
  "ExecuteEval cfg fmt butler C now runID = (case FetchEvalRun cfg fmt butler runID of
     Inl e \<Rightarrow> rreturn (Inl (ErrWrap (''fetch eval run '' @ fmt runID) e))
   | Inr None \<Rightarrow> rreturn (Inl (ErrMsg (''eval run '' @ fmt runID @ '' not found on butler'')))
   | Inr (Some bundle) \<Rightarrow>
       rbind (rwrap (''upsert eval set '' @ fmt (et_id (eb_set bundle))) (UpsertEvalSet now (eb_set bundle))) (\<lambda>_.
       rbind (rall (\<lambda>item. rwrap (''upsert eval set item '' @ fmt (ei_id item)) (UpsertEvalSetItem now item)) (eb_items bundle)) (\<lambda>_.
       rwrap (''upsert eval run '' @ fmt runID) (UpsertEvalRun C now (eb_run bundle)))))"

section \<open>Facts\<close>

text \<open>What Butler decides of a replay, which is taken over whenever the run is sent again.\<close>

definition replay_spec :: "ReplayRun \<Rightarrow> (uuid option \<times> string option \<times> string option \<times> time option \<times> time option \<times> int)
    \<times> (string \<times> string) \<times> (bool \<times> string option \<times> string option)" where
  "replay_spec r = ((rr_source_api_key_id r, rr_source_provider r, rr_source_model r, rr_source_start r, rr_source_end r,
       rr_source_limit r), (rr_target_provider r, rr_target_model r),
     (rr_judge_enabled r, rr_judge_provider r, rr_judge_model r))"

lemma replay_spec_stored:
  "replay_spec (replay_run_row C now run) = replay_spec run"
  "replay_spec (merge_replay_run now old new) = replay_spec new"
  by (simp_all add: replay_spec_def replay_run_row_def merge_replay_run_def)

lemma butler_fetch_Some:
  "butler_fetch g d resp = Inr (Some v) \<longleftrightarrow> resp = Answer 200 (Inr v)"
  by (auto simp: butler_fetch_def split: butler_answer.splits if_splits sum.splits)

lemma FetchReplayRun_Some:
  "FetchReplayRun cfg fmt butler runID = Inr (Some run) \<longleftrightarrow>
    (\<exists>p. butler (sc_butler_base_url cfg @ ''/api/v1/steward/replay-runs/'' @ fmt runID) (bearer cfg) = Answer 200 (Inr p)
      \<and> run = payloadToReplayRun p)"
  unfolding FetchReplayRun_def butler_fetch_Some [of "''fetch replay run''" "''decode replay run''", symmetric]
  by (auto split: sum.splits)

lemma FetchEvalRun_Some:
  "FetchEvalRun cfg fmt butler runID = Inr (Some b) \<longleftrightarrow>
    (\<exists>p. butler (sc_butler_base_url cfg @ ''/api/v1/steward/eval-runs/'' @ fmt runID) (bearer cfg) = Answer 200 (Inr p)
      \<and> b = payloadToBundle p)"
  unfolding FetchEvalRun_def butler_fetch_Some [of "''fetch eval run''" "''decode eval run''", symmetric]
  by (auto split: sum.splits)

lemma UpsertEvalSetItem_run:
  assumes "UpsertEvalSetItem now item db = (r, db')"
  shows "(\<exists>items. rdb_tables db' = (rdb_tables db)\<lparr>jt_eval_items := items\<rparr> \<and> set (jt_eval_items (rdb_tables db)) \<subseteq> set items
      \<and> (r = Inr () \<longrightarrow> (\<exists>i \<in> set items. ei_eval_set_id i = ei_eval_set_id item \<and> ei_request_id i = ei_request_id item)))"
proof (cases r)
  case (Inl e)
  then have "UpsertEvalSetItem now item db = (Inl e, db')" using assms by simp
  then have "rdb_tables db' = rdb_tables db"
    unfolding UpsertEvalSetItem_def by (elim rwrap_InlE) (auto dest: rexec_InlD)
  then show ?thesis using Inl by (intro exI [of _ "jt_eval_items (rdb_tables db)"]) simp
next
  case (Inr u)
  have "UpsertEvalSetItem now item db = (Inr u, db')" using assms Inr by simp
  note 1 = rexec_InrD [OF rwrap_InrE [OF this [unfolded UpsertEvalSetItem_def]]]
  show ?thesis
  proof (cases "list_ex (\<lambda>i. ei_eval_set_id i = ei_eval_set_id item \<and> ei_request_id i = ei_request_id item) (jt_eval_items (rdb_tables db))")
    case True
    then show ?thesis using 1
      by (intro exI [of _ "jt_eval_items (rdb_tables db)"]) (auto simp: list_ex_iff)
  next
    case False
    then show ?thesis using 1
      by (intro exI [of _ "jt_eval_items (rdb_tables db) @ [item\<lparr>ei_created_at := time_or now (ei_created_at item)\<rparr>]"])
        (auto split: if_splits dest: sym)
  qed
qed

text \<open>The items are stored one after the other; each of them stays.\<close>

definition has_item :: "EvalSetItem list \<Rightarrow> EvalSetItem \<Rightarrow> bool" where
  "has_item items item = (\<exists>i \<in> set items. ei_eval_set_id i = ei_eval_set_id item \<and> ei_request_id i = ei_request_id item)"

lemma items_run:
  assumes "rall (\<lambda>item. rwrap (msg item) (UpsertEvalSetItem now item)) items db = (r, db')"
  shows "\<exists>its. rdb_tables db' = (rdb_tables db)\<lparr>jt_eval_items := its\<rparr> \<and> set (jt_eval_items (rdb_tables db)) \<subseteq> set its
    \<and> (r = Inr () \<longrightarrow> (\<forall>item \<in> set items. has_item its item))"
  using assms
proof (induction items arbitrary: db)
  case Nil
  then show ?case by (intro exI [of _ "jt_eval_items (rdb_tables db)"]) (simp add: rreturn_def)
next
  case (Cons item items)
  obtain r1 db1 where u: "UpsertEvalSetItem now item db = (r1, db1)" by fastforce
  obtain its where its: "rdb_tables db1 = (rdb_tables db)\<lparr>jt_eval_items := its\<rparr>" "set (jt_eval_items (rdb_tables db)) \<subseteq> set its"
    "r1 = Inr () \<Longrightarrow> has_item its item"
    using UpsertEvalSetItem_run [OF u] unfolding has_item_def by blast
  show ?case
  proof (cases r1)
    case (Inl e)
    then show ?thesis using Cons.prems u its by (auto simp: rbind_def rwrap_def)
  next
    case (Inr v)
    then have "rwrap (msg item) (UpsertEvalSetItem now item) db = (Inr v, db1)" using u by (simp add: rwrap_def)
    then have "rall (\<lambda>item. rwrap (msg item) (UpsertEvalSetItem now item)) items db1 = (r, db')"
      using Cons.prems unfolding rall.simps rbind_def by simp
    from Cons.IH [OF this] its Inr show ?thesis by (fastforce simp: has_item_def)
  qed
qed

section \<open>Properties\<close>

lemma ExecuteReplay_error:
  assumes "ExecuteReplay cfg fmt butler C now runID db = (Inl e, db')"
  shows "rdb_tables db' = rdb_tables db"
proof (cases "FetchReplayRun cfg fmt butler runID")
  case f: (Inr found)
  show ?thesis
  proof (cases found)
    case (Some run)
    obtain r1 db1 where "UpsertReplayRun C now run db = (r1, db1)" by fastforce
    then show ?thesis using assms f Some rq.ups_fails [of C now run db _ db1]
      by (auto simp: ExecuteReplay_def rwrap_def split: sum.splits)
  qed (use assms f in \<open>auto simp: ExecuteReplay_def rreturn_def\<close>)
qed (use assms in \<open>auto simp: ExecuteReplay_def rreturn_def\<close>)

text \<open>The row that a payload leaves, beside the other rows as they were.\<close>

lemma UpsertReplayRun_row:
  assumes "UpsertReplayRun C now (payloadToReplayRun p) db = (Inr (), db')"
  shows "\<exists>row. find_row (\<lambda>q. jr_id q = rrp_id p) (jt_replay_runs (rdb_tables db')) = Some row
    \<and> replay_spec row = replay_spec (payloadToReplayRun p)
    \<and> job_run.truncate row = (case find_row (\<lambda>q. jr_id q = rrp_id p) (jt_replay_runs (rdb_tables db)) of
         Some old \<Rightarrow> (job_run.truncate old)\<lparr>jr_updated_at := now\<rparr>
       | None \<Rightarrow> (job_run.truncate (payloadToReplayRun p))\<lparr>jr_error_message := None,
                   jr_created_at := time_or now (rrp_created_at p), jr_updated_at := now\<rparr>)
    \<and> (\<forall>i. i \<noteq> rrp_id p \<longrightarrow> find_row (\<lambda>q. jr_id q = i) (jt_replay_runs (rdb_tables db'))
            = find_row (\<lambda>q. jr_id q = i) (jt_replay_runs (rdb_tables db)))"
proof -
  let ?new = "replay_run_row C now (payloadToReplayRun p)"
  from rq.ups_ok [OF assms] have t: "jt_replay_runs (rdb_tables db') = upsert jr_id (merge_replay_run now) ?new (jt_replay_runs (rdb_tables db))"
    by (simp add: replay_runs_def)
  have id: "jr_id ?new = rrp_id p" by (simp add: replay_run_row_def payloadToReplayRun_def)
  have keep: "jr_id (merge_replay_run now old new) = jr_id old" for old new by (simp add: merge_replay_run_def)
  note row = upsert_find_same [of jr_id "merge_replay_run now" ?new "jt_replay_runs (rdb_tables db)", unfolded id, OF keep, folded find_row_def]
  have other: "i \<noteq> rrp_id p \<Longrightarrow> find_row (\<lambda>q. jr_id q = i) (jt_replay_runs (rdb_tables db'))
      = find_row (\<lambda>q. jr_id q = i) (jt_replay_runs (rdb_tables db))" for i
    unfolding t find_row_def by (rule upsert_find_other) (simp_all add: keep id)
  define row' where "row' = (case find_row (\<lambda>q. jr_id q = rrp_id p) (jt_replay_runs (rdb_tables db)) of
      None \<Rightarrow> ?new | Some old \<Rightarrow> merge_replay_run now old ?new)"
  have "find_row (\<lambda>q. jr_id q = rrp_id p) (jt_replay_runs (rdb_tables db')) = Some row'" using row unfolding t row'_def .
  moreover have "replay_spec row' = replay_spec (payloadToReplayRun p)" by (simp add: row'_def replay_spec_stored split: option.split)
  moreover have "job_run.truncate row' = (case find_row (\<lambda>q. jr_id q = rrp_id p) (jt_replay_runs (rdb_tables db)) of
       Some old \<Rightarrow> (job_run.truncate old)\<lparr>jr_updated_at := now\<rparr>
     | None \<Rightarrow> (job_run.truncate (payloadToReplayRun p))\<lparr>jr_error_message := None,
                 jr_created_at := time_or now (rrp_created_at p), jr_updated_at := now\<rparr>)"
    by (simp add: row'_def replay_run_row_def merge_replay_run_def payloadToReplayRun_def job_run.truncate_def split: option.split)
  ultimately show ?thesis using other by blast
qed


text \<open>An evaluation is queued with all its items. When the executor reports success, Butler had described the
  run, its set stands in the table under its name with every one of its items, and the run with its target; when
  it reports a failure, whatever of the set was stored by then, no run was queued or changed.\<close>

theorem eval_job_complete:
  assumes "ExecuteEval cfg fmt butler C now runID db = (r, db')"
  shows "case r of
      Inl e \<Rightarrow> jt_eval_runs (rdb_tables db') = jt_eval_runs (rdb_tables db)
    | Inr _ \<Rightarrow> \<exists>p s run. butler (sc_butler_base_url cfg @ ''/api/v1/steward/eval-runs/'' @ fmt runID) (bearer cfg) = Answer 200 (Inr p)
        \<and> find_row (\<lambda>s. et_id s = ess_id (erp_set p)) (jt_eval_sets (rdb_tables db')) = Some s \<and> et_name s = ess_name (erp_set p)
        \<and> (\<forall>item \<in> set (erp_items p). \<exists>i \<in> set (jt_eval_items (rdb_tables db')).
              ei_eval_set_id i = eis_eval_set_id item \<and> ei_request_id i = eis_request_id item)
        \<and> find_row (\<lambda>q. jr_id q = ers_id (erp_run p)) (jt_eval_runs (rdb_tables db')) = Some run
        \<and> ev_eval_set_id run = ers_eval_set_id (erp_run p)
        \<and> ev_target_provider run = ers_target_provider (erp_run p) \<and> ev_target_model run = ers_target_model (erp_run p)
        \<and> (\<exists>s' \<in> set (jt_eval_sets (rdb_tables db')). et_id s' = ers_eval_set_id (erp_run p))"
proof (cases "\<exists>b. FetchEvalRun cfg fmt butler runID = Inr (Some b)")
  case False
  then have "db' = db" "is_Inl r"
    using assms by (auto simp: ExecuteEval_def rreturn_def is_Inl_def split: sum.splits option.splits)
  then show ?thesis by (cases r) auto
next
  case True
  then obtain b where f: "FetchEvalRun cfg fmt butler runID = Inr (Some b)" by blast
  then obtain p where p: "butler (sc_butler_base_url cfg @ ''/api/v1/steward/eval-runs/'' @ fmt runID) (bearer cfg) = Answer 200 (Inr p)"
    "b = payloadToBundle p" unfolding FetchEvalRun_Some by blast
  obtain r1 db1 where 1: "UpsertEvalSet now (eb_set b) db = (r1, db1)" by fastforce
  obtain r2 db2 where 2: "rall (\<lambda>item. rwrap (''upsert eval set item '' @ fmt (ei_id item)) (UpsertEvalSetItem now item)) (eb_items b) db1 = (r2, db2)"
    by fastforce
  obtain r3 db3 where 3: "UpsertEvalRun C now (eb_run b) db2 = (r3, db3)" by fastforce
  have run: "(r, db') = (case r1 of Inl e \<Rightarrow> (Inl (ErrWrap (''upsert eval set '' @ fmt (et_id (eb_set b))) e), db1)
    | Inr _ \<Rightarrow> (case r2 of Inl e \<Rightarrow> (Inl e, db2)
      | Inr _ \<Rightarrow> (case r3 of Inl e \<Rightarrow> (Inl (ErrWrap (''upsert eval run '' @ fmt runID) e), db3) | Inr _ \<Rightarrow> (Inr (), db3))))"
    unfolding assms [symmetric] ExecuteEval_def f using 1 2 3
    by (cases r1; cases r2; cases r3) (simp_all add: rbind_def rwrap_def)
  let ?set = "(eb_set b)\<lparr>et_created_at := time_or now (et_created_at (eb_set b)), et_updated_at := now\<rparr>"
  let ?mrg = "\<lambda>old new. old\<lparr>et_name := et_name new, et_description := et_description new, et_updated_at := now\<rparr>"
  have t1: "rdb_tables db1 = (case r1 of Inl e \<Rightarrow> rdb_tables db
      | Inr _ \<Rightarrow> (rdb_tables db)\<lparr>jt_eval_sets := upsert et_id ?mrg ?set (jt_eval_sets (rdb_tables db))\<rparr>)"
    using 1 unfolding UpsertEvalSet_def
    by (cases r1) (auto elim!: rwrap_InlE dest!: rwrap_InrE rexec_InlD rexec_InrD)
  obtain its where t2: "rdb_tables db2 = (rdb_tables db1)\<lparr>jt_eval_items := its\<rparr>"
      "r2 = Inr () \<Longrightarrow> \<forall>item \<in> set (eb_items b). has_item its item"
    using items_run [OF 2] by blast
  have runs: "jt_eval_runs (rdb_tables db2) = jt_eval_runs (rdb_tables db)"
    unfolding t2(1) t1 by (simp split: sum.split)
  show ?thesis
  proof (cases r)
    case (Inl e)
    have "jt_eval_runs (rdb_tables db3) = jt_eval_runs (rdb_tables db)" if "r3 = Inl e3" for e3
      using er.ups_fails [OF 3 [unfolded that]] runs by simp
    then have "jt_eval_runs (rdb_tables db') = jt_eval_runs (rdb_tables db)"
      using run Inl runs t1 by (cases r1; cases r2; cases r3) auto
    then show ?thesis using Inl by simp
  next
    case (Inr u)
    then have ok: "r1 = Inr ()" "r2 = Inr ()" "r3 = Inr ()" "db' = db3"
      using run by (cases r1; cases r2; cases r3; auto)+
    have t3: "\<exists>s' \<in> set (jt_eval_sets (rdb_tables db2)). et_id s' = ev_eval_set_id (eb_run b)"
        "rdb_tables db3 = (rdb_tables db2)\<lparr>jt_eval_runs := upsert jr_id (merge_eval_run now) (eval_run_row C now (eb_run b)) (jt_eval_runs (rdb_tables db2))\<rparr>"
      using rexec_InrD [OF rwrap_InrE [OF 3 [unfolded ok(3) UpsertEvalRun_def]]] by (auto simp: list_ex_iff split: if_splits)
    have b: "et_id ?set = ess_id (erp_set p)" "et_name ?set = ess_name (erp_set p)"
        "jr_id (eval_run_row C now (eb_run b)) = ers_id (erp_run p)" "ev_eval_set_id (eb_run b) = ers_eval_set_id (erp_run p)"
        "ev_target_provider (eval_run_row C now (eb_run b)) = ers_target_provider (erp_run p)"
        "ev_target_model (eval_run_row C now (eb_run b)) = ers_target_model (erp_run p)"
        "ev_eval_set_id (eval_run_row C now (eb_run b)) = ers_eval_set_id (erp_run p)"
      unfolding p(2) by (simp_all add: payloadToBundle_def Let_def eval_run_row_def)
    have sets: "jt_eval_sets (rdb_tables db') = upsert et_id ?mrg ?set (jt_eval_sets (rdb_tables db))"
      using ok t3(2) t2(1) t1 by simp
    obtain s where s: "find_row (\<lambda>s. et_id s = ess_id (erp_set p)) (jt_eval_sets (rdb_tables db')) = Some s" "et_name s = ess_name (erp_set p)"
      using upsert_find_same [of et_id ?mrg ?set "jt_eval_sets (rdb_tables db)", unfolded b(1)] b(2)
      unfolding sets find_row_def by (auto split: option.splits)
    have rows: "jt_eval_runs (rdb_tables db') = upsert jr_id (merge_eval_run now) (eval_run_row C now (eb_run b)) (jt_eval_runs (rdb_tables db))"
      using ok t3(2) runs by simp
    obtain q where q: "find_row (\<lambda>q. jr_id q = ers_id (erp_run p)) (jt_eval_runs (rdb_tables db')) = Some q"
        "ev_eval_set_id q = ers_eval_set_id (erp_run p)" "ev_target_provider q = ers_target_provider (erp_run p)"
        "ev_target_model q = ers_target_model (erp_run p)"
      using upsert_find_same [of jr_id "merge_eval_run now" "eval_run_row C now (eb_run b)" "jt_eval_runs (rdb_tables db)", unfolded b(3)] b(5-7)
      unfolding rows find_row_def by (auto simp: merge_eval_run_def split: option.splits)
    have items: "\<forall>item \<in> set (erp_items p). \<exists>i \<in> set (jt_eval_items (rdb_tables db')).
        ei_eval_set_id i = eis_eval_set_id item \<and> ei_request_id i = eis_request_id item"
      using t2(2) ok t2(1) t3(2) by (auto simp: p(2) payloadToBundle_def Let_def has_item_def)
    have "\<exists>s' \<in> set (jt_eval_sets (rdb_tables db')). et_id s' = ers_eval_set_id (erp_run p)"
      using t3 ok(4) b(4) by simp
    then show ?thesis using p(1) s q items unfolding Inr sum.case by blast
  qed
qed

text \<open>A replay that is sent again while it runs, and an evaluation of one logged request.\<close>

definition sample_replay_payload :: replayRunPayload where
  "sample_replay_payload = \<lparr>rrp_id = 1, rrp_user_id = 9, rrp_org_id = Some 7, rrp_status = ''pending'',
     rrp_error_message = None, rrp_source_api_key_id = None, rrp_source_provider = None, rrp_source_model = None,
     rrp_source_start = None, rrp_source_end = None, rrp_source_metadata = None, rrp_source_limit = 20,
     rrp_target_provider = ''anthropic'', rrp_target_model = ''claude'', rrp_judge_enabled = True,
     rrp_judge_provider = None, rrp_judge_model = None, rrp_created_at = 5\<rparr>"


definition sample_eval_payload :: evalRunPayload where
  "sample_eval_payload = \<lparr>erp_run = \<lparr>ers_id = 4, ers_user_id = 9, ers_org_id = None, ers_eval_set_id = 5,
       ers_status = ''pending'', ers_error_message = None, ers_target_provider = ''openai'', ers_target_model = ''gpt-4o'',
       ers_evaluators = ''[]'', ers_created_at = 5\<rparr>,
     erp_set = \<lparr>ess_id = 5, ess_user_id = 9, ess_org_id = None, ess_name = ''new'', ess_description = None, ess_created_at = 5\<rparr>,
     erp_items = [\<lparr>eis_id = 8, eis_eval_set_id = 5, eis_request_id = 11, eis_created_at = 5\<rparr>]\<rparr>"

lemma eval_job_complete_witness:
  "\<exists>db'. ExecuteEval sample_steward (\<lambda>u. ''1'') (\<lambda>url auth. Answer 200 (Inr sample_eval_payload)) sample_columns 9 4
      (no_faults (sample_jobs [])) = (Inr (), db')
    \<and> (\<exists>i \<in> set (jt_eval_items (rdb_tables db')). ei_eval_set_id i = 5 \<and> ei_request_id i = 11)"
proof -
  let ?butler = "\<lambda>url auth. Answer 200 (Inr sample_eval_payload)"
  have f: "FetchEvalRun sample_steward (\<lambda>u. ''1'') ?butler 4 = Inr (Some (payloadToBundle sample_eval_payload))"
    unfolding FetchEvalRun_Some by blast
  obtain db' where x: "ExecuteEval sample_steward (\<lambda>u. ''1'') ?butler sample_columns 9 4 (no_faults (sample_jobs [])) = (Inr (), db')"
    unfolding ExecuteEval_def f
    by (auto simp: UpsertEvalSet_def UpsertEvalSetItem_def UpsertEvalRun_def rwrap_def rbind_def rreturn_def
        no_faults_run sample_jobs_def payloadToBundle_def sample_eval_payload_def)
  show ?thesis using eval_job_complete [OF x] x by (auto simp: sample_eval_payload_def)
qed

end
