(* ===== verification/Work_Tick.thy ===== *)
theory Work_Tick
  imports Job_Exec
begin

text \<open>
  The work ticker (internal/stewardclient/workticker.go): one tick claims a batch of jobs at Butler,
  dispatches each to its syncer or to the executor of replays and evaluations, and acknowledges or fails it.
  Butler is a parameter, as in Key_Sync.
\<close>

section \<open>Jobs\<close>

definition JobTypeSyncAPIKeys :: string where "JobTypeSyncAPIKeys = ''sync_api_keys''"
definition JobTypeSyncCloudStorage :: string where "JobTypeSyncCloudStorage = ''sync_cloud_storage''"
definition JobTypeSyncProviderKeys :: string where "JobTypeSyncProviderKeys = ''sync_provider_keys''"
definition JobTypeSyncExperiments :: string where "JobTypeSyncExperiments = ''sync_experiments''"
definition JobTypeReplay :: string where "JobTypeReplay = ''replay''"
definition JobTypeEval :: string where "JobTypeEval = ''eval''"

record workItem =
  wi_job_id :: uuid
  wi_org_id :: uuid
  wi_job_type :: string
  wi_run_id :: "uuid option"

text \<open>The local state the syncers and the executor work on: the cursors of the two incremental ones and the
  tables.\<close>

record sync_state =
  sy_key_cursor :: time
  sy_keys :: KeyDB
  sy_experiment_cursor :: time
  sy_experiments :: ExperimentDB
  sy_cloud :: "CloudStorageRecord list repo_db"
  sy_jobs :: "job_tables repo_db"

text \<open>A ticker: its configuration, which syncers it has (those of secrets with their key), the texts of
  identifiers, and the columns its executor writes.\<close>

record WorkTicker =
  wt_cfg :: StewardConfig
  wt_key_sync :: bool
  wt_cloud_sync :: "bytes option"
  wt_provider_sync :: "bytes option"
  wt_experiment_sync :: bool
  wt_fmt_uuid :: "uuid \<Rightarrow> string"
  wt_columns :: columns

text \<open>What the environment answers during the dispatch of one item.\<close>

record item_env =
  ie_keys :: "APIKeyRecord list butler"
  ie_experiments :: "ExperimentRecord list butler"
  ie_provider_keys :: "providerKeyPayload list butler"
  ie_cloud :: "err + cloudStorageConfigPayload list"
  ie_rnd :: "nat \<Rightarrow> err + bytes"
  ie_cloud_rnd :: "nat \<Rightarrow> (err + bytes) \<times> (err + bytes)"
  ie_ids :: "nat \<Rightarrow> uuid"
  ie_now :: time
  ie_replay :: "replayRunPayload fetcher"
  ie_eval :: "evalRunPayload fetcher"

section \<open>Dispatch\<close>

text \<open>None when a fetch of pages does not return.\<close>

definition dispatch :: "WorkTicker \<Rightarrow> item_env \<Rightarrow> workItem \<Rightarrow> sync_state \<Rightarrow> ((err + unit) \<times> sync_state) option" where
  "dispatch W e item st = (
     if wi_job_type item = JobTypeSyncAPIKeys then
       (if \<not> wt_key_sync W then Some (Inl (ErrMsg ''sync_api_keys received but keySync is not configured''), st)
        else map_option (\<lambda>(r, cursor, db). (r, st\<lparr>sy_key_cursor := cursor, sy_keys := db\<rparr>))
               (key_Sync (wt_cfg W) (ie_keys e) (sy_key_cursor st, sy_keys st)))
     else if wi_job_type item = JobTypeSyncCloudStorage then
       (case wt_cloud_sync W of
          None \<Rightarrow> Some (Inl (ErrMsg ''sync_cloud_storage received but cloudSync is not configured''), st)
        | Some key \<Rightarrow> (case cloud_Sync (Encrypt key) (ie_cloud_rnd e) (ie_now e) (ie_cloud e) (sy_cloud st) of
            (r, db) \<Rightarrow> Some (r, st\<lparr>sy_cloud := db\<rparr>)))
     else if wi_job_type item = JobTypeSyncProviderKeys then
       (case wt_provider_sync W of
          None \<Rightarrow> Some (Inl (ErrMsg ''sync_provider_keys received but providerSync is not configured''), st)
        | Some key \<Rightarrow> (case provider_Sync (Encrypt key) (ie_rnd e) (ie_ids e) (ie_now e) (wt_cfg W) (ie_provider_keys e) (sy_keys st) of
            (r, db) \<Rightarrow> Some (r, st\<lparr>sy_keys := db\<rparr>)))
     else if wi_job_type item = JobTypeSyncExperiments then
       (if \<not> wt_experiment_sync W then Some (Inl (ErrMsg ''sync_experiments received but experimentSync is not configured''), st)
        else map_option (\<lambda>(r, cursor, db). (r, st\<lparr>sy_experiment_cursor := cursor, sy_experiments := db\<rparr>))
               (experiment_Sync (wt_cfg W) (ie_experiments e) (sy_experiment_cursor st, sy_experiments st)))
     else if wi_job_type item = JobTypeReplay then
       (case wi_run_id item of
          None \<Rightarrow> Some (Inl (ErrMsg ''replay job missing run_id''), st)
        | Some run \<Rightarrow> (case ExecuteReplay (wt_cfg W) (wt_fmt_uuid W) (ie_replay e) (wt_columns W) (ie_now e) run (sy_jobs st) of
            (r, db) \<Rightarrow> Some (r, st\<lparr>sy_jobs := db\<rparr>)))
     else if wi_job_type item = JobTypeEval then
       (case wi_run_id item of
          None \<Rightarrow> Some (Inl (ErrMsg ''eval job missing run_id''), st)
        | Some run \<Rightarrow> (case ExecuteEval (wt_cfg W) (wt_fmt_uuid W) (ie_eval e) (wt_columns W) (ie_now e) run (sy_jobs st) of
            (r, db) \<Rightarrow> Some (r, st\<lparr>sy_jobs := db\<rparr>)))
     else Some (Inl (ErrMsg (''unknown job_type '' @ wi_job_type item)), st))"

definition fetchWork :: "WorkTicker \<Rightarrow> workItem list butler \<Rightarrow> err + workItem list" where
  "fetchWork W butler = butler_get ''get work'' (butler 0
     (sc_butler_base_url (wt_cfg W) @ ''/api/v1/steward/work?limit='' @ itoa (sc_work_tick_limit (wt_cfg W)))
     (bearer (wt_cfg W)))"

text \<open>The POST that reports a job; its answer is only logged.\<close>

definition result_url :: "WorkTicker \<Rightarrow> uuid \<Rightarrow> bool \<Rightarrow> string" where
  "result_url W jobID success = sc_butler_base_url (wt_cfg W) @ ''/api/v1/steward/work/'' @ wt_fmt_uuid W jobID
     @ (if success then ''/ack'' else ''/fail'')"

text \<open>The items of a tick in order, each with its result.\<close>

fun work_items :: "WorkTicker \<Rightarrow> (nat \<Rightarrow> item_env) \<Rightarrow> nat \<Rightarrow> workItem list \<Rightarrow> sync_state
    \<Rightarrow> ((uuid \<times> bool) list \<times> sync_state) option" where
  "work_items W envs i [] st = Some ([], st)"
| "work_items W envs i (item # items) st = (case dispatch W (envs i) item st of
     None \<Rightarrow> None
   | Some (r, st') \<Rightarrow> map_option (\<lambda>(results, st''). ((wi_job_id item, \<not> is_Inl r) # results, st''))
       (work_items W envs (Suc i) items st'))"

text \<open>A tick: the URLs it posts to, in order, and the new state.\<close>

definition tick :: "WorkTicker \<Rightarrow> workItem list butler \<Rightarrow> (nat \<Rightarrow> item_env) \<Rightarrow> sync_state
    \<Rightarrow> (string list \<times> sync_state) option" where
  "tick W butler envs st = (case fetchWork W butler of
     Inl e \<Rightarrow> Some ([], st)
   | Inr items \<Rightarrow> map_option (\<lambda>(results, st'). (map (\<lambda>(jobID, success). result_url W jobID success) results, st'))
       (work_items W envs 0 items st))"

section \<open>Every item is handled\<close>

text \<open>Butler serves the pages of one item from the records it has.\<close>

definition pages_served :: "WorkTicker \<Rightarrow> item_env \<Rightarrow> bool" where
  "pages_served W e = (\<forall>c.
     (\<exists>recs. serves (ie_keys e) (page_url (wt_cfg W) ''/api/v1/steward/api-keys'') (bearer (wt_cfg W)) akr_updated_at recs c)
     \<and> (\<exists>recs. serves (ie_experiments e) (page_url (wt_cfg W) ''/api/v1/steward/experiments'') (bearer (wt_cfg W)) er_updated_at recs c))"

lemma sync_round_returns: "fetched \<noteq> None \<Longrightarrow> sync_round what fetched store st \<noteq> None"
  by (auto simp: sync_round_def split: prod.splits sum.splits)

lemma dispatch_returns:
  assumes "pages_served W e"
  shows "dispatch W e item st \<noteq> None"
proof -
  have "key_fetch (wt_cfg W) (ie_keys e) c \<noteq> None" "experiment_fetch (wt_cfg W) (ie_experiments e) c \<noteq> None" for c
  proof -
    obtain rs where "serves (ie_keys e) (page_url (wt_cfg W) ''/api/v1/steward/api-keys'') (bearer (wt_cfg W)) akr_updated_at rs c"
      using assms by (auto simp: pages_served_def)
    from fetch_pages_serves [OF this, of c "''get keys''" 0 "[]"] show "key_fetch (wt_cfg W) (ie_keys e) c \<noteq> None"
      by (auto simp: key_fetch_def)
    obtain es where "serves (ie_experiments e) (page_url (wt_cfg W) ''/api/v1/steward/experiments'') (bearer (wt_cfg W)) er_updated_at es c"
      using assms by (auto simp: pages_served_def)
    from fetch_pages_serves [OF this, of c "''get experiments''" 0 "[]"]
    show "experiment_fetch (wt_cfg W) (ie_experiments e) c \<noteq> None" by (auto simp: experiment_fetch_def)
  qed
  then have "key_Sync (wt_cfg W) (ie_keys e) s \<noteq> None" "experiment_Sync (wt_cfg W) (ie_experiments e) s' \<noteq> None" for s s'
    unfolding key_Sync_def experiment_Sync_def by (intro sync_round_returns; blast)+
  then show ?thesis
    by (simp add: dispatch_def split: option.split prod.split)
qed

text \<open>How the states of a tick follow each other.\<close>

fun work_run :: "WorkTicker \<Rightarrow> (nat \<Rightarrow> item_env) \<Rightarrow> nat \<Rightarrow> workItem list \<Rightarrow> sync_state \<Rightarrow> (err + unit) list \<Rightarrow> sync_state \<Rightarrow> bool" where
  "work_run W envs i [] st [] st' = (st' = st)"
| "work_run W envs i (item # items) st (r # rs) st' =
     (\<exists>st1. dispatch W (envs i) item st = Some (r, st1) \<and> work_run W envs (Suc i) items st1 rs st')"
| "work_run W envs i _ st _ st' = False"

lemma work_items_run:
  assumes "\<And>j. pages_served W (envs j)"
  shows "\<exists>rs st'. work_items W envs i items st = Some (zip (map wi_job_id items) (map (\<lambda>r. \<not> is_Inl r) rs), st')
    \<and> length rs = length items \<and> work_run W envs i items st rs st'"
proof (induction items arbitrary: i st)
  case (Cons item items)
  obtain r st1 where d: "dispatch W (envs i) item st = Some (r, st1)"
    using dispatch_returns [OF assms, of i item st] by auto
  obtain rs st' where "work_items W envs (Suc i) items st1 = Some (zip (map wi_job_id items) (map (\<lambda>r. \<not> is_Inl r) rs), st')"
    "length rs = length items" "work_run W envs (Suc i) items st1 rs st'" using Cons by blast
  then show ?case using d by (intro exI [of _ "r # rs"] exI [of _ st']) auto
qed simp

text \<open>Which items fail without being dispatched anywhere.\<close>

definition not_dispatched :: "WorkTicker \<Rightarrow> workItem \<Rightarrow> bool" where
  "not_dispatched W item = (
     (wi_job_type item = JobTypeSyncAPIKeys \<and> \<not> wt_key_sync W)
     \<or> (wi_job_type item = JobTypeSyncCloudStorage \<and> wt_cloud_sync W = None)
     \<or> (wi_job_type item = JobTypeSyncProviderKeys \<and> wt_provider_sync W = None)
     \<or> (wi_job_type item = JobTypeSyncExperiments \<and> \<not> wt_experiment_sync W)
     \<or> (wi_job_type item \<in> {JobTypeReplay, JobTypeEval} \<and> wi_run_id item = None)
     \<or> wi_job_type item \<notin> {JobTypeSyncAPIKeys, JobTypeSyncCloudStorage, JobTypeSyncProviderKeys,
         JobTypeSyncExperiments, JobTypeReplay, JobTypeEval})"

lemmas job_types = JobTypeSyncAPIKeys_def JobTypeSyncCloudStorage_def JobTypeSyncProviderKeys_def
  JobTypeSyncExperiments_def JobTypeReplay_def JobTypeEval_def

lemma not_dispatched_fails:
  "not_dispatched W item \<Longrightarrow> \<exists>e. dispatch W env item st = Some (Inl e, st)"
  unfolding not_dispatched_def by (elim disjE conjE) (auto simp: dispatch_def job_types)


text \<open>A tick with a job of an unknown type and a replay without its run.\<close>

definition no_pages :: "'a list butler" where
  "no_pages i url auth = Answer 200 (Inr [])"

lemma no_pages_serve: "serves no_pages url auth upd [] c"
  by (simp add: serves_def no_pages_def pending_def)

definition no_run :: "'a fetcher" where
  "no_run url auth = Answer 404 (Inl ErrDB)"

definition sample_item_env :: item_env where
  "sample_item_env = \<lparr>ie_keys = no_pages, ie_experiments = no_pages, ie_provider_keys = no_pages, ie_cloud = Inr [],
     ie_rnd = (\<lambda>i. Inl ErrDB), ie_cloud_rnd = (\<lambda>i. (Inl ErrDB, Inl ErrDB)), ie_ids = (\<lambda>i. 0), ie_now = 1,
     ie_replay = (\<lambda>url auth. Answer 200 (Inr sample_replay_payload)), ie_eval = no_run\<rparr>"

definition sample_ticker :: WorkTicker where
  "sample_ticker = \<lparr>wt_cfg = sample_steward, wt_key_sync = True, wt_cloud_sync = None, wt_provider_sync = None,
     wt_experiment_sync = True, wt_fmt_uuid = (\<lambda>u. itoa (uint u)), wt_columns = sample_columns\<rparr>"

definition sample_items :: "workItem list" where
  "sample_items = [\<lparr>wi_job_id = 1, wi_org_id = 7, wi_job_type = ''replay'', wi_run_id = None\<rparr>,
     \<lparr>wi_job_id = 2, wi_org_id = 7, wi_job_type = ''replay'', wi_run_id = Some 5\<rparr>]"

definition sample_sync_state :: sync_state where
  "sample_sync_state = \<lparr>sy_key_cursor = 0, sy_keys = sample_db True, sy_experiment_cursor = 0,
     sy_experiments = example_db, sy_cloud = no_faults [], sy_jobs = no_faults (sample_jobs [])\<rparr>"


end
