(* ===== verification/Results_Report.thy ===== *)
theory Results_Report
  imports Job_Exec
begin

text \<open>
  The results reporter (stewardclient/resultsreporter.go): the statuses and results of replays and evaluations
  that are not synchronised are posted to Butler, one batch of each kind per flush, and stamped when Butler
  has acknowledged them.
\<close>

section \<open>What is posted\<close>

record run_status_update =
  su_id :: uuid
  su_status :: string
  su_error_message :: "string option"
  su_started_at :: "time option"
  su_completed_at :: "time option"
  su_total_requests :: "int option"
  su_original_total_cost :: "real option"
  su_replay_total_cost :: "real option"
  su_original_avg_latency_ms :: "int option"
  su_replay_avg_latency_ms :: "int option"

record replayRunStatusUpdate = run_status_update +
  ru_exact_matches :: "int option"
  ru_judge_equivalent :: "int option"
  ru_divergent :: "int option"

record evalRunStatusUpdate = run_status_update +
  eu_successful_requests :: "int option"
  eu_failed_requests :: "int option"
  eu_judge_total_cost :: "real option"
  eu_evaluator_summary :: "string option"

record result_payload =
  pl_id :: uuid
  pl_run_id :: uuid
  pl_source_request_id :: uuid
  pl_original_provider :: string
  pl_original_model :: string
  pl_original_cost :: real
  pl_original_latency_ms :: int
  pl_original_input_tokens :: int
  pl_original_output_tokens :: int
  pl_replay_response :: "string option"
  pl_replay_cost :: "real option"
  pl_replay_latency_ms :: "int option"
  pl_replay_input_tokens :: "int option"
  pl_replay_output_tokens :: "int option"
  pl_error_message :: "string option"
  pl_created_at :: time

record replayResultPayload = result_payload +
  pr_exact_match :: "bool option"
  pr_judge_equivalent :: "bool option"
  pr_judge_reason :: "string option"

record evalResultScoreSpec =
  sp_id :: uuid
  sp_evaluator_name :: string
  sp_score :: real
  sp_reason :: "string option"
  sp_created_at :: time

record evalResultPayload = result_payload +
  pe_scores :: "evalResultScoreSpec list"

definition replay_run_update :: "ReplayRun \<Rightarrow> replayRunStatusUpdate" where
  "replay_run_update r = \<lparr>su_id = jr_id r, su_status = jr_status r, su_error_message = jr_error_message r,
     su_started_at = jr_started_at r, su_completed_at = jr_completed_at r, su_total_requests = rr_total_requests r,
     su_original_total_cost = jr_original_total_cost r, su_replay_total_cost = jr_replay_total_cost r,
     su_original_avg_latency_ms = jr_original_avg_latency_ms r, su_replay_avg_latency_ms = jr_replay_avg_latency_ms r,
     ru_exact_matches = rr_exact_matches r, ru_judge_equivalent = rr_judge_equivalent r, ru_divergent = rr_divergent r\<rparr>"

definition eval_run_update :: "EvalRun \<Rightarrow> evalRunStatusUpdate" where
  "eval_run_update r = \<lparr>su_id = jr_id r, su_status = jr_status r, su_error_message = jr_error_message r,
     su_started_at = jr_started_at r, su_completed_at = jr_completed_at r, su_total_requests = ev_total_requests r,
     su_original_total_cost = jr_original_total_cost r, su_replay_total_cost = jr_replay_total_cost r,
     su_original_avg_latency_ms = jr_original_avg_latency_ms r, su_replay_avg_latency_ms = jr_replay_avg_latency_ms r,
     eu_successful_requests = ev_successful_requests r, eu_failed_requests = ev_failed_requests r,
     eu_judge_total_cost = ev_judge_total_cost r, eu_evaluator_summary = ev_evaluator_summary r\<rparr>"

definition base_payload :: "'a job_result_scheme \<Rightarrow> result_payload" where
  "base_payload r = \<lparr>pl_id = js_id r, pl_run_id = js_run_id r, pl_source_request_id = js_source_request_id r,
     pl_original_provider = js_original_provider r, pl_original_model = js_original_model r,
     pl_original_cost = js_original_cost r, pl_original_latency_ms = js_original_latency_ms r,
     pl_original_input_tokens = js_original_input_tokens r, pl_original_output_tokens = js_original_output_tokens r,
     pl_replay_response = js_replay_response r, pl_replay_cost = js_replay_cost r,
     pl_replay_latency_ms = js_replay_latency_ms r, pl_replay_input_tokens = js_replay_input_tokens r,
     pl_replay_output_tokens = js_replay_output_tokens r, pl_error_message = js_error_message r,
     pl_created_at = js_created_at r\<rparr>"

definition replay_result_payload :: "ReplayResult \<Rightarrow> replayResultPayload" where
  "replay_result_payload r = result_payload.extend (base_payload r)
     (replayResultPayload.fields (rs_exact_match r) (rs_judge_equivalent r) (rs_judge_reason r))"

text \<open>The scores of a result, out of those that were fetched.\<close>

definition scores_of :: "EvalResultScore list \<Rightarrow> uuid \<Rightarrow> EvalResultScore list" where
  "scores_of scores resultID = filter (\<lambda>s. es_eval_result_id s = resultID) scores"

definition score_spec :: "EvalResultScore \<Rightarrow> evalResultScoreSpec" where
  "score_spec s = \<lparr>sp_id = es_id s, sp_evaluator_name = es_evaluator_name s, sp_score = es_score s,
     sp_reason = es_reason s, sp_created_at = es_created_at s\<rparr>"

definition eval_result_payload :: "EvalResultScore list \<Rightarrow> EvalResult \<Rightarrow> evalResultPayload" where
  "eval_result_payload scores r = result_payload.extend (base_payload r)
     (evalResultPayload.fields (map score_spec (scores_of scores (js_id r))))"

datatype results_body =
    ReplayRunUpdates "replayRunStatusUpdate list"
  | ReplayResultPayloads "replayResultPayload list"
  | EvalRunUpdates "evalRunStatusUpdate list"
  | EvalResultPayloads "evalResultPayload list"

type_synonym results_poster = "string \<Rightarrow> string \<Rightarrow> results_body \<Rightarrow> post_answer"

definition post_results :: "StewardConfig \<Rightarrow> results_poster \<Rightarrow> string \<Rightarrow> results_body \<Rightarrow> err + unit" where
  "post_results cfg post path body = (case post (sc_butler_base_url cfg @ path) (bearer cfg) body of
     PostFailed e \<Rightarrow> Inl (ErrWrap (''post '' @ path) e)
   | PostStatus status \<Rightarrow> if status < 200 \<or> 300 \<le> status
       then Inl (ErrMsg (''butler returned '' @ itoa status @ '' for '' @ path)) else Inr ())"

section \<open>The flushes\<close>

definition reporterBatchSize :: int where "reporterBatchSize = 500"

text \<open>One category: fetch, post, mark. The result is the bodies Butler has acknowledged.\<close>

definition flush_category :: "('t, 'r list) repo \<Rightarrow> ('r \<Rightarrow> uuid) \<Rightarrow> ('r list \<Rightarrow> results_body) \<Rightarrow> (results_body \<Rightarrow> err + unit)
    \<Rightarrow> (uuid list \<Rightarrow> ('t, unit) repo) \<Rightarrow> 't repo_db \<Rightarrow> results_body list \<times> 't repo_db" where
  "flush_category fetch rid body send_body mark db = (case fetch db of
     (Inl e, db1) \<Rightarrow> ([], db1)
   | (Inr rows, db1) \<Rightarrow>
       if rows = [] then ([], db1)
       else (case send_body (body rows) of
          Inl e \<Rightarrow> ([], db1)
        | Inr _ \<Rightarrow> ([body rows], snd (mark (map rid rows) db1))))"

definition flushReplayRuns :: "StewardConfig \<Rightarrow> results_poster \<Rightarrow> columns \<Rightarrow> time \<Rightarrow> job_tables repo_db \<Rightarrow> results_body list \<times> job_tables repo_db" where
  "flushReplayRuns cfg post C now = flush_category (FetchUnsyncedReplayRuns reporterBatchSize) jr_id
     (ReplayRunUpdates \<circ> map replay_run_update) (post_results cfg post ''/api/v1/steward/replay-runs/status'')
     (MarkReplayRunsSynced C now)"

definition flushReplayResults :: "StewardConfig \<Rightarrow> results_poster \<Rightarrow> columns \<Rightarrow> time \<Rightarrow> job_tables repo_db \<Rightarrow> results_body list \<times> job_tables repo_db" where
  "flushReplayResults cfg post C now = flush_category (FetchUnsyncedReplayResults reporterBatchSize) js_id
     (ReplayResultPayloads \<circ> map replay_result_payload) (post_results cfg post ''/api/v1/steward/replay-results'')
     (MarkReplayResultsSynced C now)"

definition flushEvalRuns :: "StewardConfig \<Rightarrow> results_poster \<Rightarrow> columns \<Rightarrow> time \<Rightarrow> job_tables repo_db \<Rightarrow> results_body list \<times> job_tables repo_db" where
  "flushEvalRuns cfg post C now = flush_category (FetchUnsyncedEvalRuns reporterBatchSize) jr_id
     (EvalRunUpdates \<circ> map eval_run_update) (post_results cfg post ''/api/v1/steward/eval-runs/status'')
     (MarkEvalRunsSynced C now)"

text \<open>Results go with their scores, which are fetched separately; both are marked, also when the first
  of the two marks fails.\<close>

definition flushEvalResults :: "StewardConfig \<Rightarrow> results_poster \<Rightarrow> columns \<Rightarrow> time \<Rightarrow> job_tables repo_db \<Rightarrow> results_body list \<times> job_tables repo_db" where
  "flushEvalResults cfg post C now db = (case FetchUnsyncedEvalResults reporterBatchSize db of
     (Inl e, db1) \<Rightarrow> ([], db1)
   | (Inr results, db1) \<Rightarrow>
       if results = [] then ([], db1)
       else (case FetchUnsyncedEvalResultScores (reporterBatchSize * 4) db1 of
          (Inl e, db2) \<Rightarrow> ([], db2)
        | (Inr scores, db2) \<Rightarrow>
            let body = EvalResultPayloads (map (eval_result_payload scores) results);
                syncedScoreIDs = map es_id (concat (map (\<lambda>res. scores_of scores (js_id res)) results))
            in (case post_results cfg post ''/api/v1/steward/eval-results'' body of
                  Inl e \<Rightarrow> ([], db2)
                | Inr _ \<Rightarrow> let db3 = snd (MarkEvalResultsSynced C now (map js_id results) db2) in
                    ([body], if syncedScoreIDs = [] then db3 else snd (MarkEvalResultScoresSynced C now syncedScoreIDs db3)))))"

definition flushAll :: "StewardConfig \<Rightarrow> results_poster \<Rightarrow> columns \<Rightarrow> time \<Rightarrow> job_tables repo_db \<Rightarrow> results_body list \<times> job_tables repo_db" where
  "flushAll cfg post C now db =
     (let (b1, db1) = flushReplayRuns cfg post C now db; (b2, db2) = flushReplayResults cfg post C now db1;
          (b3, db3) = flushEvalRuns cfg post C now db2; (b4, db4) = flushEvalResults cfg post C now db3
      in (b1 @ b2 @ b3 @ b4, db4))"

section \<open>What is waiting is delivered once\<close>

text \<open>The flushes of a reporter over time, when nothing else happens.\<close>

fun flushes :: "('s \<Rightarrow> 'b list \<times> 's) \<Rightarrow> nat \<Rightarrow> 's \<Rightarrow> 'b list \<times> 's" where
  "flushes f 0 s = ([], s)"
| "flushes f (Suc n) s = (let (b, s1) = f s; (bs, s2) = flushes f n s1 in (b @ bs, s2))"

function batches_of :: "nat \<Rightarrow> 'r list \<Rightarrow> 'r list list" where
  "batches_of n [] = []"
| "batches_of n (r # rs) = take (Suc n) (r # rs) # batches_of n (drop (Suc n) (r # rs))"
  by pat_completeness auto
termination by (relation "measure (\<lambda>(n, rs). length rs)") auto

lemma concat_batches [simp]: "concat (batches_of n rs) = rs"
  by (induction n rs rule: batches_of.induct) auto

lemma batches_bounded: "b \<in> set (batches_of n rs) \<Longrightarrow> length b \<le> Suc n \<and> b \<noteq> []"
  by (induction n rs rule: batches_of.induct) auto

lemma drop_sent:
  assumes "distinct (map rid ws)"
  shows "filter (\<lambda>r. rid r \<notin> rid ` set (take n ws)) ws = drop n ws"
proof -
  have "distinct (map rid (take n ws @ drop n ws))" using assms by simp
  then have "\<forall>r \<in> set (drop n ws). rid r \<notin> rid ` set (take n ws)"
    unfolding map_append distinct_append by (metis IntI emptyE image_eqI list.set_map)
  then have "filter (\<lambda>r. rid r \<notin> rid ` set (take n ws)) (take n ws @ drop n ws) = drop n ws"
    unfolding filter_append by (simp add: filter_empty_conv del: append_take_drop_id)
  then show ?thesis by simp
qed

text \<open>A table whose waiting rows are fetched in order and leave when they are marked.\<close>

locale outbox =
  fixes fetch :: "('t, 'r list) repo"
    and rid :: "'r \<Rightarrow> uuid"
    and mark :: "uuid list \<Rightarrow> ('t, unit) repo"
    and waiting :: "'t \<Rightarrow> 'r list"
    and good :: "'t \<Rightarrow> bool"
  assumes fetch_ok: "good t \<Longrightarrow> fetch (no_faults t) = (Inr (take 500 (waiting t)), no_faults t)"
    and mark_ok: "good t \<Longrightarrow> ids \<noteq> [] \<Longrightarrow> \<exists>t'. mark ids (no_faults t) = (Inr (), no_faults t') \<and> good t'
      \<and> waiting t' = filter (\<lambda>r. rid r \<notin> set ids) (waiting t)"
    and waiting_distinct: "good t \<Longrightarrow> distinct (map rid (waiting t))"
begin

lemma flush_step:
  assumes "good t" "\<And>b. send_body b = Inr ()"
  shows "\<exists>t'. flush_category fetch rid body send_body mark (no_faults t)
      = ((if waiting t = [] then [] else [body (take 500 (waiting t))]), no_faults t')
    \<and> good t' \<and> waiting t' = drop 500 (waiting t)"
proof (cases "waiting t")
  case Nil
  then show ?thesis using fetch_ok [OF assms(1)] assms(1) by (auto simp: flush_category_def)
next
  case (Cons r rs)
  let ?batch = "take 500 (waiting t)"
  have ne: "map rid ?batch \<noteq> []" using Cons by simp
  obtain t' where t': "mark (map rid ?batch) (no_faults t) = (Inr (), no_faults t')" "good t'"
    "waiting t' = filter (\<lambda>r. rid r \<notin> set (map rid ?batch)) (waiting t)"
    using mark_ok [OF assms(1) ne] by blast
  have "waiting t' = drop 500 (waiting t)"
    using t'(3) drop_sent [OF waiting_distinct [OF assms(1)], of 500] by simp
  then show ?thesis using fetch_ok [OF assms(1)] t' ne assms(2) Cons
    by (intro exI [of _ t']) (simp add: flush_category_def)
qed

lemma flushes_deliver:
  assumes "\<And>b. send_body b = Inr ()"
  shows "good t \<Longrightarrow> fst (flushes (flush_category fetch rid body send_body mark) n (no_faults t))
    = map body (take n (batches_of 499 (waiting t)))"
proof (induction n arbitrary: t)
  case (Suc n)
  obtain t' where t': "flush_category fetch rid body send_body mark (no_faults t)
      = ((if waiting t = [] then [] else [body (take 500 (waiting t))]), no_faults t')"
    "good t'" "waiting t' = drop 500 (waiting t)"
    using flush_step [of t send_body body, OF Suc.prems assms] by blast
  from Suc.IH [OF t'(2)] show ?case
    using t'(1,3) by (cases "waiting t") (simp_all add: case_prod_beta eval_nat_numeral)
qed simp

end

section \<open>The tables are such outboxes, if the driver takes slices\<close>

abbreviation takes_slices :: "columns \<Rightarrow> columns" where
  "takes_slices C \<equiv> C\<lparr>col_ids := Inr\<rparr>"

lemma rmark_ok:
  "ids \<noteq> [] \<Longrightarrow> rmark (takes_slices C) msg f ids (no_faults t) = (Inr (), no_faults (f ids t))"
  by (simp add: rmark_def rwrap_def no_faults_run)

lemma rmark_refused:
  "(\<And>ids. is_Inl (col_ids C ids)) \<Longrightarrow> snd (rmark C msg f ids db) = db"
  by (auto simp: rmark_def rwrap_def rreturn_def is_Inl_def split: sum.split sum.splits)
    (metis sum.simps(6))

lemma scan_all_Inr: "scan_all (Inr \<circ> f) rs = Inr (map f rs)" and scan_all_id: "scan_all Inr rs = Inr rs"
  by (induction rs) simp_all

lemma rselect_ok: "rselect msg 500 (Inr \<circ> f) g (no_faults t) = (Inr (map f (take 500 (g t))), no_faults t)"
  and rselect_id: "rselect msg n Inr g (no_faults t) = (if n < 0 then (Inl (ErrWrap msg ErrDB), no_faults t)
    else (Inr (take (nat n) (g t)), no_faults t))"
  by (simp_all add: rselect_def rwrap_def no_faults_run scan_all_Inr scan_all_id)

lemma unsent_stamped:
  assumes "\<And>r. rid (f r) = rid r" "\<And>r. synced_at (f r) = Some now" "\<And>r. created (f r) = created r"
  shows "unsent synced_at created (stamp rid f ids rows) = filter (\<lambda>r. rid r \<notin> set ids) (unsent synced_at created rows)"
proof -
  have "filter (\<lambda>r. synced_at r = None) (stamp rid f ids rows) = filter (\<lambda>r. rid r \<notin> set ids) (filter (\<lambda>r. synced_at r = None) rows)"
    by (induction rows) (auto simp: stamp_def update_where_def assms)
  then show ?thesis by (simp add: unsent_def filter_sort)
qed

lemma distinct_map_sort_key: "distinct (map f (sort_key k xs)) \<longleftrightarrow> distinct (map f xs)"
  by (simp add: distinct_map distinct_sort)

lemma distinct_unsent: "distinct (map rid rows) \<Longrightarrow> distinct (map rid (unsent synced_at created rows))"
  unfolding unsent_def distinct_map_sort_key by (rule distinct_map_filter)

lemma stamp_ids: "(\<And>r. rid (f r) = rid r) \<Longrightarrow> map rid (stamp rid f ids rows) = map rid rows"
  by (simp add: stamp_def update_where_def)

interpretation rbox: outbox "FetchUnsyncedReplayResults reporterBatchSize" js_id "MarkReplayResultsSynced (takes_slices C) now"
    "\<lambda>t. unsent js_synced_at js_created_at (jt_replay_results t)" "\<lambda>t. distinct (map js_id (jt_replay_results t))" for C now
proof
  fix t :: job_tables assume "distinct (map js_id (jt_replay_results t))"
  then show "distinct (map js_id (unsent js_synced_at js_created_at (jt_replay_results t)))" by (rule distinct_unsent)
next
  fix t :: job_tables and ids :: "uuid list" assume "distinct (map js_id (jt_replay_results t))" "ids \<noteq> []"
  then show "\<exists>t'. MarkReplayResultsSynced (takes_slices C) now ids (no_faults t) = (Inr (), no_faults t')
      \<and> distinct (map js_id (jt_replay_results t'))
      \<and> unsent js_synced_at js_created_at (jt_replay_results t') = filter (\<lambda>r. js_id r \<notin> set ids) (unsent js_synced_at js_created_at (jt_replay_results t))"
    by (auto simp: MarkReplayResultsSynced_def rmark_ok unsent_stamped stamp_ids)
qed (simp add: FetchUnsyncedReplayResults_def rselect_id reporterBatchSize_def)

text \<open>For the runs, whose stamp is compared with their last change, the clock must not lie before a change.\<close>

definition runs_before :: "time \<Rightarrow> 'a job_run_scheme list \<Rightarrow> bool" where
  "runs_before now rows = (distinct (map jr_id rows) \<and> (\<forall>r \<in> set rows. jr_updated_at r \<le> now))"

lemma runs_marked:
  fixes ids :: "uuid list" and now :: time
  defines "f \<equiv> \<lambda>r. if jr_id r \<in> set ids then r\<lparr>jr_synced_at := Some now\<rparr> else r"
  assumes "runs_before now rows"
  shows "runs_before now (map f rows) \<and> unsynced_runs (map f rows) = filter (\<lambda>r. jr_id r \<notin> set ids) (unsynced_runs rows)"
proof -
  have "\<forall>r \<in> set rows. jr_updated_at r \<le> now" using assms(2) by (simp add: runs_before_def)
  then have "filter run_unsynced (map f rows) = filter (\<lambda>r. jr_id r \<notin> set ids) (filter run_unsynced rows)"
    by (induction rows) (auto simp: f_def run_unsynced_def)
  then have "unsynced_runs (map f rows) = filter (\<lambda>r. jr_id r \<notin> set ids) (unsynced_runs rows)"
    by (simp add: unsynced_runs_def filter_sort)
  moreover have m: "map jr_id (map f rows) = map jr_id rows" by (simp add: f_def)
  moreover have "\<forall>r \<in> set (map f rows). jr_updated_at r \<le> now" using assms(2) by (auto simp: runs_before_def f_def)
  ultimately show ?thesis using assms(2) unfolding runs_before_def m by blast
qed

lemma parse_metadata_id: "jr_id (parseReplayRunMetadata r) = jr_id r"
  by (simp add: parseReplayRunMetadata_def split: option.split)

interpretation runbox: outbox "FetchUnsyncedReplayRuns reporterBatchSize" jr_id "MarkReplayRunsSynced (takes_slices C) now"
    "\<lambda>t. map parseReplayRunMetadata (unsynced_runs (jt_replay_runs t))" "\<lambda>t. runs_before now (jt_replay_runs t)" for C now
proof
  fix t :: job_tables assume "runs_before now (jt_replay_runs t)"
  then show "distinct (map jr_id (map parseReplayRunMetadata (unsynced_runs (jt_replay_runs t))))"
    by (simp add: comp_def parse_metadata_id unsynced_runs_def distinct_map_sort_key runs_before_def distinct_map_filter)
next
  fix t :: job_tables and ids :: "uuid list" assume "runs_before now (jt_replay_runs t)" "ids \<noteq> []"
  then show "\<exists>t'. MarkReplayRunsSynced (takes_slices C) now ids (no_faults t) = (Inr (), no_faults t')
      \<and> runs_before now (jt_replay_runs t')
      \<and> map parseReplayRunMetadata (unsynced_runs (jt_replay_runs t'))
        = filter (\<lambda>r. jr_id r \<notin> set ids) (map parseReplayRunMetadata (unsynced_runs (jt_replay_runs t)))"
    using runs_marked [of now "jt_replay_runs t" ids]
    by (intro exI [of _ "t\<lparr>jt_replay_runs := map (\<lambda>r. if jr_id r \<in> set ids then r\<lparr>jr_synced_at := Some now\<rparr> else r) (jt_replay_runs t)\<rparr>"])
      (simp add: MarkReplayRunsSynced_def mark_runs_synced_def rmark_ok replay_runs_def filter_map comp_def parse_metadata_id)
qed (simp add: FetchUnsyncedReplayRuns_def fetch_unsynced_runs_def replay_runs_def rselect_ok reporterBatchSize_def take_map)

text \<open>If the driver does not take slices, nothing is ever marked.\<close>

lemma flush_refused:
  assumes "fetch db = (Inr rows, db)" "\<And>b. send_body b = Inr ()" "\<And>ids. snd (mark ids db) = db"
  shows "flushes (flush_category fetch rid body send_body mark) n db = ((if rows = [] then [] else replicate n (body rows)), db)"
  using assms by (induction n) (simp_all add: flush_category_def)

text \<open>C30: The results of replays are delivered exactly once, unless the driver refuses the stamp. As long as Butler
  acknowledges and statements succeed, flush after flush posts the waiting results and the changed runs in order, in
  batches of at most 500, each of them once, if the driver takes a slice of identifiers as an argument. If it does
  not, as lib/pq without pq.Array, nothing is marked, every flush posts the first 500 again and the others are
  never sent.\<close>

theorem replay_results_once:
  assumes "\<And>path b. post_results cfg post path b = Inr ()" "distinct (map js_id (jt_replay_results t))" "runs_before now (jt_replay_runs t)"
  shows "fst (flushes (flushReplayResults cfg post (takes_slices C) now) n (no_faults t))
      = map (ReplayResultPayloads \<circ> map replay_result_payload) (take n (batches_of 499 (unsent js_synced_at js_created_at (jt_replay_results t))))
    \<and> fst (flushes (flushReplayRuns cfg post (takes_slices C) now) n (no_faults t))
      = map (ReplayRunUpdates \<circ> map replay_run_update) (take n (batches_of 499 (map parseReplayRunMetadata (unsynced_runs (jt_replay_runs t)))))
    \<and> ((\<forall>ids. is_Inl (col_ids C ids)) \<longrightarrow>
        flushes (flushReplayResults cfg post C now) n (no_faults t)
          = ((if unsent js_synced_at js_created_at (jt_replay_results t) = [] then [] else replicate n
               (ReplayResultPayloads (map replay_result_payload (take 500 (unsent js_synced_at js_created_at (jt_replay_results t)))))), no_faults t))"
proof (intro conjI impI)
  show "fst (flushes (flushReplayResults cfg post (takes_slices C) now) n (no_faults t))
      = map (ReplayResultPayloads \<circ> map replay_result_payload) (take n (batches_of 499 (unsent js_synced_at js_created_at (jt_replay_results t))))"
    unfolding flushReplayResults_def by (rule rbox.flushes_deliver [OF assms(1,2)])
  show "fst (flushes (flushReplayRuns cfg post (takes_slices C) now) n (no_faults t))
      = map (ReplayRunUpdates \<circ> map replay_run_update) (take n (batches_of 499 (map parseReplayRunMetadata (unsynced_runs (jt_replay_runs t)))))"
    unfolding flushReplayRuns_def by (rule runbox.flushes_deliver [OF assms(1,3)])
  assume refused: "\<forall>ids. is_Inl (col_ids C ids)"
  have fetch: "FetchUnsyncedReplayResults reporterBatchSize (no_faults t)
      = (Inr (take 500 (unsent js_synced_at js_created_at (jt_replay_results t))), no_faults t)"
    by (rule rbox.fetch_ok [OF assms(2)])
  have "snd (MarkReplayResultsSynced C now ids (no_faults t)) = no_faults t" for ids
    unfolding MarkReplayResultsSynced_def by (rule rmark_refused) (use refused in blast)
  from flush_refused [where fetch = "FetchUnsyncedReplayResults reporterBatchSize"
      and mark = "MarkReplayResultsSynced C now" and send_body = "post_results cfg post ''/api/v1/steward/replay-results''", OF fetch assms(1) this]
  show "flushes (flushReplayResults cfg post C now) n (no_faults t)
      = ((if unsent js_synced_at js_created_at (jt_replay_results t) = [] then [] else replicate n
           (ReplayResultPayloads (map replay_result_payload (take 500 (unsent js_synced_at js_created_at (jt_replay_results t)))))), no_faults t)"
    by (simp add: flushReplayResults_def)
qed

text \<open>The scores of evaluations.\<close>

definition waiting_results :: "job_tables \<Rightarrow> EvalResult list" where
  "waiting_results t = unsent js_synced_at js_created_at (jt_eval_results t)"

definition waiting_scores :: "job_tables \<Rightarrow> EvalResultScore list" where
  "waiting_scores t = unsent es_synced_at es_created_at (jt_eval_scores t)"

lemma sent_scores:
  fixes R :: "EvalResult list" and S :: "EvalResultScore list"
  defines "ids \<equiv> map es_id (concat (map (\<lambda>res. scores_of S (js_id res)) R))"
  assumes "distinct (map es_id W)" "set S \<subseteq> set W"
  shows "filter (\<lambda>s. es_id s \<notin> set ids) W = filter (\<lambda>s. \<not> (s \<in> set S \<and> es_eval_result_id s \<in> js_id ` set R)) W"
proof (rule filter_cong [OF refl])
  fix s assume s: "s \<in> set W"
  have "inj_on es_id (set W)" using assms(2) by (simp add: distinct_map)
  then have eq: "s' = s" if "s' \<in> set S" "es_id s' = es_id s" for s'
    using that s assms(3) by (intro inj_onD [of es_id "set W"]) auto
  have "set ids = es_id ` {s' \<in> set S. es_eval_result_id s' \<in> js_id ` set R}"
    by (auto simp: ids_def scores_of_def)
  then have "es_id s \<in> set ids \<longleftrightarrow> (\<exists>s' \<in> set S. es_id s' = es_id s \<and> es_eval_result_id s' \<in> js_id ` set R)"
    by (auto simp: image_iff)
  then show "es_id s \<notin> set ids \<longleftrightarrow> \<not> (s \<in> set S \<and> es_eval_result_id s \<in> js_id ` set R)" using eq by blast
qed

text \<open>What a flush of the evaluation results leaves when Butler and the driver accept everything.\<close>

definition eval_flushed :: "time \<Rightarrow> job_tables \<Rightarrow> job_tables" where
  "eval_flushed now t = (let R = take 500 (waiting_results t); S = take 2000 (waiting_scores t) in
     t\<lparr>jt_eval_results := stamp js_id (\<lambda>r. r\<lparr>js_synced_at := Some now\<rparr>) (map js_id R) (jt_eval_results t),
       jt_eval_scores := stamp es_id (\<lambda>s. s\<lparr>es_synced_at := Some now\<rparr>)
         (map es_id (concat (map (\<lambda>res. scores_of S (js_id res)) R))) (jt_eval_scores t)\<rparr>)"

lemma flushEvalResults_run:
  assumes "\<And>path b. post_results cfg post path b = Inr ()" "waiting_results t \<noteq> []"
  shows "flushEvalResults cfg post (takes_slices C) now (no_faults t)
    = ([EvalResultPayloads (map (eval_result_payload (take 2000 (waiting_scores t))) (take 500 (waiting_results t)))],
       no_faults (eval_flushed now t))"
proof -
  let ?R = "take 500 (waiting_results t)" and ?S = "take 2000 (waiting_scores t)"
  let ?ids = "map es_id (concat (map (\<lambda>res. scores_of ?S (js_id res)) ?R))"
  let ?fr = "\<lambda>r :: EvalResult. r\<lparr>js_synced_at := Some now\<rparr>" and ?fs = "\<lambda>s :: EvalResultScore. s\<lparr>es_synced_at := Some now\<rparr>"
  define t1 where "t1 = t\<lparr>jt_eval_results := stamp js_id ?fr (map js_id ?R) (jt_eval_results t)\<rparr>"
  have t2: "eval_flushed now t = t1\<lparr>jt_eval_scores := stamp es_id ?fs ?ids (jt_eval_scores t1)\<rparr>"
    by (simp add: eval_flushed_def t1_def Let_def)
  have fetch: "FetchUnsyncedEvalResults reporterBatchSize (no_faults t) = (Inr ?R, no_faults t)"
    "FetchUnsyncedEvalResultScores (reporterBatchSize * 4) (no_faults t) = (Inr ?S, no_faults t)"
    by (simp_all add: FetchUnsyncedEvalResults_def FetchUnsyncedEvalResultScores_def rselect_id reporterBatchSize_def
        waiting_results_def waiting_scores_def)
  have ne: "map js_id ?R \<noteq> []" "?R \<noteq> []" using assms(2) by simp_all
  have m1: "snd (MarkEvalResultsSynced (takes_slices C) now (map js_id ?R) (no_faults t)) = no_faults t1"
    unfolding MarkEvalResultsSynced_def rmark_ok [OF ne(1)] t1_def by simp
  have m2: "(if ?ids = [] then no_faults t1 else snd (MarkEvalResultScoresSynced (takes_slices C) now ?ids (no_faults t1)))
      = no_faults (eval_flushed now t)"
  proof (cases "?ids = []")
    case True
    have "stamp es_id ?fs [] rows = rows" for rows by (simp add: stamp_def update_where_def)
    then show ?thesis unfolding t2 True by simp
  next
    case False
    show ?thesis unfolding if_not_P [OF False] MarkEvalResultScoresSynced_def rmark_ok [OF False] t2 by simp
  qed
  show ?thesis
    unfolding flushEvalResults_def fetch prod.case sum.case if_not_P [OF ne(2)] Let_def assms(1) m1 m2 by simp
qed

lemma eval_flushed_results:
  assumes "distinct (map js_id (jt_eval_results t))"
  shows "waiting_results (eval_flushed now t) = drop 500 (waiting_results t)"
    "js_id ` set (take 500 (waiting_results t)) \<inter> js_id ` set (drop 500 (waiting_results t)) = {}"
proof -
  have d: "distinct (map js_id (waiting_results t))" by (simp add: waiting_results_def distinct_unsent [OF assms])
  have "waiting_results (eval_flushed now t) = filter (\<lambda>r. js_id r \<notin> js_id ` set (take 500 (waiting_results t))) (waiting_results t)"
    unfolding eval_flushed_def Let_def waiting_results_def by (simp add: unsent_stamped)
  also have "\<dots> = drop 500 (waiting_results t)" by (rule drop_sent [OF d])
  finally show "waiting_results (eval_flushed now t) = drop 500 (waiting_results t)" .
  have "distinct (map js_id (take 500 (waiting_results t) @ drop 500 (waiting_results t)))" using d by simp
  then show "js_id ` set (take 500 (waiting_results t)) \<inter> js_id ` set (drop 500 (waiting_results t)) = {}"
    unfolding map_append distinct_append by simp
qed

lemma eval_flushed_scores:
  assumes "distinct (map es_id (jt_eval_scores t))"
  shows "waiting_scores (eval_flushed now t) = filter (\<lambda>s. \<not> (s \<in> set (take 2000 (waiting_scores t))
      \<and> es_eval_result_id s \<in> js_id ` set (take 500 (waiting_results t)))) (waiting_scores t)"
proof -
  let ?R = "take 500 (waiting_results t)" and ?S = "take 2000 (waiting_scores t)"
  have "waiting_scores (eval_flushed now t) = filter (\<lambda>s. es_id s \<notin> set (map es_id (concat (map (\<lambda>res. scores_of ?S (js_id res)) ?R)))) (waiting_scores t)"
    unfolding eval_flushed_def Let_def waiting_scores_def by (simp add: unsent_stamped)
  also have "\<dots> = filter (\<lambda>s. \<not> (s \<in> set ?S \<and> es_eval_result_id s \<in> js_id ` set ?R)) (waiting_scores t)"
    by (rule sent_scores) (simp_all add: waiting_scores_def distinct_unsent [OF assms] set_take_subset)
  finally show ?thesis .
qed


text \<open>A finished replay with its result, and an evaluation result with a score.\<close>

definition sample_result :: job_result where
  "sample_result = \<lparr>js_id = 21, js_run_id = 1, js_source_request_id = 11, js_original_provider = ''openai'',
     js_original_model = ''gpt-4o'', js_original_cost = 1, js_original_latency_ms = 5, js_original_input_tokens = 3,
     js_original_output_tokens = 4, js_replay_response = None, js_replay_cost = None, js_replay_latency_ms = None,
     js_replay_input_tokens = None, js_replay_output_tokens = None, js_error_message = None, js_created_at = 6,
     js_synced_at = None\<rparr>"

definition sample_score :: EvalResultScore where
  "sample_score = \<lparr>es_id = 31, es_eval_result_id = 21, es_evaluator_name = ''exact'', es_score = 1, es_reason = None,
     es_created_at = 7, es_synced_at = None\<rparr>"

definition sample_results :: job_tables where
  "sample_results = (sample_jobs [sample_replay 1 5])\<lparr>
     jt_replay_results := [job_result.extend sample_result (ReplayResult.fields None None None)],
     jt_eval_results := [sample_result], jt_eval_scores := [sample_score]\<rparr>"

definition accepting :: results_poster where
  "accepting url auth body = PostStatus 202"

lemma accepts: "post_results cfg accepting path b = Inr ()"
  by (simp add: post_results_def accepting_def)

lemma replay_results_once_witness:
  "fst (flushes (flushReplayResults sample_steward accepting sample_columns 9) 3 (no_faults sample_results))
    = [ReplayResultPayloads [replay_result_payload (job_result.extend sample_result (ReplayResult.fields None None None))]]"
proof -
  have 1: "distinct (map js_id (jt_replay_results sample_results))" "runs_before 9 (jt_replay_runs sample_results)"
    by (simp_all add: sample_results_def sample_jobs_def runs_before_def sample_replay_def sample_run_def job_run.defs)
  have 2: "takes_slices sample_columns = sample_columns" by (simp add: sample_columns_def)
  have 3: "unsent js_synced_at js_created_at (jt_replay_results sample_results) = [job_result.extend sample_result (ReplayResult.fields None None None)]"
    by (simp add: unsent_def sample_results_def sample_result_def job_result.defs)
  show ?thesis
    using replay_results_once [of sample_steward accepting sample_results 9 sample_columns 3, OF accepts 1] unfolding 2 3 by simp
qed


end
