(* ===== verification/Orgs.thy ===== *)
theory Orgs
  imports Work_Tick Proxy_Http
begin

text \<open>
  The organizations a steward works for: their registration (services/org_registration.go), the poller of a hosted
  steward (stewardclient/managed.go), their background workers (steward/workers.go) and the administration
  (api/admin_handler.go, with its token from server/server.go). Butler is a parameter, as in Key_Sync; where its
  answer is decoded here, it is the text of the body.
\<close>

section \<open>The worker manager\<close>

record orgWorkers =
  ow_reporter :: StewardConfig
  ow_results_reporter :: StewardConfig
  ow_work_ticker :: WorkTicker

text \<open>The configuration, the key of the secret store, what the tickers write with, and the running workers.\<close>

record WorkerManager =
  wm_upstream :: StewardConfig
  wm_key :: bytes
  wm_fmt_uuid :: "uuid \<Rightarrow> string"
  wm_columns :: columns
  wm_active :: "uuid \<rightharpoonup> orgWorkers"

definition org_config :: "StewardConfig \<Rightarrow> uuid \<Rightarrow> string \<Rightarrow> string \<Rightarrow> StewardConfig" where
  "org_config up orgID butlerURL token =
     up\<lparr>sc_org_id := orgID, sc_butler_base_url := butlerURL, sc_steward_token := token\<rparr>"

definition new_workers :: "WorkerManager \<Rightarrow> StewardConfig \<Rightarrow> orgWorkers" where
  "new_workers m cfg = \<lparr>ow_reporter = cfg, ow_results_reporter = cfg,
     ow_work_ticker = \<lparr>wt_cfg = cfg, wt_key_sync = True, wt_cloud_sync = Some (wm_key m), wt_provider_sync = Some (wm_key m),
        wt_experiment_sync = True, wt_fmt_uuid = wm_fmt_uuid m, wt_columns = wm_columns m\<rparr>\<rparr>"

text \<open>Running workers are left alone.\<close>

definition StartOrg :: "uuid \<Rightarrow> string \<Rightarrow> string \<Rightarrow> WorkerManager \<Rightarrow> (err + unit) \<times> WorkerManager" where
  "StartOrg orgID butlerURL plaintextToken m = (Inr (),
     if wm_active m orgID \<noteq> None then m
     else m\<lparr>wm_active := (wm_active m)(orgID \<mapsto> new_workers m (org_config (wm_upstream m) orgID butlerURL plaintextToken))\<rparr>)"

definition StopOrg :: "uuid \<Rightarrow> WorkerManager \<Rightarrow> WorkerManager" where
  "StopOrg orgID m = (if wm_active m orgID = None then m else m\<lparr>wm_active := (wm_active m)(orgID := None)\<rparr>)"

definition StopAll :: "WorkerManager \<Rightarrow> WorkerManager" where
  "StopAll m = m\<lparr>wm_active := Map.empty\<rparr>"

text \<open>An organization whose token does not decrypt or whose workers do not start is skipped.\<close>

fun load_orgs :: "RegisteredOrg list \<Rightarrow> WorkerManager \<Rightarrow> WorkerManager" where
  "load_orgs [] m = m"
| "load_orgs (org # orgs) m = load_orgs orgs (case Decrypt (wm_key m) (ro_token_encrypted org) of
     Inl e \<Rightarrow> m
   | Inr plaintext \<Rightarrow> snd (StartOrg (ro_org_id org) (ro_butler_url org) plaintext m))"

type_synonym steward_state = "RegisteredOrg list repo_db \<times> WorkerManager"

definition LoadFromDB :: "steward_state \<Rightarrow> (err + unit) \<times> steward_state" where
  "LoadFromDB st = (case st of (db, m) \<Rightarrow> (case ListRegisteredOrgs db of
     (Inl e, db') \<Rightarrow> (Inl (ErrWrap ''list registered orgs'' e), db', m)
   | (Inr orgs, db') \<Rightarrow> (Inr (), db', load_orgs orgs m)))"

section \<open>Registration\<close>

record meResponse =
  me_steward_id :: string
  me_org_id :: string
  me_org_name :: string

definition dec_me :: "meResponse dec" where
  "dec_me = dec_struct [
     (''steward_id'', fld me_steward_id me_steward_id_update dec_string),
     (''org_id'', fld me_org_id me_org_id_update dec_string),
     (''org_name'', fld me_org_name me_org_name_update dec_string)]"

definition trim_slashes :: "string \<Rightarrow> string" where
  "trim_slashes s = rev (dropWhile (\<lambda>c. c = CHR ''/'') (rev s))"

definition fetchMe :: "string fetcher \<Rightarrow> string \<Rightarrow> string \<Rightarrow> err + meResponse" where
  "fetchMe butler butlerURL token =
     (case butler (trim_slashes butlerURL @ ''/api/v1/steward/me'') (''Bearer '' @ token) of
        NoRequest e \<Rightarrow> Inl (ErrWrap ''build request'' e)
      | NoResponse e \<Rightarrow> Inl (ErrWrap ''call butler'' e)
      | Answer status body \<Rightarrow>
          if status \<noteq> 200 then Inl (ErrMsg (''butler returned '' @ itoa status @ '' ''
            @ [CHR 0xE2, CHR 0x80, CHR 0x94] @ '' check token and butler URL''))
          else (case body of
             Inl e \<Rightarrow> Inl (ErrWrap ''decode response'' e)
           | Inr text \<Rightarrow> (case decode_stream dec_me text \<lparr>me_steward_id = [], me_org_id = [], me_org_name = []\<rparr> of
                Inl e \<Rightarrow> Inl (ErrWrap ''decode response'' e) | Inr me \<Rightarrow> Inr me)))"

definition token_format :: "string \<Rightarrow> bool" where
  "token_format token = (has_prefix token ''mdm_st_'' \<and> length ''mdm_st_'' < length token)"

definition svc_RegisterOrg :: "string fetcher \<Rightarrow> (string \<Rightarrow> uuid option) \<Rightarrow> err + bytes \<Rightarrow> time \<Rightarrow> string \<Rightarrow> string
    \<Rightarrow> steward_state \<Rightarrow> (err + uuid \<times> string) \<times> steward_state" where
  "svc_RegisterOrg butler parse rnd now butlerURL token st = (case st of (db, m) \<Rightarrow>
     if \<not> token_format token then (Inl ErrInvalidTokenFormat, db, m)
     else (case fetchMe butler butlerURL token of
        Inl e \<Rightarrow> (Inl (ErrBoth ErrButlerValidation e), db, m)
      | Inr me \<Rightarrow> (case parse (me_org_id me) of
           None \<Rightarrow> (Inl (ErrWrap ''butler returned invalid org_id'' (ErrMsg ''invalid UUID'')), db, m)
         | Some orgID \<Rightarrow> (case Encrypt (wm_key m) rnd token of
              Inl e \<Rightarrow> (Inl (ErrWrap ''encrypt token'' e), db, m)
            | Inr encrypted \<Rightarrow> (case RegisterOrg now orgID (me_org_name me) butlerURL encrypted db of
                 (Inl e, db') \<Rightarrow> (Inl (ErrWrap ''store registration'' e), db', m)
               | (Inr _, db') \<Rightarrow> (case StartOrg orgID butlerURL token m of
                    (Inl e, m') \<Rightarrow> (Inl (ErrWrap ''start org workers'' e), db', m')
                  | (Inr _, m') \<Rightarrow> (Inr (orgID, me_org_name me), db', m')))))))"

section \<open>Managed assignments\<close>

record pendingAssignment =
  pa_id :: uuid
  pa_org_id :: uuid
  pa_org_name :: string
  pa_token :: string

text \<open>The poller: Butler without trailing slashes and the token of the hosted steward.\<close>

record ManagedOrgPoller =
  mp_butler_url :: string
  mp_token :: string

definition NewManagedOrgPoller :: "string \<Rightarrow> string \<Rightarrow> ManagedOrgPoller" where
  "NewManagedOrgPoller butlerURL masterToken = \<lparr>mp_butler_url = trim_slashes butlerURL, mp_token = masterToken\<rparr>"

definition fetchPending :: "ManagedOrgPoller \<Rightarrow> pendingAssignment list fetcher \<Rightarrow> err + pendingAssignment list" where
  "fetchPending P butler = butler_get ''get pending'' (butler (mp_butler_url P @ ''/api/v1/steward/managed/pending'') (''Bearer '' @ mp_token P))"

text \<open>The POST of a claim; its failure is only logged.\<close>

definition claim_url :: "ManagedOrgPoller \<Rightarrow> (uuid \<Rightarrow> string) \<Rightarrow> uuid \<Rightarrow> string" where
  "claim_url P fmt assignmentID = mp_butler_url P @ ''/api/v1/steward/managed/assignments/'' @ fmt assignmentID @ ''/claim''"

text \<open>The result, the claims that were posted and the state.\<close>

definition handleAssignment :: "ManagedOrgPoller \<Rightarrow> err + bytes \<Rightarrow> time \<Rightarrow> pendingAssignment \<Rightarrow> steward_state
    \<Rightarrow> (err + unit) \<times> string list \<times> steward_state" where
  "handleAssignment P rnd now a st = (case st of (db, m) \<Rightarrow>
     (case Encrypt (wm_key m) rnd (pa_token a) of
        Inl e \<Rightarrow> (Inl (ErrWrap ''encrypt token'' e), [], db, m)
      | Inr encrypted \<Rightarrow> (case RegisterOrg now (pa_org_id a) (pa_org_name a) (mp_butler_url P) encrypted db of
           (Inl e, db') \<Rightarrow> (Inl (ErrWrap ''register org locally'' e), [], db', m)
         | (Inr _, db') \<Rightarrow> (case StartOrg (pa_org_id a) (mp_butler_url P) (pa_token a) m of
              (Inl e, m') \<Rightarrow> (Inl (ErrWrap ''start org workers'' e), [], db', m')
            | (Inr _, m') \<Rightarrow> (Inr (), [claim_url P (wm_fmt_uuid m) (pa_id a)], db', m')))))"

fun handle_assignments :: "ManagedOrgPoller \<Rightarrow> (nat \<Rightarrow> err + bytes) \<Rightarrow> time \<Rightarrow> nat \<Rightarrow> pendingAssignment list \<Rightarrow> steward_state
    \<Rightarrow> string list \<times> steward_state" where
  "handle_assignments P rnd now i [] st = ([], st)"
| "handle_assignments P rnd now i (a # rest) st = (case handleAssignment P (rnd i) now a st of
     (_, claims, st') \<Rightarrow> (case handle_assignments P rnd now (Suc i) rest st' of (claims', st'') \<Rightarrow> (claims @ claims', st'')))"

definition poll :: "ManagedOrgPoller \<Rightarrow> pendingAssignment list fetcher \<Rightarrow> (nat \<Rightarrow> err + bytes) \<Rightarrow> time \<Rightarrow> steward_state
    \<Rightarrow> string list \<times> steward_state" where
  "poll P butler rnd now st = (case fetchPending P butler of
     Inl e \<Rightarrow> ([], st) | Inr assignments \<Rightarrow> handle_assignments P rnd now 0 assignments st)"

section \<open>Administration\<close>

text \<open>The token of the administration: the answer of the middleware, or None for a request it lets through.\<close>

definition adminAuth :: "string \<Rightarrow> string \<Rightarrow> reply option" where
  "adminAuth token auth =
     (if auth = [] then Some (WriteJSONError 401 ''admin token required'')
      else if \<not> has_prefix auth ''Bearer '' \<or> TrimSpace (drop (length ''Bearer '') auth) \<noteq> token
        then Some (WriteJSONError 403 ''invalid admin token'')
      else None)"

definition org_status :: "codec \<Rightarrow> RegisteredOrg \<Rightarrow> int \<Rightarrow> json" where
  "org_status K org n = JObj [
     (''org_id'', enc_string (fmt_uuid K (ro_org_id org))), (''name'', enc_string (ro_name org)),
     (''butler_url'', enc_string (ro_butler_url org)), (''pending_count'', enc_int n),
     (''registered_at'', enc_string (fmt_time K (ro_created_at org)))]"

text \<open>A count that fails is zero.\<close>

fun org_statuses :: "codec \<Rightarrow> RegisteredOrg list \<Rightarrow> log_tables repo_db \<Rightarrow> json list \<times> log_tables repo_db" where
  "org_statuses K [] db = ([], db)"
| "org_statuses K (org # orgs) db = (case CountUnsyncedRecords (ro_org_id org) db of (r, db1) \<Rightarrow>
     (case org_statuses K orgs db1 of (js, db2) \<Rightarrow>
        (org_status K org (case r of Inl e \<Rightarrow> 0 | Inr n \<Rightarrow> int n) # js, db2)))"

definition HandleListOrgs :: "codec \<Rightarrow> log_tables repo_db \<Rightarrow> steward_state \<Rightarrow> reply \<times> log_tables repo_db \<times> steward_state" where
  "HandleListOrgs K logs st = (case st of (db, m) \<Rightarrow> (case ListRegisteredOrgs db of
     (Inl e, db') \<Rightarrow> (WriteJSONError 500 ''failed to list orgs'', logs, db', m)
   | (Inr orgs, db') \<Rightarrow> (case org_statuses K orgs logs of (js, logs') \<Rightarrow> (WriteJSON 200 (JArr js), logs', db', m))))"

record registerOrgRequest =
  ror_token :: string
  ror_butler_url :: string

definition dec_register_org :: "registerOrgRequest dec" where
  "dec_register_org = dec_struct [
     (''token'', fld ror_token ror_token_update dec_string),
     (''butler_url'', fld ror_butler_url ror_butler_url_update dec_string)]"

definition register_error :: "err \<Rightarrow> reply" where
  "register_error e =
     (if errors_is e ErrInvalidTokenFormat then WriteJSONError 400 ''invalid token format: must start with mdm_st_''
      else if errors_is e ErrButlerValidation then WriteJSONError 502 ''failed to validate token with butler''
      else WriteJSONError 500 ''failed to register org'')"

definition HandleRegisterOrg :: "codec \<Rightarrow> string fetcher \<Rightarrow> err + bytes \<Rightarrow> time \<Rightarrow> string \<Rightarrow> steward_state \<Rightarrow> reply \<times> steward_state" where
  "HandleRegisterOrg K butler rnd now body st =
     (case decode_stream dec_register_org body \<lparr>ror_token = [], ror_butler_url = []\<rparr> of
        Inl e \<Rightarrow> (WriteJSONError 400 ''invalid JSON payload'', st)
      | Inr req \<Rightarrow>
          if ror_token req = [] \<or> ror_butler_url req = [] then (WriteJSONError 400 ''token and butler_url are required'', st)
          else (case svc_RegisterOrg butler (parse_uuid K) rnd now (ror_butler_url req) (ror_token req) st of
             (Inl e, st') \<Rightarrow> (register_error e, st')
           | (Inr (orgID, orgName), st') \<Rightarrow> (WriteJSON 201 (JObj [(''org_id'', enc_string (fmt_uuid K orgID)),
                (''org_name'', enc_string orgName)]), st')))"

definition HandleDeregisterOrg :: "codec \<Rightarrow> string \<Rightarrow> steward_state \<Rightarrow> reply \<times> steward_state" where
  "HandleDeregisterOrg K idText st = (case st of (db, m) \<Rightarrow> (case parse_uuid K idText of
     None \<Rightarrow> (WriteJSONError 400 ''invalid org_id'', db, m)
   | Some orgID \<Rightarrow>
       let m' = StopOrg orgID m in
       (case RemoveRegisteredOrg orgID db of
          (Inl e, db') \<Rightarrow> (WriteJSONError 500 ''failed to deregister org'', db', m')
        | (Inr _, db') \<Rightarrow> (WriteJSON 204 JNull, db', m'))))"

section \<open>The life of the organizations\<close>

text \<open>Registrations, assignments and deregistrations in any order, restarts, and statements that fail.\<close>

inductive org_step :: "steward_state \<Rightarrow> steward_state \<Rightarrow> bool" where
  registers: "svc_RegisterOrg butler parse rnd now butlerURL token st = (r, st') \<Longrightarrow> org_step st st'"
| assigned: "handleAssignment P rnd now a st = (r, claims, st') \<Longrightarrow> org_step st st'"
| deregisters: "HandleDeregisterOrg K idText st = (r, st') \<Longrightarrow> org_step st st'"
| restarts: "LoadFromDB (db, StopAll m) = (r, st') \<Longrightarrow> org_step (db, m) st'"
| faulty: "org_step (db, m) (db\<lparr>rdb_faults := fs\<rparr>, m)"

text \<open>Workers run for registered organizations only and each under its own identifier, and every stored token
  decrypts.\<close>

definition workers_ok :: "WorkerManager \<Rightarrow> RegisteredOrg list \<Rightarrow> bool" where
  "workers_ok m rows = (\<forall>org w. wm_active m org = Some w \<longrightarrow> org \<in> ro_org_id ` set rows
     \<and> (\<exists>url tok. w = new_workers m (org_config (wm_upstream m) org url tok)))"

definition tokens_ok :: "bytes \<Rightarrow> RegisteredOrg list \<Rightarrow> bool" where
  "tokens_ok key rows = (distinct (map ro_org_id rows) \<and> (\<forall>row \<in> set rows. \<exists>tok. Decrypt key (ro_token_encrypted row) = Inr tok))"

definition org_inv :: "steward_state \<Rightarrow> bool" where
  "org_inv st = (workers_ok (snd st) (rdb_tables (fst st)) \<and> tokens_ok (wm_key (snd st)) (rdb_tables (fst st)))"

section \<open>Facts\<close>

lemma StartOrg_simps:
  "fst (StartOrg orgID url tok m) = Inr ()"
  "wm_upstream (snd (StartOrg orgID url tok m)) = wm_upstream m" "wm_key (snd (StartOrg orgID url tok m)) = wm_key m"
  "new_workers (snd (StartOrg orgID url tok m)) = new_workers m"
  "wm_active (snd (StartOrg orgID url tok m)) org = (if org = orgID \<and> wm_active m orgID = None
     then Some (new_workers m (org_config (wm_upstream m) orgID url tok)) else wm_active m org)"
  by (auto simp: StartOrg_def new_workers_def)

lemma StopOrg_simps:
  "wm_upstream (StopOrg orgID m) = wm_upstream m" "wm_key (StopOrg orgID m) = wm_key m"
  "new_workers (StopOrg orgID m) = new_workers m"
  "wm_active (StopOrg orgID m) org = (if org = orgID then None else wm_active m org)"
  by (auto simp: StopOrg_def new_workers_def)

lemma load_orgs_keeps:
  "wm_upstream (load_orgs orgs m) = wm_upstream m" "wm_key (load_orgs orgs m) = wm_key m"
  "new_workers (load_orgs orgs m) = new_workers m"
  by (induction orgs arbitrary: m) (simp_all add: StartOrg_simps split: sum.split)

text \<open>Loading starts the first registration of every organization that is not running.\<close>

lemma load_orgs_other: "org \<notin> ro_org_id ` set orgs \<Longrightarrow> wm_active (load_orgs orgs m) org = wm_active m org"
  by (induction orgs arbitrary: m) (simp_all add: StartOrg_simps split: sum.split)

lemma load_orgs_starts:
  assumes "distinct (map ro_org_id orgs)" "row \<in> set orgs" "Decrypt (wm_key m) (ro_token_encrypted row) = Inr tok"
    "wm_active m (ro_org_id row) = None"
  shows "wm_active (load_orgs orgs m) (ro_org_id row)
    = Some (new_workers m (org_config (wm_upstream m) (ro_org_id row) (ro_butler_url row) tok))"
  using assms
proof (induction orgs arbitrary: m)
  case (Cons org orgs)
  let ?m = "case Decrypt (wm_key m) (ro_token_encrypted org) of Inl e \<Rightarrow> m
    | Inr plaintext \<Rightarrow> snd (StartOrg (ro_org_id org) (ro_butler_url org) plaintext m)"
  show ?case
  proof (cases "row = org")
    case True
    then have "ro_org_id row \<notin> ro_org_id ` set orgs" using Cons.prems(1) by simp
    then show ?thesis using Cons.prems(3,4) True by (simp add: load_orgs_other StartOrg_simps)
  next
    case False
    then have r1: "row \<in> set orgs" using Cons.prems(2) by simp
    have r2: "ro_org_id row \<noteq> ro_org_id org"
    proof
      assume "ro_org_id row = ro_org_id org"
      moreover have "ro_org_id row \<in> ro_org_id ` set orgs" using r1 by (rule imageI)
      ultimately show False using Cons.prems(1) by simp
    qed
    note r = r1 r2
    have m: "wm_key ?m = wm_key m" "wm_upstream ?m = wm_upstream m" "new_workers ?m = new_workers m"
      "wm_active ?m (ro_org_id row) = wm_active m (ro_org_id row)"
      using r(2) by (simp_all add: StartOrg_simps split: sum.split)
    show ?thesis using Cons.IH [of ?m] Cons.prems r(1) by (simp add: m)
  qed
qed simp

lemma load_orgs_workers:
  "workers_ok m rows \<Longrightarrow> ro_org_id ` set orgs \<subseteq> ro_org_id ` set rows \<Longrightarrow> workers_ok (load_orgs orgs m) rows"
proof (induction orgs arbitrary: m)
  case (Cons org orgs)
  have "workers_ok (case Decrypt (wm_key m) (ro_token_encrypted org) of Inl e \<Rightarrow> m
      | Inr tok \<Rightarrow> snd (StartOrg (ro_org_id org) (ro_butler_url org) tok m)) rows"
  proof (cases "Decrypt (wm_key m) (ro_token_encrypted org)")
    case (Inr tok)
    then show ?thesis using Cons.prems unfolding workers_ok_def
      by (simp add: StartOrg_simps) blast
  qed (use Cons.prems in simp)
  then show ?case using Cons by simp
qed simp

text \<open>The statements on the registrations.\<close>

definition merge_org :: "RegisteredOrg \<Rightarrow> RegisteredOrg \<Rightarrow> RegisteredOrg" where
  "merge_org old new = new\<lparr>ro_created_at := ro_created_at old\<rparr>"

definition new_org :: "time \<Rightarrow> uuid \<Rightarrow> string \<Rightarrow> string \<Rightarrow> string \<Rightarrow> RegisteredOrg" where
  "new_org now orgID nm url enc = \<lparr>ro_org_id = orgID, ro_name = nm, ro_butler_url = url, ro_token_encrypted = enc, ro_created_at = now\<rparr>"

lemma RegisterOrg_run:
  "RegisterOrg now orgID nm url enc db = (r, db') \<Longrightarrow> rdb_tables db' = (case r of
     Inl e \<Rightarrow> rdb_tables db
   | Inr _ \<Rightarrow> upsert ro_org_id merge_org (new_org now orgID nm url enc) (rdb_tables db))"
  unfolding RegisterOrg_def merge_org_def new_org_def
  by (cases r) (auto elim!: rwrap_InlE dest!: rwrap_InrE rexec_InlD rexec_InrD)

lemma RemoveRegisteredOrg_run:
  "RemoveRegisteredOrg orgID db = (r, db') \<Longrightarrow> rdb_tables db' = (case r of
     Inl e \<Rightarrow> rdb_tables db | Inr _ \<Rightarrow> filter (\<lambda>row. ro_org_id row \<noteq> orgID) (rdb_tables db))"
  unfolding RemoveRegisteredOrg_def
  by (cases r) (auto elim!: rwrap_InlE dest!: rwrap_InrE rexec_InlD rexec_InrD simp: delete_where_def)

lemma ListRegisteredOrgs_run:
  assumes "ListRegisteredOrgs db = (r, db')"
  shows "rdb_tables db' = rdb_tables db \<and> (\<forall>orgs. r = Inr orgs \<longrightarrow> orgs = sort_key ro_created_at (rdb_tables db))"
proof -
  obtain r1 db1 where 1: "rquery (sort_key ro_created_at) db = (r1, db1)" by fastforce
  obtain r2 db2 where 2: "rquery (\<lambda>_. ()) db1 = (r2, db2)" by fastforce
  have t: "rdb_tables db1 = rdb_tables db" "rdb_tables db2 = rdb_tables db1"
    using rquery_tables [of "sort_key ro_created_at" db] rquery_tables [of "\<lambda>_. ()" db1] 1 2 by simp_all
  show ?thesis using assms 1 2 t rquery_InrD [of "sort_key ro_created_at" db _ db1]
    by (cases r1; cases r2) (auto simp: ListRegisteredOrgs_def rbind_def rwrap_def rreturn_def)
qed

lemma merge_org_simps: "ro_org_id (merge_org old new) = ro_org_id new" "ro_token_encrypted (merge_org old new) = ro_token_encrypted new"
  "ro_butler_url (merge_org old new) = ro_butler_url new" "ro_name (merge_org old new) = ro_name new"
  by (simp_all add: merge_org_def)

lemma registered_ok:
  assumes "tokens_ok key rows" "Decrypt key enc = Inr tok"
  shows "tokens_ok key (upsert ro_org_id merge_org (new_org now orgID nm url enc) rows)"
  using assms upsert_distinct [of ro_org_id merge_org rows "new_org now orgID nm url enc"]
  unfolding tokens_ok_def
  by (auto simp: merge_org_simps new_org_def dest!: upsert_set)

lemma registered_ids:
  "ro_org_id ` set (upsert ro_org_id merge_org (new_org now orgID nm url enc) rows) = insert orgID (ro_org_id ` set rows)"
  using upsert_keys [of ro_org_id merge_org "new_org now orgID nm url enc" rows] by (simp add: merge_org_simps new_org_def)

lemma started_ok:
  assumes "workers_ok m rows" "orgID \<in> ro_org_id ` set rows'" "ro_org_id ` set rows \<subseteq> ro_org_id ` set rows'"
  shows "workers_ok (snd (StartOrg orgID url tok m)) rows'"
  using assms unfolding workers_ok_def by (simp add: StartOrg_simps) blast

lemma svc_RegisterOrg_run:
  assumes "svc_RegisterOrg butler parse rnd now url token (db, m) = (r, db', m')"
  shows "case r of
      Inl e \<Rightarrow> m' = m \<and> rdb_tables db' = rdb_tables db
    | Inr (orgID, nm) \<Rightarrow> token_format token
        \<and> (\<exists>me. fetchMe butler url token = Inr me \<and> parse (me_org_id me) = Some orgID \<and> nm = me_org_name me)
        \<and> (\<exists>enc. Decrypt (wm_key m) enc = Inr token
            \<and> rdb_tables db' = upsert ro_org_id merge_org (new_org now orgID nm url enc) (rdb_tables db))
        \<and> m' = snd (StartOrg orgID url token m)"
proof (cases "token_format token \<and> (\<exists>me orgID enc. fetchMe butler url token = Inr me \<and> parse (me_org_id me) = Some orgID
    \<and> Encrypt (wm_key m) rnd token = Inr enc)")
  case False
  then show ?thesis using assms
    by (auto simp: svc_RegisterOrg_def split: if_splits sum.splits option.splits)
next
  case True
  then obtain me orgID enc where ok: "token_format token" "fetchMe butler url token = Inr me" "parse (me_org_id me) = Some orgID"
    "Encrypt (wm_key m) rnd token = Inr enc" by blast
  obtain r1 db1 where 1: "RegisterOrg now orgID (me_org_name me) url enc db = (r1, db1)" by fastforce
  obtain m1 where 2: "StartOrg orgID url token m = (Inr (), m1)" by (simp add: StartOrg_def)
  show ?thesis using assms ok 1 2 RegisterOrg_run [OF 1] aes.decrypt_encrypt [OF ok(4)]
    by (cases r1) (auto simp: svc_RegisterOrg_def)
qed

lemma handleAssignment_run:
  assumes "handleAssignment P rnd now a (db, m) = (r, claims, db', m')"
  shows "case r of
      Inl e \<Rightarrow> claims = [] \<and> m' = m \<and> rdb_tables db' = rdb_tables db
    | Inr _ \<Rightarrow> (\<exists>enc. Decrypt (wm_key m) enc = Inr (pa_token a)
        \<and> rdb_tables db' = upsert ro_org_id merge_org (new_org now (pa_org_id a) (pa_org_name a) (mp_butler_url P) enc) (rdb_tables db))
        \<and> m' = snd (StartOrg (pa_org_id a) (mp_butler_url P) (pa_token a) m)"
proof (cases "Encrypt (wm_key m) rnd (pa_token a)")
  case (Inr enc)
  obtain r1 db1 where 1: "RegisterOrg now (pa_org_id a) (pa_org_name a) (mp_butler_url P) enc db = (r1, db1)" by fastforce
  obtain m1 where 2: "StartOrg (pa_org_id a) (mp_butler_url P) (pa_token a) m = (Inr (), m1)" by (simp add: StartOrg_def)
  show ?thesis using assms Inr 1 2 RegisterOrg_run [OF 1] aes.decrypt_encrypt [OF Inr]
    by (cases r1) (auto simp: handleAssignment_def)
qed (use assms in \<open>auto simp: handleAssignment_def\<close>)

text \<open>A registration keeps the invariant, wherever it comes from.\<close>

lemma registration_inv:
  assumes "org_inv (db, m)" "Decrypt (wm_key m) enc = Inr tok"
    "rdb_tables db' = upsert ro_org_id merge_org (new_org now orgID nm url enc) (rdb_tables db)"
  shows "org_inv (db', snd (StartOrg orgID url tok m))"
  using assms started_ok [of m "rdb_tables db" orgID "rdb_tables db'" url tok] registered_ok [of "wm_key m" "rdb_tables db" enc tok]
  by (simp add: org_inv_def registered_ids StartOrg_simps subset_insertI)

lemma deregister_inv:
  assumes "org_inv (db, m)" "HandleDeregisterOrg K idText (db, m) = (r, st')"
  shows "org_inv st'"
proof (cases "parse_uuid K idText")
  case None
  then show ?thesis using assms by (simp add: HandleDeregisterOrg_def)
next
  case (Some orgID)
  obtain r1 db1 where 1: "RemoveRegisteredOrg orgID db = (r1, db1)" by fastforce
  have st: "st' = (db1, StopOrg orgID m)" using assms(2) Some 1
    by (cases r1) (auto simp: HandleDeregisterOrg_def Let_def)
  have "workers_ok (StopOrg orgID m) (rdb_tables db1)"
    using assms(1) RemoveRegisteredOrg_run [OF 1] unfolding org_inv_def workers_ok_def
    by (auto simp: StopOrg_simps image_iff split: sum.splits)
  moreover have "tokens_ok (wm_key m) (rdb_tables db1)"
    using assms(1) RemoveRegisteredOrg_run [OF 1] unfolding org_inv_def tokens_ok_def
    by (auto simp: distinct_map_filter split: sum.splits)
  ultimately show ?thesis by (simp add: st org_inv_def StopOrg_simps)
qed

lemma restart_run:
  assumes "LoadFromDB (db, StopAll m) = (r, db', m')"
  shows "rdb_tables db' = rdb_tables db \<and> (case r of Inl e \<Rightarrow> m' = StopAll m
    | Inr _ \<Rightarrow> m' = load_orgs (sort_key ro_created_at (rdb_tables db)) (StopAll m))"
proof -
  obtain r1 db1 where "ListRegisteredOrgs db = (r1, db1)" by fastforce
  then show ?thesis using assms ListRegisteredOrgs_run [of db r1 db1] by (cases r1) (auto simp: LoadFromDB_def)
qed

lemma StopAll_ok: "workers_ok (StopAll m) rows" "wm_key (StopAll m) = wm_key m" "wm_upstream (StopAll m) = wm_upstream m"
  "new_workers (StopAll m) = new_workers m" "wm_active (StopAll m) org = None"
  by (auto simp: workers_ok_def StopAll_def new_workers_def)

lemma org_step_keeps: "org_step st st' \<Longrightarrow> org_inv st \<Longrightarrow> org_inv st'"
proof (induction rule: org_step.induct)
  case (registers butler parse rnd now butlerURL token st r st')
  obtain db m db' m' where st: "st = (db, m)" "st' = (db', m')" by (meson surj_pair)
  show ?case using svc_RegisterOrg_run [OF registers(1) [unfolded st]] registers(2) registration_inv [of db m]
    unfolding st by (auto simp: org_inv_def split: sum.splits)
next
  case (assigned P rnd now a st r claims st')
  obtain db m db' m' where st: "st = (db, m)" "st' = (db', m')" by (meson surj_pair)
  show ?case using handleAssignment_run [OF assigned(1) [unfolded st]] assigned(2) registration_inv [of db m]
    unfolding st by (auto simp: org_inv_def split: sum.splits)
next
  case (deregisters K idText st r st')
  then show ?case using deregister_inv by (cases st) blast
next
  case (restarts db m r st')
  obtain db' m' where st: "st' = (db', m')" by (meson surj_pair)
  show ?case using restart_run [OF restarts(1) [unfolded st]] restarts(2) StopAll_ok [of m]
      load_orgs_workers [of "StopAll m" "rdb_tables db" "sort_key ro_created_at (rdb_tables db)"]
    by (auto simp: st org_inv_def load_orgs_keeps split: sum.splits)
qed (simp add: org_inv_def)

section \<open>Properties\<close>


text \<open>C38: What a registration does. An answer 201 means that the token has the format, that Butler accepted it and
  named the organization, that the registration is stored under the given URL with a ciphertext of the token, and
  that its workers run; but workers that were running before keep their old URL and token until a restart. Every
  other answer (400 for the payload or the format, 502 when Butler does not confirm, 500 otherwise) leaves the
  registrations and the workers as they were.\<close>

theorem registration_effect:
  assumes "HandleRegisterOrg K butler rnd now body (db, m) = (rep, db', m')"
  shows "rp_status rep \<in> {201, 400, 500, 502}
    \<and> (rp_status rep \<noteq> 201 \<longrightarrow> m' = m \<and> rdb_tables db' = rdb_tables db)
    \<and> (rp_status rep = 201 \<longrightarrow> (\<exists>req me orgID row.
          decode_stream dec_register_org body \<lparr>ror_token = [], ror_butler_url = []\<rparr> = Inr req
        \<and> token_format (ror_token req) \<and> fetchMe butler (ror_butler_url req) (ror_token req) = Inr me
        \<and> parse_uuid K (me_org_id me) = Some orgID
        \<and> find_row (\<lambda>r. ro_org_id r = orgID) (rdb_tables db') = Some row
        \<and> ro_butler_url row = ror_butler_url req \<and> ro_name row = me_org_name me
        \<and> Decrypt (wm_key m) (ro_token_encrypted row) = Inr (ror_token req)
        \<and> wm_active m' orgID = Some (case wm_active m orgID of
             Some w \<Rightarrow> w
           | None \<Rightarrow> new_workers m (org_config (wm_upstream m) orgID (ror_butler_url req) (ror_token req)))))"
proof (cases "decode_stream dec_register_org body \<lparr>ror_token = [], ror_butler_url = []\<rparr>")
  case (Inl e)
  then show ?thesis using assms by (auto simp: HandleRegisterOrg_def WriteJSONError_def WriteJSON_def)
next
  case (Inr req)
  show ?thesis
  proof (cases "ror_token req = [] \<or> ror_butler_url req = []")
    case True
    then show ?thesis using assms Inr by (auto simp: HandleRegisterOrg_def WriteJSONError_def WriteJSON_def)
  next
    case False
    obtain r db1 m1 where svc: "svc_RegisterOrg butler (parse_uuid K) rnd now (ror_butler_url req) (ror_token req) (db, m) = (r, db1, m1)"
      by (cases "svc_RegisterOrg butler (parse_uuid K) rnd now (ror_butler_url req) (ror_token req) (db, m)") auto
    note run = svc_RegisterOrg_run [OF svc]
    show ?thesis
    proof (cases r)
      case Inl1: (Inl e)
      then have "rep = register_error e" "db' = db1" "m' = m1" using assms Inr False svc by (auto simp: HandleRegisterOrg_def)
      then show ?thesis using run Inl1 by (auto simp: register_error_def WriteJSONError_def WriteJSON_def)
    next
      case Inr1: (Inr v)
      obtain orgID nm where v: "v = (orgID, nm)" by (cases v)
      have rep: "rp_status rep = 201" "db' = db1" "m' = m1"
        using assms Inr False svc Inr1 v by (auto simp: HandleRegisterOrg_def WriteJSON_def)
      obtain me enc where me: "token_format (ror_token req)" "fetchMe butler (ror_butler_url req) (ror_token req) = Inr me"
          "parse_uuid K (me_org_id me) = Some orgID" "nm = me_org_name me"
        and enc: "Decrypt (wm_key m) enc = Inr (ror_token req)"
          "rdb_tables db' = upsert ro_org_id merge_org (new_org now orgID nm (ror_butler_url req) enc) (rdb_tables db)"
        and m': "m' = snd (StartOrg orgID (ror_butler_url req) (ror_token req) m)"
        using run Inr1 v rep by auto
      have id: "ro_org_id (new_org now orgID nm url enc) = orgID" for url by (simp add: new_org_def)
      obtain row where row: "find_row (\<lambda>r. ro_org_id r = orgID) (rdb_tables db') = Some row"
          "ro_butler_url row = ror_butler_url req" "ro_name row = me_org_name me" "ro_token_encrypted row = enc"
        using upsert_find_same [of ro_org_id merge_org "new_org now orgID nm (ror_butler_url req) enc" "rdb_tables db", unfolded id]
        unfolding enc(2) find_row_def by (auto simp: merge_org_simps new_org_def me(4) split: option.splits)
      have "wm_active m' orgID = Some (case wm_active m orgID of
             Some w \<Rightarrow> w
           | None \<Rightarrow> new_workers m (org_config (wm_upstream m) orgID (ror_butler_url req) (ror_token req)))"
        by (simp add: m' StartOrg_simps split: option.split)
      then show ?thesis using rep(1) Inr me row enc(1) by (auto simp: WriteJSON_def)
    qed
  qed
qed

text \<open>A deregistration always stops the workers; a registration whose removal fails is there again at the next start.\<close>

lemma deregistration_effect:
  assumes "HandleDeregisterOrg K idText (db, m) = (rep, db', m')" "parse_uuid K idText = Some orgID"
  shows "wm_active m' orgID = None
    \<and> rdb_tables db' = (if rp_status rep = 204 then filter (\<lambda>row. ro_org_id row \<noteq> orgID) (rdb_tables db) else rdb_tables db)"
proof -
  obtain r1 db1 where 1: "RemoveRegisteredOrg orgID db = (r1, db1)" by fastforce
  show ?thesis using assms 1 RemoveRegisteredOrg_run [OF 1]
    by (cases r1) (auto simp: HandleDeregisterOrg_def Let_def StopOrg_simps WriteJSON_def WriteJSONError_def)
qed

text \<open>The administration is for those who know the token.\<close>

lemma admin_only: "adminAuth token auth = None \<longleftrightarrow>
  (\<exists>given. auth = ''Bearer '' @ given \<and> TrimSpace given = token)"
  by (auto simp: adminAuth_def has_prefix_iff)

text \<open>A registration, and another one of the same organization with a new token.\<close>

definition sample_key :: bytes where "sample_key = replicate 32 (CHR ''A'')"

definition sample_manager :: WorkerManager where
  "sample_manager = \<lparr>wm_upstream = sample_steward, wm_key = sample_key, wm_fmt_uuid = (\<lambda>u. itoa (uint u)),
     wm_columns = sample_columns, wm_active = Map.empty\<rparr>"

definition sample_codec :: codec where
  "sample_codec = \<lparr>parse_uuid = (\<lambda>s. if s = ''7'' then Some 7 else None), fmt_uuid = (\<lambda>u. itoa (uint u)),
     fmt_time = itoa, fmt_seconds = itoa\<rparr>"

definition sample_me :: "string fetcher" where
  "sample_me url auth = Answer 200 (Inr (''{'' @ [CHR 0x22] @ ''org_id'' @ [CHR 0x22, CHR '':'', CHR 0x22] @ ''7'' @ [CHR 0x22] @ ''}''))"

lemma sample_fetch_me: "fetchMe sample_me ''https://b'' ''mdm_st_x'' = Inr \<lparr>me_steward_id = [], me_org_id = ''7'', me_org_name = []\<rparr>"
  by code_simp

definition sample_registration :: string where
  "sample_registration = (let q = [CHR 0x22] in ''{'' @ q @ ''token'' @ q @ '':'' @ q @ ''mdm_st_x'' @ q @ '','' @ q @ ''butler_url'' @ q @ '':''
     @ q @ ''https://b'' @ q @ ''}'')"

lemma sample_decoded: "decode_stream dec_register_org sample_registration \<lparr>ror_token = [], ror_butler_url = []\<rparr>
    = Inr \<lparr>ror_token = ''mdm_st_x'', ror_butler_url = ''https://b''\<rparr>"
  by code_simp

lemma sample_encrypts: "\<exists>c. Encrypt sample_key (Inr (replicate 12 (CHR ''n''))) tok = Inr c"
  by (simp add: Encrypt_def aes_key_size_def read_nonce_def gcm_nonce_size_def sample_key_def)

lemma sample_registers:
  "\<exists>db m. svc_RegisterOrg sample_me (parse_uuid sample_codec) (Inr (replicate 12 (CHR ''n''))) 3 ''https://b'' ''mdm_st_x''
    (no_faults [], sample_manager) = (Inr (7, []), db, m)"
proof -
  obtain c where "Encrypt sample_key (Inr (replicate 12 (CHR ''n''))) ''mdm_st_x'' = Inr c" using sample_encrypts by blast
  then show ?thesis
    by (simp add: svc_RegisterOrg_def sample_fetch_me token_format_def sample_codec_def sample_manager_def RegisterOrg_def
        rwrap_def no_faults_run StartOrg_def)
qed


lemma registration_effect_witness:
  "\<exists>rep db m row. HandleRegisterOrg sample_codec sample_me (Inr (replicate 12 (CHR ''n''))) 3 sample_registration (no_faults [], sample_manager)
      = (rep, db, m) \<and> rp_status rep = 201 \<and> Decrypt sample_key (ro_token_encrypted row) = Inr ''mdm_st_x''
    \<and> find_row (\<lambda>r. ro_org_id r = 7) (rdb_tables db) = Some row"
proof -
  obtain db m where r: "svc_RegisterOrg sample_me (parse_uuid sample_codec) (Inr (replicate 12 (CHR ''n''))) 3 ''https://b'' ''mdm_st_x''
    (no_faults [], sample_manager) = (Inr (7, []), db, m)" using sample_registers by blast
  then obtain rep where rep: "HandleRegisterOrg sample_codec sample_me (Inr (replicate 12 (CHR ''n''))) 3 sample_registration (no_faults [], sample_manager)
      = (rep, db, m)" "rp_status rep = 201"
    by (simp add: HandleRegisterOrg_def sample_decoded WriteJSON_def)
  from registration_effect [OF rep(1)] rep(2) obtain row where
    "find_row (\<lambda>r. ro_org_id r = 7) (rdb_tables db) = Some row" "Decrypt (wm_key sample_manager) (ro_token_encrypted row) = Inr ''mdm_st_x''"
    by (auto simp: sample_decoded sample_fetch_me sample_codec_def)
  then show ?thesis using rep by (auto simp: sample_manager_def)
qed

end
