(* ===== verification/Body_Storage.thy ===== *)
theory Body_Storage
  imports Proxy_Handler Json_Facts
begin

text \<open>
  The object storage (internal/storage): the document that holds the two bodies of a request (s3.go), the clients
  per owner with their cache (s3_user.go) and the bucket operations of the two providers (s3_user.go, gcs.go).
  The SDKs are a parameter: what their calls return, and how they change the state of the cloud. A client of
  S3 is what it was made of, one of GCS a handle. The writer of compress/gzip cannot fail on a buffer;
  its format is a parameter, as is the quoting of the verb %q.
\<close>

section \<open>The stored document (s3.go)\<close>

record S3RequestContent =
  sqc_method :: string
  sqc_path :: string
  sqc_headers :: "(string \<times> string) list option"
  sqc_body :: "json option"

record S3ResponseContent =
  spc_status_code :: int
  spc_headers :: "(string \<times> string) list option"
  spc_body :: "json option"

record S3BodyContent =
  sbc_request_id :: string
  sbc_timestamp :: string
  sbc_request :: S3RequestContent
  sbc_response :: S3ResponseContent

text \<open>A body that is JSON stands in the document as it is, another one as a string. A RawMessage is the tree
  it parses to.\<close>

definition toJSONRawMessage :: "bytes \<Rightarrow> json option" where
  "toJSONRawMessage data =
     (if data = [] then None
      else Some (case parse_json data of Some j \<Rightarrow> j | None \<Rightarrow> enc_string data))"

definition body_content :: "(uuid \<Rightarrow> string) \<Rightarrow> BodyUpload \<Rightarrow> S3BodyContent" where
  "body_content fmt u =
     \<lparr>sbc_request_id = fmt (bu_request_id u), sbc_timestamp = fmt_rfc3339 (bu_timestamp u),
      sbc_request = \<lparr>sqc_method = bu_request_method u, sqc_path = bu_request_path u,
        sqc_headers = Some (bu_request_headers u), sqc_body = toJSONRawMessage (bu_request_body u)\<rparr>,
      sbc_response = \<lparr>spc_status_code = bu_response_status u,
        spc_headers = Some (bu_response_headers u), spc_body = toJSONRawMessage (bu_response_body u)\<rparr>\<rparr>"

text \<open>The members of the headers and of the body; Marshal writes a map in the order of its keys.\<close>

definition enc_header_map :: "(string \<times> string) list option \<Rightarrow> (string \<times> json) list" where
  "enc_header_map h = (let m = (case h of None \<Rightarrow> [] | Some m \<Rightarrow> m) in
     omit (m = []) ''headers'' (JObj (map (\<lambda>(k, v). (quote k, enc_string v)) (sort_key fst m))))"

definition enc_body_content :: "S3BodyContent \<Rightarrow> json" where
  "enc_body_content c = JObj [
     (''request_id'', enc_string (sbc_request_id c)), (''timestamp'', enc_string (sbc_timestamp c)),
     (''request'', JObj ([(''method'', enc_string (sqc_method (sbc_request c))), (''path'', enc_string (sqc_path (sbc_request c)))]
        @ enc_header_map (sqc_headers (sbc_request c)) @ omit_ptr (\<lambda>j. j) ''body'' (sqc_body (sbc_request c)))),
     (''response'', JObj ([(''status_code'', enc_int (spc_status_code (sbc_response c)))]
        @ enc_header_map (spc_headers (sbc_response c)) @ omit_ptr (\<lambda>j. j) ''body'' (spc_body (sbc_response c))))]"

text \<open>Unmarshal hands the text of a value, null included, to a RawMessage.\<close>

definition dec_raw_body :: "json option dec" where
  "dec_raw_body j v = (Some j, False)"

definition dec_request_content :: "S3RequestContent dec" where
  "dec_request_content = dec_struct [
     (''method'', fld sqc_method sqc_method_update dec_string),
     (''path'', fld sqc_path sqc_path_update dec_string),
     (''headers'', fld sqc_headers sqc_headers_update (dec_map [] dec_string)),
     (''body'', fld sqc_body sqc_body_update dec_raw_body)]"

definition dec_response_content :: "S3ResponseContent dec" where
  "dec_response_content = dec_struct [
     (''status_code'', fld spc_status_code spc_status_code_update dec_int),
     (''headers'', fld spc_headers spc_headers_update (dec_map [] dec_string)),
     (''body'', fld spc_body spc_body_update dec_raw_body)]"

definition dec_body_content :: "S3BodyContent dec" where
  "dec_body_content = dec_struct [
     (''request_id'', fld sbc_request_id sbc_request_id_update dec_string),
     (''timestamp'', fld sbc_timestamp sbc_timestamp_update dec_string),
     (''request'', fld sbc_request sbc_request_update dec_request_content),
     (''response'', fld sbc_response sbc_response_update dec_response_content)]"

definition zero_body_content :: S3BodyContent where
  "zero_body_content = \<lparr>sbc_request_id = [], sbc_timestamp = [],
     sbc_request = \<lparr>sqc_method = [], sqc_path = [], sqc_headers = None, sqc_body = None\<rparr>,
     sbc_response = \<lparr>spc_status_code = 0, spc_headers = None, spc_body = None\<rparr>\<rparr>"

section \<open>The SDKs\<close>

record s3_client =
  s3_region :: string
  s3_credentials :: "(string \<times> string) option"
  s3_base_endpoint :: "string option"
  s3_use_path_style :: bool

record stored_object =
  so_data :: bytes
  so_content_type :: string
  so_content_encoding :: string

text \<open>A read fails as a request or while its body is read.\<close>

type_synonym cloud_read = "err + (err + bytes)"

record ('g, 'w) cloud_sdk =
  aws_load_config :: "string \<Rightarrow> (string \<times> string) option \<Rightarrow> err option"
  s3_put_object :: "s3_client \<Rightarrow> string \<Rightarrow> string \<Rightarrow> stored_object \<Rightarrow> 'w \<Rightarrow> (err + unit) \<times> 'w"
  s3_get_object :: "s3_client \<Rightarrow> string \<Rightarrow> string \<Rightarrow> 'w \<Rightarrow> cloud_read"
  s3_head_bucket :: "s3_client \<Rightarrow> string \<Rightarrow> 'w \<Rightarrow> err + unit"
  gcs_new :: "string option \<Rightarrow> 'w \<Rightarrow> (err + 'g) \<times> 'w"
  gcs_write :: "'g \<Rightarrow> string \<Rightarrow> string \<Rightarrow> stored_object \<Rightarrow> 'w \<Rightarrow> (err option \<times> err option) \<times> 'w"
  gcs_read :: "'g \<Rightarrow> string \<Rightarrow> string \<Rightarrow> 'w \<Rightarrow> cloud_read"
  gcs_delete :: "'g \<Rightarrow> string \<Rightarrow> string \<Rightarrow> 'w \<Rightarrow> (err + unit) \<times> 'w"
  gcs_close :: "'g \<Rightarrow> 'w \<Rightarrow> 'w"
  sdk_gzip :: "bytes \<Rightarrow> bytes"
  sdk_gunzip :: "bytes \<Rightarrow> cloud_read"
  sdk_quoted :: "string \<Rightarrow> string"

definition new_s3_client :: "string \<Rightarrow> string \<Rightarrow> string \<Rightarrow> string \<Rightarrow> s3_client" where
  "new_s3_client region endpoint accessKey secretKey =
     \<lparr>s3_region = region,
      s3_credentials = (if accessKey \<noteq> [] \<and> secretKey \<noteq> [] then Some (accessKey, secretKey) else None),
      s3_base_endpoint = (if endpoint \<noteq> [] then Some endpoint else None),
      s3_use_path_style = (endpoint \<noteq> [])\<rparr>"

definition s3_client_of :: "UserCloudStorageConfig \<Rightarrow> s3_client" where
  "s3_client_of cfg =
     new_s3_client (ucs_region cfg) (ucs_endpoint cfg) (ucs_access_key_id cfg) (ucs_secret_access_key cfg)"

definition newGCSClient :: "('g, 'w) cloud_sdk \<Rightarrow> string \<Rightarrow> 'w \<Rightarrow> (err + 'g) \<times> 'w" where
  "newGCSClient K credentialsJSON w =
     (if credentialsJSON \<noteq> [] then
        (case gcs_new K (Some credentialsJSON) w of
           (Inl e, w') \<Rightarrow> (Inl (ErrWrap ''gcs client from credentials'' e), w') | r \<Rightarrow> r)
      else (case gcs_new K None w of
           (Inl e, w') \<Rightarrow> (Inl (ErrWrap ''gcs client from default credentials'' e), w') | r \<Rightarrow> r))"

section \<open>Objects\<close>

definition body_object :: "('g, 'w) cloud_sdk \<Rightarrow> (uuid \<Rightarrow> string) \<Rightarrow> BodyUpload \<Rightarrow> stored_object" where
  "body_object K fmt u = \<lparr>so_data = sdk_gzip K (marshal (enc_body_content (body_content fmt u))),
     so_content_type = ''application/json'', so_content_encoding = ''gzip''\<rparr>"

definition s3UploadBody :: "('g, 'w) cloud_sdk \<Rightarrow> (uuid \<Rightarrow> string) \<Rightarrow> s3_client \<Rightarrow> string \<Rightarrow> BodyUpload \<Rightarrow> 'w \<Rightarrow> (err + unit) \<times> 'w" where
  "s3UploadBody K fmt client bucket u w = s3_put_object K client bucket (bu_key u) (body_object K fmt u) w"

text \<open>The writer is closed after a failed Write, too; that error is ignored.\<close>

definition gcsUploadBody :: "('g, 'w) cloud_sdk \<Rightarrow> (uuid \<Rightarrow> string) \<Rightarrow> 'g \<Rightarrow> string \<Rightarrow> string \<Rightarrow> BodyUpload \<Rightarrow> 'w \<Rightarrow> (err + unit) \<times> 'w" where
  "gcsUploadBody K fmt client bucket key u w =
     (case gcs_write K client bucket key (body_object K fmt u) w of
        ((Some e, _), w') \<Rightarrow> (Inl (ErrWrap ''gcs write'' e), w')
      | ((None, Some e), w') \<Rightarrow> (Inl (ErrWrap ''gcs close writer'' e), w')
      | ((None, None), w') \<Rightarrow> (Inr (), w'))"

definition decode_body :: "('g, 'w) cloud_sdk \<Rightarrow> bytes \<Rightarrow> err + S3BodyContent" where
  "decode_body K compressed =
     (case sdk_gunzip K compressed of
        Inl e \<Rightarrow> Inl (ErrWrap ''gzip reader'' e)
      | Inr (Inl e) \<Rightarrow> Inl (ErrWrap ''gzip decompress'' e)
      | Inr (Inr text) \<Rightarrow> (case unmarshal dec_body_content text zero_body_content of
            Inl e \<Rightarrow> Inl (ErrWrap ''unmarshal body content'' e) | Inr c \<Rightarrow> Inr c))"

definition downloadS3Body :: "('g, 'w) cloud_sdk \<Rightarrow> s3_client \<Rightarrow> string \<Rightarrow> string \<Rightarrow> 'w \<Rightarrow> err + S3BodyContent" where
  "downloadS3Body K client bucket key w =
     (case s3_get_object K client bucket key w of
        Inl e \<Rightarrow> Inl (ErrWrap (''s3 GetObject '' @ bucket @ ''/'' @ key) e)
      | Inr (Inl e) \<Rightarrow> Inl (ErrWrap ''reading s3 body'' e)
      | Inr (Inr compressed) \<Rightarrow> decode_body K compressed)"

definition gcsDownloadBody :: "('g, 'w) cloud_sdk \<Rightarrow> 'g \<Rightarrow> string \<Rightarrow> string \<Rightarrow> 'w \<Rightarrow> err + S3BodyContent" where
  "gcsDownloadBody K client bucket key w =
     (case gcs_read K client bucket key w of
        Inl e \<Rightarrow> Inl (ErrWrap (''gcs read '' @ bucket @ ''/'' @ key) e)
      | Inr (Inl e) \<Rightarrow> Inl (ErrWrap ''reading gcs body'' e)
      | Inr (Inr compressed) \<Rightarrow> decode_body K compressed)"

section \<open>Validation of a configuration\<close>

record UserS3Config =
  us3_bucket :: string
  us3_region :: string
  us3_endpoint :: string
  us3_access_key_id :: string
  us3_secret_access_key :: string

definition ValidateS3Config :: "('g, 'w) cloud_sdk \<Rightarrow> UserS3Config \<Rightarrow> 'w \<Rightarrow> err + unit" where
  "ValidateS3Config K cfg w = (let client = new_s3_client (us3_region cfg) (us3_endpoint cfg) (us3_access_key_id cfg)
       (us3_secret_access_key cfg) in
     case aws_load_config K (s3_region client) (s3_credentials client) of
       Some e \<Rightarrow> Inl (ErrWrap ''invalid AWS credentials'' e)
     | None \<Rightarrow> (case s3_head_bucket K client (us3_bucket cfg) w of
           Inl e \<Rightarrow> Inl (ErrWrap (''cannot access bucket '' @ sdk_quoted K (us3_bucket cfg)) e)
         | Inr _ \<Rightarrow> Inr ()))"

definition ValidateGCSConfig :: "('g, 'w) cloud_sdk \<Rightarrow> string \<Rightarrow> string \<Rightarrow> 'w \<Rightarrow> (err + unit) \<times> 'w" where
  "ValidateGCSConfig K bucket credentialsJSON w =
     (case newGCSClient K credentialsJSON w of
        (Inl e, w1) \<Rightarrow> (Inl (ErrWrap ''invalid GCS credentials'' e), w1)
      | (Inr client, w1) \<Rightarrow>
          let testKey = ''.majordomo-validation-test'';
              obj = \<lparr>so_data = ''ok'', so_content_type = ''text/plain'', so_content_encoding = []\<rparr>;
              failed = (\<lambda>e. Inl (ErrWrap (''cannot write to bucket '' @ sdk_quoted K bucket) e))
          in (case gcs_write K client bucket testKey obj w1 of
                ((Some e, _), w2) \<Rightarrow> (failed e, gcs_close K client w2)
              | ((None, Some e), w2) \<Rightarrow> (failed e, gcs_close K client w2)
              | ((None, None), w2) \<Rightarrow> (case gcs_delete K client bucket testKey w2 of
                    (_, w3) \<Rightarrow> (Inr (), gcs_close K client w3))))"

section \<open>The clients of the owners (s3_user.go)\<close>

record 'g userStorageClient =
  usc_provider :: string
  usc_s3 :: "s3_client option"
  usc_gcs :: "'g option"
  usc_bucket :: string
  usc_config_hash :: string

record ('g, 'w) storage_state =
  st_clients :: "uuid \<rightharpoonup> 'g userStorageClient"
  st_world :: 'w

text \<open>The hash of a configuration. The secret key of S3 is not in it, and of the credentials of GCS the first
  16 bytes.\<close>

definition config_hash :: "UserCloudStorageConfig \<Rightarrow> string" where
  "config_hash cfg = ucs_provider cfg @ ''|'' @
     (if ucs_provider cfg = CloudStorageProviderGCS
      then ucs_gcs_bucket cfg @ ''|'' @ ucs_gcs_project_id cfg @ ''|'' @ take 16 (ucs_gcs_credentials_json cfg)
      else ucs_bucket cfg @ ''|'' @ ucs_region cfg @ ''|'' @ ucs_endpoint cfg @ ''|'' @ ucs_access_key_id cfg)"

definition store_client :: "uuid \<Rightarrow> 'g userStorageClient \<Rightarrow> ('g, 'w) storage_state \<Rightarrow> ('g, 'w) storage_state" where
  "store_client owner client st = st\<lparr>st_clients := (st_clients st)(owner \<mapsto> client)\<rparr>"

definition createS3Client :: "('g, 'w) cloud_sdk \<Rightarrow> uuid \<Rightarrow> UserCloudStorageConfig \<Rightarrow> string \<Rightarrow> ('g, 'w) storage_state
    \<Rightarrow> (err + 'g userStorageClient) \<times> ('g, 'w) storage_state" where
  "createS3Client K owner cfg hash st = (let s3 = s3_client_of cfg in
     case aws_load_config K (s3_region s3) (s3_credentials s3) of
       Some e \<Rightarrow> (Inl (ErrWrap ''failed to load AWS config'' e), st)
     | None \<Rightarrow> let client = \<lparr>usc_provider = CloudStorageProviderS3, usc_s3 = Some s3, usc_gcs = None,
                usc_bucket = ucs_bucket cfg, usc_config_hash = hash\<rparr>
               in (Inr client, store_client owner client st))"

definition createGCSClient :: "('g, 'w) cloud_sdk \<Rightarrow> uuid \<Rightarrow> UserCloudStorageConfig \<Rightarrow> string \<Rightarrow> ('g, 'w) storage_state
    \<Rightarrow> (err + 'g userStorageClient) \<times> ('g, 'w) storage_state" where
  "createGCSClient K owner cfg hash st =
     (case newGCSClient K (ucs_gcs_credentials_json cfg) (st_world st) of
        (Inl e, w) \<Rightarrow> (Inl (ErrWrap ''failed to create GCS client'' e), st\<lparr>st_world := w\<rparr>)
      | (Inr g, w) \<Rightarrow> let client = \<lparr>usc_provider = CloudStorageProviderGCS, usc_s3 = None, usc_gcs = Some g,
                usc_bucket = ucs_gcs_bucket cfg, usc_config_hash = hash\<rparr>
               in (Inr client, store_client owner client (st\<lparr>st_world := w\<rparr>)))"

text \<open>A client whose hash is another one is replaced; a client of GCS is closed before.\<close>

definition close_old :: "('g, 'w) cloud_sdk \<Rightarrow> uuid \<Rightarrow> ('g, 'w) storage_state \<Rightarrow> ('g, 'w) storage_state" where
  "close_old K owner st = (case Option.bind (st_clients st owner) usc_gcs of
     None \<Rightarrow> st | Some g \<Rightarrow> st\<lparr>st_world := gcs_close K g (st_world st)\<rparr>)"

definition create_client :: "('g, 'w) cloud_sdk \<Rightarrow> uuid \<Rightarrow> UserCloudStorageConfig \<Rightarrow> ('g, 'w) storage_state
    \<Rightarrow> (err + 'g userStorageClient) \<times> ('g, 'w) storage_state" where
  "create_client K owner cfg st =
     (if ucs_provider cfg = CloudStorageProviderGCS then createGCSClient K owner cfg (config_hash cfg) st
      else createS3Client K owner cfg (config_hash cfg) st)"

definition getOrCreateClient :: "('g, 'w) cloud_sdk \<Rightarrow> uuid \<Rightarrow> UserCloudStorageConfig \<Rightarrow> ('g, 'w) storage_state
    \<Rightarrow> (err + 'g userStorageClient) \<times> ('g, 'w) storage_state" where
  "getOrCreateClient K owner cfg st =
     (case st_clients st owner of
        None \<Rightarrow> create_client K owner cfg st
      | Some client \<Rightarrow>
          if usc_config_hash client = config_hash cfg then (Inr client, st)
          else create_client K owner cfg (close_old K owner st))"

text \<open>The background task of an upload; its result is what it logs. A client has a handle of its own provider.\<close>

definition doUpload :: "('g, 'w) cloud_sdk \<Rightarrow> (uuid \<Rightarrow> string) \<Rightarrow> uuid \<Rightarrow> UserCloudStorageConfig \<Rightarrow> BodyUpload
    \<Rightarrow> ('g, 'w) storage_state \<Rightarrow> (err + unit) \<times> ('g, 'w) storage_state" where
  "doUpload K fmt owner cfg u st =
     (case getOrCreateClient K owner cfg st of
        (Inl e, st1) \<Rightarrow> (Inl (ErrWrap ''failed to create storage client'' e), st1)
      | (Inr client, st1) \<Rightarrow>
          let (r, w) = (if usc_provider client = CloudStorageProviderGCS
                        then gcsUploadBody K fmt (the (usc_gcs client)) (usc_bucket client) (bu_key u) u (st_world st1)
                        else s3UploadBody K fmt (the (usc_s3 client)) (usc_bucket client) u (st_world st1))
          in (r, st1\<lparr>st_world := w\<rparr>))"

definition Download :: "('g, 'w) cloud_sdk \<Rightarrow> (uuid \<Rightarrow> string) \<Rightarrow> uuid \<Rightarrow> UserCloudStorageConfig \<Rightarrow> string
    \<Rightarrow> ('g, 'w) storage_state \<Rightarrow> (err + S3BodyContent) \<times> ('g, 'w) storage_state" where
  "Download K fmt owner cfg key st =
     (case getOrCreateClient K owner cfg st of
        (Inl e, st1) \<Rightarrow> (Inl (ErrWrap (''creating storage client for '' @ fmt owner) e), st1)
      | (Inr client, st1) \<Rightarrow>
          (if usc_provider client = CloudStorageProviderGCS
           then gcsDownloadBody K (the (usc_gcs client)) (usc_bucket client) key (st_world st1)
           else downloadS3Body K (the (usc_s3 client)) (usc_bucket client) key (st_world st1), st1))"

section \<open>The cache of clients\<close>

text \<open>What a client is when it was made for a configuration.\<close>

definition client_built :: "('g, 'w) cloud_sdk \<Rightarrow> UserCloudStorageConfig \<Rightarrow> 'g userStorageClient \<Rightarrow> bool" where
  "client_built K cfg c = (usc_config_hash c = config_hash cfg \<and>
     (if ucs_provider cfg = CloudStorageProviderGCS
      then usc_provider c = CloudStorageProviderGCS \<and> usc_bucket c = ucs_gcs_bucket cfg \<and> usc_s3 c = None
        \<and> (\<exists>g w w'. usc_gcs c = Some g \<and> newGCSClient K (ucs_gcs_credentials_json cfg) w = (Inr g, w'))
      else usc_provider c = CloudStorageProviderS3 \<and> usc_bucket c = ucs_bucket cfg
        \<and> usc_s3 c = Some (s3_client_of cfg) \<and> usc_gcs c = None))"

lemma create_client_run:
  assumes "create_client K owner cfg st = (r, st')"
  shows "case r of Inl e \<Rightarrow> st_clients st' = st_clients st
    | Inr c \<Rightarrow> client_built K cfg c \<and> st_clients st' = (st_clients st)(owner \<mapsto> c)"
  using assms
  by (auto simp: create_client_def createGCSClient_def createS3Client_def client_built_def store_client_def Let_def
      split: if_splits sum.splits prod.splits option.splits) blast

lemma close_old_clients [simp]: "st_clients (close_old K owner st) = st_clients st"
  by (simp add: close_old_def split: option.split)

lemma getOrCreateClient_run:
  assumes "getOrCreateClient K owner cfg st = (r, st')"
  shows "case r of Inl e \<Rightarrow> st_clients st' = st_clients st
    | Inr c \<Rightarrow> st_clients st' = (st_clients st)(owner \<mapsto> c)
        \<and> (case st_clients st owner of
             None \<Rightarrow> client_built K cfg c
           | Some c0 \<Rightarrow> if usc_config_hash c0 = config_hash cfg then c = c0 \<and> st' = st else client_built K cfg c)"
proof (cases "st_clients st owner")
  case None
  then show ?thesis using create_client_run [of K owner cfg st r st'] assms
    by (auto simp: getOrCreateClient_def split: sum.splits)
next
  case (Some c0)
  then show ?thesis using create_client_run [of K owner cfg "close_old K owner st" r st'] assms
    by (auto simp: getOrCreateClient_def map_upd_triv split: sum.splits if_splits)
qed

lemma doUpload_clients: "st_clients (snd (doUpload K fmt owner cfg u st)) = st_clients (snd (getOrCreateClient K owner cfg st))"
  by (simp add: doUpload_def Let_def split: prod.split sum.split)

lemma Download_clients: "st_clients (snd (Download K fmt owner cfg key st)) = st_clients (snd (getOrCreateClient K owner cfg st))"
  by (simp add: Download_def split: prod.split sum.split)

text \<open>The life of the storage: uploads and downloads, with the configurations they were called with, while the
  state of the cloud changes.\<close>

inductive storage_life :: "('g, 'w) cloud_sdk \<Rightarrow> (uuid \<Rightarrow> string) \<Rightarrow> (uuid \<times> UserCloudStorageConfig) set
    \<Rightarrow> ('g, 'w) storage_state \<Rightarrow> bool" for K fmt where
  fresh: "storage_life K fmt {} \<lparr>st_clients = Map.empty, st_world = w\<rparr>"
| upload: "storage_life K fmt used st \<Longrightarrow> storage_life K fmt (insert (owner, cfg) used) (snd (doUpload K fmt owner cfg u st))"
| download: "storage_life K fmt used st \<Longrightarrow> storage_life K fmt (insert (owner, cfg) used) (snd (Download K fmt owner cfg key st))"
| cloud: "storage_life K fmt used st \<Longrightarrow> storage_life K fmt used (st\<lparr>st_world := w\<rparr>)"

definition clients_ok :: "('g, 'w) cloud_sdk \<Rightarrow> (uuid \<times> UserCloudStorageConfig) set \<Rightarrow> (uuid \<rightharpoonup> 'g userStorageClient) \<Rightarrow> bool" where
  "clients_ok K used m = (\<forall>owner c. m owner = Some c \<longrightarrow> (\<exists>cfg. (owner, cfg) \<in> used \<and> client_built K cfg c))"

lemma getOrCreateClient_ok:
  assumes "clients_ok K used (st_clients st)"
  shows "clients_ok K (insert (owner, cfg) used) (st_clients (snd (getOrCreateClient K owner cfg st)))"
proof -
  obtain r st' where run: "getOrCreateClient K owner cfg st = (r, st')" by fastforce
  show ?thesis using getOrCreateClient_run [OF run] assms unfolding run clients_ok_def
    by (fastforce split: sum.splits option.splits if_splits)
qed

lemma storage_life_ok: "storage_life K fmt used st \<Longrightarrow> clients_ok K used (st_clients st)"
proof (induction rule: storage_life.induct)
  case (upload used st owner cfg u)
  then show ?case using getOrCreateClient_ok by (simp add: doUpload_clients)
next
  case (download used st owner cfg key)
  then show ?case using getOrCreateClient_ok by (simp add: Download_clients)
qed (simp_all add: clients_ok_def)

text \<open>Where the fields hold no vertical bar, the hash determines what it is made of.\<close>

definition bar_free :: "UserCloudStorageConfig \<Rightarrow> bool" where
  "bar_free cfg = list_all (\<lambda>s. CHR ''|'' \<notin> set s) [ucs_provider cfg, ucs_bucket cfg, ucs_region cfg,
     ucs_endpoint cfg, ucs_gcs_bucket cfg, ucs_gcs_project_id cfg]"

lemma split_at_bar:
  "CHR ''|'' \<notin> set a \<Longrightarrow> CHR ''|'' \<notin> set b \<Longrightarrow> a @ CHR ''|'' # s = b @ CHR ''|'' # t \<longleftrightarrow> a = b \<and> s = t"
  by (auto simp: append_eq_append_conv2 Cons_eq_append_conv append_eq_Cons_conv)

lemma config_hash_inj:
  assumes "config_hash cfg = config_hash cfg'" "bar_free cfg" "bar_free cfg'"
  shows "ucs_provider cfg = ucs_provider cfg'
    \<and> (if ucs_provider cfg = CloudStorageProviderGCS
       then ucs_gcs_bucket cfg = ucs_gcs_bucket cfg' \<and> ucs_gcs_project_id cfg = ucs_gcs_project_id cfg'
         \<and> take 16 (ucs_gcs_credentials_json cfg) = take 16 (ucs_gcs_credentials_json cfg')
       else ucs_bucket cfg = ucs_bucket cfg' \<and> ucs_region cfg = ucs_region cfg' \<and> ucs_endpoint cfg = ucs_endpoint cfg'
         \<and> ucs_access_key_id cfg = ucs_access_key_id cfg')"
  using assms unfolding config_hash_def bar_free_def by (auto simp: split_at_bar split: if_splits)

lemma getOrCreateClient_built:
  assumes "clients_ok K used (st_clients st)" "getOrCreateClient K owner cfg st = (Inr c, st')"
  shows "\<exists>cfg'. (owner, cfg') \<in> insert (owner, cfg) used \<and> client_built K cfg' c \<and> config_hash cfg' = config_hash cfg"
  using getOrCreateClient_run [OF assms(2)] assms(1) unfolding clients_ok_def
  by (fastforce simp: client_built_def split: option.splits if_splits)

lemma client_targets:
  assumes "client_built K cfg' c"
    "ucs_provider cfg' = ucs_provider cfg \<and> (if ucs_provider cfg' = CloudStorageProviderGCS
       then ucs_gcs_bucket cfg' = ucs_gcs_bucket cfg \<and> ucs_gcs_project_id cfg' = ucs_gcs_project_id cfg
         \<and> take 16 (ucs_gcs_credentials_json cfg') = take 16 (ucs_gcs_credentials_json cfg)
       else ucs_bucket cfg' = ucs_bucket cfg \<and> ucs_region cfg' = ucs_region cfg \<and> ucs_endpoint cfg' = ucs_endpoint cfg
         \<and> ucs_access_key_id cfg' = ucs_access_key_id cfg)"
  shows "usc_bucket c = (if ucs_provider cfg = CloudStorageProviderGCS then ucs_gcs_bucket cfg else ucs_bucket cfg)"
    "ucs_provider cfg \<noteq> CloudStorageProviderGCS \<longrightarrow> (\<exists>s3. usc_s3 c = Some s3 \<and> s3_region s3 = ucs_region cfg
        \<and> s3_base_endpoint s3 = s3_base_endpoint (s3_client_of cfg)
        \<and> (\<forall>a secret. s3_credentials s3 = Some (a, secret) \<longrightarrow> a = ucs_access_key_id cfg))"
    "usc_provider c = CloudStorageProviderGCS \<longleftrightarrow> ucs_provider cfg = CloudStorageProviderGCS"
  using assms by (simp_all add: client_built_def s3_client_of_def new_s3_client_def CloudStorageProviderS3_def CloudStorageProviderGCS_def split: if_splits)

section \<open>Reading a body back\<close>

text \<open>What is stored is ASCII or valid UTF-8; a body that is JSON may use the nesting depth but for two levels.\<close>

definition body_ok :: "bytes \<Rightarrow> bool" where
  "body_ok data = (case parse_json data of Some j \<Rightarrow> wf_json (max_nesting_depth - 2) j | None \<Rightarrow> valid_utf8 data)"

definition headers_ok :: "(string \<times> string) list \<Rightarrow> bool" where
  "headers_ok m = (distinct (map fst m) \<and> (\<forall>(k, v) \<in> set m. valid_utf8 k \<and> valid_utf8 v))"

definition storable :: "(uuid \<Rightarrow> string) \<Rightarrow> BodyUpload \<Rightarrow> bool" where
  "storable fmt u = (valid_utf8 (fmt (bu_request_id u)) \<and> valid_utf8 (bu_request_method u) \<and> valid_utf8 (bu_request_path u)
     \<and> headers_ok (bu_request_headers u) \<and> headers_ok (bu_response_headers u) \<and> in_int64 (bu_response_status u)
     \<and> body_ok (bu_request_body u) \<and> body_ok (bu_response_body u))"

text \<open>The content as it is read: headers in the order of their names, nil when there are none; a JSON body with the
  escapes that Marshal applies.\<close>

definition stored_headers :: "(string \<times> string) list option \<Rightarrow> (string \<times> string) list option" where
  "stored_headers h = (case h of None \<Rightarrow> None | Some m \<Rightarrow> if m = [] then None else Some (sort_key fst m))"

definition stored_content :: "S3BodyContent \<Rightarrow> S3BodyContent" where
  "stored_content c = c\<lparr>
     sbc_request := (sbc_request c)\<lparr>sqc_headers := stored_headers (sqc_headers (sbc_request c)),
       sqc_body := map_option esc_json (sqc_body (sbc_request c))\<rparr>,
     sbc_response := (sbc_response c)\<lparr>spc_headers := stored_headers (spc_headers (sbc_response c)),
       spc_body := map_option esc_json (spc_body (sbc_response c))\<rparr>\<rparr>"

lemma member_names [simp]:
  "unquote ''request_id'' = ''request_id''" "unquote ''timestamp'' = ''timestamp''" "unquote ''request'' = ''request''"
  "unquote ''response'' = ''response''" "unquote ''method'' = ''method''" "unquote ''path'' = ''path''"
  "unquote ''headers'' = ''headers''" "unquote ''body'' = ''body''" "unquote ''status_code'' = ''status_code''"
  "esc_html ''request_id'' = ''request_id''" "esc_html ''timestamp'' = ''timestamp''" "esc_html ''request'' = ''request''"
  "esc_html ''response'' = ''response''" "esc_html ''method'' = ''method''" "esc_html ''path'' = ''path''"
  "esc_html ''headers'' = ''headers''" "esc_html ''body'' = ''body''" "esc_html ''status_code'' = ''status_code''"
  "wf_raw ''request_id''" "wf_raw ''timestamp''" "wf_raw ''request''" "wf_raw ''response''" "wf_raw ''method''"
  "wf_raw ''path''" "wf_raw ''headers''" "wf_raw ''body''" "wf_raw ''status_code''"
  by (simp_all add: unquote_def is_html_def is_line_sep_def wf_raw_def str_step_def)

lemma is_ascii_simps [simp]:
  "is_ascii []" "is_ascii (c # s) = ((of_char c :: nat) < 128 \<and> is_ascii s)" "is_ascii (a @ b) = (is_ascii a \<and> is_ascii b)"
  by (simp_all add: is_ascii_def)

declare nat_digits.simps [simp del]

lemma is_ascii_pad: "is_ascii (pad w n)"
proof -
  have "is_digit c \<Longrightarrow> (of_char c :: nat) < 128" for c by (auto simp: is_digit_def digit_chars_def)
  then have "is_ascii (nat_digits n)" using nat_digits_facts [of n] by (auto simp: is_ascii_def list_all_iff)
  then show ?thesis by (auto simp: pad_def Let_def is_ascii_def list_all_iff)
qed

lemma fmt_rfc3339_valid [simp]: "valid_utf8 (fmt_rfc3339 t)"
  by (rule is_ascii_valid) (simp add: fmt_rfc3339_def fmt_date_def fmt_clock_def Let_def is_ascii_pad split: prod.split)

lemma alist_update_new: "k \<notin> fst ` set m \<Longrightarrow> AList.update k v m = m @ [(k, v)]"
  by (induction m) auto

lemma dec_header_members:
  "distinct (map fst (acc @ m)) \<Longrightarrow> \<forall>(k, v) \<in> set m. valid_utf8 k \<and> valid_utf8 v \<Longrightarrow>
   dec_map_members [] dec_string (map (\<lambda>(k, v). (esc_html (quote k), esc_json (enc_string v))) m) acc = (acc @ m, False)"
proof (induction m arbitrary: acc)
  case (Cons p m)
  obtain k v where p: "p = (k, v)" by fastforce
  have new: "k \<notin> fst ` set acc" using Cons.prems(1) p by auto
  show ?case using Cons.IH [of "acc @ [(k, v)]"] Cons.prems p
    by (simp add: alist_update_new [OF new] del: esc_json.simps)
qed simp

lemma headers_ok_sorted: "headers_ok m \<Longrightarrow> headers_ok (sort_key fst m)"
  unfolding headers_ok_def by (simp add: distinct_map)

lemma dec_headers:
  assumes "headers_ok m"
  shows "dec_map [] dec_string (esc_json (JObj (map (\<lambda>(k, v). (quote k, enc_string v)) (sort_key fst m)))) None
    = (Some (sort_key fst m), False)"
  using dec_header_members [of "[]" "sort_key fst m"] headers_ok_sorted [OF assms]
  by (simp add: dec_map_def headers_ok_def comp_def case_prod_beta' del: esc_html_quote)

lemma toJSONRawMessage_wf:
  "body_ok data \<Longrightarrow> toJSONRawMessage data = Some j \<Longrightarrow> wf_json (max_nesting_depth - 2) j"
  by (auto simp: body_ok_def toJSONRawMessage_def split: if_splits option.splits)

lemma wf_enc_header_map: "headers_ok m \<Longrightarrow> p \<in> set (enc_header_map (Some m)) \<Longrightarrow> wf_raw (fst p) \<and> wf_json (max_nesting_depth - 1) (snd p)"
  by (auto simp: enc_header_map_def omit_def headers_ok_def max_nesting_depth_def split: if_splits)

lemma dec_request_stored:
  assumes "valid_utf8 (sqc_method c)" "valid_utf8 (sqc_path c)" "sqc_headers c = Some m" "headers_ok m"
  shows "dec_request_content (esc_json (JObj ([(''method'', enc_string (sqc_method c)), (''path'', enc_string (sqc_path c))]
        @ enc_header_map (sqc_headers c) @ omit_ptr (\<lambda>j. j) ''body'' (sqc_body c)))) (sbc_request zero_body_content)
    = (c\<lparr>sqc_headers := stored_headers (sqc_headers c), sqc_body := map_option esc_json (sqc_body c)\<rparr>, False)"
  using assms dec_headers [OF assms(4)]
  by (cases c; cases "sqc_body c"; cases "m = []")
     (simp_all add: dec_request_content_def dec_struct_def find_field_def fld_def enc_header_map_def omit_def omit_ptr_def
       stored_headers_def dec_raw_body_def zero_body_content_def del: esc_html.simps unquote_from.simps esc_html_quote)

lemma dec_response_stored:
  assumes "in_int64 (spc_status_code c)" "spc_headers c = Some m" "headers_ok m"
  shows "dec_response_content (esc_json (JObj ([(''status_code'', enc_int (spc_status_code c))]
        @ enc_header_map (spc_headers c) @ omit_ptr (\<lambda>j. j) ''body'' (spc_body c)))) (sbc_response zero_body_content)
    = (c\<lparr>spc_headers := stored_headers (spc_headers c), spc_body := map_option esc_json (spc_body c)\<rparr>, False)"
  using assms dec_headers [OF assms(3)]
  by (cases c; cases "spc_body c"; cases "m = []")
     (simp_all add: dec_response_content_def dec_struct_def find_field_def fld_def enc_header_map_def omit_def omit_ptr_def
       stored_headers_def dec_raw_body_def zero_body_content_def del: esc_html.simps unquote_from.simps esc_html_quote)

lemma wf_stored:
  assumes "storable fmt u"
  shows "wf_json max_nesting_depth (enc_body_content (body_content fmt u))"
proof -
  have m: "max_nesting_depth = Suc (Suc (max_nesting_depth - 2))" by (simp add: max_nesting_depth_def)
  have body: "p \<in> set (omit_ptr (\<lambda>j. j) ''body'' (toJSONRawMessage data)) \<Longrightarrow> wf_raw (fst p) \<and> wf_json (max_nesting_depth - 2) (snd p)"
    if "body_ok data" for p data
    using toJSONRawMessage_wf [OF that] by (auto simp: omit_ptr_def split: option.splits)
  have hdr: "p \<in> set (enc_header_map (Some h)) \<Longrightarrow> wf_raw (fst p) \<and> wf_json (max_nesting_depth - 2) (snd p)"
    if "headers_ok h" for p h
    using that by (auto simp: enc_header_map_def omit_def headers_ok_def max_nesting_depth_def split: if_splits)
  show ?thesis
    unfolding enc_body_content_def body_content_def using assms hdr body
    by (subst m) (auto simp: storable_def max_nesting_depth_def)
qed

lemma read_stored:
  assumes "storable fmt u"
  shows "unmarshal dec_body_content (marshal (enc_body_content (body_content fmt u))) zero_body_content
    = Inr (stored_content (body_content fmt u))"
proof -
  let ?c = "body_content fmt u"
  have "dec_body_content (esc_json (enc_body_content ?c)) zero_body_content = (stored_content ?c, False)"
    using assms dec_request_stored [of "sbc_request ?c" "bu_request_headers u"] dec_response_stored [of "sbc_response ?c" "bu_response_headers u"]
    unfolding enc_body_content_def
    by (simp add: dec_body_content_def dec_struct_def find_field_def fld_def stored_content_def storable_def
        body_content_def zero_body_content_def del: esc_html.simps unquote_from.simps esc_html_quote)
  then show ?thesis by (simp add: unmarshal_marshal wf_stored [OF assms])
qed

text \<open>What the code relies on: gzip is inverted and recognised by its first two bytes, S3 returns what was put,
  and GCS decompresses an object with content encoding gzip when it is read.\<close>

definition gzip_format :: "('g, 'w) cloud_sdk \<Rightarrow> bool" where
  "gzip_format K = ((\<forall>x. sdk_gunzip K (sdk_gzip K x) = Inr (Inr x))
     \<and> (\<forall>x. take 2 x \<noteq> [CHR 0x1F, CHR 0x8B] \<longrightarrow> is_Inl (sdk_gunzip K x)))"

definition s3_keeps :: "('g, 'w) cloud_sdk \<Rightarrow> bool" where
  "s3_keeps K = (\<forall>c b k x w w'. s3_put_object K c b k x w = (Inr (), w') \<longrightarrow> s3_get_object K c b k w' = Inr (Inr (so_data x)))"

definition gcs_transcodes :: "('g, 'w) cloud_sdk \<Rightarrow> bool" where
  "gcs_transcodes K = (\<forall>g b k x w w' text. gcs_write K g b k x w = ((None, None), w') \<longrightarrow> so_content_encoding x = ''gzip''
     \<longrightarrow> sdk_gunzip K (so_data x) = Inr (Inr text) \<longrightarrow> gcs_read K g b k w' = Inr (Inr text))"

lemma plain_text_refused:
  assumes "gzip_format K"
  shows "is_Inl (decode_body K (marshal (enc_body_content c)))"
proof -
  let ?text = "marshal (enc_body_content c)"
  obtain r where r: "?text = CHR ''{'' # r" unfolding marshal_def enc_body_content_def by simp
  have "take 2 ?text \<noteq> [CHR 0x1F, CHR 0x8B]" unfolding r by simp
  then have "is_Inl (sdk_gunzip K ?text)" using assms unfolding gzip_format_def by blast
  then show ?thesis unfolding decode_body_def by (cases "sdk_gunzip K ?text") simp_all
qed

section \<open>Properties\<close>

text \<open>C22: A body goes to the bucket of its owner's configuration. Whatever was uploaded and downloaded for whomever, a
  client that is returned writes to the bucket, region and endpoint of the configuration it is asked for, with the
  access key named there; it was made for a configuration of the same owner, and for this one if none with the same hash
  came before. But the secret is not looked at: after a rotation of the secret alone the client with the old one
  is returned for good.\<close>

theorem client_for_config:
  assumes "storage_life K fmt used st" "\<forall>(o', cfg') \<in> insert (owner, cfg) used. bar_free cfg'"
    "getOrCreateClient K owner cfg st = (Inr c, st')"
  shows "usc_bucket c = (if ucs_provider cfg = CloudStorageProviderGCS then ucs_gcs_bucket cfg else ucs_bucket cfg)
    \<and> (ucs_provider cfg \<noteq> CloudStorageProviderGCS \<longrightarrow> (\<exists>s3. usc_s3 c = Some s3 \<and> s3_region s3 = ucs_region cfg
        \<and> s3_base_endpoint s3 = s3_base_endpoint (s3_client_of cfg)
        \<and> (\<forall>a secret. s3_credentials s3 = Some (a, secret) \<longrightarrow> a = ucs_access_key_id cfg)))
    \<and> (\<exists>cfg'. (owner, cfg') \<in> insert (owner, cfg) used \<and> client_built K cfg' c)
    \<and> ((\<forall>cfg'. (owner, cfg') \<in> used \<longrightarrow> config_hash cfg' \<noteq> config_hash cfg) \<longrightarrow> client_built K cfg c)
    \<and> (\<forall>secret. getOrCreateClient K owner (cfg\<lparr>ucs_secret_access_key := secret\<rparr>) st' = (Inr c, st'))"
proof -
  note ok = storage_life_ok [OF assms(1)]
  obtain cfg' where cfg': "(owner, cfg') \<in> insert (owner, cfg) used" "client_built K cfg' c" "config_hash cfg' = config_hash cfg"
    using getOrCreateClient_built [OF ok assms(3)] by blast
  have "bar_free cfg" "bar_free cfg'" using assms(2) cfg'(1) by auto
  note same = config_hash_inj [OF cfg'(3) this(2,1)]
  have "client_built K cfg c" if "\<forall>cfg'. (owner, cfg') \<in> used \<longrightarrow> config_hash cfg' \<noteq> config_hash cfg"
    using that cfg' by auto
  moreover have "st_clients st' owner = Some c" "usc_config_hash c = config_hash cfg"
    using getOrCreateClient_run [OF assms(3)] cfg'(2,3) by (auto simp: client_built_def)
  then have "getOrCreateClient K owner (cfg\<lparr>ucs_secret_access_key := secret\<rparr>) st' = (Inr c, st')" for secret
    by (simp add: getOrCreateClient_def config_hash_def)
  moreover note client_targets [OF cfg'(2) same]
  ultimately show ?thesis using cfg'(1,2) by blast
qed


section \<open>Witnesses\<close>

text \<open>A cloud of one table of objects; the format of gzip is its magic number before the text.\<close>

type_synonym sample_cloud = "string \<times> string \<rightharpoonup> stored_object"

definition magic :: bytes where "magic = [CHR 0x1F, CHR 0x8B]"

definition sample_gunzip :: "bytes \<Rightarrow> cloud_read" where
  "sample_gunzip x = (if take 2 x = magic then Inr (Inr (drop 2 x)) else Inl ErrDB)"

definition sample_read :: "string \<Rightarrow> string \<Rightarrow> sample_cloud \<Rightarrow> bool \<Rightarrow> cloud_read" where
  "sample_read b k w transcode = (case w (b, k) of
     None \<Rightarrow> Inl ErrDB
   | Some x \<Rightarrow> if transcode \<and> so_content_encoding x = ''gzip'' then sample_gunzip (so_data x) else Inr (Inr (so_data x)))"

definition sample_sdk :: "(nat, sample_cloud) cloud_sdk" where
  "sample_sdk = \<lparr>aws_load_config = (\<lambda>r c. None), s3_put_object = (\<lambda>c b k x w. (Inr (), w((b, k) \<mapsto> x))),
     s3_get_object = (\<lambda>c b k w. sample_read b k w False), s3_head_bucket = (\<lambda>c b w. Inr ()),
     gcs_new = (\<lambda>c w. (Inr 0, w)), gcs_write = (\<lambda>g b k x w. ((None, None), w((b, k) \<mapsto> x))),
     gcs_read = (\<lambda>g b k w. sample_read b k w True), gcs_delete = (\<lambda>g b k w. (Inr (), w((b, k) := None))),
     gcs_close = (\<lambda>g w. w), sdk_gzip = (\<lambda>x. magic @ x), sdk_gunzip = sample_gunzip, sdk_quoted = (\<lambda>x. x)\<rparr>"

definition sample_config :: "string \<Rightarrow> string \<Rightarrow> UserCloudStorageConfig" where
  "sample_config prov secret = \<lparr>ucs_provider = prov, ucs_bucket = ''b'', ucs_region = ''r'', ucs_endpoint = [],
     ucs_access_key_id = ''a'', ucs_secret_access_key = secret, ucs_gcs_bucket = ''g'', ucs_gcs_project_id = ''p'',
     ucs_gcs_credentials_json = ''c''\<rparr>"

definition sample_upload :: BodyUpload where
  "sample_upload = \<lparr>bu_key = ''k'', bu_request_id = 7, bu_timestamp = 0, bu_request_method = ''POST'', bu_request_path = ''/v1'',
     bu_request_headers = [(''b'', ''2''), (''a'', ''1'')], bu_request_body = ''[1,2]'', bu_response_status = 200,
     bu_response_headers = [], bu_response_body = ''no json''\<rparr>"

definition empty_storage :: "(nat, sample_cloud) storage_state" where
  "empty_storage = \<lparr>st_clients = Map.empty, st_world = Map.empty\<rparr>"

lemma sample_life: "storage_life sample_sdk fmt {} empty_storage"
  unfolding empty_storage_def by (rule storage_life.fresh)

lemma sample_bars: "\<forall>(o', cfg') \<in> insert (owner, sample_config prov s) {}. bar_free cfg'" if "CHR ''|'' \<notin> set prov"
  using that by (simp add: bar_free_def sample_config_def)

lemma sample_laws: "gzip_format sample_sdk" "s3_keeps sample_sdk" "gcs_transcodes sample_sdk"
  by (simp_all add: gzip_format_def s3_keeps_def gcs_transcodes_def sample_sdk_def sample_gunzip_def sample_read_def magic_def)

lemma itoa_one_two: "itoa 1 = ''1''" "itoa 2 = ''2''"
  by code_simp+

lemma sample_storable: "storable (\<lambda>i. ''id'') sample_upload"
proof -
  have "parse_json ''[1,2]'' = Some (JArr [JNum ''1'', JNum ''2''])" "parse_json ''no json'' = None" by code_simp+
  moreover have "wf_num ''1''" "wf_num ''2''"
    using wf_num_itoa [of 1] wf_num_itoa [of 2] by (simp_all add: itoa_one_two)
  moreover have "max_nesting_depth - 2 = 9998" by (simp add: max_nesting_depth_def)
  ultimately show ?thesis
    by (simp add: storable_def sample_upload_def headers_ok_def body_ok_def valid_utf8_def in_int64_def)
qed

lemma sample_client: "getOrCreateClient sample_sdk 1 (sample_config ''s3'' s) empty_storage =
  (let c = \<lparr>usc_provider = ''s3'', usc_s3 = Some (s3_client_of (sample_config ''s3'' s)), usc_gcs = None, usc_bucket = ''b'',
     usc_config_hash = config_hash (sample_config ''s3'' s)\<rparr> in (Inr c, store_client 1 c empty_storage))"
  by (simp add: getOrCreateClient_def create_client_def createS3Client_def empty_storage_def sample_config_def sample_sdk_def
      Let_def CloudStorageProviderGCS_def CloudStorageProviderS3_def)

text \<open>A rotation of the secret, after which the client with the old one is returned.\<close>

theorem client_for_config_witness:
  "\<exists>c st. getOrCreateClient sample_sdk 1 (sample_config ''s3'' ''old'') empty_storage = (Inr c, st) \<and> usc_bucket c = ''b''
    \<and> getOrCreateClient sample_sdk 1 (sample_config ''s3'' ''new'') st = (Inr c, st)
    \<and> usc_s3 c = Some (s3_client_of (sample_config ''s3'' ''old''))"
proof -
  obtain c st where get: "getOrCreateClient sample_sdk 1 (sample_config ''s3'' ''old'') empty_storage = (Inr c, st)"
    "usc_s3 c = Some (s3_client_of (sample_config ''s3'' ''old''))"
    by (simp add: sample_client Let_def)
  have "sample_config ''s3'' ''old''\<lparr>ucs_secret_access_key := ''new''\<rparr> = sample_config ''s3'' ''new''"
    by (simp add: sample_config_def)
  then show ?thesis
    using client_for_config [OF sample_life [of "\<lambda>i. ''id''"] sample_bars get(1)] get
    by (fastforce simp: sample_config_def CloudStorageProviderGCS_def)
qed


end
