(* ===== verification/Server.thy ===== *)
theory Server
  imports Proxy_Safety Claude_Sessions Orgs
begin

text \<open>
  The HTTP server (internal/server): its routes with their guards (server.go), the middleware (middleware.go) and the
  CORS headers (cors.go), and with them the composition of the proxy handler, the proxy key API, the session API and
  the administration on one state. The router chi is a parameter with its documented behaviour: a mounted group takes
  the paths under its prefix, a pattern without parameters matches itself, and what it finds is in the table.
\<close>

section \<open>Cross-origin requests (cors.go)\<close>

text \<open>The headers that are set, and the status of the answer unless the next handler gives it.\<close>

definition CORSMiddleware :: "string list \<Rightarrow> string \<Rightarrow> string \<Rightarrow> header \<times> int option" where
  "CORSMiddleware allowedOrigins origin httpMethod =
     (let originSet = set (map trim_slashes allowedOrigins);
          h = (if origin \<noteq> [] \<and> origin \<in> originSet then
                 fold (\<lambda>(k, v). hset k v) [
                   (''Access-Control-Allow-Origin'', origin),
                   (''Access-Control-Allow-Methods'', ''GET, POST, PUT, DELETE, OPTIONS''),
                   (''Access-Control-Allow-Headers'', ''Authorization, Content-Type, X-Majordomo-Key, X-Majordomo-Provider''),
                   (''Access-Control-Expose-Headers'', ''X-Request-ID''),
                   (''Access-Control-Allow-Credentials'', ''true''),
                   (''Access-Control-Max-Age'', ''86400'')] []
               else [])
      in (h, if httpMethod = ''OPTIONS'' then Some 204 else None))"

section \<open>Requests and answers\<close>

text \<open>A request: the path the router looks at (the escaped one where it differs), the declared length of the body and
  the parameters of the query.\<close>

record server_request =
  sr_http :: http_request
  sr_route_path :: string
  sr_content_length :: int
  sr_query :: "string \<Rightarrow> string"

text \<open>What the environment gives a request; ev_ping is the text of an error of the database.\<close>

record server_env =
  ev_request_id :: string
  ev_call :: call
  ev_api :: call_env
  ev_session :: session_env
  ev_butler :: "string fetcher"
  ev_rnd :: "err + bytes"
  ev_now :: time
  ev_ping :: "string option"

datatype server_reply = PlainReply int string | JsonReply reply | ProxyReply http_reply | RouteNotFound | MethodNotAllowed

record server_answer =
  sa_request_id :: string
  sa_reply :: server_reply

record ('c, 'p, 'd) server_state =
  ss_proxy :: "('c, 'p, 'd) proxy_state"
  ss_logs :: "log_tables repo_db"
  ss_orgs :: steward_state

type_synonym 's server_op = "'s \<Rightarrow> server_reply outcome \<times> 's"

section \<open>The routes (server.go)\<close>

datatype admin_request = ListOrgsReq | RegisterOrgReq string | DeregisterOrgReq string

text \<open>An endpoint makes the request of its API from the parameters of the path and the body.\<close>

datatype endpoint =
    KeyApi "(string \<Rightarrow> string) \<Rightarrow> string \<Rightarrow> api_request"
  | SessionApi "(string \<Rightarrow> string) \<Rightarrow> server_request \<Rightarrow> string \<Rightarrow> session_request"
  | AdminApi "(string \<Rightarrow> string) \<Rightarrow> string \<Rightarrow> admin_request"

datatype guard = ApiKeyGuard | AdminGuard

record route_group =
  rg_prefix :: string
  rg_guard :: guard
  rg_routes :: "(string \<times> string \<times> endpoint) list"

definition key_routes :: "(string \<times> string \<times> endpoint) list" where
  "key_routes = [
     (''POST'', ''/proxy-keys'', KeyApi (\<lambda>p body. CreateReq body)),
     (''GET'', ''/proxy-keys'', KeyApi (\<lambda>p body. ListReq)),
     (''GET'', ''/proxy-keys/{id}'', KeyApi (\<lambda>p body. GetReq (p ''id''))),
     (''DELETE'', ''/proxy-keys/{id}'', KeyApi (\<lambda>p body. RevokeReq (p ''id''))),
     (''PUT'', ''/proxy-keys/{id}/providers/{provider}'', KeyApi (\<lambda>p body. SetMappingReq (p ''id'') (p ''provider'') body)),
     (''DELETE'', ''/proxy-keys/{id}/providers/{provider}'', KeyApi (\<lambda>p body. DeleteMappingReq (p ''id'') (p ''provider''))),
     (''GET'', ''/proxy-keys/{id}/providers'', KeyApi (\<lambda>p body. ListMappingsReq (p ''id'')))]"

definition session_routes :: "(string \<times> string \<times> endpoint) list" where
  "session_routes = [
     (''POST'', ''/'', SessionApi (\<lambda>p r body. StartSessionReq (sr_content_length r) body)),
     (''GET'', ''/'', SessionApi (\<lambda>p r body. ListSessionsReq (sr_query r ''limit'') (sr_query r ''offset''))),
     (''GET'', ''/{id}'', SessionApi (\<lambda>p r body. GetSessionReq (p ''id''))),
     (''POST'', ''/{id}/end'', SessionApi (\<lambda>p r body. EndSessionReq (p ''id''))),
     (''GET'', ''/{id}/requests'', SessionApi (\<lambda>p r body.
        SessionRequestsReq (p ''id'') (sr_query r ''limit'') (sr_query r ''offset'')))]"

definition admin_routes :: "(string \<times> string \<times> endpoint) list" where
  "admin_routes = [
     (''GET'', ''/orgs'', AdminApi (\<lambda>p body. ListOrgsReq)),
     (''POST'', ''/orgs/register'', AdminApi (\<lambda>p body. RegisterOrgReq body)),
     (''DELETE'', ''/orgs/{orgID}'', AdminApi (\<lambda>p body. DeregisterOrgReq (p ''orgID'')))]"

text \<open>The server: its handlers, of which each API may be missing, and the token of the administration. The secret
  store of the proxy key API is missing when no encryption key is configured.\<close>

record ('c, 'p, 'd) server =
  srv_proxy :: "('c, 'p, 'd) Proxy_Handler.handler"
  srv_api :: bool
  srv_api_secrets :: bool
  srv_sessions :: bool
  srv_admin_token :: string
  srv_admin :: bool
  srv_codec :: codec

definition route_groups :: "('c, 'p, 'd) server \<Rightarrow> route_group list" where
  "route_groups S =
     (if srv_api S then [\<lparr>rg_prefix = ''/api/v1'', rg_guard = ApiKeyGuard, rg_routes = key_routes\<rparr>] else [])
     @ (if srv_sessions S then [\<lparr>rg_prefix = ''/api/v1/claude-sessions'', rg_guard = ApiKeyGuard, rg_routes = session_routes\<rparr>] else [])
     @ (if srv_admin_token S \<noteq> [] \<and> srv_admin S
        then [\<lparr>rg_prefix = ''/admin'', rg_guard = AdminGuard, rg_routes = admin_routes\<rparr>] else [])"

definition probe_routes :: "(string \<times> string) list" where
  "probe_routes = [(''GET'', ''/health''), (''GET'', ''/readyz'')]"

text \<open>The router: on the outside the probes, the mounted groups and the rest, inside a group its own table.\<close>

datatype top_match = TopRoute nat | TopMount nat | TopRest

datatype sub_match = SubRoute nat "(string \<times> string) list" | SubMethod | SubNone

record chi =
  chi_top :: "(string \<times> string) list \<Rightarrow> string list \<Rightarrow> string \<Rightarrow> string \<Rightarrow> top_match"
  chi_sub :: "(string \<times> string) list \<Rightarrow> string \<Rightarrow> string \<Rightarrow> sub_match"

definition under_path :: "string \<Rightarrow> string \<Rightarrow> bool" where
  "under_path pre path = (path = pre \<or> has_prefix path (pre @ ''/''))"

definition static_pattern :: "string \<Rightarrow> bool" where
  "static_pattern p = (CHR ''{'' \<notin> set p \<and> CHR ''*'' \<notin> set p)"

definition chi_top_spec :: "chi \<Rightarrow> bool" where
  "chi_top_spec X = (\<forall>rs ps m path. (\<forall>r \<in> set rs. static_pattern (snd r)) \<longrightarrow> (case chi_top X rs ps m path of
     TopRoute i \<Rightarrow> i < length rs \<and> rs ! i = (m, path)
   | TopMount i \<Rightarrow> i < length ps \<and> under_path (ps ! i) path
   | TopRest \<Rightarrow> \<forall>p \<in> set ps. \<not> under_path p path))"

definition chi_sub_spec :: "chi \<Rightarrow> bool" where
  "chi_sub_spec X = (\<forall>rs m path i ps. chi_sub X rs m path = SubRoute i ps \<longrightarrow> i < length rs \<and> fst (rs ! i) = m)"

definition chi_spec :: "chi \<Rightarrow> bool" where
  "chi_spec X = (chi_top_spec X \<and> chi_sub_spec X)"

section \<open>The endpoints on the common state\<close>

definition on_keys :: "(KeyDB \<Rightarrow> reply \<times> KeyDB) \<Rightarrow> ('c, 'p, 'd) server_state server_op" where
  "on_keys f st = (case f (px_keys (ss_proxy st)) of (rep, db) \<Rightarrow>
     (Ret (JsonReply rep), st\<lparr>ss_proxy := (ss_proxy st)\<lparr>px_keys := db\<rparr>\<rparr>))"

definition on_logs :: "(log_tables repo_db \<Rightarrow> reply \<times> log_tables repo_db) \<Rightarrow> ('c, 'p, 'd) server_state server_op" where
  "on_logs f st = (case f (ss_logs st) of (rep, db) \<Rightarrow> (Ret (JsonReply rep), st\<lparr>ss_logs := db\<rparr>))"

fun handle_admin :: "codec \<Rightarrow> server_env \<Rightarrow> admin_request \<Rightarrow> ('c, 'p, 'd) server_state server_op" where
  "handle_admin K ev ListOrgsReq st = (case HandleListOrgs K (ss_logs st) (ss_orgs st) of
     (rep, logs, orgs) \<Rightarrow> (Ret (JsonReply rep), st\<lparr>ss_logs := logs, ss_orgs := orgs\<rparr>))"
| "handle_admin K ev (RegisterOrgReq body) st = (case HandleRegisterOrg K (ev_butler ev) (ev_rnd ev) (ev_now ev) body (ss_orgs st) of
     (rep, orgs) \<Rightarrow> (Ret (JsonReply rep), st\<lparr>ss_orgs := orgs\<rparr>))"
| "handle_admin K ev (DeregisterOrgReq idText) st = (case HandleDeregisterOrg K idText (ss_orgs st) of
     (rep, orgs) \<Rightarrow> (Ret (JsonReply rep), st\<lparr>ss_orgs := orgs\<rparr>))"

text \<open>Setting a mapping calls the secret store once the request is valid and the proxy key is the caller's.\<close>

definition reaches_encrypt :: "call_env \<Rightarrow> api_request \<Rightarrow> APIKeyInfo option \<Rightarrow> KeyDB \<Rightarrow> bool" where
  "reaches_encrypt E q info db = (case (q, info) of
     (SetMappingReq idText prov body, Some i) \<Rightarrow>
        (case (parse_uuid (ce_codec E) idText, decode_stream dec_set_mapping body []) of
           (Some kid, Inr apiKey) \<Rightarrow> prov \<noteq> [] \<and> apiKey \<noteq> []
             \<and> (case GetProxyKeyByID kid db of (Inr pk, _) \<Rightarrow> pk_api_key_id pk = aki_id i | _ \<Rightarrow> False)
         | _ \<Rightarrow> False)
   | _ \<Rightarrow> False)"

text \<open>A body that cannot be read is an empty one, which no decoder accepts.\<close>

definition body_text :: "server_request \<Rightarrow> string" where
  "body_text r = (case hr_body (sr_http r) of Inl e \<Rightarrow> [] | Inr b \<Rightarrow> b)"

definition run_endpoint :: "('c, 'p, 'd) server \<Rightarrow> server_env \<Rightarrow> server_request \<Rightarrow> (string \<Rightarrow> string) \<Rightarrow> endpoint
    \<Rightarrow> APIKeyInfo option \<Rightarrow> ('c, 'p, 'd) server_state server_op" where
  "run_endpoint S ev r params e info st = (case e of
     KeyApi mk \<Rightarrow> let q = mk params (body_text r) in
        if \<not> srv_api_secrets S \<and> reaches_encrypt (ev_api ev) q info (px_keys (ss_proxy st))
        then (Panic ''nil pointer dereference'', st) else on_keys (handle (ev_api ev) q info) st
   | SessionApi mk \<Rightarrow> on_logs (handle_session (ev_session ev) (mk params r (body_text r)) info) st
   | AdminApi mk \<Rightarrow> handle_admin (srv_codec S) ev (mk params (body_text r)) st)"

section \<open>The guards\<close>

text \<open>The middleware of the two APIs, which shares the resolver, and its cache, with the proxy handler.\<close>

definition api_resolution :: "('c, 'p, 'd) server \<Rightarrow> server_env \<Rightarrow> server_request \<Rightarrow> ('c, 'p, 'd) server_state
    \<Rightarrow> (APIKeyInfo option, 'c, KeyDB) resolution" where
  "api_resolution S ev r st = ResolveAPIKey (h_key_lru (srv_proxy S)) GetAPIKeyByHash (ca_clock (ev_call ev) 1) (ca_clock (ev_call ev) 2)
     (hget ''X-Majordomo-Key'' (hr_header (sr_http r))) (px_key_cache (ss_proxy st)) (px_keys (ss_proxy st))"

definition api_guard :: "('c, 'p, 'd) server \<Rightarrow> server_env \<Rightarrow> server_request \<Rightarrow> (APIKeyInfo option \<Rightarrow> ('c, 'p, 'd) server_state server_op)
    \<Rightarrow> ('c, 'p, 'd) server_state server_op" where
  "api_guard S ev r next st =
     (let res = api_resolution S ev r st; px = ss_proxy st;
          st' = st\<lparr>ss_proxy := px\<lparr>px_key_cache := res_cache res, px_keys := res_store res,
                   px_trace := px_trace px @ (case res_touch res of Some i \<Rightarrow> [TouchKey i] | None \<Rightarrow> [])\<rparr>\<rparr>
      in case res_result res of
           Inl e \<Rightarrow> (Ret (JsonReply (WriteJSONError 401 ''unauthorized'')), st')
         | Inr info \<Rightarrow> next info st')"

definition admin_guard :: "('c, 'p, 'd) server \<Rightarrow> server_request \<Rightarrow> ('c, 'p, 'd) server_state server_op \<Rightarrow> ('c, 'p, 'd) server_state server_op" where
  "admin_guard S r next st = (case adminAuth (srv_admin_token S) (hget ''Authorization'' (hr_header (sr_http r))) of
     Some rep \<Rightarrow> (Ret (JsonReply rep), st) | None \<Rightarrow> next st)"

section \<open>Serving a request\<close>

definition serve_group :: "chi \<Rightarrow> ('c, 'p, 'd) server \<Rightarrow> server_env \<Rightarrow> server_request \<Rightarrow> route_group \<Rightarrow> ('c, 'p, 'd) server_state server_op" where
  "serve_group X S ev r g =
     (let inner = (\<lambda>info. case chi_sub X (map (\<lambda>(m, p, e). (m, p)) (rg_routes g)) (hr_method (sr_http r))
                                 (drop (length (rg_prefix g)) (sr_route_path r)) of
            SubRoute i ps \<Rightarrow> run_endpoint S ev r (\<lambda>k. case map_of ps k of Some v \<Rightarrow> v | None \<Rightarrow> []) (snd (snd (rg_routes g ! i))) info
          | SubMethod \<Rightarrow> (\<lambda>st. (Ret MethodNotAllowed, st))
          | SubNone \<Rightarrow> (\<lambda>st. (Ret RouteNotFound, st)))
      in case rg_guard g of ApiKeyGuard \<Rightarrow> api_guard S ev r inner | AdminGuard \<Rightarrow> admin_guard S r (inner None))"

definition readyzHandler :: "server_env \<Rightarrow> server_reply" where
  "readyzHandler ev = (case ev_ping ev of
     Some e \<Rightarrow> JsonReply (WriteJSON 503 (JObj [(''error'', enc_string e), (''status'', enc_string ''error'')]))
   | None \<Rightarrow> JsonReply (WriteJSON 200 (JObj [(''status'', enc_string ''ok'')])))"

definition probe :: "server_env \<Rightarrow> nat \<Rightarrow> server_reply" where
  "probe ev i = (if i = 0 then PlainReply 200 ''ok'' else readyzHandler ev)"

definition serve_proxy :: "('c, 'p, 'd) server \<Rightarrow> server_env \<Rightarrow> server_request \<Rightarrow> ('c, 'p, 'd) server_state server_op" where
  "serve_proxy S ev r st = (case ServeHTTP (srv_proxy S) (ev_call ev) (sr_http r) (ss_proxy st) of (v, px) \<Rightarrow>
     (case v of Reply rep \<Rightarrow> Ret (ProxyReply rep) | Go rep \<Rightarrow> Ret (ProxyReply rep) | Crash msg \<Rightarrow> Panic msg, st\<lparr>ss_proxy := px\<rparr>))"

definition route_request :: "chi \<Rightarrow> ('c, 'p, 'd) server \<Rightarrow> server_env \<Rightarrow> server_request \<Rightarrow> ('c, 'p, 'd) server_state server_op" where
  "route_request X S ev r = (case chi_top X probe_routes (map rg_prefix (route_groups S)) (hr_method (sr_http r)) (sr_route_path r) of
     TopRoute i \<Rightarrow> (\<lambda>st. (Ret (probe ev i), st))
   | TopMount i \<Rightarrow> serve_group X S ev r (route_groups S ! i)
   | TopRest \<Rightarrow> serve_proxy S ev r)"

text \<open>A panic is answered; the process and the state it has left go on.\<close>

definition Recovery :: "'s server_op \<Rightarrow> 's \<Rightarrow> server_reply \<times> 's" where
  "Recovery next st = (case next st of
     (Ret rep, st') \<Rightarrow> (rep, st')
   | (_, st') \<Rightarrow> (JsonReply (WriteJSONError 500 ''internal server error''), st'))"

definition RequestID :: "string \<Rightarrow> server_reply \<Rightarrow> server_answer" where
  "RequestID requestID rep = \<lparr>sa_request_id = requestID, sa_reply = rep\<rparr>"

definition serve :: "chi \<Rightarrow> ('c, 'p, 'd) server \<Rightarrow> server_env \<Rightarrow> server_request \<Rightarrow> ('c, 'p, 'd) server_state
    \<Rightarrow> server_answer \<times> ('c, 'p, 'd) server_state" where
  "serve X S ev r st = apfst (RequestID (ev_request_id ev)) (Recovery (route_request X S ev r) st)"

section \<open>The invariant of the common state\<close>

definition server_ok :: "('c, 'p, 'd) server_state \<Rightarrow> bool" where
  "server_ok st = (key_db_ok (px_keys (ss_proxy st)) \<and> sessions_unique (rdb_tables (ss_logs st)) \<and> org_inv (ss_orgs st))"

text \<open>A new session gets an identifier that no session has.\<close>

definition fresh_session :: "server_env \<Rightarrow> ('c, 'p, 'd) server_state \<Rightarrow> bool" where
  "fresh_session ev st = (se_newid (ev_session ev) \<notin> cs_id ` set (ldb_sessions (rdb_tables (ss_logs st))))"

subsection \<open>The resolvers and the proxy handler change no key\<close>

lemma same_tables_sym: "same_tables a b \<Longrightarrow> same_tables b a"
  by (simp add: same_tables_def)

lemma ResolveAPIKey_same: "same_tables db (res_store (ResolveAPIKey L GetAPIKeyByHash now later apiKey c db))"
  using query_same(1) [of db "HashAPIKey apiKey"]
  by (cases "GetAPIKeyByHash (HashAPIKey apiKey) db")
    (auto simp: ResolveAPIKey_def Let_def split: prod.split option.split sum.split)

lemma proxy_lookup_same:
  "same_tables db (snd (proxy_lookup GetProxyKeyByHash GetProviderMapping decrypt hash prov kid db))"
proof (cases "GetProxyKeyByHash hash db")
  case (Pair r d)
  then have d: "same_tables db d" using query_same(2) [of db hash] by simp
  have m: "same_tables db d'" if "GetProviderMapping i prov d = (r', d')" for i r' d'
    using same_tables_trans [OF d] query_same(3) [of d i prov] that by simp
  show ?thesis using d m by (auto simp: proxy_lookup_def Pair split: sum.split option.split prod.split)
qed

lemma ResolveProxyKey_same:
  "same_tables db (res_store (ResolveProxyKey K P GetProxyKeyByHash GetProviderMapping decrypt now later authKey prov kid cd db))"
  using proxy_lookup_same [of db decrypt "HashAPIKey authKey" prov kid]
  by (auto simp: ResolveProxyKey_def Let_def split: prod.split option.split sum.split)

definition keeps_keys :: "(('c, 'p, 'd) proxy_state, 'a) handler_op \<Rightarrow> bool" where
  "keeps_keys m = (\<forall>st. same_tables (px_keys st) (px_keys (snd (m st))))"

lemma keeps_keysD: "keeps_keys m \<Longrightarrow> m st = (v, st') \<Longrightarrow> same_tables (px_keys st) (px_keys st')"
  unfolding keeps_keys_def by (metis snd_conv)

lemma keeps_keys_bind:
  assumes "keeps_keys m" "\<And>a. keeps_keys (f a)"
  shows "keeps_keys (hbind m f)"
  unfolding keeps_keys_def
proof
  fix st
  obtain v st' where "hbind m f st = (v, st')" by fastforce
  then show "same_tables (px_keys st) (px_keys (snd (hbind m f st)))"
  proof (cases rule: hbind_cases)
    case (go a st1)
    then show ?thesis
      using same_tables_trans [OF keeps_keysD [OF assms(1)] keeps_keysD [OF assms(2)]] \<open>hbind m f st = (v, st')\<close> by simp
  qed (use keeps_keysD [OF assms(1)] \<open>hbind m f st = (v, st')\<close> in simp_all)
qed

lemma keeps_keys_stages [simp]:
  "keeps_keys (hpure v)" "keeps_keys (authenticate H C r)" "keeps_keys (exchange_proxy_key H C info op)"
  "keeps_keys (route_stage H C info op)" "keeps_keys (finish H C og)"
  by (auto simp: keeps_keys_def hpure_def authenticate_def exchange_proxy_key_def route_stage_def finish_def trace_def Let_def
      ResolveAPIKey_same ResolveProxyKey_same split: option.split prod.split outcome.split exchange.split)

lemma keeps_keys_serve: "keeps_keys (ServeHTTP H C r)"
  unfolding ServeHTTP_def prepare_def by (intro keeps_keys_bind) (auto intro!: keeps_keys_bind)

subsection \<open>The proxy key API keeps the invariant\<close>

lemma with_owned_keeps:
  assumes "key_db_ok db" "\<And>pk d. key_db_ok d \<Longrightarrow> key_db_ok (snd (f pk d))"
  shows "key_db_ok (snd (with_owned kid A f db))"
proof (cases "GetProxyKeyByID kid db")
  case (Pair r d)
  then have "key_db_ok d" using key_db_ok_same [OF GetProxyKeyByID_same assms(1)] by (metis snd_conv)
  then show ?thesis using assms(2) Pair by (simp add: with_owned_def split: sum.split)
qed

lemma service_keeps:
  assumes "key_db_ok db"
  shows "key_db_ok (snd (svc_GetProxyKey kid A db))" "key_db_ok (snd (svc_RevokeProxyKey now kid A db))"
    "key_db_ok (snd (svc_SetProviderMapping key rnd newid now kid A prov apiKey db))"
    "key_db_ok (snd (svc_DeleteProviderMapping kid A prov db))" "key_db_ok (snd (svc_ListProviderMappings kid A db))"
    "key_db_ok (snd (svc_CreateProxyKey rnd newid now A nm desc db))" "key_db_ok (snd (ListProxyKeys A db))"
proof -
  show "key_db_ok (snd (svc_GetProxyKey kid A db))" unfolding svc_GetProxyKey_def
    by (rule with_owned_keeps [OF assms]) simp
  show "key_db_ok (snd (svc_RevokeProxyKey now kid A db))" unfolding svc_RevokeProxyKey_def
    by (rule with_owned_keeps [OF assms]) (rule keeps)
  show "key_db_ok (snd (svc_SetProviderMapping key rnd newid now kid A prov apiKey db))" unfolding svc_SetProviderMapping_def
    by (rule with_owned_keeps [OF assms]) (auto intro: keeps split: sum.split)
  show "key_db_ok (snd (svc_DeleteProviderMapping kid A prov db))" unfolding svc_DeleteProviderMapping_def
    by (rule with_owned_keeps [OF assms]) (rule keeps)
  show "key_db_ok (snd (svc_ListProviderMappings kid A db))" unfolding svc_ListProviderMappings_def
  proof (rule with_owned_keeps [OF assms])
    fix d pk assume "key_db_ok d"
    then have "key_db_ok (snd (ListProviderMappings kid d))" by (rule key_db_ok_same [OF query_same(4)])
    then show "key_db_ok (snd (case ListProviderMappings kid d of (Inl e, db1) \<Rightarrow> (Inl e, db1)
        | (Inr ms, db1) \<Rightarrow> (Inr (map mapping_response ms), db1)))" for pk :: ProxyKey
      by (cases "ListProviderMappings kid d") (simp split: sum.split)
  qed
  show "key_db_ok (snd (svc_CreateProxyKey rnd newid now A nm desc db))"
  proof -
    have "key_db_ok d" if "CreateProxyKey newid now h A inp db = (r, d)" for h inp r d
      using CreateProxyKey_keeps [OF assms, of newid now h A inp] that by simp
    then show ?thesis using assms by (auto simp: svc_CreateProxyKey_def split: sum.split prod.split)
  qed
  show "key_db_ok (snd (ListProxyKeys A db))" by (rule key_db_ok_same [OF query_same(5) assms])
qed

lemma handle_keeps: "key_db_ok db \<Longrightarrow> key_db_ok (snd (handle E q info db))"
  by (cases q; cases info)
    (auto simp: handler_defs with_id_def service_keeps split: sum.split option.split)

lemma handle_anonymous: "handle E q None db = (WriteJSONError 401 ''unauthorized'', db)"
  by (cases q) (simp_all add: handler_defs)

subsection \<open>The session API\<close>

lemma handle_session_anonymous: "handle_session E q None db = (WriteJSONError 401 ''unauthorized'', db)"
  by (cases q) (simp_all add: session_handlers with_session_def session_auth_def)

lemma StartSession_unique:
  assumes "sessions_unique (rdb_tables db)" "newid \<notin> cs_id ` set (ldb_sessions (rdb_tables db))"
  shows "sessions_unique (rdb_tables (snd (StartSession newid now db_now kid nm db)))"
proof -
  let ?f = "\<lambda>t. let row = \<lparr>cs_id = newid, cs_majordomo_api_key_id = kid, cs_org_id = None, cs_session_name = nm, cs_started_at = now,
      cs_ended_at = None, cs_total_requests = 0, cs_total_input_tokens = 0, cs_total_output_tokens = 0, cs_total_cost = 0,
      cs_created_at = db_now\<rparr> in Inr (row, t\<lparr>ldb_sessions := ldb_sessions t @ [row]\<rparr>) :: err + ClaudeSession \<times> log_tables"
  have "snd (StartSession newid now db_now kid nm db) = snd (rexec ?f db)"
    by (cases "rexec ?f db") (simp add: StartSession_def CreateClaudeSession_def rwrap_def split: sum.split)
  then show ?thesis using assms rexec_cases [of ?f db] by (auto simp: sessions_unique_def Let_def)
qed

lemma handle_session_unique:
  assumes "sessions_unique (rdb_tables db)" "se_newid E \<notin> cs_id ` set (ldb_sessions (rdb_tables db))"
  shows "sessions_unique (rdb_tables (snd (handle_session E q (Some i) db)))"
proof (cases q)
  case (StartSessionReq len body)
  then show ?thesis using StartSession_unique [OF assms]
    by (simp add: h_StartSession_def session_auth_def)
next
  case (EndSessionReq idText)
  have ids: "map (cs_id \<circ> (\<lambda>x. if P x then x\<lparr>cs_ended_at := e\<rparr> else x)) rows = map cs_id rows"
    for P e and rows :: "ClaudeSession list" by simp
  show ?thesis unfolding EndSessionReq handle_session.simps h_EndSession_def
  proof (rule with_session_tables)
    fix s and d :: "log_tables repo_db"
    assume "rdb_tables d = rdb_tables db"
    then show "sessions_unique (rdb_tables (snd (respond bad good (EndSession (se_db_now E) (cs_id s) d))))" for bad good
      using EndSession_tables [of "se_db_now E" "cs_id s" d] assms(1) by (auto simp: sessions_unique_def ids)
  qed (rule assms)
next
  case (GetSessionReq idText)
  then show ?thesis using assms(1) by (simp add: h_GetSession_def with_session_tables)
next
  case (ListSessionsReq lt ot)
  then show ?thesis using assms(1)
    by (simp add: h_ListSessions_def session_auth_def ListClaudeSessions_def counted_page_tables split: prod.split)
next
  case (SessionRequestsReq idText lt ot)
  show ?thesis unfolding SessionRequestsReq handle_session.simps h_ListSessionRequests_def
    by (rule with_session_tables) (use assms(1) in \<open>simp_all add: ListClaudeSessionRequests_def counted_page_tables split: prod.split\<close>)
qed

subsection \<open>The administration\<close>

lemma org_statuses_tables: "rdb_tables (snd (org_statuses K orgs db)) = rdb_tables db"
proof (induction orgs arbitrary: db)
  case (Cons org orgs)
  obtain r db1 where c: "CountUnsyncedRecords (ro_org_id org) db = (r, db1)" by fastforce
  then have "rdb_tables db1 = rdb_tables db"
    using rwrap_tables [of "''count unsynced records''"] rquery_tables unfolding CountUnsyncedRecords_def by (metis snd_conv)
  then show ?case using Cons.IH [of db1] c by (cases "org_statuses K orgs db1") simp
qed simp

lemma HandleListOrgs_tables:
  assumes "HandleListOrgs K logs (db, m) = (rep, logs', db', m')"
  shows "rdb_tables logs' = rdb_tables logs \<and> rdb_tables db' = rdb_tables db \<and> m' = m"
proof -
  obtain r d where l: "ListRegisteredOrgs db = (r, d)" by fastforce
  have "rdb_tables logs'' = rdb_tables logs" if "org_statuses K orgs logs = (js, logs'')" for orgs js logs''
    using org_statuses_tables [of K orgs logs] that by simp
  then show ?thesis using assms ListRegisteredOrgs_run [OF l] l
    by (auto simp: HandleListOrgs_def split: sum.splits prod.splits)
qed

lemma HandleRegisterOrg_step:
  "HandleRegisterOrg K butler rnd now body st = (rep, st') \<Longrightarrow> st' = st \<or> org_step st st'"
  unfolding HandleRegisterOrg_def by (auto split: sum.splits if_splits prod.splits intro: registers)

lemma handle_admin_state:
  assumes "handle_admin K ev q st = (v, st')"
  shows "ss_proxy st' = ss_proxy st" "rdb_tables (ss_logs st') = rdb_tables (ss_logs st)"
    "org_inv (ss_orgs st) \<Longrightarrow> org_inv (ss_orgs st')"
proof -
  have "ss_proxy st' = ss_proxy st \<and> rdb_tables (ss_logs st') = rdb_tables (ss_logs st)
      \<and> (org_inv (ss_orgs st) \<longrightarrow> org_inv (ss_orgs st'))"
  proof (cases q)
    case ListOrgsReq
    obtain rep logs db m db0 m0 where l: "HandleListOrgs K (ss_logs st) (db0, m0) = (rep, logs, db, m)" "ss_orgs st = (db0, m0)"
      by (metis surj_pair)
    then show ?thesis using HandleListOrgs_tables [OF l(1)] assms
      by (auto simp: ListOrgsReq org_inv_def)
  next
    case (RegisterOrgReq body)
    obtain rep orgs where h: "HandleRegisterOrg K (ev_butler ev) (ev_rnd ev) (ev_now ev) body (ss_orgs st) = (rep, orgs)"
      by (metis surj_pair)
    then have "org_inv (ss_orgs st) \<Longrightarrow> org_inv orgs" using HandleRegisterOrg_step [OF h] org_step_keeps by blast
    then show ?thesis using assms h by (auto simp: RegisterOrgReq)
  next
    case (DeregisterOrgReq idText)
    obtain rep orgs where h: "HandleDeregisterOrg K idText (ss_orgs st) = (rep, orgs)"
      by (metis surj_pair)
    then have "org_inv (ss_orgs st) \<Longrightarrow> org_inv orgs" using org_step_keeps [OF deregisters] by blast
    then show ?thesis using assms h by (auto simp: DeregisterOrgReq)
  qed
  then show "ss_proxy st' = ss_proxy st" "rdb_tables (ss_logs st') = rdb_tables (ss_logs st)"
    "org_inv (ss_orgs st) \<Longrightarrow> org_inv (ss_orgs st')" by blast+
qed

section \<open>The ways of a request\<close>

text \<open>The state behind the middleware of the APIs.\<close>

definition resolved :: "('c, 'p, 'd) server \<Rightarrow> server_env \<Rightarrow> server_request \<Rightarrow> ('c, 'p, 'd) server_state \<Rightarrow> ('c, 'p, 'd) server_state" where
  "resolved S ev r st = snd (api_guard S ev r (\<lambda>info st. (Ret RouteNotFound, st)) st)"

lemma resolved_simps [simp]:
  "ss_logs (resolved S ev r st) = ss_logs st" "ss_orgs (resolved S ev r st) = ss_orgs st"
  "px_keys (ss_proxy (resolved S ev r st)) = res_store (api_resolution S ev r st)"
  by (simp_all add: resolved_def api_guard_def Let_def split: sum.split)

lemma api_guard_resolved: "api_guard S ev r next st = (case res_result (api_resolution S ev r st) of
    Inl e \<Rightarrow> (Ret (JsonReply (WriteJSONError 401 ''unauthorized'')), resolved S ev r st)
  | Inr info \<Rightarrow> next info (resolved S ev r st))"
  by (simp add: resolved_def api_guard_def Let_def split: sum.split)

fun kind :: "endpoint \<Rightarrow> guard" where
  "kind (AdminApi mk) = AdminGuard"
| "kind _ = ApiKeyGuard"

lemma route_groups_kind:
  "g \<in> set (route_groups S) \<Longrightarrow> i < length (rg_routes g) \<Longrightarrow> kind (snd (snd (rg_routes g ! i))) = rg_guard g"
proof -
  assume g: "g \<in> set (route_groups S)" and i: "i < length (rg_routes g)"
  have "\<forall>e \<in> set (rg_routes g). kind (snd (snd e)) = rg_guard g"
    using g by (auto simp: route_groups_def key_routes_def session_routes_def admin_routes_def split: if_splits)
  then show ?thesis using nth_mem [OF i] by blast
qed

lemma route_groups_guard:
  assumes "g \<in> set (route_groups S)"
  shows "rg_guard g = ApiKeyGuard \<Longrightarrow> rg_prefix g = ''/api/v1'' \<or> rg_prefix g = ''/api/v1/claude-sessions''"
    "rg_guard g = AdminGuard \<Longrightarrow> rg_prefix g = ''/admin'' \<and> srv_admin S \<and> srv_admin_token S \<noteq> []"
  using assms by (auto simp: route_groups_def split: if_splits)

text \<open>The last step of a request: an error of the router, or an endpoint of the given kind.\<close>

definition dispatched :: "('c, 'p, 'd) server \<Rightarrow> server_env \<Rightarrow> server_request \<Rightarrow> guard \<Rightarrow> APIKeyInfo option
    \<Rightarrow> ('c, 'p, 'd) server_state server_op \<Rightarrow> bool" where
  "dispatched S ev r k info f = (f = (\<lambda>st. (Ret MethodNotAllowed, st)) \<or> f = (\<lambda>st. (Ret RouteNotFound, st))
     \<or> (\<exists>params e. kind e = k \<and> f = run_endpoint S ev r params e info))"

lemma dispatchedI: "kind e = k \<Longrightarrow> dispatched S ev r k info (run_endpoint S ev r params e info)"
  unfolding dispatched_def by blast

lemma serve_group_cases:
  assumes "chi_spec X" "g \<in> set (route_groups S)"
  obtains (api) inner where "rg_guard g = ApiKeyGuard" "serve_group X S ev r g = api_guard S ev r inner"
      "\<And>info. dispatched S ev r ApiKeyGuard info (inner info)"
    | (admin) inner where "rg_guard g = AdminGuard" "serve_group X S ev r g = admin_guard S r inner"
      "dispatched S ev r AdminGuard None inner"
proof -
  let ?sub = "chi_sub X (map (\<lambda>(m, p, e). (m, p)) (rg_routes g)) (hr_method (sr_http r)) (drop (length (rg_prefix g)) (sr_route_path r))"
  let ?inner = "\<lambda>info. case ?sub of
       SubRoute i ps \<Rightarrow> run_endpoint S ev r (\<lambda>k. case map_of ps k of Some v \<Rightarrow> v | None \<Rightarrow> []) (snd (snd (rg_routes g ! i))) info
     | SubMethod \<Rightarrow> (\<lambda>st. (Ret MethodNotAllowed, st)) | SubNone \<Rightarrow> (\<lambda>st. (Ret RouteNotFound, st))"
  have "i < length (rg_routes g)" if "?sub = SubRoute i ps" for i ps
    using assms(1) that unfolding chi_spec_def chi_sub_spec_def by fastforce
  then have inner: "dispatched S ev r (rg_guard g) info (?inner info)" for info
    by (cases ?sub) (simp_all add: dispatchedI route_groups_kind [OF assms(2)], simp_all add: dispatched_def)
  show thesis
  proof (cases "rg_guard g")
    case ApiKeyGuard
    then show thesis using api [of ?inner] inner by (simp add: serve_group_def)
  next
    case AdminGuard
    then show thesis using admin [of "?inner None"] inner [of None] by (simp add: serve_group_def)
  qed
qed

lemma under_api: "under_path ''/api/v1/claude-sessions'' path \<Longrightarrow> under_path ''/api/v1'' path"
  by (auto simp: under_path_def has_prefix_iff)

definition mounted :: "('c, 'p, 'd) server \<Rightarrow> string \<Rightarrow> bool" where
  "mounted S path = (\<exists>g \<in> set (route_groups S). under_path (rg_prefix g) path)"

lemma serve_cases:
  fixes S :: "('c, 'p, 'd) server"
  assumes "chi_spec X" "serve X S ev r st = (ans, st')"
  obtains (probe) i where "i < length probe_routes" "probe_routes ! i = (hr_method (sr_http r), sr_route_path r)"
      "sa_reply ans = probe ev i" "st' = st"
    | (proxy) "(sa_reply ans, st') = Recovery (serve_proxy S ev r) st"
      "\<not> mounted S (sr_route_path r)"
    | (refused) "mounted S (sr_route_path r)" "sa_reply ans = JsonReply (WriteJSONError 401 ''unauthorized'')" "st' = resolved S ev r st"
    | (api) info f where "mounted S (sr_route_path r)" "under_path ''/api/v1'' (sr_route_path r)" "res_result (api_resolution S ev r st) = Inr info"
      "dispatched S ev r ApiKeyGuard info f" "(sa_reply ans, st') = Recovery f (resolved S ev r st)"
    | (forbidden) rep where "mounted S (sr_route_path r)"
      "adminAuth (srv_admin_token S) (hget ''Authorization'' (hr_header (sr_http r))) = Some rep"
      "sa_reply ans = JsonReply rep" "st' = st"
    | (admin) f where "mounted S (sr_route_path r)" "under_path ''/admin'' (sr_route_path r)" "srv_admin S" "srv_admin_token S \<noteq> []"
      "adminAuth (srv_admin_token S) (hget ''Authorization'' (hr_header (sr_http r))) = None"
      "dispatched S ev r AdminGuard None f" "(sa_reply ans, st') = Recovery f st"
proof -
  let ?top = "chi_top X probe_routes (map rg_prefix (route_groups S)) (hr_method (sr_http r)) (sr_route_path r)"
  have run: "(sa_reply ans, st') = Recovery (route_request X S ev r) st"
    using assms(2) by (cases "Recovery (route_request X S ev r) st") (auto simp: serve_def RequestID_def)
  have top: "case ?top of TopRoute i \<Rightarrow> i < length probe_routes \<and> probe_routes ! i = (hr_method (sr_http r), sr_route_path r)
      | TopMount i \<Rightarrow> i < length (route_groups S) \<and> under_path (rg_prefix (route_groups S ! i)) (sr_route_path r)
      | TopRest \<Rightarrow> \<forall>g \<in> set (route_groups S). \<not> under_path (rg_prefix g) (sr_route_path r)"
  proof -
    have "\<forall>q \<in> set probe_routes. static_pattern (snd q)" by (simp add: probe_routes_def static_pattern_def)
    then have "case ?top of TopRoute i \<Rightarrow> i < length probe_routes \<and> probe_routes ! i = (hr_method (sr_http r), sr_route_path r)
      | TopMount i \<Rightarrow> i < length (map rg_prefix (route_groups S)) \<and> under_path (map rg_prefix (route_groups S) ! i) (sr_route_path r)
      | TopRest \<Rightarrow> \<forall>p \<in> set (map rg_prefix (route_groups S)). \<not> under_path p (sr_route_path r)"
      using assms(1) unfolding chi_spec_def chi_top_spec_def by blast
    then show ?thesis by (auto split: top_match.splits)
  qed
  show thesis
  proof (cases ?top)
    case (TopRoute i)
    then show thesis using run probe [of i] top by (simp add: route_request_def Recovery_def)
  next
    case TopRest
    then show thesis using run top proxy by (simp add: route_request_def mounted_def)
  next
    case (TopMount i)
    let ?g = "route_groups S ! i"
    have g: "?g \<in> set (route_groups S)" "under_path (rg_prefix ?g) (sr_route_path r)" using top TopMount by simp_all
    then have mt: "mounted S (sr_route_path r)" unfolding mounted_def by blast
    have req: "route_request X S ev r = serve_group X S ev r ?g" by (simp add: route_request_def TopMount)
    show thesis
    proof (cases rule: serve_group_cases [OF assms(1) g(1), of ev r])
      case (1 inner)
      have u: "under_path ''/api/v1'' (sr_route_path r)" using route_groups_guard(1) [OF g(1) 1(1)] g(2) under_api by auto
      show thesis
      proof (cases "res_result (api_resolution S ev r st)")
        case (Inl e)
        then show thesis using run refused [OF mt] by (simp add: req 1(2) Recovery_def api_guard_resolved)
      next
        case (Inr info)
        then have "(sa_reply ans, st') = Recovery (inner info) (resolved S ev r st)"
          using run by (simp add: req 1(2) Recovery_def api_guard_resolved)
        then show thesis using api [OF mt u Inr 1(3)] by blast
      qed
    next
      case (2 inner)
      show thesis
      proof (cases "adminAuth (srv_admin_token S) (hget ''Authorization'' (hr_header (sr_http r)))")
        case None
        then have "(sa_reply ans, st') = Recovery inner st" using run by (simp add: req 2(2) Recovery_def admin_guard_def)
        then show thesis using admin [OF mt _ _ _ None 2(3)] route_groups_guard(2) [OF g(1) 2(1)] g(2) by auto
      next
        case (Some rep)
        then show thesis using run forbidden [OF mt Some] by (simp add: req 2(2) Recovery_def admin_guard_def)
      qed
    qed
  qed
qed

subsection \<open>What an endpoint does\<close>

lemma Recovery_state: "(rep, st') = Recovery f st \<Longrightarrow> st' = snd (f st)"
  by (auto simp: Recovery_def split: prod.splits outcome.splits)

lemma serve_proxy_state:
  "ss_logs (snd (serve_proxy S ev r st)) = ss_logs st" "ss_orgs (snd (serve_proxy S ev r st)) = ss_orgs st"
  "same_tables (px_keys (ss_proxy st)) (px_keys (ss_proxy (snd (serve_proxy S ev r st))))"
proof -
  obtain v px where p: "ServeHTTP (srv_proxy S) (ev_call ev) (sr_http r) (ss_proxy st) = (v, px)" by (metis surj_pair)
  then show "ss_logs (snd (serve_proxy S ev r st)) = ss_logs st" "ss_orgs (snd (serve_proxy S ev r st)) = ss_orgs st"
    "same_tables (px_keys (ss_proxy st)) (px_keys (ss_proxy (snd (serve_proxy S ev r st))))"
    using keeps_keysD [OF keeps_keys_serve p] by (simp_all add: serve_proxy_def)
qed

text \<open>An endpoint of an API for a resolved key, on the state behind the middleware.\<close>

definition api_effect :: "APIKeyInfo option \<Rightarrow> server_env \<Rightarrow> ('c, 'p, 'd) server_state \<Rightarrow> ('c, 'p, 'd) server_state \<Rightarrow> bool" where
  "api_effect info ev st st' = (st' = st
     \<or> (\<exists>i q. info = Some i \<and> px_keys (ss_proxy st') = snd (handle (ev_api ev) q info (px_keys (ss_proxy st)))
         \<and> ss_logs st' = ss_logs st \<and> ss_orgs st' = ss_orgs st \<and> px_trace (ss_proxy st') = px_trace (ss_proxy st))
     \<or> (\<exists>i q. info = Some i \<and> ss_logs st' = snd (handle_session (ev_session ev) q info (ss_logs st))
         \<and> ss_proxy st' = ss_proxy st \<and> ss_orgs st' = ss_orgs st))"

lemma api_dispatched:
  assumes "dispatched S ev r ApiKeyGuard info f"
  shows "api_effect info ev st (snd (f st))"
  using assms unfolding dispatched_def
proof (elim disjE exE conjE)
  fix params e assume e: "kind e = ApiKeyGuard" and f: "f = run_endpoint S ev r params e info"
  show ?thesis
  proof (cases info)
    case None
    have "f st = (fst (f st), st)" using e
      by (cases e) (auto simp: f None run_endpoint_def on_keys_def on_logs_def handle_anonymous handle_session_anonymous
        reaches_encrypt_def Let_def split: api_request.splits)
    then show ?thesis unfolding api_effect_def by (metis snd_conv)
  next
    case (Some i)
    show ?thesis
    proof (cases e)
      case (KeyApi mk)
      let ?q = "mk params (body_text r)"
      obtain rep db where h: "handle (ev_api ev) ?q info (px_keys (ss_proxy st)) = (rep, db)" by (metis surj_pair)
      have "snd (f st) = st \<or> snd (f st) = st\<lparr>ss_proxy := (ss_proxy st)\<lparr>px_keys := db\<rparr>\<rparr>"
        using h by (simp add: f KeyApi run_endpoint_def on_keys_def Let_def)
      then show ?thesis
      proof
        assume s: "snd (f st) = st\<lparr>ss_proxy := (ss_proxy st)\<lparr>px_keys := db\<rparr>\<rparr>"
        have "db = snd (handle (ev_api ev) ?q info (px_keys (ss_proxy st)))" using h by simp
        then show ?thesis unfolding api_effect_def s using Some by simp blast
      qed (simp add: api_effect_def)
    next
      case (SessionApi mk)
      let ?q = "mk params r (body_text r)"
      obtain rep db where h: "handle_session (ev_session ev) ?q info (ss_logs st) = (rep, db)" by (metis surj_pair)
      then have s: "snd (f st) = st\<lparr>ss_logs := db\<rparr>" by (simp add: f SessionApi run_endpoint_def on_logs_def)
      have "db = snd (handle_session (ev_session ev) ?q info (ss_logs st))" using h by simp
      then show ?thesis unfolding api_effect_def s using Some by simp blast
    qed (use e in simp)
  qed
qed (simp_all add: api_effect_def)

lemma admin_dispatched:
  assumes "dispatched S ev r AdminGuard None f"
  shows "ss_proxy (snd (f st)) = ss_proxy st" "rdb_tables (ss_logs (snd (f st))) = rdb_tables (ss_logs st)"
    "org_inv (ss_orgs st) \<Longrightarrow> org_inv (ss_orgs (snd (f st)))"
proof -
  have "ss_proxy (snd (f st)) = ss_proxy st \<and> rdb_tables (ss_logs (snd (f st))) = rdb_tables (ss_logs st)
      \<and> (org_inv (ss_orgs st) \<longrightarrow> org_inv (ss_orgs (snd (f st))))"
    using assms unfolding dispatched_def
  proof (elim disjE exE conjE)
    fix params e assume e: "kind e = AdminGuard" and f: "f = run_endpoint S ev r params e None"
    then obtain q where "f st = handle_admin (srv_codec S) ev q st" by (cases e) (auto simp: run_endpoint_def)
    then show ?thesis using handle_admin_state [of "srv_codec S" ev q st] by (metis prod.collapse)
  qed simp_all
  then show "ss_proxy (snd (f st)) = ss_proxy st" "rdb_tables (ss_logs (snd (f st))) = rdb_tables (ss_logs st)"
    "org_inv (ss_orgs st) \<Longrightarrow> org_inv (ss_orgs (snd (f st)))" by blast+
qed

section \<open>What the guards admit\<close>

text \<open>The resolver, and with it a guard of the APIs, leaves no trace but the use of the key.\<close>

lemma resolved_trace: "\<exists>ts. px_trace (ss_proxy (resolved S ev r st)) = px_trace (ss_proxy st) @ map TouchKey ts \<and> length ts \<le> 1"
  by (cases "res_touch (api_resolution S ev r st)")
    (auto simp: resolved_def api_guard_def Let_def split: sum.split intro: exI [of _ "[]"] exI [of _ "[_]"])

lemma resolved_same: "same_tables (px_keys (ss_proxy st)) (px_keys (ss_proxy (resolved S ev r st)))"
  by (simp add: api_resolution_def ResolveAPIKey_same)

lemma api_effect_keeps:
  assumes "api_effect info ev st st'"
  shows "ss_orgs st' = ss_orgs st" "px_trace (ss_proxy st') = px_trace (ss_proxy st)"
    "info = None \<Longrightarrow> st' = st"
  using assms by (auto simp: api_effect_def)

definition key_tables_changed :: "('c, 'p, 'd) server_state \<Rightarrow> ('c, 'p, 'd) server_state \<Rightarrow> bool" where
  "key_tables_changed st st' = (\<not> same_tables (px_keys (ss_proxy st)) (px_keys (ss_proxy st')))"

definition log_tables_changed :: "('c, 'p, 'd) server_state \<Rightarrow> ('c, 'p, 'd) server_state \<Rightarrow> bool" where
  "log_tables_changed st st' = (rdb_tables (ss_logs st') \<noteq> rdb_tables (ss_logs st))"


section \<open>The tenants are apart\<close>

type_synonym server_run = "(server_env \<times> server_request) list"

fun serve_all :: "chi \<Rightarrow> ('c, 'p, 'd) server \<Rightarrow> server_run \<Rightarrow> ('c, 'p, 'd) server_state
    \<Rightarrow> server_answer list \<times> ('c, 'p, 'd) server_state" where
  "serve_all X S [] st = ([], st)"
| "serve_all X S ((ev, r) # rs) st = (case serve X S ev r st of
     (a, st1) \<Rightarrow> case serve_all X S rs st1 of (as, st2) \<Rightarrow> (a # as, st2))"

text \<open>The runs in which every new session has a new identifier, and those in which no request of an API resolves to the
  key B. The requests to the proxy, and those refused, may be anyone's.\<close>

fun fresh_run :: "chi \<Rightarrow> ('c, 'p, 'd) server \<Rightarrow> server_run \<Rightarrow> ('c, 'p, 'd) server_state \<Rightarrow> bool" where
  "fresh_run X S [] st = True"
| "fresh_run X S ((ev, r) # rs) st = (fresh_session ev st \<and> fresh_run X S rs (snd (serve X S ev r st)))"

definition resolves_to :: "uuid \<Rightarrow> ('c, 'p, 'd) server \<Rightarrow> server_env \<Rightarrow> server_request \<Rightarrow> ('c, 'p, 'd) server_state \<Rightarrow> bool" where
  "resolves_to B S ev r st = (case res_result (api_resolution S ev r st) of Inr (Some i) \<Rightarrow> aki_id i = B | _ \<Rightarrow> False)"

fun foreign_run :: "uuid \<Rightarrow> chi \<Rightarrow> ('c, 'p, 'd) server \<Rightarrow> server_run \<Rightarrow> ('c, 'p, 'd) server_state \<Rightarrow> bool" where
  "foreign_run B X S [] st = True"
| "foreign_run B X S ((ev, r) # rs) st =
     (\<not> (under_path ''/api/v1'' (sr_route_path r) \<and> resolves_to B S ev r st) \<and> foreign_run B X S rs (snd (serve X S ev r st)))"

definition tenant_view :: "uuid \<Rightarrow> ('c, 'p, 'd) server_state
    \<Rightarrow> (ProxyKey list \<times> ProviderMapping list) \<times> ClaudeSession list \<times> ClaudeRequestDetail list" where
  "tenant_view B st = (tenant B (px_keys (ss_proxy st)), session_tenant B (rdb_tables (ss_logs st)))"

lemma server_step_same:
  assumes "same_tables (px_keys (ss_proxy st)) (px_keys (ss_proxy st'))" "rdb_tables (ss_logs st') = rdb_tables (ss_logs st)"
    "org_inv (ss_orgs st) \<Longrightarrow> org_inv (ss_orgs st')"
  shows "(server_ok st \<longrightarrow> server_ok st') \<and> tenant_view B st' = tenant_view B st"
  using key_db_ok_same [OF assms(1)] tenant_same [OF assms(1)] assms(2,3) by (auto simp: server_ok_def tenant_view_def)

lemma api_effect_step:
  assumes "api_effect info ev st st'" "server_ok st" "fresh_session ev st"
  shows "server_ok st'" "(case info of Some i \<Rightarrow> aki_id i \<noteq> B | None \<Rightarrow> True) \<Longrightarrow> tenant_view B st' = tenant_view B st"
proof -
  note ok = assms(2) [unfolded server_ok_def]
  have "server_ok st' \<and> ((case info of Some i \<Rightarrow> aki_id i \<noteq> B | None \<Rightarrow> True) \<longrightarrow> tenant_view B st' = tenant_view B st)"
    using assms(1) unfolding api_effect_def
  proof (elim disjE exE conjE)
    fix i q assume "info = Some i" "px_keys (ss_proxy st') = snd (handle (ev_api ev) q info (px_keys (ss_proxy st)))"
      "ss_logs st' = ss_logs st" "ss_orgs st' = ss_orgs st"
    then show ?thesis using ok handle_keeps handle_tenant by (simp add: server_ok_def tenant_view_def)
  next
    fix i q assume "info = Some i" "ss_logs st' = snd (handle_session (ev_session ev) q info (ss_logs st))"
      "ss_proxy st' = ss_proxy st" "ss_orgs st' = ss_orgs st"
    then show ?thesis using ok handle_session_unique assms(3) handle_session_tenant
      by (simp add: server_ok_def tenant_view_def fresh_session_def)
  qed (use assms(2) in simp)
  then show "server_ok st'" "(case info of Some i \<Rightarrow> aki_id i \<noteq> B | None \<Rightarrow> True) \<Longrightarrow> tenant_view B st' = tenant_view B st"
    by blast+
qed

lemma serve_step:
  assumes "chi_spec X" "server_ok st" "fresh_session ev st" "serve X S ev r st = (ans, st')"
  shows "server_ok st' \<and> (\<not> (under_path ''/api/v1'' (sr_route_path r) \<and> resolves_to B S ev r st) \<longrightarrow> tenant_view B st' = tenant_view B st)"
  using assms(1,4)
proof (cases rule: serve_cases)
  case (probe i)
  then show ?thesis using assms(2) by simp
next
  case proxy
  have "st' = snd (serve_proxy S ev r st)" by (rule Recovery_state [OF proxy(1)])
  then show ?thesis using server_step_same [of st st' B] assms(2) serve_proxy_state [where S = S and ev = ev and r = r and st = st]
    by simp
next
  case refused
  then show ?thesis using server_step_same [of st st' B] assms(2) resolved_same [where S = S and ev = ev and r = r and st = st]
    by simp
next
  case (api info f)
  let ?st = "resolved S ev r st"
  have st': "st' = snd (f ?st)" by (rule Recovery_state [OF api(5)])
  have e: "api_effect info ev ?st st'" unfolding st' by (rule api_dispatched [OF api(4)])
  have s: "server_ok ?st" "tenant_view B ?st = tenant_view B st"
    using server_step_same [of st ?st B] assms(2) resolved_same [where S = S and ev = ev and r = r and st = st] by simp_all
  have f: "fresh_session ev ?st" using assms(3) by (simp add: fresh_session_def)
  have "(case info of Some i \<Rightarrow> aki_id i \<noteq> B | None \<Rightarrow> True)" if "\<not> resolves_to B S ev r st"
    using that api(3) by (auto simp: resolves_to_def split: option.splits)
  then show ?thesis using api_effect_step [OF e s(1) f] s(2) api(2) by auto
next
  case (forbidden rep)
  then show ?thesis using assms(2) by simp
next
  case (admin f)
  have st': "st' = snd (f st)" by (rule Recovery_state [OF admin(7)])
  show ?thesis using server_step_same [of st st' B] assms(2) admin_dispatched [OF admin(6), of st] by (simp add: st')
qed


section \<open>A sample server\<close>

text \<open>A router that finds the patterns without parameters, and the longest mounted prefix of a path.\<close>

definition matches :: "('a \<Rightarrow> bool) \<Rightarrow> 'a list \<Rightarrow> nat list" where
  "matches P xs = filter (\<lambda>i. P (xs ! i)) [0..<length xs]"

definition sample_chi :: chi where
  "sample_chi = \<lparr>chi_top = (\<lambda>rs ps m path. case matches (\<lambda>r. r = (m, path)) rs of i # _ \<Rightarrow> TopRoute i | [] \<Rightarrow>
       (case rev (matches (\<lambda>p. under_path p path) ps) of i # _ \<Rightarrow> TopMount i | [] \<Rightarrow> TopRest)),
     chi_sub = (\<lambda>rs m path. case matches (\<lambda>r. r = (m, path)) rs of i # _ \<Rightarrow> SubRoute i [] | [] \<Rightarrow> SubNone)\<rparr>"

lemma matches_Cons: "matches P xs = i # is \<Longrightarrow> i < length xs \<and> P (xs ! i)"
proof -
  assume "matches P xs = i # is"
  then have "i \<in> set (matches P xs)" by simp
  then show ?thesis by (simp add: matches_def)
qed

lemma matches_rev: "rev (matches P xs) = i # is \<Longrightarrow> i < length xs \<and> P (xs ! i)"
proof -
  assume "rev (matches P xs) = i # is"
  then have "i \<in> set (matches P xs)" by (metis list.set_intros(1) set_rev)
  then show ?thesis by (simp add: matches_def)
qed

lemma matches_Nil: "matches P xs = [] \<Longrightarrow> \<forall>x \<in> set xs. \<not> P x"
  by (auto simp: matches_def filter_empty_conv in_set_conv_nth)

lemma sample_chi_spec: "chi_spec sample_chi"
  unfolding chi_spec_def
proof
  show "chi_top_spec sample_chi" unfolding chi_top_spec_def sample_chi_def
    by (auto simp del: rev_eq_Cons_iff split: list.split top_match.split dest!: matches_Cons matches_rev matches_Nil)
  show "chi_sub_spec sample_chi" unfolding chi_sub_spec_def sample_chi_def
    by (auto split: list.splits dest!: matches_Cons)
qed

definition sample_server :: "((string \<times> cachedKey) list, unit, unit) server" where
  "sample_server = \<lparr>srv_proxy = sample_handler, srv_api = True, srv_api_secrets = True, srv_sessions = True,
     srv_admin_token = ''secret'', srv_admin = True, srv_codec = Orgs.sample_codec\<rparr>"

definition sample_server_state :: "((string \<times> cachedKey) list, unit, unit) server_state" where
  "sample_server_state = \<lparr>ss_proxy = sample_state, ss_logs = session_db [sample_session 3 2], ss_orgs = (no_faults [], sample_manager)\<rparr>"

definition sample_server_env :: server_env where
  "sample_server_env = \<lparr>ev_request_id = ''r1'', ev_call = sample_call, ev_api = sample_env, ev_session = sample_session_env,
     ev_butler = sample_me, ev_rnd = Inr (replicate 12 (CHR ''n'')), ev_now = 3, ev_ping = None\<rparr>"

text \<open>The start of a session with the key that the resolver knows.\<close>

definition sample_start :: server_request where
  "sample_start = \<lparr>sr_http = sample_http\<lparr>hr_path := ''/api/v1/claude-sessions/'', hr_body := Inr []\<rparr>,
     sr_route_path = ''/api/v1/claude-sessions/'', sr_content_length = 0, sr_query = (\<lambda>k. [])\<rparr>"

lemma sample_key_header: "hget ''X-Majordomo-Key'' (hr_header sample_http) = ''mdm_sk_x''"
  by code_simp

lemma sample_resolution: "api_resolution sample_server sample_server_env sample_start sample_server_state
  = \<lparr>res_result = Inr (Some sample_key_info), res_touch = None, res_cache = px_key_cache sample_state, res_store = empty_key_db []\<rparr>"
  by (simp add: api_resolution_def sample_server_def sample_handler_def sample_server_env_def sample_call_def sample_start_def
      sample_key_header sample_server_state_def sample_state_def ResolveAPIKey_def getFromCache_def list_lru_def Let_def)

lemma sample_resolved: "resolved sample_server sample_server_env sample_start sample_server_state = sample_server_state"
  by (simp add: resolved_def api_guard_def sample_resolution Let_def) (simp add: sample_server_state_def sample_state_def)

lemma sample_mount: "chi_top sample_chi probe_routes (map rg_prefix (route_groups sample_server)) ''POST'' ''/api/v1/claude-sessions/'' = TopMount 1"
proof -
  have "map rg_prefix (route_groups sample_server) = [''/api/v1'', ''/api/v1/claude-sessions'', ''/admin'']"
    by (simp add: route_groups_def sample_server_def)
  moreover have "chi_top sample_chi probe_routes [''/api/v1'', ''/api/v1/claude-sessions'', ''/admin''] ''POST''
    ''/api/v1/claude-sessions/'' = TopMount 1" by code_simp
  ultimately show ?thesis by simp
qed

definition sample_started :: ClaudeSession where
  "sample_started = (sample_session 9 1)\<lparr>cs_started_at := 50, cs_created_at := 51\<rparr>"

lemma sample_start_route: "serve_group sample_chi sample_server sample_server_env sample_start (route_groups sample_server ! 1)
  = api_guard sample_server sample_server_env sample_start (run_endpoint sample_server sample_server_env sample_start (\<lambda>k. [])
      (SessionApi (\<lambda>p r body. StartSessionReq (sr_content_length r) body)))"
proof -
  have g: "route_groups sample_server ! 1 = \<lparr>rg_prefix = ''/api/v1/claude-sessions'', rg_guard = ApiKeyGuard, rg_routes = session_routes\<rparr>"
    by (simp add: route_groups_def sample_server_def)
  have t: "map (\<lambda>(m, p, e). (m, p)) session_routes = [(''POST'', ''/''), (''GET'', ''/''), (''GET'', ''/{id}''),
      (''POST'', ''/{id}/end''), (''GET'', ''/{id}/requests'')]" by (simp add: session_routes_def)
  have c: "chi_sub sample_chi [(''POST'', ''/''), (''GET'', ''/''), (''GET'', ''/{id}''), (''POST'', ''/{id}/end''),
      (''GET'', ''/{id}/requests'')] ''POST'' (drop (length ''/api/v1/claude-sessions'') ''/api/v1/claude-sessions/'') = SubRoute 0 []"
    by code_simp
  have r: "hr_method (sr_http sample_start) = ''POST''" "sr_route_path sample_start = ''/api/v1/claude-sessions/''"
    by (simp_all add: sample_start_def sample_http_def)
  have e: "snd (snd (session_routes ! 0)) = SessionApi (\<lambda>p r body. StartSessionReq (sr_content_length r) body)"
    by (simp add: session_routes_def)
  show ?thesis unfolding serve_group_def g route_group.simps t r c Let_def by (simp add: e)
qed

lemma sample_start_served: "\<exists>rep. serve sample_chi sample_server sample_server_env sample_start sample_server_state
  = (\<lparr>sa_request_id = ''r1'', sa_reply = JsonReply rep\<rparr>, sample_server_state\<lparr>ss_logs := session_db [sample_session 3 2, sample_started]\<rparr>)"
proof -
  have m: "hr_method (sr_http sample_start) = ''POST''" "sr_route_path sample_start = ''/api/v1/claude-sessions/''"
    by (simp_all add: sample_start_def sample_http_def)
  have "\<exists>rep. handle_session sample_session_env (StartSessionReq 0 body) (Some sample_key_info) (session_db [sample_session 3 2])
      = (rep, session_db [sample_session 3 2, sample_started])" for body
    by (simp add: h_StartSession_def session_auth_def StartSession_def CreateClaudeSession_def rwrap_def rexec_def next_fault_def
        session_db_def respond_def sample_session_env_def sample_session_def sample_started_def sample_key_info_def Let_def)
  then obtain rep where r: "handle_session sample_session_env (StartSessionReq 0 (body_text sample_start)) (Some sample_key_info)
      (session_db [sample_session 3 2]) = (rep, session_db [sample_session 3 2, sample_started])" by blast
  have e: "sr_content_length sample_start = 0" "ev_session sample_server_env = sample_session_env" "ev_request_id sample_server_env = ''r1''"
    "ss_logs sample_server_state = session_db [sample_session 3 2]"
    by (simp_all add: sample_start_def sample_server_env_def sample_server_state_def)
  have "route_request sample_chi sample_server sample_server_env sample_start sample_server_state
      = (Ret (JsonReply rep), sample_server_state\<lparr>ss_logs := session_db [sample_session 3 2, sample_started]\<rparr>)"
    by (simp add: route_request_def m sample_mount sample_start_route [unfolded One_nat_def] api_guard_resolved sample_resolution
        sample_resolved run_endpoint_def on_logs_def e r del: handle_session.simps)
  then show ?thesis by (simp add: serve_def Recovery_def RequestID_def e)
qed



end
