(* ===== verification/Startup.thy ===== *)
theory Startup
  imports Server
begin

text \<open>
  The start and the end of the process: the connection to the database (repositories/db.go), the migrations
  (migrate/migrate.go), the wiring of the components (steward/steward.go, proxy.NewHandler) and the program
  (cmd/majordomo-steward/main.go). What the database, the files, the network and the libraries answer is the platform,
  a parameter; what is acquired and released is a trace.
\<close>

section \<open>The platform\<close>

datatype up_result = UpDone | UpNoChange | UpFailed err

record ('c, 'p, 'd) platform =
  pl_casts :: casts
  pl_connect :: "string \<Rightarrow> err option"
  pl_ping :: "err option"
  pl_driver :: "err option"
  pl_migrator :: "err option"
  pl_up :: up_result
  pl_aliases :: "err + string"
  pl_remote :: "err + (int \<times> string)"
  pl_fallback :: "err + string"
  pl_deprecated :: "err + string"
  pl_key_lru :: "'c key_cache"
  pl_proxy_lru :: "'p proxy_cache"
  pl_prov_lru :: "'d prov_cache"
  pl_send :: "UpstreamRequest \<Rightarrow> err + UpstreamAnswer"
  pl_send_stream :: "UpstreamRequest \<Rightarrow> err + UpstreamAnswer"
  pl_gzip :: "string \<Rightarrow> err + string"
  pl_fmt_float :: "real \<Rightarrow> string"
  pl_codec :: codec
  pl_columns :: columns

text \<open>What a process holds: the connection pool and the loops in the background.\<close>

datatype resource = Database | HllFlusher | LogWriter | PriceRefresh | OrgWorkers | Poller

datatype lifecycle = Acquire resource | Release resource

text \<open>The resources held after a trace; to acquire one that is held, or to release one that is not (the second close of
  a channel panics), is None.\<close>

fun held :: "lifecycle list \<Rightarrow> resource list \<Rightarrow> resource list option" where
  "held [] rs = Some rs"
| "held (Acquire r # es) rs = (if r \<in> set rs then None else held es (r # rs))"
| "held (Release r # es) rs = (if r \<in> set rs then held es (remove1 r rs) else None)"

section \<open>Database and migrations\<close>

definition Connect :: "('c, 'p, 'd) platform \<Rightarrow> string \<Rightarrow> lifecycle list \<times> err option" where
  "Connect P dsn = (case pl_connect P dsn of
     Some e \<Rightarrow> ([], Some e)
   | None \<Rightarrow> (case pl_ping P of
       Some e \<Rightarrow> ([Acquire Database, Release Database], Some e)
     | None \<Rightarrow> ([Acquire Database], None)))"

definition migrate_Run :: "('c, 'p, 'd) platform \<Rightarrow> err option" where
  "migrate_Run P = (case pl_driver P of
     Some e \<Rightarrow> Some (ErrWrap ''create migration driver'' e)
   | None \<Rightarrow> (case pl_migrator P of
       Some e \<Rightarrow> Some (ErrWrap ''create migrator'' e)
     | None \<Rightarrow> (case pl_up P of UpFailed e \<Rightarrow> Some (ErrWrap ''run migrations'' e) | _ \<Rightarrow> None)))"

record repo_config =
  rc_hll_flush_interval :: duration
  rc_active_keys_cache_ttl :: duration

definition DefaultConfig :: repo_config where
  "DefaultConfig = \<lparr>rc_hll_flush_interval = seconds 60, rc_active_keys_cache_ttl = seconds 300\<rparr>"

definition repo_settings :: "Config \<Rightarrow> repo_config" where
  "repo_settings cfg = (let md = cfg_metadata cfg; c = DefaultConfig;
       c1 = (if md_hll_flush_interval md \<noteq> 0 then c\<lparr>rc_hll_flush_interval := md_hll_flush_interval md\<rparr> else c)
     in if md_active_keys_cache_ttl md \<noteq> 0 then c1\<lparr>rc_active_keys_cache_ttl := md_active_keys_cache_ttl md\<rparr> else c1)"

section \<open>The wiring\<close>

text \<open>That the stored sketches could not be loaded is only logged.\<close>

definition NewHandler :: "('c, 'p, 'd) platform \<Rightarrow> bytes option \<Rightarrow> Config \<Rightarrow> ('c, 'p, 'd) Proxy_Handler.handler" where
  "NewHandler P key cfg = (let pc = cfg_pricing cfg in
     \<lparr>h_key_lru = pl_key_lru P, h_proxy_resolver = map_option (\<lambda>k. (pl_proxy_lru P, pl_prov_lru P, Decrypt k)) key,
      h_secret_store = map_option Decrypt key, h_cloud_store = True, h_user_storage = True, h_session_mgr = True, h_config = cfg,
      h_deprecated = Some (NewDeprecatedService (pc_deprecated_models_file pc) (pl_deprecated P)),
      h_pricing = NewPricingService (pc_remote_url pc) (pc_fallback_file pc) (pc_aliases_file pc)
        (pl_aliases P) (pl_remote P) (pl_fallback P),
      h_router = True, h_enforcer = None, h_enricher = False, h_send = pl_send P, h_send_stream = pl_send_stream P,
      h_gzip = pl_gzip P, h_fmt_float = pl_fmt_float P, h_parse_uuid = parse_uuid (pl_codec P), h_fmt_uuid = fmt_uuid (pl_codec P)\<rparr>)"

definition NewWorkerManager :: "('c, 'p, 'd) platform \<Rightarrow> bytes \<Rightarrow> Config \<Rightarrow> WorkerManager" where
  "NewWorkerManager P key cfg = \<lparr>wm_upstream = cfg_upstream cfg, wm_key = key, wm_fmt_uuid = fmt_uuid (pl_codec P),
     wm_columns = pl_columns P, wm_active = Map.empty\<rparr>"

record ('c, 'p, 'd) built =
  bt_server :: "('c, 'p, 'd) server"
  bt_workers :: "WorkerManager option"
  bt_managed :: "ManagedOrgPoller option"
  bt_orgs :: "RegisteredOrg list repo_db"
  bt_repo_config :: repo_config

definition close_writer :: "lifecycle list" where
  "close_writer = [Release LogWriter, Release HllFlusher, Release Database]"

definition close_pricing :: "lifecycle list" where
  "close_pricing = [Release PriceRefresh]"

definition managed_mode :: "Config \<Rightarrow> bool" where
  "managed_mode cfg = (mc_enabled (cfg_managed cfg) \<and> mc_master_token (cfg_managed cfg) \<noteq> [] \<and> mc_butler_url (cfg_managed cfg) \<noteq> [])"

text \<open>The end of Build, from the poller on.\<close>

definition build_server :: "('c, 'p, 'd) platform \<Rightarrow> Config \<Rightarrow> bytes option \<Rightarrow> WorkerManager option \<Rightarrow> RegisteredOrg list repo_db
    \<Rightarrow> lifecycle list \<times> (err + ('c, 'p, 'd) built)" where
  "build_server P cfg key workers db =
     (if managed_mode cfg \<and> workers = None
      then (close_writer @ close_pricing, Inl (ErrMsg ''managed mode requires ENCRYPTION_KEY to be set''))
      else let managed = managed_mode cfg; token = sec_admin_token (cfg_secrets cfg) in
        (if managed then [Acquire Poller] else [],
         Inr \<lparr>bt_server = \<lparr>srv_proxy = NewHandler P key cfg, srv_api = True, srv_api_secrets = (key \<noteq> None), srv_sessions = True,
                srv_admin_token = token, srv_admin = (token \<noteq> [] \<and> workers \<noteq> None \<and> key \<noteq> None), srv_codec = pl_codec P\<rparr>,
              bt_workers = workers,
              bt_managed = (if managed then Some (NewManagedOrgPoller (mc_butler_url (cfg_managed cfg)) (mc_master_token (cfg_managed cfg)))
                else None),
              bt_orgs = db, bt_repo_config = repo_settings cfg\<rparr>))"

definition Build :: "('c, 'p, 'd) platform \<Rightarrow> Config \<Rightarrow> RegisteredOrg list repo_db
    \<Rightarrow> lifecycle list \<times> (err + ('c, 'p, 'd) built)" where
  "Build P cfg db = (case Connect P (DSN (st_postgres (cfg_storage cfg))) of
     (evs, Some e) \<Rightarrow> (evs, Inl (ErrWrap ''connect to database'' e))
   | (evs, None) \<Rightarrow> (case migrate_Run P of
       Some e \<Rightarrow> (evs @ [Release Database], Inl (ErrWrap ''run migrations'' e))
     | None \<Rightarrow>
         let started = evs @ [Acquire HllFlusher, Acquire LogWriter, Acquire PriceRefresh];
             encKey = sec_encryption_key (cfg_secrets cfg) in
         if encKey = [] then (case build_server P cfg None None db of (rest, r) \<Rightarrow> (started @ rest, r))
         else (case NewAESStore encKey of
             Inl e \<Rightarrow> (started @ close_writer @ close_pricing, Inl (ErrWrap ''initialise secret store'' e))
           | Inr key \<Rightarrow> (case LoadFromDB (db, NewWorkerManager P key cfg) of
               (Inl e, db', m) \<Rightarrow> (started @ close_writer @ close_pricing, Inl (ErrWrap ''load registered orgs'' e))
             | (Inr _, db', m) \<Rightarrow> (case build_server P cfg (Some key) (Some m) db' of
                 (rest, r) \<Rightarrow> (started @ [Acquire OrgWorkers] @ rest, r))))))"

definition ShutdownWithTimeout :: "('c, 'p, 'd) built \<Rightarrow> lifecycle list" where
  "ShutdownWithTimeout b = (if bt_managed b \<noteq> None then [Release Poller] else [])
     @ (if bt_workers b \<noteq> None then [Release OrgWorkers] else []) @ close_pricing @ close_writer"

section \<open>The program\<close>

datatype log_level = LevelDebug | LevelInfo | LevelWarn | LevelError

definition parseLogLevel :: "string \<Rightarrow> log_level" where
  "parseLogLevel level = (let l = to_lower level in
     if l = ''debug'' then LevelDebug
     else if l = ''warn'' \<or> l = ''warning'' then LevelWarn
     else if l = ''error'' then LevelError
     else LevelInfo)"

lemma parseLogLevel_examples: "parseLogLevel ''WARN'' = LevelWarn" "parseLogLevel ''Error'' = LevelError" "parseLogLevel [] = LevelInfo"
  by code_simp+

definition runMigrate :: "('c, 'p, 'd) platform \<Rightarrow> (string \<rightharpoonup> string) \<Rightarrow> int" where
  "runMigrate P env = (case Load (pl_casts P) env of
     Inl e \<Rightarrow> 1
   | Inr cfg \<Rightarrow> if pl_connect P (DSN (st_postgres (cfg_storage cfg))) \<noteq> None \<or> pl_ping P \<noteq> None \<or> migrate_Run P \<noteq> None then 1 else 0)"

text \<open>The server ends by an error of its listener or by a signal; then the shutdown may fail.\<close>

datatype serve_end = ServeFailed | Signalled "err option"

definition runServe :: "('c, 'p, 'd) platform \<Rightarrow> (string \<rightharpoonup> string) \<Rightarrow> RegisteredOrg list repo_db \<Rightarrow> serve_end \<Rightarrow> lifecycle list \<times> int" where
  "runServe P env db ends = (case Load (pl_casts P) env of
     Inl e \<Rightarrow> ([], 1)
   | Inr cfg \<Rightarrow> (case Build P cfg db of
       (evs, Inl e) \<Rightarrow> (evs, 1)
     | (evs, Inr b) \<Rightarrow> (case ends of
         ServeFailed \<Rightarrow> (evs, 1)
       | Signalled e \<Rightarrow> (evs @ ShutdownWithTimeout b, if e = None then 0 else 1))))"

section \<open>What is released\<close>

lemma Connect_cases:
  assumes "Connect P dsn = (evs, r)"
  obtains e where "r = Some e" "evs = [] \<or> evs = [Acquire Database, Release Database]"
    | "r = None" "evs = [Acquire Database]"
proof (cases "pl_connect P dsn")
  case c: None
  show thesis
  proof (cases "pl_ping P")
    case None
    then show thesis using assms c that(2) by (simp add: Connect_def)
  next
    case (Some e)
    then show thesis using assms c that(1) [of e] by (simp add: Connect_def)
  qed
next
  case (Some e)
  then show thesis using assms that(1) [of e] by (simp add: Connect_def)
qed

lemma build_server_cases:
  assumes "build_server P cfg key workers db = (evs, r)"
  obtains e where "r = Inl e" "workers = None" "evs = close_writer @ close_pricing"
    | b where "r = Inr b" "bt_workers b = workers" "bt_orgs b = db"
        "evs = (if bt_managed b \<noteq> None then [Acquire Poller] else [])"
        "srv_admin (bt_server b) \<longleftrightarrow> srv_admin_token (bt_server b) \<noteq> [] \<and> workers \<noteq> None \<and> key \<noteq> None"
        "srv_admin_token (bt_server b) = sec_admin_token (cfg_secrets cfg)" "srv_proxy (bt_server b) = NewHandler P key cfg"
        "srv_api (bt_server b)" "srv_api_secrets (bt_server b) \<longleftrightarrow> key \<noteq> None" "bt_managed b \<noteq> None \<longleftrightarrow> managed_mode cfg" "managed_mode cfg \<longrightarrow> workers \<noteq> None"
        "bt_repo_config b = repo_settings cfg"
  using assms by (cases "managed_mode cfg \<and> workers = None") (auto simp: build_server_def Let_def split: if_splits)

text \<open>The ways through Build, with what they leave.\<close>

definition booted :: "lifecycle list" where
  "booted = [Acquire Database, Acquire HllFlusher, Acquire LogWriter, Acquire PriceRefresh]"

lemma Build_cases:
  assumes "Build P cfg db = (evs, r)"
  obtains (failed) e where "r = Inl e" "held evs [] = Some []"
    | (plain) b rest where "r = Inr b" "sec_encryption_key (cfg_secrets cfg) = []" "evs = booted @ rest"
        "build_server P cfg None None db = (rest, Inr b)"
    | (keyed) b rest key db' m where "r = Inr b" "NewAESStore (sec_encryption_key (cfg_secrets cfg)) = Inr key"
        "sec_encryption_key (cfg_secrets cfg) \<noteq> []"
        "evs = booted @ [Acquire OrgWorkers] @ rest" "LoadFromDB (db, NewWorkerManager P key cfg) = (Inr (), db', m)"
        "build_server P cfg (Some key) (Some m) db' = (rest, Inr b)"
proof -
  let ?key = "sec_encryption_key (cfg_secrets cfg)"
  obtain cevs cr where c: "Connect P (DSN (st_postgres (cfg_storage cfg))) = (cevs, cr)" by fastforce
  show thesis
  proof (cases rule: Connect_cases [OF c])
    case (1 e)
    then show thesis using assms c failed by (auto simp: Build_def)
  next
    case 2
    note ev = 2
    show thesis
    proof (cases "migrate_Run P")
      case (Some e)
      then show thesis using assms c ev failed by (auto simp: Build_def)
    next
      case None
      show thesis
      proof (cases "?key = []")
        case True
        obtain rest r' where b: "build_server P cfg None None db = (rest, r')" by fastforce
        then have "evs = booted @ rest" "r = r'" using assms c ev None True by (auto simp: Build_def booted_def)
        then show thesis using b True plain failed
          by (cases rule: build_server_cases [OF b]) (auto simp: booted_def close_writer_def close_pricing_def)
      next
        case False
        show thesis
        proof (cases "NewAESStore ?key")
          case (Inl e)
          then show thesis using assms c ev None False failed
            by (auto simp: Build_def close_writer_def close_pricing_def)
        next
          case (Inr key)
          obtain l db' m where l: "LoadFromDB (db, NewWorkerManager P key cfg) = (l, db', m)" by (metis surj_pair)
          show thesis
          proof (cases l)
            case (Inl e)
            then show thesis using assms c ev None False Inr l failed
              by (auto simp: Build_def close_writer_def close_pricing_def)
          next
            case l': (Inr u)
            obtain rest r' where b: "build_server P cfg (Some key) (Some m) db' = (rest, r')" by fastforce
            then have "evs = booted @ [Acquire OrgWorkers] @ rest" "r = r'"
              using assms c ev None False Inr l l' by (auto simp: Build_def booted_def)
            then show thesis using b l l' Inr False keyed by (cases rule: build_server_cases [OF b]) auto
          qed
        qed
      qed
    qed
  qed
qed

definition acquired :: "bool \<Rightarrow> bool \<Rightarrow> lifecycle list" where
  "acquired workers managed = booted @ (if workers then [Acquire OrgWorkers] else []) @ (if managed then [Acquire Poller] else [])"

lemma Build_failed: "Build P cfg db = (evs, Inl e) \<Longrightarrow> held evs [] = Some []"
  by (erule Build_cases) auto

lemma Build_acquired:
  assumes "Build P cfg db = (evs, Inr b)"
  shows "evs = acquired (bt_workers b \<noteq> None) (bt_managed b \<noteq> None)"
  using assms
proof (cases rule: Build_cases)
  case (plain b' rest)
  then show ?thesis by (cases rule: build_server_cases [OF plain(4)]) (simp_all add: acquired_def)
next
  case (keyed b' rest key db' m)
  then show ?thesis by (cases rule: build_server_cases [OF keyed(6)]) (simp_all add: acquired_def)
qed simp

lemma Build_key:
  "Build P cfg db = (evs, Inr b) \<Longrightarrow> sec_encryption_key (cfg_secrets cfg) = [] \<or> (\<exists>key. NewAESStore (sec_encryption_key (cfg_secrets cfg)) = Inr key)"
  by (erule Build_cases) auto

lemma shutdown_releases:
  "held (acquired (bt_workers b \<noteq> None) (bt_managed b \<noteq> None) @ ShutdownWithTimeout b) [] = Some []"
  by (cases "bt_workers b = None"; cases "bt_managed b = None")
    (simp_all add: acquired_def booted_def ShutdownWithTimeout_def close_writer_def close_pricing_def)

lemma acquired_held: "\<exists>rs. held (acquired w m) [] = Some rs \<and> {Database, HllFlusher, LogWriter, PriceRefresh} \<subseteq> set rs"
  by (cases w; cases m) (simp_all add: acquired_def booted_def)


section \<open>What is started\<close>

text \<open>The state that the first request meets: empty caches, and the tables of the database.\<close>

definition first_state :: "('c, 'p, 'd) built \<Rightarrow> 'c \<Rightarrow> 'p \<times> 'd \<Rightarrow> KeyDB \<Rightarrow> ExperimentDB \<Rightarrow> log_tables repo_db \<Rightarrow> WorkerManager
    \<Rightarrow> ('c, 'p, 'd) server_state" where
  "first_state b kc pc keys exps logs m =
     \<lparr>ss_proxy = \<lparr>px_keys = keys, px_key_cache = kc, px_proxy_cache = pc, px_experiments = exps, px_router_cache = Map.empty, px_trace = []\<rparr>,
      ss_logs = logs, ss_orgs = (bt_orgs b, m)\<rparr>"

definition admin_mounted :: "('c, 'p, 'd) server \<Rightarrow> bool" where
  "admin_mounted S = (\<exists>g \<in> set (route_groups S). rg_guard g = AdminGuard)"

lemma admin_mounted_iff: "admin_mounted S \<longleftrightarrow> srv_admin S \<and> srv_admin_token S \<noteq> []"
  by (auto simp: admin_mounted_def route_groups_def)

lemma loaded_inv:
  assumes "LoadFromDB (db, NewWorkerManager P key cfg) = (Inr (), db', m)"
  shows "wm_key m = key" "tokens_ok key (rdb_tables db) \<Longrightarrow> org_inv (db', m)"
proof -
  let ?m = "NewWorkerManager P key cfg"
  have s: "StopAll ?m = ?m" by (simp add: StopAll_def NewWorkerManager_def)
  have k: "wm_key ?m = key" by (simp add: NewWorkerManager_def)
  have l: "LoadFromDB (db, StopAll ?m) = (Inr (), db', m)" using assms(1) s by simp
  show "wm_key m = key" using restart_run [OF l] by (simp add: load_orgs_keeps s k)
  assume "tokens_ok key (rdb_tables db)"
  then have "org_inv (db, ?m)" using StopAll_ok(1) [of ?m "rdb_tables db"] by (simp add: org_inv_def s k)
  then show "org_inv (db', m)" using org_step_keeps [OF restarts [OF l]] by blast
qed

lemma repo_settings_flush: "0 \<le> md_hll_flush_interval (cfg_metadata cfg) \<Longrightarrow> 0 < rc_hll_flush_interval (repo_settings cfg)"
  by (simp add: repo_settings_def DefaultConfig_def Let_def)


section \<open>A sample start\<close>

definition sample_platform :: "((string \<times> cachedKey) list, (string \<times> cachedProxyKey) list, (string \<times> string) list) platform" where
  "sample_platform = \<lparr>pl_casts = \<lparr>cast_int = (\<lambda>v. Inl ErrDB), cast_bool = (\<lambda>v. Inr (v = ''true'')), cast_duration = (\<lambda>v. Inl ErrDB)\<rparr>,
     pl_connect = (\<lambda>dsn. None), pl_ping = None, pl_driver = None, pl_migrator = None, pl_up = UpNoChange,
     pl_aliases = Inl ErrDB, pl_remote = Inl ErrDB, pl_fallback = Inl ErrDB, pl_deprecated = Inl ErrDB,
     pl_key_lru = list_lru 8, pl_proxy_lru = list_lru 8, pl_prov_lru = list_lru 8,
     pl_send = (\<lambda>u. Inl ErrDB), pl_send_stream = (\<lambda>u. Inl ErrDB), pl_gzip = Inr, pl_fmt_float = (\<lambda>x. ''0''),
     pl_codec = Orgs.sample_codec, pl_columns = sample_columns\<rparr>"

definition sample_config :: Config where
  "sample_config = setDefaults
     \<lparr>cfg_secrets := \<lparr>sec_encryption_key = concat (replicate 32 ''41''), sec_admin_token = ''secret''\<rparr>,
      cfg_managed := \<lparr>mc_enabled = True, mc_master_token = ''mt'', mc_butler_url = ''https://b'', mc_poll_interval = seconds 30\<rparr>\<rparr>"

definition sample_variables :: "string \<rightharpoonup> string" where
  "sample_variables = [''ENCRYPTION_KEY'' \<mapsto> concat (replicate 32 ''41''), ''STEWARD_ADMIN_TOKEN'' \<mapsto> ''secret'',
     ''MANAGED_ENABLED'' \<mapsto> ''true'', ''MANAGED_MASTER_TOKEN'' \<mapsto> ''mt'', ''MANAGED_BUTLER_URL'' \<mapsto> ''https://b'']"

lemma sample_load: "Load (pl_casts sample_platform) sample_variables = Inr sample_config"
  by (simp add: Load_def bindEnv_def bind_def sample_variables_def sample_platform_def sample_config_def setDefaults_def numeral_eq_Suc)

lemma sample_store: "NewAESStore (concat (replicate 32 ''41'')) = Inr (replicate 32 (CHR ''A''))"
proof -
  have "hex_decode (concat (replicate 32 ''41'')) = Some (replicate 32 (CHR ''A''))" by code_simp
  then show ?thesis by (simp add: NewAESStore_def numeral_eq_Suc)
qed

lemma sample_built: "\<exists>evs b. Build sample_platform sample_config (no_faults []) = (evs, Inr b)"
proof -
  have k: "sec_encryption_key (cfg_secrets sample_config) = concat (replicate 32 ''41'')" "concat (replicate 32 ''41'') \<noteq> []"
    by (simp_all add: sample_config_def numeral_eq_Suc)
  have l: "LoadFromDB (no_faults [], m) = (Inr (), no_faults [], m)" for m
    by (simp add: LoadFromDB_def ListRegisteredOrgs_def no_faults_run rbind_def rwrap_def rreturn_def)
  show ?thesis
    by (simp add: Build_def Connect_def migrate_Run_def sample_platform_def k sample_store l build_server_def Let_def)
qed



end
